(* ===== verification/Prelude.thy ===== *)
theory Prelude
  imports Main "HOL-Library.List_Lexorder" "HOL-Library.Char_ord" "HOL-Library.Sublist"
begin

text \<open>
  Shared ground of the development: the type of Go byte strings, results of fallible
  operations, and the generic facts on lists, options and sums that the component theories
  use through the simplifier or through the collections declared here.

  A Go \<open>string\<close> or \<open>[]byte\<close> is an Isabelle \<^typ>\<open>string\<close>, that is a list of 8-bit
  characters. An operation that returns \<open>(T, error)\<close> returns \<open>'e + 'a\<close>, with \<open>Inl\<close>
  for the error.
\<close>

named_theorems store_tx \<open>unfoldings of the journal transactions\<close>
named_theorems result_elims \<open>inversion rules for results of fallible operations\<close>

type_synonym bytes = string

abbreviation byte :: "char \<Rightarrow> nat" where
  "byte c \<equiv> of_char c"

text \<open>A \<open>for ... range\<close> loop with early return of an error: the first failing element wins.\<close>

fun each :: "('a \<Rightarrow> 'e + unit) \<Rightarrow> 'a list \<Rightarrow> 'e + unit" where
  "each f [] = Inr ()"
| "each f (x # xs) = (case f x of Inl e \<Rightarrow> Inl e | Inr _ \<Rightarrow> each f xs)"

fun map_result :: "('a \<Rightarrow> 'e + 'b) \<Rightarrow> 'a list \<Rightarrow> 'e + 'b list" where
  "map_result f [] = Inr []"
| "map_result f (x # xs) =
     (case f x of Inl e \<Rightarrow> Inl e
      | Inr y \<Rightarrow> (case map_result f xs of Inl e \<Rightarrow> Inl e | Inr ys \<Rightarrow> Inr (y # ys)))"

text \<open>A sequence of checks, each of which may fail: the first failure is the result.\<close>

fun checks :: "('e + unit) list \<Rightarrow> 'e + unit" where
  "checks [] = Inr ()"
| "checks (r # rs) = (case r of Inl e \<Rightarrow> Inl e | Inr _ \<Rightarrow> checks rs)"

definition guard :: "bool \<Rightarrow> 'e \<Rightarrow> 'e + unit" where
  "guard b e = (if b then Inr () else Inl e)"

lemma checks_Inr [simp]: "checks rs = Inr u \<longleftrightarrow> (\<forall>r\<in>set rs. r = Inr ())"
  by (induction rs) (auto split: sum.splits)

lemma guard_Inr [simp]: "guard b e = Inr u \<longleftrightarrow> b"
  by (simp add: guard_def)

definition ok :: "'e + 'a \<Rightarrow> bool" where
  "ok r = (case r of Inl _ \<Rightarrow> False | Inr _ \<Rightarrow> True)"

lemma ok_simps [simp]: "ok (Inr x)" "\<not> ok (Inl e)"
  by (simp_all add: ok_def)

lemma ok_iff: "ok r \<longleftrightarrow> (\<exists>x. r = Inr x)"
  by (cases r) auto

lemma each_Inr_iff [simp]: "each f xs = Inr u \<longleftrightarrow> (\<forall>x\<in>set xs. f x = Inr ())"
  by (induction xs) (auto split: sum.splits)

lemma each_cong [fundef_cong]:
  "xs = ys \<Longrightarrow> (\<And>x. x \<in> set ys \<Longrightarrow> f x = g x) \<Longrightarrow> each f xs = each g ys"
  by (induction xs arbitrary: ys) (auto split: sum.splits)

lemma map_result_cong [fundef_cong]:
  "xs = ys \<Longrightarrow> (\<And>x. x \<in> set ys \<Longrightarrow> f x = g x) \<Longrightarrow> map_result f xs = map_result g ys"
  by (induction xs arbitrary: ys) (auto split: sum.splits)

lemma map_result_Inr_length: "map_result f xs = Inr ys \<Longrightarrow> length ys = length xs"
  by (induction xs arbitrary: ys) (auto split: sum.splits)

lemma map_result_Inr_iff:
  "map_result f xs = Inr ys \<longleftrightarrow> list_all2 (\<lambda>x y. f x = Inr y) xs ys"
proof (induction xs arbitrary: ys)
  case Nil
  then show ?case by auto
next
  case (Cons x xs)
  show ?case
  proof (cases ys)
    case Nil
    then show ?thesis by (auto split: sum.splits)
  next
    case (Cons y ys')
    with Cons.IH [of ys'] show ?thesis by (auto split: sum.splits)
  qed
qed

subsection \<open>Finding by position\<close>

text \<open>The last element satisfying a predicate, as a loop that walks indices downwards finds it.\<close>

definition find_last :: "('a \<Rightarrow> bool) \<Rightarrow> 'a list \<Rightarrow> 'a option" where
  "find_last P xs = List.find P (rev xs)"

lemma find_last_Nil [simp]: "find_last P [] = None"
  by (simp add: find_last_def)

lemma find_last_snoc [simp]:
  "find_last P (xs @ [x]) = (if P x then Some x else find_last P xs)"
  by (simp add: find_last_def)

lemma find_last_Some:
  "find_last P xs = Some x \<Longrightarrow> x \<in> set xs \<and> P x"
  by (auto simp: find_last_def find_Some_iff) (metis nth_mem set_rev length_rev)

lemma find_last_None: "find_last P xs = None \<longleftrightarrow> (\<forall>x\<in>set xs. \<not> P x)"
  by (auto simp: find_last_def find_None_iff)

lemma find_last_filter: "find_last P xs = (if filter P xs = [] then None else Some (last (filter P xs)))"
  by (induction xs rule: rev_induct) auto

subsection \<open>Stateful operations\<close>

text \<open>
  An operation that reads and changes a state of type \<open>'w\<close> and may fail: the state it leaves is
  part of its outcome also when it fails.
\<close>

type_synonym ('w, 'e, 'a) st = "'w \<Rightarrow> ('e + 'a) \<times> 'w"

definition ret :: "'a \<Rightarrow> ('w, 'e, 'a) st" where
  "ret x w = (Inr x, w)"

definition raise :: "'e \<Rightarrow> ('w, 'e, 'a) st" where
  "raise e w = (Inl e, w)"

definition andThen :: "('w, 'e, 'a) st \<Rightarrow> ('a \<Rightarrow> ('w, 'e, 'b) st) \<Rightarrow> ('w, 'e, 'b) st" where
  "andThen m f w = (case m w of (Inl e, w') \<Rightarrow> (Inl e, w') | (Inr x, w') \<Rightarrow> f x w')"

definition lift_result :: "'e + 'a \<Rightarrow> ('w, 'e, 'a) st" where
  "lift_result r = (case r of Inl e \<Rightarrow> raise e | Inr x \<Rightarrow> ret x)"

lemma andThen_Inr:
  "andThen m g w = (Inr y, w') \<longleftrightarrow> (\<exists>x w1. m w = (Inr x, w1) \<and> g x w1 = (Inr y, w'))"
  by (auto simp: andThen_def split: prod.splits sum.splits)

lemma andThen_simps [simp]:
  "andThen (ret x) g = g x" "andThen (raise e) g = raise e"
  by (simp_all add: andThen_def ret_def raise_def fun_eq_iff)

lemma ret_Inr [simp]: "ret x w = (Inr y, w') \<longleftrightarrow> x = y \<and> w = w'"
  by (simp add: ret_def)

lemma raise_Inr [simp]: "raise e w \<noteq> (Inr y, w')"
  by (simp add: raise_def)

lemma lift_result_Inr [simp]: "lift_result r w = (Inr y, w') \<longleftrightarrow> r = Inr y \<and> w = w'"
  by (cases r) (auto simp: lift_result_def ret_def raise_def)

end
