(* ===== verification/GoStd.thy ===== *)
theory GoStd
  imports Prelude
begin

text \<open>
  The part of Go's standard library that the Provider's own code computes with: byte classes
  and the anchored class-repetition regular expressions, \<open>strings\<close>, \<open>strconv\<close> at base 10 and
  64 bits, \<open>unicode/utf8\<close>, \<open>encoding/hex\<close>, \<open>encoding/base64\<close> and RFC 3339 timestamps. Each
  definition follows the documented behaviour of the Go function it names.
\<close>

subsection \<open>Byte classes and anchored patterns\<close>

definition is_digit :: "char \<Rightarrow> bool" where
  "is_digit c \<longleftrightarrow> 48 \<le> byte c \<and> byte c \<le> 57"

definition is_upper :: "char \<Rightarrow> bool" where
  "is_upper c \<longleftrightarrow> 65 \<le> byte c \<and> byte c \<le> 90"

definition is_lower :: "char \<Rightarrow> bool" where
  "is_lower c \<longleftrightarrow> 97 \<le> byte c \<and> byte c \<le> 122"

definition is_alnum :: "char \<Rightarrow> bool" where
  "is_alnum c \<longleftrightarrow> is_upper c \<or> is_lower c \<or> is_digit c"

definition is_ascii :: "char \<Rightarrow> bool" where
  "is_ascii c \<longleftrightarrow> byte c < 128"

text \<open>The pattern \<open>^[first][rest]{lo,hi}$\<close> over ASCII classes.\<close>

definition match_rep ::
  "(char \<Rightarrow> bool) \<Rightarrow> (char \<Rightarrow> bool) \<Rightarrow> nat \<Rightarrow> nat \<Rightarrow> string \<Rightarrow> bool" where
  "match_rep first rest lo hi s =
     (case s of [] \<Rightarrow> False
      | c # cs \<Rightarrow> first c \<and> list_all rest cs \<and> lo \<le> length cs \<and> length cs \<le> hi)"

text \<open>Go's \<open>for _, r := range s { if r > 0x7f ... }\<close>: a non-ASCII byte starts a rune above 0x7f.\<close>

definition ascii_only :: "string \<Rightarrow> bool" where
  "ascii_only s = list_all is_ascii s"

subsection \<open>Package strings\<close>

definition has_prefix :: "string \<Rightarrow> string \<Rightarrow> bool" where
  "has_prefix s p = (take (length p) s = p)"

definition has_suffix :: "string \<Rightarrow> string \<Rightarrow> bool" where
  "has_suffix s p = has_prefix (rev s) (rev p)"

definition contains_any :: "string \<Rightarrow> string \<Rightarrow> bool" where
  "contains_any s cs = list_ex (\<lambda>c. c \<in> set cs) s"

fun contains_str :: "string \<Rightarrow> string \<Rightarrow> bool" where
  "contains_str [] p = (p = [])"
| "contains_str (c # cs) p = (has_prefix (c # cs) p \<or> contains_str cs p)"

text \<open>\<open>strings.Cut\<close> with a one-byte separator: the text before, the text after, found.\<close>

definition cut_at :: "char \<Rightarrow> string \<Rightarrow> string \<times> string \<times> bool" where
  "cut_at c s = (case dropWhile (\<lambda>d. d \<noteq> c) s of
       [] \<Rightarrow> (s, [], False)
     | _ # after \<Rightarrow> (takeWhile (\<lambda>d. d \<noteq> c) s, after, True))"

text \<open>\<open>strings.Split\<close> with a one-byte separator; never the empty list.\<close>

fun split_on :: "char \<Rightarrow> string \<Rightarrow> string list" where
  "split_on c [] = [[]]"
| "split_on c (d # ds) =
     (if d = c then [] # split_on c ds
      else (case split_on c ds of [] \<Rightarrow> [[d]] | p # ps \<Rightarrow> (d # p) # ps))"

definition to_lower_byte :: "char \<Rightarrow> char" where
  "to_lower_byte c = (if is_upper c then char_of (byte c + 32) else c)"

definition to_lower :: "string \<Rightarrow> string" where
  "to_lower s = map to_lower_byte s"

definition trim_left_byte :: "char \<Rightarrow> string \<Rightarrow> string" where
  "trim_left_byte c s = dropWhile (\<lambda>d. d = c) s"

definition trim_right_byte :: "char \<Rightarrow> string \<Rightarrow> string" where
  "trim_right_byte c s = rev (dropWhile (\<lambda>d. d = c) (rev s))"

subsection \<open>Package utf8\<close>

definition is_cont :: "char \<Rightarrow> bool" where
  "is_cont c \<longleftrightarrow> 128 \<le> byte c \<and> byte c \<le> 191"

text \<open>The second byte's range after a three- or four-byte lead byte.\<close>

definition second_ok :: "char \<Rightarrow> char \<Rightarrow> bool" where
  "second_ok lead c \<longleftrightarrow>
     (if byte lead = 224 then 160 else if byte lead = 240 then 144 else 128) \<le> byte c \<and>
     byte c \<le> (if byte lead = 237 then 159 else if byte lead = 244 then 143 else 191)"

definition lead2 :: "char \<Rightarrow> bool" where
  "lead2 c \<longleftrightarrow> 194 \<le> byte c \<and> byte c \<le> 223"
definition lead3 :: "char \<Rightarrow> bool" where
  "lead3 c \<longleftrightarrow> 224 \<le> byte c \<and> byte c \<le> 239"
definition lead4 :: "char \<Rightarrow> bool" where
  "lead4 c \<longleftrightarrow> 240 \<le> byte c \<and> byte c \<le> 244"

fun utf8_valid :: "string \<Rightarrow> bool" where
  "utf8_valid [] = True"
| "utf8_valid (c # cs) =
     (if is_ascii c then utf8_valid cs
      else if lead2 c then (case cs of c1 # r \<Rightarrow> is_cont c1 \<and> utf8_valid r | _ \<Rightarrow> False)
      else if lead3 c then
        (case cs of c1 # c2 # r \<Rightarrow> second_ok c c1 \<and> is_cont c2 \<and> utf8_valid r | _ \<Rightarrow> False)
      else if lead4 c then
        (case cs of c1 # c2 # c3 # r \<Rightarrow>
             second_ok c c1 \<and> is_cont c2 \<and> is_cont c3 \<and> utf8_valid r
         | _ \<Rightarrow> False)
      else False)"

text \<open>\<open>DecodeRune\<close>: the rune and its width; an invalid byte is U+FFFD of width one.\<close>

fun decode_rune :: "string \<Rightarrow> nat \<times> nat" where
  "decode_rune [] = (65533, 0)"
| "decode_rune (c # cs) =
     (if is_ascii c then (byte c, 1)
      else if lead2 c then
        (case cs of c1 # _ \<Rightarrow> if is_cont c1
             then ((byte c - 192) * 64 + (byte c1 - 128), 2) else (65533, 1)
         | _ \<Rightarrow> (65533, 1))
      else if lead3 c then
        (case cs of c1 # c2 # _ \<Rightarrow> if second_ok c c1 \<and> is_cont c2
             then ((byte c - 224) * 4096 + (byte c1 - 128) * 64 + (byte c2 - 128), 3)
             else (65533, 1)
         | _ \<Rightarrow> (65533, 1))
      else if lead4 c then
        (case cs of c1 # c2 # c3 # _ \<Rightarrow> if second_ok c c1 \<and> is_cont c2 \<and> is_cont c3
             then ((byte c - 240) * 262144 + (byte c1 - 128) * 4096
                   + (byte c2 - 128) * 64 + (byte c3 - 128), 4)
             else (65533, 1)
         | _ \<Rightarrow> (65533, 1))
      else (65533, 1))"

lemma decode_rune_width: "s \<noteq> [] \<Longrightarrow> 0 < snd (decode_rune s)"
  by (cases s) (auto split: list.splits)

text \<open>The runes of a string, each with the bytes that encode it.\<close>

function runes :: "string \<Rightarrow> (nat \<times> string) list" where
  "runes s = (if s = [] then []
     else (fst (decode_rune s), take (snd (decode_rune s)) s)
          # runes (drop (snd (decode_rune s)) s))"
  by pat_completeness auto
termination
  by (relation "measure length") (auto simp: decode_rune_width)

declare runes.simps [simp del]

definition rune_count :: "string \<Rightarrow> nat" where
  "rune_count s = length (runes s)"

definition encode_rune :: "nat \<Rightarrow> string" where
  "encode_rune r =
     (if r < 128 then [char_of r]
      else if r < 2048 then [char_of (192 + r div 64), char_of (128 + r mod 64)]
      else if r > 1114111 \<or> (55296 \<le> r \<and> r \<le> 57343) then [char_of (239::nat), char_of (191::nat), char_of (189::nat)]
      else if r < 65536 then
        [char_of (224 + r div 4096), char_of (128 + r div 64 mod 64), char_of (128 + r mod 64)]
      else [char_of (240 + r div 262144), char_of (128 + r div 4096 mod 64),
            char_of (128 + r div 64 mod 64), char_of (128 + r mod 64)])"

text \<open>\<open>unicode.IsSpace\<close> and \<open>strings.TrimSpace\<close>.\<close>

definition is_space_rune :: "nat \<Rightarrow> bool" where
  "is_space_rune r \<longleftrightarrow> (9 \<le> r \<and> r \<le> 13) \<or> r = 32 \<or> r = 133 \<or> r = 160 \<or> r = 5760 \<or>
     (8192 \<le> r \<and> r \<le> 8202) \<or> r = 8232 \<or> r = 8233 \<or> r = 8239 \<or> r = 8287 \<or> r = 12288"

definition trim_space :: "string \<Rightarrow> string" where
  "trim_space s =
     (let sp = (\<lambda>(r, _). is_space_rune r);
          rs = dropWhile sp (runes s)
      in concat (map snd (rev (dropWhile sp (rev rs)))))"

subsection \<open>Package strconv\<close>

fun digits_val :: "nat \<Rightarrow> string \<Rightarrow> nat option" where
  "digits_val acc [] = Some acc"
| "digits_val acc (c # cs) =
     (if is_digit c then digits_val (acc * 10 + (byte c - 48)) cs else None)"

text \<open>\<open>ParseUint(s, 10, 64)\<close> and \<open>ParseInt(s, 10, 64)\<close>; \<open>None\<close> is any error, range included.\<close>

definition parse_uint64 :: "string \<Rightarrow> nat option" where
  "parse_uint64 s = (if s = [] then None else
     (case digits_val 0 s of None \<Rightarrow> None
      | Some n \<Rightarrow> if n < 2 ^ 64 then Some n else None))"

definition parse_int64 :: "string \<Rightarrow> int option" where
  "parse_int64 s =
     (case s of [] \<Rightarrow> None
      | c # cs \<Rightarrow>
          let neg = (c = CHR ''-'');
              body = (if neg \<or> c = CHR ''+'' then cs else s)
          in (case body of [] \<Rightarrow> None
              | _ \<Rightarrow> (case digits_val 0 body of None \<Rightarrow> None
                     | Some n \<Rightarrow>
                         if neg then (if n \<le> 2 ^ 63 then Some (- int n) else None)
                         else (if n < 2 ^ 63 then Some (int n) else None))))"

fun format_nat :: "nat \<Rightarrow> string" where
  "format_nat n =
     (if n < 10 then [char_of (48 + n)] else format_nat (n div 10) @ [char_of (48 + n mod 10)])"

declare format_nat.simps [simp del]

definition format_int :: "int \<Rightarrow> string" where
  "format_int i = (if i < 0 then CHR ''-'' # format_nat (nat (- i)) else format_nat (nat i))"

subsection \<open>Package hex\<close>

definition hex_digit :: "char \<Rightarrow> nat option" where
  "hex_digit c =
     (if is_digit c then Some (byte c - 48)
      else if 97 \<le> byte c \<and> byte c \<le> 102 then Some (byte c - 87)
      else if 65 \<le> byte c \<and> byte c \<le> 70 then Some (byte c - 55)
      else None)"

fun hex_decode :: "string \<Rightarrow> string option" where
  "hex_decode [] = Some []"
| "hex_decode [c] = None"
| "hex_decode (c # d # cs) =
     (case (hex_digit c, hex_digit d) of
        (Some x, Some y) \<Rightarrow> map_option (\<lambda>r. char_of (16 * x + y) # r) (hex_decode cs)
      | _ \<Rightarrow> None)"

definition hex_char :: "nat \<Rightarrow> char" where
  "hex_char n = (if n < 10 then char_of (48 + n) else char_of (87 + n))"

definition hex_encode :: "string \<Rightarrow> string" where
  "hex_encode s = concat (map (\<lambda>c. [hex_char (byte c div 16), hex_char (byte c mod 16)]) s)"

subsection \<open>Facts\<close>

lemma byte_char_of [simp]: "n < 256 \<Longrightarrow> byte (char_of n) = (n::nat)"
  by (simp add: of_char_of)

lemma byte_less_256 [simp]: "byte c < 256"
  using range_nat_of_char by fastforce

lemma split_on_not_Nil [simp]: "split_on c s \<noteq> []"
  by (induction s) (auto split: list.splits)

lemma has_prefix_append [simp]: "has_prefix (p @ s) p"
  by (simp add: has_prefix_def)

lemma has_prefix_ex: "has_prefix s p \<longleftrightarrow> (\<exists>t. s = p @ t)"
  by (auto simp: has_prefix_def) (metis append_take_drop_id)

lemma has_suffix_ex: "has_suffix s p \<longleftrightarrow> (\<exists>t. s = t @ p)"
proof -
  have "rev s = rev p @ t \<longleftrightarrow> s = rev t @ p" for t
    by (metis rev_append rev_rev_ident)
  then show ?thesis
    unfolding has_suffix_def has_prefix_ex by (metis rev_rev_ident)
qed

lemma digits_val_append:
  "digits_val acc (xs @ ys) = (case digits_val acc xs of None \<Rightarrow> None | Some n \<Rightarrow> digits_val n ys)"
  by (induction xs arbitrary: acc) auto

lemma is_digit_char_of [simp]: "n < 10 \<Longrightarrow> is_digit (char_of (48 + n :: nat))"
  by (simp add: is_digit_def)

lemma digits_val_format_nat [simp]: "digits_val 0 (format_nat n) = Some n"
proof (induction n rule: format_nat.induct)
  case (1 n)
  show ?case
  proof (cases "n < 10")
    case True
    then show ?thesis by (simp add: format_nat.simps [of n])
  next
    case False
    with 1 have "digits_val 0 (format_nat (n div 10)) = Some (n div 10)" by simp
    with False show ?thesis
      by (simp add: format_nat.simps [of n] digits_val_append)
  qed
qed

lemma format_nat_not_Nil [simp]: "format_nat n \<noteq> []"
  by (subst format_nat.simps) simp

lemma format_nat_digits: "c \<in> set (format_nat n) \<Longrightarrow> is_digit c"
proof (induction n rule: format_nat.induct)
  case (1 n)
  then show ?case
    by (cases "n < 10") (auto simp: format_nat.simps [of n])
qed

lemma digits_not_sign: "is_digit c \<Longrightarrow> c \<noteq> CHR ''-'' \<and> c \<noteq> CHR ''+''"
  by (auto simp: is_digit_def)

lemma parse_uint64_format_nat [simp]: "n < 2 ^ 64 \<Longrightarrow> parse_uint64 (format_nat n) = Some n"
  by (simp add: parse_uint64_def)

lemma parse_int64_digits:
  assumes "s \<noteq> []" "\<forall>c\<in>set s. is_digit c"
  shows "parse_int64 s = (case digits_val 0 s of None \<Rightarrow> None
           | Some n \<Rightarrow> if n < 2 ^ 63 then Some (int n) else None)"
proof (cases s)
  case (Cons c cs)
  with assms(2) have "c \<noteq> CHR ''-''" "c \<noteq> CHR ''+''" using digits_not_sign by auto
  with Cons show ?thesis by (simp add: parse_int64_def Let_def split: option.splits)
qed (use assms in simp)

lemma parse_int64_format_nat:
  "n < 2 ^ 63 \<Longrightarrow> parse_int64 (format_nat n) = Some (int n)"
  by (subst parse_int64_digits) (auto dest: format_nat_digits)

lemma parse_int64_format_int [simp]:
  assumes "- (2 ^ 63) \<le> i" "i < 2 ^ 63"
  shows "parse_int64 (format_int i) = Some i"
proof (cases "i < 0")
  case True
  with assms have "nat (- i) \<le> 2 ^ 63" by simp
  then show ?thesis using True digits_val_format_nat [of "nat (- i)"]
    by (cases "format_nat (nat (- i))")
      (simp_all add: format_int_def parse_int64_def Let_def del: digits_val_format_nat)
next
  case False
  with assms have "nat i < 2 ^ 63" by simp
  with False show ?thesis by (simp add: format_int_def parse_int64_format_nat)
qed

lemma format_int_inject:
  assumes "- (2 ^ 63) \<le> i" "i < 2 ^ 63" "- (2 ^ 63) \<le> j" "j < 2 ^ 63"
    and "format_int i = format_int j"
  shows "i = j"
  using assms parse_int64_format_int by (metis option.inject)

lemma format_int_not_Nil [simp]: "format_int i \<noteq> []"
  by (simp add: format_int_def)

lemma hex_digit_hex_char [simp]: "n < 16 \<Longrightarrow> hex_digit (hex_char n) = Some n"
  by (auto simp: hex_digit_def hex_char_def is_digit_def)

lemma hex_decode_encode [simp]: "hex_decode (hex_encode s) = Some s"
proof (induction s)
  case Nil
  then show ?case by (simp add: hex_encode_def)
next
  case (Cons c s)
  have "byte c div 16 < 16" using byte_less_256 [of c] by linarith
  moreover have "16 * (byte c div 16) + byte c mod 16 = byte c" by simp
  ultimately show ?case using Cons by (simp add: hex_encode_def del: byte_char_of)
qed

subsection \<open>Valid UTF-8, rune by rune\<close>

lemma lead_not_ascii [simp]:
  "lead2 c \<Longrightarrow> \<not> is_ascii c" "lead3 c \<Longrightarrow> \<not> is_ascii c" "lead4 c \<Longrightarrow> \<not> is_ascii c"
  "lead3 c \<Longrightarrow> \<not> lead2 c" "lead4 c \<Longrightarrow> \<not> lead2 c" "lead4 c \<Longrightarrow> \<not> lead3 c"
  by (auto simp: lead2_def lead3_def lead4_def is_ascii_def)

lemma utf8_valid_step:
  "is_ascii c \<Longrightarrow> utf8_valid (c # r) = utf8_valid r"
  "lead2 c \<Longrightarrow> is_cont c1 \<Longrightarrow> utf8_valid (c # c1 # r) = utf8_valid r"
  "lead3 c \<Longrightarrow> second_ok c c1 \<Longrightarrow> is_cont c2 \<Longrightarrow> utf8_valid (c # c1 # c2 # r) = utf8_valid r"
  "lead4 c \<Longrightarrow> second_ok c c1 \<Longrightarrow> is_cont c2 \<Longrightarrow> is_cont c3 \<Longrightarrow>
     utf8_valid (c # c1 # c2 # c3 # r) = utf8_valid r"
  by simp_all

declare utf8_valid.simps(2) [simp del]

lemma utf8_valid_induct [consumes 1, case_names Nil one two three four]:
  assumes "utf8_valid s"
    and "P []"
    and "\<And>c r. is_ascii c \<Longrightarrow> utf8_valid r \<Longrightarrow> P r \<Longrightarrow> P (c # r)"
    and "\<And>c c1 r. lead2 c \<Longrightarrow> is_cont c1 \<Longrightarrow> utf8_valid r \<Longrightarrow> P r \<Longrightarrow> P (c # c1 # r)"
    and "\<And>c c1 c2 r. lead3 c \<Longrightarrow> second_ok c c1 \<Longrightarrow> is_cont c2 \<Longrightarrow> utf8_valid r \<Longrightarrow> P r \<Longrightarrow>
           P (c # c1 # c2 # r)"
    and "\<And>c c1 c2 c3 r. lead4 c \<Longrightarrow> second_ok c c1 \<Longrightarrow> is_cont c2 \<Longrightarrow> is_cont c3 \<Longrightarrow>
           utf8_valid r \<Longrightarrow> P r \<Longrightarrow> P (c # c1 # c2 # c3 # r)"
  shows "P s"
  using assms(1)
proof (induction "length s" arbitrary: s rule: less_induct)
  case less
  show ?case
  proof (cases s)
    case Nil
    then show ?thesis using assms(2) by simp
  next
    case (Cons c cs)
    consider "is_ascii c" | "lead2 c" | "lead3 c" | "lead4 c"
      using less.prems Cons by (auto simp: utf8_valid.simps(2) split: if_splits)
    then show ?thesis
    proof cases
      case 1
      with less Cons assms(3) show ?thesis by (simp add: utf8_valid.simps(2))
    next
      case 2
      with less.prems Cons obtain c1 r where "cs = c1 # r" "is_cont c1" "utf8_valid r"
        by (auto simp: utf8_valid.simps(2) split: list.splits)
      with 2 less.hyps Cons assms(4) show ?thesis by simp
    next
      case 3
      with less.prems Cons obtain c1 c2 r where
        "cs = c1 # c2 # r" "second_ok c c1" "is_cont c2" "utf8_valid r"
        by (auto simp: utf8_valid.simps(2) split: list.splits)
      with 3 less.hyps Cons assms(5) show ?thesis by simp
    next
      case 4
      with less.prems Cons obtain c1 c2 c3 r where
        "cs = c1 # c2 # c3 # r" "second_ok c c1" "is_cont c2" "is_cont c3" "utf8_valid r"
        by (auto simp: utf8_valid.simps(2) split: list.splits)
      with 4 less.hyps Cons assms(6) show ?thesis by simp
    qed
  qed
qed

lemma utf8_valid_ascii: "list_all is_ascii s \<Longrightarrow> utf8_valid s"
  by (induction s) (auto simp: utf8_valid_step)

lemma utf8_valid_append:
  assumes "utf8_valid s"
  shows "utf8_valid (s @ t) = utf8_valid t"
  using assms by (induction s rule: utf8_valid_induct) (simp_all add: utf8_valid_step)

lemma runes_step:
  "runes [] = []"
  "is_ascii c \<Longrightarrow> runes (c # r) = (byte c, [c]) # runes r"
  "lead2 c \<Longrightarrow> is_cont c1 \<Longrightarrow> runes (c # c1 # r) =
     ((byte c - 192) * 64 + (byte c1 - 128), [c, c1]) # runes r"
  "lead3 c \<Longrightarrow> second_ok c c1 \<Longrightarrow> is_cont c2 \<Longrightarrow> runes (c # c1 # c2 # r) =
     ((byte c - 224) * 4096 + (byte c1 - 128) * 64 + (byte c2 - 128), [c, c1, c2]) # runes r"
  "lead4 c \<Longrightarrow> second_ok c c1 \<Longrightarrow> is_cont c2 \<Longrightarrow> is_cont c3 \<Longrightarrow> runes (c # c1 # c2 # c3 # r) =
     ((byte c - 240) * 262144 + (byte c1 - 128) * 4096 + (byte c2 - 128) * 64 + (byte c3 - 128),
      [c, c1, c2, c3]) # runes r"
  by (subst runes.simps, simp)+

lemma concat_runes:
  "concat (map snd (runes s)) = s"
proof (induction s rule: runes.induct)
  case (1 s)
  then show ?case by (cases "s = []") (simp_all add: runes.simps [of s] runes_step(1))
qed

end
