(* ===== verification/GoJson.thy ===== *)
theory GoJson
  imports GoStd
begin

text \<open>
  Package \<open>encoding/json\<close>. A decoded value is a \<open>json\<close> tree with numbers kept as text
  (\<open>UseNumber\<close>) and objects as association lists in document order. \<open>pvalue\<close> reads one value
  from the front of a text and rejects repeated keys, as the token loop of
  \<open>jsonv2.consumeValue\<close> does; \<open>json_text\<close> prints a tree as \<open>json.Marshal\<close> does, HTML escapes
  included. The theory proves that the reader inverts the printer and that its fuel is enough
  for every text.
\<close>

datatype json =
    JNull
  | JBool bool
  | JNum string
  | JStr string
  | JArr "json list"
  | JObj "(string \<times> json) list"

definition is_ws :: "char \<Rightarrow> bool" where
  "is_ws c \<longleftrightarrow> byte c \<in> {32, 9, 10, 13}"

definition skip_ws :: "string \<Rightarrow> string" where
  "skip_ws s = dropWhile is_ws s"

subsection \<open>Strings\<close>

definition hex4 :: "char \<Rightarrow> char \<Rightarrow> char \<Rightarrow> char \<Rightarrow> nat option" where
  "hex4 a b c d =
     (case (hex_digit a, hex_digit b, hex_digit c, hex_digit d) of
        (Some w, Some x, Some y, Some z) \<Rightarrow> Some (((w * 16 + x) * 16 + y) * 16 + z)
      | _ \<Rightarrow> None)"

definition simple_escape :: "char \<Rightarrow> char option" where
  "simple_escape e =
     (if byte e \<in> {34, 92, 47} then Some e
      else if e = CHR ''b'' then Some (char_of (8::nat))
      else if e = CHR ''f'' then Some (char_of (12::nat))
      else if e = CHR ''n'' then Some (char_of (10::nat))
      else if e = CHR ''r'' then Some (char_of (13::nat))
      else if e = CHR ''t'' then Some (char_of (9::nat))
      else None)"

definition prepend :: "'a list \<Rightarrow> ('a list \<times> 'b) option \<Rightarrow> ('a list \<times> 'b) option" where
  "prepend xs r = map_option (\<lambda>(ys, t). (xs @ ys, t)) r"

text \<open>
  The text of a string after its opening quote: its value and what follows the closing quote.
  An unpaired surrogate escape decodes to U+FFFD, as \<open>unquote\<close> does.
\<close>

fun pstring :: "string \<Rightarrow> (string \<times> string) option" where
  "pstring [] = None"
| "pstring (c # cs) =
     (if byte c = 34 then Some ([], cs)
      else if byte c = 92 then
        (case cs of [] \<Rightarrow> None
         | e # r \<Rightarrow>
            (case simple_escape e of
               Some d \<Rightarrow> prepend [d] (pstring r)
             | None \<Rightarrow>
                if e = CHR ''u'' then
                  (case r of h1 # h2 # h3 # h4 # r2 \<Rightarrow>
                     (case hex4 h1 h2 h3 h4 of None \<Rightarrow> None
                      | Some u \<Rightarrow>
                         if 55296 \<le> u \<and> u \<le> 57343 then
                           (case r2 of b0 # b1 # l1 # l2 # l3 # l4 # r3 \<Rightarrow>
                              (case (byte b0 = 92 \<and> b1 = CHR ''u'', hex4 l1 l2 l3 l4) of
                                 (True, Some lo) \<Rightarrow>
                                   if u \<le> 56319 \<and> 56320 \<le> lo \<and> lo \<le> 57343
                                   then prepend (encode_rune (65536 + (u - 55296) * 1024 + (lo - 56320))) (pstring r3)
                                   else prepend (encode_rune 65533) (pstring r2)
                               | _ \<Rightarrow> prepend (encode_rune 65533) (pstring r2))
                            | _ \<Rightarrow> prepend (encode_rune 65533) (pstring r2))
                         else prepend (encode_rune u) (pstring r2))
                   | _ \<Rightarrow> None)
                else None))
      else if byte c < 32 then None
      else prepend [c] (pstring cs))"

text \<open>Printing, with \<open>json.Marshal\<close>'s HTML-safe escapes and the two line separators.\<close>

definition escape_ascii :: "char \<Rightarrow> string" where
  "escape_ascii c =
     (let b = byte c; bs = char_of (92::nat) in
      if b = 34 \<or> b = 92 then [bs, c]
      else if b = 8 then [bs, CHR ''b''] else if b = 12 then [bs, CHR ''f'']
      else if b = 10 then [bs, CHR ''n''] else if b = 13 then [bs, CHR ''r'']
      else if b = 9 then [bs, CHR ''t'']
      else if b < 32 \<or> b = 60 \<or> b = 62 \<or> b = 38
      then [bs, CHR ''u'', CHR ''0'', CHR ''0'', hex_char (b div 16), hex_char (b mod 16)]
      else [c])"

definition quote_rune :: "nat \<times> string \<Rightarrow> string" where
  "quote_rune = (\<lambda>(r, bs).
     if r < 128 then concat (map escape_ascii bs)
     else if r = 8232 \<or> r = 8233 then char_of (92::nat) # ''u202'' @ [hex_char (r mod 16)]
     else if r = 65533 \<and> length bs = 1 then char_of (92::nat) # ''ufffd''
     else bs)"

definition quote_body :: "string \<Rightarrow> string" where
  "quote_body s = concat (map quote_rune (runes s))"

definition dquote :: char where
  "dquote = CHR 0x22"

definition quote_str :: "string \<Rightarrow> string" where
  "quote_str s = dquote # quote_body s @ [dquote]"

subsection \<open>Numbers\<close>

definition pinteger :: "string \<Rightarrow> (string \<times> string) option" where
  "pinteger s = (case s of [] \<Rightarrow> None
     | c # r \<Rightarrow> if c = CHR ''0'' then Some ([c], r)
                else if is_digit c then Some (takeWhile is_digit s, dropWhile is_digit s) else None)"

definition pfraction :: "string \<Rightarrow> (string \<times> string) option" where
  "pfraction s = (case s of c # r \<Rightarrow>
        if c = CHR ''.'' then
          (if takeWhile is_digit r = [] then None
           else Some (c # takeWhile is_digit r, dropWhile is_digit r))
        else Some ([], s)
     | [] \<Rightarrow> Some ([], s))"

definition pexponent :: "string \<Rightarrow> (string \<times> string) option" where
  "pexponent s = (case s of c # r \<Rightarrow>
        if c = CHR ''e'' \<or> c = CHR ''E'' then
          (case r of d # r2 \<Rightarrow>
             if d = CHR ''+'' \<or> d = CHR ''-'' then
               (if takeWhile is_digit r2 = [] then None
                else Some (c # d # takeWhile is_digit r2, dropWhile is_digit r2))
             else (if takeWhile is_digit r = [] then None
                   else Some (c # takeWhile is_digit r, dropWhile is_digit r))
           | [] \<Rightarrow> None)
        else Some ([], s)
     | [] \<Rightarrow> Some ([], s))"

definition punsigned :: "string \<Rightarrow> (string \<times> string) option" where
  "punsigned r0 =
     (case pinteger r0 of None \<Rightarrow> None
      | Some (ip, r1) \<Rightarrow> (case pfraction r1 of None \<Rightarrow> None
        | Some (fp, r2) \<Rightarrow> (case pexponent r2 of None \<Rightarrow> None
          | Some (ep, r3) \<Rightarrow> Some (ip @ fp @ ep, r3))))"

definition pnumber :: "string \<Rightarrow> (string \<times> string) option" where
  "pnumber s = (case s of [] \<Rightarrow> None
     | c # r \<Rightarrow> if c = CHR ''-'' then prepend [c] (punsigned r) else punsigned s)"

definition valid_number :: "string \<Rightarrow> bool" where
  "valid_number s \<longleftrightarrow> pnumber s = Some (s, [])"

subsection \<open>Values\<close>

definition plit :: "string \<Rightarrow> json \<Rightarrow> string \<Rightarrow> (json \<times> string) option" where
  "plit w v s = (if has_prefix s w then Some (v, drop (length w) s) else None)"

fun pvalue :: "nat \<Rightarrow> string \<Rightarrow> (json \<times> string) option"
  and parray :: "nat \<Rightarrow> string \<Rightarrow> (json list \<times> string) option"
  and pobject :: "nat \<Rightarrow> string list \<Rightarrow> string \<Rightarrow> ((string \<times> json) list \<times> string) option" where
  "pvalue 0 s = None"
| "pvalue (Suc n) s =
     (case skip_ws s of [] \<Rightarrow> None
      | c # r \<Rightarrow>
         if c = CHR ''{'' then
           (if has_prefix (skip_ws r) ''}'' then Some (JObj [], tl (skip_ws r))
            else map_option (\<lambda>(kvs, t). (JObj kvs, t)) (pobject n [] r))
         else if c = CHR ''['' then
           (if has_prefix (skip_ws r) '']'' then Some (JArr [], tl (skip_ws r))
            else map_option (\<lambda>(vs, t). (JArr vs, t)) (parray n r))
         else if byte c = 34 then map_option (\<lambda>(x, t). (JStr x, t)) (pstring r)
         else if c = CHR ''t'' then plit ''true'' (JBool True) (c # r)
         else if c = CHR ''f'' then plit ''false'' (JBool False) (c # r)
         else if c = CHR ''n'' then plit ''null'' JNull (c # r)
         else map_option (\<lambda>(x, t). (JNum x, t)) (pnumber (c # r)))"
| "parray 0 s = None"
| "parray (Suc n) s =
     (case pvalue n s of None \<Rightarrow> None
      | Some (v, r) \<Rightarrow>
         (case skip_ws r of [] \<Rightarrow> None
          | c # t \<Rightarrow> if c = CHR '']'' then Some ([v], t)
                    else if c = CHR '','' then prepend [v] (parray n t)
                    else None))"
| "pobject 0 seen s = None"
| "pobject (Suc n) seen s =
     (case skip_ws s of [] \<Rightarrow> None
      | q # r0 \<Rightarrow>
        if byte q \<noteq> 34 then None
        else case pstring r0 of None \<Rightarrow> None
        | Some (k, r1) \<Rightarrow>
          if k \<in> set seen then None
          else case skip_ws r1 of [] \<Rightarrow> None
          | c # r2 \<Rightarrow>
            if c \<noteq> CHR '':'' then None
            else case pvalue n r2 of None \<Rightarrow> None
            | Some (v, r3) \<Rightarrow>
              (case skip_ws r3 of [] \<Rightarrow> None
               | d # t \<Rightarrow> if d = CHR ''}'' then Some ([(k, v)], t)
                         else if d = CHR '','' then prepend [(k, v)] (pobject n (k # seen) t)
                         else None))"

text \<open>One value and nothing after it. Twice the length of the text is enough fuel.\<close>

definition parse_json :: "string \<Rightarrow> json option" where
  "parse_json s =
     (case pvalue (2 * length s + 1) s of
        Some (v, r) \<Rightarrow> if skip_ws r = [] then Some v else None
      | None \<Rightarrow> None)"

fun join_comma :: "string list \<Rightarrow> string" where
  "join_comma [] = []"
| "join_comma [x] = x"
| "join_comma (x # y # zs) = x @ '','' @ join_comma (y # zs)"

fun json_text :: "json \<Rightarrow> string" where
  "json_text JNull = ''null''"
| "json_text (JBool b) = (if b then ''true'' else ''false'')"
| "json_text (JNum n) = n"
| "json_text (JStr s) = quote_str s"
| "json_text (JArr vs) = ''['' @ join_comma (map json_text vs) @ '']''"
| "json_text (JObj kvs) =
     ''{'' @ join_comma (map (\<lambda>(k, v). quote_str k @ '':'' @ json_text v) kvs) @ ''}''"

text \<open>
  Trees a Go value can have: valid UTF-8 strings, number literals, distinct keys.
\<close>

fun json_wf :: "json \<Rightarrow> bool" where
  "json_wf (JNum n) = valid_number n"
| "json_wf (JStr s) = utf8_valid s"
| "json_wf (JArr vs) = list_all json_wf vs"
| "json_wf (JObj kvs) =
     (distinct (map fst kvs) \<and> list_all (\<lambda>(k, v). utf8_valid k \<and> json_wf v) kvs)"
| "json_wf _ = True"

fun json_depth :: "json \<Rightarrow> nat" where
  "json_depth (JArr vs) = Suc (fold max (map json_depth vs) 0)"
| "json_depth (JObj kvs) = Suc (fold max (map (\<lambda>(_, v). json_depth v) kvs) 0)"
| "json_depth _ = 0"

subsection \<open>The reader consumes its input\<close>

lemma length_skip_ws: "length (skip_ws s) \<le> length s"
  by (simp add: skip_ws_def length_dropWhile_le)

lemma skip_ws_Cons: "skip_ws s = c # r \<Longrightarrow> length r < length s"
  using length_skip_ws [of s] by simp

lemma prepend_Some [simp]:
  "prepend xs r = Some (zs, t) \<longleftrightarrow> (\<exists>ys. r = Some (ys, t) \<and> zs = xs @ ys)"
  by (auto simp: prepend_def)

lemma prepend_simps [simp]:
  "prepend xs None = None" "prepend xs (Some (ys, t)) = Some (xs @ ys, t)"
  by (simp_all add: prepend_def)

lemma prepend_cong_None [simp]: "prepend xs r = None \<longleftrightarrow> r = None"
  by (simp add: prepend_def)

declare pstring.simps(2) [simp del]

lemma pstring_step:
  assumes "pstring (c # cs) = Some (x, r)"
  shows "r = cs \<or> (\<exists>t y. length t \<le> length cs \<and> pstring t = Some (y, r))"
  using assms unfolding pstring.simps(2) [of c cs]
  by (auto split: if_splits list.splits option.splits prod.splits bool.splits; force)

lemma pstring_shorter: "pstring s = Some (x, r) \<Longrightarrow> length r < length s"
proof (induction "length s" arbitrary: s x rule: less_induct)
  case less
  then obtain c cs where s: "s = c # cs" by (cases s) auto
  from pstring_step less.prems s consider "r = cs" |
    t y where "length t \<le> length cs" "pstring t = Some (y, r)" by blast
  then show ?case
  proof cases
    case 2
    with less.hyps [of t y] s show ?thesis by simp
  qed (use s in simp)
qed

lemma takeWhile_dropWhile_length: "length (dropWhile P s) \<le> length s"
  by (rule length_dropWhile_le)

lemma pinteger_Some: "pinteger s = Some (l, r) \<Longrightarrow> s = l @ r \<and> l \<noteq> []"
  by (auto simp: pinteger_def split: list.splits if_splits)

lemma pfraction_Some: "pfraction s = Some (l, r) \<Longrightarrow> s = l @ r"
  by (auto simp: pfraction_def split: list.splits if_splits)

lemma pexponent_Some: "pexponent s = Some (l, r) \<Longrightarrow> s = l @ r"
  by (auto simp: pexponent_def split: list.splits if_splits)

lemma punsigned_Some: "punsigned s = Some (l, r) \<Longrightarrow> s = l @ r \<and> l \<noteq> []"
  by (auto simp: punsigned_def split: option.splits prod.splits
      dest!: pinteger_Some pfraction_Some pexponent_Some)

lemma pnumber_Some: "pnumber s = Some (l, r) \<Longrightarrow> s = l @ r \<and> l \<noteq> []"
  by (auto simp: pnumber_def split: list.splits if_splits dest!: punsigned_Some)

lemma plit_Some: "plit w v s = Some (u, r) \<Longrightarrow> u = v \<and> s = w @ r"
  by (auto simp: plit_def has_prefix_ex split: if_splits)

lemma reader_shorter:
  "pvalue n s = Some (v, r) \<Longrightarrow> length r < length s"
  "parray n s = Some (vs, r) \<Longrightarrow> length r < length s"
  "pobject n seen s = Some (kvs, r) \<Longrightarrow> length r < length s"
proof (induction n s and n s and n seen s arbitrary: v r and vs r and kvs r
    rule: pvalue_parray_pobject.induct)
  case (2 n s)
  then obtain c t where t: "skip_ws s = c # t" by (auto split: list.splits)
  have lt: "length t < length s" by (rule skip_ws_Cons [OF t])
  have lw: "length (tl (skip_ws t)) < length s"
    using lt length_skip_ws [of t] by simp
  from 2(3) t consider "r = tl (skip_ws t)"
    | k where "c = CHR ''{''" "\<not> has_prefix (skip_ws t) ''}''" "pobject n [] t = Some (k, r)"
    | k where "c \<noteq> CHR ''{''" "c = CHR ''[''" "\<not> has_prefix (skip_ws t) '']''" "parray n t = Some (k, r)"
    | x where "pstring t = Some (x, r)"
    | w where "c # t = w @ r" "w \<noteq> []"
    by (fastforce split: if_splits dest!: plit_Some pnumber_Some)
  then show ?case
  proof cases
    case 1
    with lw show ?thesis by simp
  next
    case 2
    with "2.IH"(1) [OF t] lt show ?thesis by fastforce
  next
    case 3
    with "2.IH"(2) [OF t] lt show ?thesis by fastforce
  next
    case 4
    with pstring_shorter lt show ?thesis by fastforce
  next
    case 5
    then have "length (c # t) = length w + length r" by (metis length_append)
    moreover from 5(2) have "1 \<le> length w" by (cases w) simp_all
    ultimately show ?thesis using lt by (simp only: list.size)
  qed
next
  case (4 n s)
  then obtain w u where w: "pvalue n s = Some (w, u)" by (auto split: option.splits)
  then obtain c t where t: "skip_ws u = c # t" using 4 by (auto split: list.splits)
  from skip_ws_Cons [OF t] 4(1) [OF w] 4 w t show ?case
    by (fastforce split: if_splits)
next
  case (6 n seen s)
  then obtain q r0 where q: "skip_ws s = q # r0" by (auto split: list.splits)
  with 6 obtain k r1 where k: "pstring r0 = Some (k, r1)" by (auto split: if_splits option.splits)
  with 6 q obtain c r2 where c: "skip_ws r1 = c # r2" by (auto split: if_splits list.splits)
  with 6 q k obtain w r3 where w: "pvalue n r2 = Some (w, r3)" by (auto split: if_splits option.splits)
  with 6 q k c obtain d t where t: "skip_ws r3 = d # t" by (auto split: if_splits list.splits)
  have "length t < length s"
    using skip_ws_Cons [OF q] skip_ws_Cons [OF c] skip_ws_Cons [OF t] pstring_shorter [OF k]
      6 q k c w by (fastforce split: if_splits)
  with 6 q k c w t show ?case by (fastforce split: if_splits)
qed simp_all

subsection \<open>Enough fuel\<close>

text \<open>
  Above twice the length of the text, fuel does not matter: the reader gives up only on
  malformed text.
\<close>

lemma reader_fuel:
  "2 * length s < n \<Longrightarrow> 2 * length s < m \<Longrightarrow> pvalue n s = pvalue m s"
  "2 * length s + 1 < n \<Longrightarrow> 2 * length s + 1 < m \<Longrightarrow> parray n s = parray m s"
  "2 * length s + 1 < n \<Longrightarrow> 2 * length s + 1 < m \<Longrightarrow> pobject n seen s = pobject m seen s"
proof (induction n s and n s and n seen s arbitrary: m and m and m
    rule: pvalue_parray_pobject.induct)
  case (2 n s)
  from 2(4) obtain m' where m: "m = Suc m'" by (cases m) auto
  show ?case
  proof (cases "skip_ws s")
    case (Cons c t)
    have "length t < length s" by (rule skip_ws_Cons [OF Cons])
    with 2(3,4) m have "2 * length t + 1 < n" "2 * length t + 1 < m'" by auto
    note b = this
    have "c = CHR ''{'' \<Longrightarrow> \<not> has_prefix (skip_ws t) ''}'' \<Longrightarrow> pobject n [] t = pobject m' [] t"
      using 2(1) [OF Cons _ _ b] by blast
    moreover have "c = CHR ''['' \<Longrightarrow> \<not> has_prefix (skip_ws t) '']'' \<Longrightarrow> parray n t = parray m' t"
      using 2(2) [OF Cons _ _ _ b] by simp
    ultimately show ?thesis using Cons m by simp
  qed (simp add: m)
next
  case (4 n s)
  from 4(4) obtain m' where m: "m = Suc m'" by (cases m) auto
  have v: "pvalue n s = pvalue m' s"
    by (rule 4(1)) (use 4(3,4) m in auto)
  show ?case
  proof (cases "pvalue n s")
    case (Some a)
    obtain w u where a: "a = (w, u)" by (cases a)
    show ?thesis
    proof (cases "skip_ws u")
      case (Cons c t)
      have "length t < length s"
        using skip_ws_Cons [OF Cons] reader_shorter(1) [OF Some [unfolded a]] by simp
      with 4(3,4) m have "2 * length t + 1 < n" "2 * length t + 1 < m'" by auto
      note b = this
      have "c \<noteq> CHR '']'' \<Longrightarrow> c = CHR '','' \<Longrightarrow> parray n t = parray m' t"
        using 4(2) [OF Some a [symmetric] Cons _ _ b] by blast
      then show ?thesis using Cons by (simp add: m Some [unfolded a] v [symmetric])
    qed (simp add: m Some [unfolded a] v [symmetric])
  qed (use m v in simp)
next
  case (6 n seen s)
  from 6(4) obtain m' where m: "m = Suc m'" by (cases m) auto
  show ?case
  proof (cases "skip_ws s")
    case (Cons q r0)
    show ?thesis
    proof (cases "pstring r0")
      case (Some a)
      obtain k r1 where a: "a = (k, r1)" by (cases a)
      note k = Some [unfolded a]
      have l1: "length r1 < length s"
        using skip_ws_Cons [OF Cons] pstring_shorter [OF k] by simp
      show ?thesis
      proof (cases "skip_ws r1")
        case (Cons c r2)
        note c = this
        have l2: "length r2 < length s" using skip_ws_Cons [OF c] l1 by simp
        with 6(3,4) m have f: "2 * length r2 < n" "2 * length r2 < m'" by auto
        show ?thesis
        proof (cases "byte q \<noteq> 34 \<or> k \<in> set seen \<or> c \<noteq> CHR '':''")
          case False
          then have v: "pvalue n r2 = pvalue m' r2"
            using 6(1) [OF \<open>skip_ws s = q # r0\<close> _ Some a [symmetric] _ c _ f] by blast
          show ?thesis
          proof (cases "pvalue n r2")
            case None
            then show ?thesis using v m k c \<open>skip_ws s = q # r0\<close> by simp
          next
            case (Some b)
            obtain w r3 where b: "b = (w, r3)" by (cases b)
            show ?thesis
            proof (cases "skip_ws r3")
              case (Cons d t)
              have "length t < length s"
                using skip_ws_Cons [OF Cons] reader_shorter(1) [OF Some [unfolded b]] l2 by simp
              with 6(3,4) m have "2 * length t + 1 < n" "2 * length t + 1 < m'" by auto
              note f2 = this
              have "d \<noteq> CHR ''}'' \<Longrightarrow> d = CHR '','' \<Longrightarrow> pobject n (k # seen) t = pobject m' (k # seen) t"
                using 6(2) [OF \<open>skip_ws s = q # r0\<close> _ \<open>pstring r0 = Some a\<close> a [symmetric] _ c _ Some b [symmetric] Cons _ _ f2]
                  False by blast
              then show ?thesis using k c \<open>skip_ws s = q # r0\<close> Cons
                by (simp add: m Some [unfolded b] v [symmetric])
            qed (use k c \<open>skip_ws s = q # r0\<close> in \<open>simp add: m Some [unfolded b] v [symmetric]\<close>)
          qed
        qed (use m k c \<open>skip_ws s = q # r0\<close> in auto)
      qed (use m k Cons in simp)
    qed (use m Cons in simp)
  qed (simp add: m)
qed simp_all

subsection \<open>Reading a printed string\<close>

lemma byte_char_iff: "byte c = n \<Longrightarrow> c = char_of n"
  by auto

lemma pstring_plain: "byte c \<noteq> 34 \<Longrightarrow> byte c \<noteq> 92 \<Longrightarrow> 32 \<le> byte c \<Longrightarrow>
    pstring (c # t) = prepend [c] (pstring t)"
  by (simp add: pstring.simps(2) [of c t])

lemma pstring_simple:
  "simple_escape e = Some d \<Longrightarrow> pstring (char_of (92::nat) # e # t) = prepend [d] (pstring t)"
  by (subst pstring.simps(2)) simp

lemma pstring_u4:
  assumes "hex4 h1 h2 h3 h4 = Some u" "u < 55296"
  shows "pstring (char_of (92::nat) # CHR ''u'' # h1 # h2 # h3 # h4 # t) = prepend (encode_rune u) (pstring t)"
  using assms by (subst pstring.simps(2)) (simp add: simple_escape_def)

lemma pstring_escape_ascii:
  assumes "is_ascii c"
  shows "pstring (escape_ascii c @ t) = prepend [c] (pstring t)"
proof -
  have c: "c = char_of (byte c)" by simp
  consider "byte c \<in> {34, 92, 8, 12, 10, 13, 9}"
    | "byte c \<notin> {34, 92, 8, 12, 10, 13, 9}" "byte c < 32 \<or> byte c = 60 \<or> byte c = 62 \<or> byte c = 38"
    | "byte c \<notin> {34, 92}" "32 \<le> byte c" "byte c \<noteq> 60" "byte c \<noteq> 62" "byte c \<noteq> 38"
    by fastforce
  then show ?thesis
  proof cases
    case 1
    then consider "byte c = 34" | "byte c = 92" | "byte c = 8" | "byte c = 12" | "byte c = 10"
      | "byte c = 13" | "byte c = 9" by auto
    then show ?thesis
      by cases (auto simp: escape_ascii_def pstring_simple simple_escape_def dest!: byte_char_iff)
  next
    case 2
    have "byte c < 128" using assms by (simp add: is_ascii_def)
    then have d: "byte c div 16 < 16" "byte c mod 16 < 16" by auto
    have "hex4 (CHR ''0'') (CHR ''0'') (hex_char (byte c div 16)) (hex_char (byte c mod 16)) =
        Some (byte c)"
      using d by (simp add: hex4_def) (simp add: hex_digit_def is_digit_def)
    then have "pstring (char_of (92::nat) # CHR ''u'' # CHR ''0'' # CHR ''0'' #
        hex_char (byte c div 16) # hex_char (byte c mod 16) # t) = prepend [c] (pstring t)"
      using \<open>byte c < 128\<close> by (subst pstring_u4) (auto simp: encode_rune_def)
    with 2 show ?thesis by (auto simp: escape_ascii_def Let_def)
  next
    case 3
    then show ?thesis by (simp add: escape_ascii_def pstring_plain)
  qed
qed

lemma quote_body_step:
  "quote_body [] = []"
  "is_ascii c \<Longrightarrow> quote_body (c # r) = escape_ascii c @ quote_body r"
  "lead2 c \<Longrightarrow> is_cont c1 \<Longrightarrow> quote_body (c # c1 # r) = c # c1 # quote_body r"
  "lead4 c \<Longrightarrow> second_ok c c1 \<Longrightarrow> is_cont c2 \<Longrightarrow> is_cont c3 \<Longrightarrow>
     quote_body (c # c1 # c2 # c3 # r) = c # c1 # c2 # c3 # quote_body r"
proof -
  show "quote_body [] = []" by (simp add: quote_body_def runes_step)
  show "is_ascii c \<Longrightarrow> quote_body (c # r) = escape_ascii c @ quote_body r"
    by (simp add: quote_body_def runes_step quote_rune_def is_ascii_def)
next
  assume a: "lead2 c" "is_cont c1"
  have "128 \<le> (byte c - 192) * 64 + (byte c1 - 128)" "(byte c - 192) * 64 + (byte c1 - 128) < 2048"
    using a by (auto simp: lead2_def is_cont_def)
  with a show "quote_body (c # c1 # r) = c # c1 # quote_body r"
    by (simp add: quote_body_def runes_step quote_rune_def)
next
  assume a: "lead4 c" "second_ok c c1" "is_cont c2" "is_cont c3"
  have "65536 \<le> (byte c - 240) * 262144 + (byte c1 - 128) * 4096 + (byte c2 - 128) * 64 + (byte c3 - 128)"
    using a by (auto simp: lead4_def second_ok_def split: if_splits)
  with a show "quote_body (c # c1 # c2 # c3 # r) = c # c1 # c2 # c3 # quote_body r"
    by (simp add: quote_body_def runes_step quote_rune_def)
qed

lemma quote_body_step3:
  assumes "lead3 c" "second_ok c c1" "is_cont c2"
  shows "quote_body (c # c1 # c2 # r) = c # c1 # c2 # quote_body r \<or>
    (\<exists>h u. quote_body (c # c1 # c2 # r) = char_of (92::nat) # ''u202'' @ h # quote_body r \<and>
       hex4 (CHR ''2'') (CHR ''0'') (CHR ''2'') h = Some u \<and> u < 55296 \<and> encode_rune u = [c, c1, c2])"
proof -
  define u where "u = (byte c - 224) * 4096 + (byte c1 - 128) * 64 + (byte c2 - 128)"
  have q: "quote_body (c # c1 # c2 # r) = quote_rune (u, [c, c1, c2]) @ quote_body r"
    using assms by (simp add: quote_body_def runes_step u_def)
  have b: "224 \<le> byte c" "byte c \<le> 239" "128 \<le> byte c1" "byte c1 \<le> 191" "128 \<le> byte c2" "byte c2 \<le> 191"
    "byte c = 224 \<longrightarrow> 160 \<le> byte c1"
    using assms by (auto simp: lead3_def second_ok_def is_cont_def split: if_splits)
  show ?thesis
  proof (cases "u = 8232 \<or> u = 8233")
    case True
    obtain x y z where xyz: "byte c = 224 + x" "byte c1 = 128 + y" "byte c2 = 128 + z"
      using b by (metis le_Suc_ex)
    then have e: "x * 4096 + y * 64 + z = 8232 \<or> x * 4096 + y * 64 + z = 8233" "y \<le> 63" "z \<le> 63"
      using True b unfolding u_def by auto
    then have "x = 2" by linarith
    with e have "y = 0" by linarith
    with e \<open>x = 2\<close> xyz have "byte c = 226" "byte c1 = 128" "byte c2 = 168 \<or> byte c2 = 169"
      by auto
    then have cs: "c = char_of (226::nat)" "c1 = char_of (128::nat)" "c2 = char_of (168::nat) \<or> c2 = char_of (169::nat)"
      using byte_char_iff by blast+
    from True have "hex4 (CHR ''2'') (CHR ''0'') (CHR ''2'') (hex_char (u mod 16)) = Some u"
      by (auto simp: hex4_def hex_char_def hex_digit_def is_digit_def)
    moreover have "encode_rune u = [c, c1, c2]"
      using True cs unfolding u_def by (auto simp: encode_rune_def)
    ultimately show ?thesis using True q
      by (intro disjI2 exI [of _ "hex_char (u mod 16)"] exI [of _ u]) (auto simp: quote_rune_def)
  next
    case False
    have "\<not> u < 128" using b unfolding u_def by auto
    with False q show ?thesis by (simp add: quote_rune_def)
  qed
qed

lemma pstring_quote_body:
  assumes "utf8_valid s"
  shows "pstring (quote_body s @ dquote # t) = Some (s, t)"
  using assms
proof (induction s rule: utf8_valid_induct)
  case Nil
  then show ?case by (simp add: quote_body_step dquote_def pstring.simps(2))
next
  case (one c r)
  then show ?case by (simp add: quote_body_step pstring_escape_ascii)
next
  case (two c c1 r)
  then show ?case by (simp add: quote_body_step pstring_plain lead2_def is_cont_def)
next
  case (three c c1 c2 r)
  from quote_body_step3 [OF three(1-3), of r] show ?case
  proof
    assume "quote_body (c # c1 # c2 # r) = c # c1 # c2 # quote_body r"
    with three show ?thesis
      by (simp add: pstring_plain lead3_def is_cont_def second_ok_def split: if_splits)
  next
    assume "\<exists>h u. quote_body (c # c1 # c2 # r) = char_of (92::nat) # ''u202'' @ h # quote_body r \<and>
       hex4 (CHR ''2'') (CHR ''0'') (CHR ''2'') h = Some u \<and> u < 55296 \<and> encode_rune u = [c, c1, c2]"
    then obtain h u where
      "quote_body (c # c1 # c2 # r) = char_of (92::nat) # ''u202'' @ h # quote_body r"
      "hex4 (CHR ''2'') (CHR ''0'') (CHR ''2'') h = Some u" "u < 55296" "encode_rune u = [c, c1, c2]"
      by blast
    then show ?thesis using three pstring_u4 by simp
  qed
next
  case (four c c1 c2 c3 r)
  then show ?case
    by (simp add: quote_body_step pstring_plain lead4_def is_cont_def second_ok_def split: if_splits)
qed

subsection \<open>Reading a printed value\<close>

text \<open>What may follow a number without being read as part of it.\<close>

definition stop_num :: "string \<Rightarrow> bool" where
  "stop_num t = (case t of [] \<Rightarrow> True | c # _ \<Rightarrow> \<not> is_digit c \<and> c \<notin> set ''.eE'')"

lemma digits_stop:
  assumes "stop_num t"
  shows "takeWhile is_digit (s @ t) = takeWhile is_digit s"
    "dropWhile is_digit (s @ t) = dropWhile is_digit s @ t"
proof -
  have "takeWhile is_digit t = []" "dropWhile is_digit t = t"
    using assms by (cases t; auto simp: stop_num_def)+
  then show "takeWhile is_digit (s @ t) = takeWhile is_digit s"
    "dropWhile is_digit (s @ t) = dropWhile is_digit s @ t"
    by (induction s) auto
qed

lemma pinteger_append:
  "stop_num t \<Longrightarrow> pinteger s = Some (l, r) \<Longrightarrow> pinteger (s @ t) = Some (l, r @ t)"
  using digits_stop [of t] by (auto simp: pinteger_def split: list.splits if_splits)

lemma pfraction_append:
  assumes t: "stop_num t" and s: "pfraction s = Some (l, r)"
  shows "pfraction (s @ t) = Some (l, r @ t)"
proof (cases s)
  case Nil
  with s t show ?thesis by (auto simp: pfraction_def stop_num_def split: list.splits)
next
  case (Cons c s')
  with s digits_stop [OF t, of s'] show ?thesis by (auto simp: pfraction_def split: if_splits)
qed

lemma pexponent_append:
  assumes t: "stop_num t" and s: "pexponent s = Some (l, r)"
  shows "pexponent (s @ t) = Some (l, r @ t)"
proof (cases s)
  case Nil
  with s t show ?thesis by (auto simp: pexponent_def stop_num_def split: list.splits)
next
  case (Cons c s')
  show ?thesis
  proof (cases s')
    case Nil
    with Cons s t show ?thesis by (auto simp: pexponent_def split: if_splits list.splits)
  next
    case (Cons d s'')
    with \<open>s = c # s'\<close> s digits_stop [OF t, of s''] digits_stop [OF t, of s'] show ?thesis
      by (auto simp: pexponent_def split: if_splits)
  qed
qed

lemma punsigned_append:
  "stop_num t \<Longrightarrow> punsigned s = Some (l, r) \<Longrightarrow> punsigned (s @ t) = Some (l, r @ t)"
  by (auto simp: punsigned_def pinteger_append pfraction_append pexponent_append
      split: option.splits prod.splits)

lemma pnumber_append:
  assumes t: "stop_num t" and s: "valid_number s"
  shows "pnumber (s @ t) = Some (s, t)"
proof (cases s)
  case Nil
  with s show ?thesis by (simp add: valid_number_def pnumber_def)
next
  case (Cons c r)
  with s punsigned_append [OF t, of r r "[]"] punsigned_append [OF t, of s s "[]"] show ?thesis
    by (auto simp: valid_number_def pnumber_def split: if_splits)
qed

lemma valid_number_head:
  assumes "valid_number s"
  obtains c r where "s = c # r" "is_digit c \<or> c = CHR ''-''"
  using assms
  by (cases s) (auto simp: valid_number_def pnumber_def punsigned_def pinteger_def is_digit_def
      split: if_splits option.splits)

lemma json_text_head:
  assumes "json_wf v"
  obtains c r where "json_text v = c # r" "\<not> is_ws c" "c \<noteq> CHR '']''" "c \<noteq> CHR ''}''"
proof (cases v)
  case (JNum n)
  with assms obtain c r where "n = c # r" "is_digit c \<or> c = CHR ''-''"
    using valid_number_head by auto
  moreover from this have "\<not> is_ws c" "c \<noteq> CHR '']''" "c \<noteq> CHR ''}''"
    by (auto simp: is_ws_def is_digit_def)
  ultimately show thesis using JNum that by simp
next
  case (JBool b)
  with that show thesis by (cases b) (auto simp: is_ws_def)
qed (use that in \<open>auto simp: is_ws_def quote_str_def dquote_def split: if_splits\<close>)

lemma skip_ws_id [simp]: "\<not> is_ws c \<Longrightarrow> skip_ws (c # r) = c # r"
  by (simp add: skip_ws_def)

lemma not_ws_simps [simp]:
  "\<not> is_ws (CHR '']'')" "\<not> is_ws (CHR ''}'')" "\<not> is_ws (CHR '','')" "\<not> is_ws (CHR '':'')"
  "\<not> is_ws (CHR ''['')" "\<not> is_ws (CHR ''{'')" "\<not> is_ws dquote" "byte dquote = 34"
  by (simp_all add: is_ws_def dquote_def)

lemma stop_num_simps [simp]:
  "stop_num []" "stop_num (CHR '','' # t)" "stop_num (CHR '']'' # t)" "stop_num (CHR ''}'' # t)"
  by (simp_all add: stop_num_def is_digit_def)

lemma parray_join:
  assumes "\<And>v t n. v \<in> set vs \<Longrightarrow> stop_num t \<Longrightarrow> 2 * length (json_text v @ t) < n \<Longrightarrow>
      pvalue n (json_text v @ t) = Some (v, t)"
    and "vs \<noteq> []"
    and "2 * length (join_comma (map json_text vs) @ CHR '']'' # t) + 1 < n"
  shows "parray n (join_comma (map json_text vs) @ CHR '']'' # t) = Some (vs, t)"
  using assms
proof (induction vs arbitrary: n)
  case (Cons v vs)
  from Cons.prems(3) obtain m where n: "n = Suc m" by (cases n) auto
  show ?case
  proof (cases vs)
    case Nil
    with Cons.prems(1) [of v "CHR '']'' # t" m] Cons.prems(3) n show ?thesis by simp
  next
    case (Cons w ws)
    define u where "u = join_comma (map json_text vs) @ CHR '']'' # t"
    have "pvalue m (json_text v @ CHR '','' # u) = Some (v, CHR '','' # u)"
      using Cons.prems(1,3) n Cons by (simp add: u_def)
    moreover have "parray m u = Some (vs, t)"
      unfolding u_def using Cons.IH Cons.prems(1,3) n Cons by simp
    ultimately show ?thesis using n Cons by (simp add: u_def)
  qed
qed simp

definition member_text :: "string \<times> json \<Rightarrow> string" where
  "member_text = (\<lambda>(k, v). quote_str k @ '':'' @ json_text v)"

lemma pobject_member:
  assumes "utf8_valid k" "k \<notin> set seen" "pvalue m (json_text v @ c # u) = Some (v, c # u)"
  shows "pobject (Suc m) seen (member_text (k, v) @ c # u) =
    (case skip_ws (c # u) of [] \<Rightarrow> None
     | d # t \<Rightarrow> if d = CHR ''}'' then Some ([(k, v)], t)
               else if d = CHR '','' then prepend [(k, v)] (pobject m (k # seen) t) else None)"
proof -
  have "member_text (k, v) @ c # u = dquote # quote_body k @ dquote # CHR '':'' # json_text v @ c # u"
    by (simp add: member_text_def quote_str_def)
  with assms pstring_quote_body [of k "CHR '':'' # json_text v @ c # u"] show ?thesis
    by simp
qed

lemma pobject_join:
  assumes "\<And>k v t n. (k, v) \<in> set kvs \<Longrightarrow> stop_num t \<Longrightarrow> 2 * length (json_text v @ t) < n \<Longrightarrow>
      pvalue n (json_text v @ t) = Some (v, t)"
    and "kvs \<noteq> []" "distinct (map fst kvs)" "\<forall>(k, v)\<in>set kvs. utf8_valid k \<and> k \<notin> set seen"
    and "2 * length (join_comma (map member_text kvs) @ CHR ''}'' # t) + 1 < n"
  shows "pobject n seen (join_comma (map member_text kvs) @ CHR ''}'' # t) = Some (kvs, t)"
  using assms
proof (induction kvs arbitrary: n seen)
  case (Cons kv kvs)
  obtain k v where kv: "kv = (k, v)" by (cases kv)
  from Cons.prems(5) obtain m where n: "n = Suc m" by (cases n) auto
  have len: "length (member_text kv) = length (quote_str k) + 1 + length (json_text v)"
    by (simp add: member_text_def kv)
  show ?case
  proof (cases kvs)
    case Nil
    with Cons.prems n kv len have "pvalue m (json_text v @ CHR ''}'' # t) = Some (v, CHR ''}'' # t)"
      by simp
    with Nil n kv Cons.prems(4) show ?thesis by (simp add: pobject_member del: pobject.simps)
  next
    case (Cons w ws)
    define u where "u = join_comma (map member_text kvs) @ CHR ''}'' # t"
    have "pvalue m (json_text v @ CHR '','' # u) = Some (v, CHR '','' # u)"
      by (rule Cons.prems(1)) (use Cons.prems(5) n Cons kv len in \<open>auto simp: u_def\<close>)
    moreover have "pobject m (k # seen) u = Some (kvs, t)"
      unfolding u_def
    proof (rule Cons.IH)
      show "\<forall>(k', v')\<in>set kvs. utf8_valid k' \<and> k' \<notin> set (k # seen)"
        using Cons.prems(3,4) kv by (fastforce simp: image_iff)
    qed (use Cons.prems n Cons kv len in auto)
    ultimately show ?thesis using n Cons kv Cons.prems(4)
      by (simp add: u_def pobject_member del: pobject.simps)
  qed
qed simp

lemma pvalue_json_text:
  "json_wf v \<Longrightarrow> stop_num t \<Longrightarrow> 2 * length (json_text v @ t) < n \<Longrightarrow>
     pvalue n (json_text v @ t) = Some (v, t)"
proof (induction v arbitrary: n t)
  case (JNum x)
  then obtain m where n: "n = Suc m" by (cases n) auto
  obtain c r where x: "x = c # r" "is_digit c \<or> c = CHR ''-''"
    using JNum(1) valid_number_head by auto
  then have "\<not> is_ws c" "c \<notin> {CHR ''{'', CHR ''['', CHR ''t'', CHR ''f'', CHR ''n''}" "byte c \<noteq> 34"
    by (auto simp: is_ws_def is_digit_def)
  with pnumber_append [OF JNum(2), of x] JNum(1) x n show ?case by simp
next
  case (JStr x)
  then obtain m where n: "n = Suc m" by (cases n) auto
  from JStr pstring_quote_body [of x t] n show ?case
    by (simp add: quote_str_def) (simp add: dquote_def)
next
  case (JArr vs)
  then obtain m where n: "n = Suc m" by (cases n) auto
  show ?case
  proof (cases vs)
    case (Cons w ws)
    with JArr.prems(1) have "json_wf w" by simp
    then obtain c r where "json_text w = c # r" "\<not> is_ws c" "c \<noteq> CHR '']''"
      using json_text_head by blast
    then have "\<not> has_prefix (skip_ws (join_comma (map json_text vs) @ CHR '']'' # t)) '']''"
      using Cons by (cases ws) (auto simp: has_prefix_def)
    moreover have "parray m (join_comma (map json_text vs) @ CHR '']'' # t) = Some (vs, t)"
      by (rule parray_join) (use JArr n Cons in \<open>auto simp: list_all_iff\<close>)
    ultimately show ?thesis using n by simp
  qed (simp add: n has_prefix_def)
next
  case (JObj kvs)
  then obtain m where n: "n = Suc m" by (cases n) auto
  show ?case
  proof (cases kvs)
    case (Cons w ws)
    then have "\<not> has_prefix (skip_ws (join_comma (map member_text kvs) @ CHR ''}'' # t)) ''}''"
      by (cases ws; cases w) (auto simp: has_prefix_def member_text_def quote_str_def, auto simp: dquote_def)
    moreover have "pobject m [] (join_comma (map member_text kvs) @ CHR ''}'' # t) = Some (kvs, t)"
    proof (rule pobject_join)
      show "2 * length (join_comma (map member_text kvs) @ CHR ''}'' # t) + 1 < m"
        using JObj.prems(3) n by (simp add: member_text_def)
    next
      fix k v u i
      assume "(k, v) \<in> set kvs" "stop_num u" "2 * length (json_text v @ u) < i"
      then show "pvalue i (json_text v @ u) = Some (v, u)"
        using JObj.prems(1) by (intro JObj.IH [of "(k, v)"]) (auto simp: list_all_iff)
    qed (use JObj.prems Cons in \<open>auto simp: list_all_iff\<close>)
    ultimately show ?thesis using n by (simp add: member_text_def)
  qed (simp add: n has_prefix_def)
next
  case JNull
  then obtain m where n: "n = Suc m" by (cases n) auto
  then show ?case by (simp add: plit_def has_prefix_def is_ws_def)
next
  case (JBool b)
  then obtain m where n: "n = Suc m" by (cases n) auto
  then show ?case by (simp add: plit_def has_prefix_def is_ws_def)
qed

lemma parse_json_text: "json_wf v \<Longrightarrow> parse_json (json_text v) = Some v"
  using pvalue_json_text [of v "[]"] by (simp add: parse_json_def skip_ws_def del: pvalue.simps)

end
