(* ===== verification/GoTime.thy ===== *)
theory GoTime
  imports GoStd
begin

text \<open>
  Package \<open>time\<close> as the Provider uses it. A \<open>time.Time\<close> in UTC is its proleptic Gregorian
  date and clock reading down to nanoseconds, and instants compare lexicographically on those
  fields; \<open>is_utc\<close> tells whether the value's location is \<open>time.UTC\<close>. \<open>parse_rfc3339\<close> is
  \<open>time.Parse(time.RFC3339, v)\<close> on values that end in \<open>Z\<close>, the only ones its callers let
  through, with the leniencies of the Go parser (a one-digit hour, a comma before the
  fraction). \<open>format_rfc3339_nano\<close> prints a UTC time the way \<open>MarshalJSON\<close> does.
\<close>

record go_time =
  yr_of :: nat
  mon_of :: nat
  day_of :: nat
  hour_of :: nat
  min_of :: nat
  sec_of :: nat
  nsec_of :: nat
  is_utc :: bool

definition zero_time :: go_time where
  "zero_time = \<lparr>yr_of = 1, mon_of = 1, day_of = 1, hour_of = 0, min_of = 0, sec_of = 0, nsec_of = 0, is_utc = True\<rparr>"

definition instant :: "go_time \<Rightarrow> nat list" where
  "instant t = [yr_of t, mon_of t, day_of t, hour_of t, min_of t, sec_of t, nsec_of t]"

definition is_zero_time :: "go_time \<Rightarrow> bool" where
  "is_zero_time t \<longleftrightarrow> instant t = instant zero_time"

definition before :: "go_time \<Rightarrow> go_time \<Rightarrow> bool" where
  "before s t \<longleftrightarrow> instant s < instant t"

definition time_equal :: "go_time \<Rightarrow> go_time \<Rightarrow> bool" where
  "time_equal s t \<longleftrightarrow> instant s = instant t"

definition is_leap :: "nat \<Rightarrow> bool" where
  "is_leap y \<longleftrightarrow> y mod 4 = 0 \<and> (y mod 100 \<noteq> 0 \<or> y mod 400 = 0)"

definition days_in :: "nat \<Rightarrow> nat \<Rightarrow> nat" where
  "days_in m y = (if m = 2 then (if is_leap y then 29 else 28)
                  else if m \<in> {4, 6, 9, 11} then 30 else 31)"

text \<open>\<open>getnum\<close>: two digits, or one when not fixed.\<close>

fun get_num :: "bool \<Rightarrow> string \<Rightarrow> (nat \<times> string) option" where
  "get_num fixed [] = None"
| "get_num fixed (c # cs) =
     (if \<not> is_digit c then None
      else case cs of
        d # ds \<Rightarrow> if is_digit d then Some ((byte c - 48) * 10 + (byte d - 48), ds)
                  else if fixed then None else Some (byte c - 48, cs)
      | [] \<Rightarrow> if fixed then None else Some (byte c - 48, cs))"

definition expect :: "char \<Rightarrow> string \<Rightarrow> string option" where
  "expect c s = (case s of d # ds \<Rightarrow> if d = c then Some ds else None | [] \<Rightarrow> None)"

definition get_year :: "string \<Rightarrow> (nat \<times> string) option" where
  "get_year s = (if length s < 4 then None
     else map_option (\<lambda>n. (n, drop 4 s)) (digits_val 0 (take 4 s)))"

text \<open>The fraction after the seconds: nine significant digits, the rest dropped.\<close>

definition frac_digits :: "string \<Rightarrow> nat" where
  "frac_digits ds = the (digits_val 0 (take 9 (ds @ replicate 9 (CHR ''0''))))"

definition get_fraction :: "string \<Rightarrow> nat \<times> string" where
  "get_fraction s =
     (case s of c # d # r \<Rightarrow>
          if (c = CHR ''.'' \<or> c = CHR '','') \<and> is_digit d
          then (frac_digits (takeWhile is_digit (d # r)), dropWhile is_digit (d # r))
          else (0, s)
      | _ \<Rightarrow> (0, s))"

definition parse_rfc3339 :: "string \<Rightarrow> go_time option" where
  "parse_rfc3339 v =
     Option.bind (get_year v) (\<lambda>(y, v). Option.bind (expect (CHR ''-'') v) (\<lambda>v.
     Option.bind (get_num True v) (\<lambda>(m, v). Option.bind (expect (CHR ''-'') v) (\<lambda>v.
     Option.bind (get_num True v) (\<lambda>(d, v). Option.bind (expect (CHR ''T'') v) (\<lambda>v.
     Option.bind (get_num False v) (\<lambda>(h, v). Option.bind (expect (CHR '':'') v) (\<lambda>v.
     Option.bind (get_num True v) (\<lambda>(mn, v). Option.bind (expect (CHR '':'') v) (\<lambda>v.
     Option.bind (get_num True v) (\<lambda>(s, v).
       (let (f, v) = get_fraction v in
        if v = ''Z'' \<and> 1 \<le> m \<and> m \<le> 12 \<and> 1 \<le> d \<and> d \<le> days_in m y
           \<and> h < 24 \<and> mn < 60 \<and> s < 60
        then Some \<lparr>yr_of = y, mon_of = m, day_of = d, hour_of = h, min_of = mn, sec_of = s, nsec_of = f, is_utc = True\<rparr>
        else None))))))))))))"

subsection \<open>Printing\<close>

fun pad :: "nat \<Rightarrow> nat \<Rightarrow> string" where
  "pad 0 n = []"
| "pad (Suc w) n = pad w (n div 10) @ [char_of (48 + n mod 10)]"

definition fraction_text :: "nat \<Rightarrow> string" where
  "fraction_text n = (if n = 0 then [] else CHR ''.'' # trim_right_byte (CHR ''0'') (pad 9 n))"

definition format_rfc3339_nano :: "go_time \<Rightarrow> string" where
  "format_rfc3339_nano t =
     pad 4 (yr_of t) @ ''-'' @ pad 2 (mon_of t) @ ''-'' @ pad 2 (day_of t) @ ''T'' @ pad 2 (hour_of t) @ '':'' @
     pad 2 (min_of t) @ '':'' @ pad 2 (sec_of t) @ fraction_text (nsec_of t) @ ''Z''"

text \<open>A date and clock reading that exists and that \<open>MarshalJSON\<close> accepts.\<close>

definition time_ok :: "go_time \<Rightarrow> bool" where
  "time_ok t \<longleftrightarrow> is_utc t \<and> yr_of t \<le> 9999 \<and> 1 \<le> mon_of t \<and> mon_of t \<le> 12 \<and> 1 \<le> day_of t \<and>
     day_of t \<le> days_in (mon_of t) (yr_of t) \<and> hour_of t < 24 \<and> min_of t < 60 \<and> sec_of t < 60 \<and> nsec_of t < 10 ^ 9"

subsection \<open>Facts\<close>

lemma before_irrefl [simp]: "\<not> before t t"
  by (simp add: before_def)

lemma before_trans: "before a b \<Longrightarrow> before b c \<Longrightarrow> before a c"
  by (simp add: before_def)

lemma not_before_trans: "\<not> before b a \<Longrightarrow> \<not> before c b \<Longrightarrow> \<not> before c a"
  by (auto simp: before_def not_less)

lemma utc_instant_inject:
  "is_utc s \<Longrightarrow> is_utc t \<Longrightarrow> instant s = instant t \<Longrightarrow> s = t"
  by (cases s, cases t) (simp add: instant_def)

lemma time_ok_zero [simp]: "time_ok zero_time"
  by (simp add: time_ok_def zero_time_def days_in_def)

lemma length_pad [simp]: "length (pad w n) = w"
  by (induction w arbitrary: n) auto

lemma pad_digits: "c \<in> set (pad w n) \<Longrightarrow> is_digit c"
  by (induction w arbitrary: n) auto

lemma digits_val_pad [simp]: "n < 10 ^ w \<Longrightarrow> digits_val 0 (pad w n) = Some n"
proof (induction w arbitrary: n)
  case 0
  then show ?case by simp
next
  case (Suc w)
  then have "n div 10 < 10 ^ w" by (simp add: less_mult_imp_div_less mult.commute)
  with Suc.IH have "digits_val 0 (pad w (n div 10)) = Some (n div 10)" by simp
  then show ?case by (simp add: digits_val_append)
qed

lemma get_num_pad [simp]: "n < 100 \<Longrightarrow> get_num b (pad 2 n @ s) = Some (n, s)"
  by (auto simp: numeral_2_eq_2 mod_less_divisor)

lemma expect_Cons [simp]: "expect c (c # s) = Some s"
  by (simp add: expect_def)

lemma get_year_pad [simp]: "n < 10000 \<Longrightarrow> get_year (pad 4 n @ s) = Some (n, s)"
  by (simp add: get_year_def)

lemma trim_right_zeros:
  "\<exists>k. ds = trim_right_byte (CHR ''0'') ds @ replicate k (CHR ''0'')"
proof -
  have "ds = rev (dropWhile (\<lambda>d. d = CHR ''0'') (rev ds)) @ rev (takeWhile (\<lambda>d. d = CHR ''0'') (rev ds))"
    by (metis rev_append rev_rev_ident takeWhile_dropWhile_id)
  moreover have "takeWhile (\<lambda>d. d = CHR ''0'') (rev ds) =
      replicate (length (takeWhile (\<lambda>d. d = CHR ''0'') (rev ds))) (CHR ''0'')"
    by (rule replicate_length_same [symmetric]) (auto dest: set_takeWhileD)
  then have "rev (takeWhile (\<lambda>d. d = CHR ''0'') (rev ds)) =
      replicate (length (takeWhile (\<lambda>d. d = CHR ''0'') (rev ds))) (CHR ''0'')"
    by (metis rev_replicate)
  ultimately show ?thesis unfolding trim_right_byte_def by metis
qed

lemma frac_digits_trim:
  assumes "n < 10 ^ 9"
  shows "frac_digits (trim_right_byte (CHR ''0'') (pad 9 n)) = n"
proof -
  obtain k where k: "pad 9 n = trim_right_byte (CHR ''0'') (pad 9 n) @ replicate k (CHR ''0'')"
    using trim_right_zeros by blast
  then have "length (trim_right_byte (CHR ''0'') (pad 9 n)) + k = 9"
    by (metis length_append length_pad length_replicate)
  then have "take 9 (trim_right_byte (CHR ''0'') (pad 9 n) @ replicate 9 (CHR ''0'')) = pad 9 n"
    by (subst (2) k) auto
  then show ?thesis using assms by (simp add: frac_digits_def)
qed

lemma trim_right_not_Nil:
  assumes "0 < n" "n < 10 ^ 9"
  shows "trim_right_byte (CHR ''0'') (pad 9 n) \<noteq> []"
proof
  assume "trim_right_byte (CHR ''0'') (pad 9 n) = []"
  then have "frac_digits [] = n" using frac_digits_trim assms by metis
  moreover have "frac_digits [] = 0" by (simp add: frac_digits_def eval_nat_numeral is_digit_def)
  ultimately show False using assms by simp
qed

lemma trim_right_digits: "c \<in> set (trim_right_byte (CHR ''0'') (pad 9 n)) \<Longrightarrow> is_digit c"
  by (metis UnI1 pad_digits set_append trim_right_zeros)

lemma takeWhile_dropWhile_stop:
  assumes "\<forall>x\<in>set xs. P x" "\<not> P y"
  shows "takeWhile P (xs @ y # ys) = xs" "dropWhile P (xs @ y # ys) = y # ys"
  using assms by (induction xs) auto

lemma get_fraction_text:
  assumes "n < 10 ^ 9"
  shows "get_fraction (fraction_text n @ ''Z'') = (n, ''Z'')"
proof (cases "n = 0")
  case True
  then show ?thesis by (simp add: fraction_text_def get_fraction_def)
next
  case False
  define ds where "ds = trim_right_byte (CHR ''0'') (pad 9 n)"
  have z: "\<not> is_digit (CHR ''Z'')" by (simp add: is_digit_def)
  have dig: "\<forall>c\<in>set ds. is_digit c" using trim_right_digits ds_def by blast
  from False assms obtain d r where ds: "ds = d # r"
    using trim_right_not_Nil ds_def by (metis list.exhaust not_gr_zero)
  have "get_fraction (CHR ''.'' # ds @ ''Z'') = (frac_digits ds, ''Z'')"
    using ds dig z takeWhile_dropWhile_stop [OF dig z, of "[]"]
    by (simp add: get_fraction_def)
  then show ?thesis using False assms frac_digits_trim
    by (simp add: fraction_text_def ds_def)
qed

lemma parse_format_rfc3339:
  assumes "time_ok t"
  shows "parse_rfc3339 (format_rfc3339_nano t) = Some t"
proof -
  from assms have b: "yr_of t < 10000" "mon_of t < 100" "day_of t < 100" "hour_of t < 100" "min_of t < 100" "sec_of t < 100"
    by (auto simp: time_ok_def days_in_def split: if_splits)
  from assms have "nsec_of t < 10 ^ 9" by (simp add: time_ok_def)
  note f = get_fraction_text [OF this]
  from b f assms show ?thesis
    by (cases t) (simp add: parse_rfc3339_def format_rfc3339_nano_def time_ok_def del: pad.simps)
qed

lemma instant_utc_eq_zero: "is_utc t \<Longrightarrow> is_zero_time t \<longleftrightarrow> t = zero_time"
  by (cases t) (auto simp: is_zero_time_def instant_def zero_time_def)


lemma digits_val_bound:
  "digits_val a s = Some n \<Longrightarrow> n < (a + 1) * 10 ^ length s"
proof (induction s arbitrary: a)
  case (Cons c s)
  then have d: "is_digit c" and r: "digits_val (a * 10 + (byte c - 48)) s = Some n" by (auto split: if_splits)
  have "byte c - 48 < 10" using d unfolding is_digit_def by linarith
  then have "a * 10 + (byte c - 48) + 1 \<le> (a + 1) * 10" by simp
  then have "(a * 10 + (byte c - 48) + 1) * 10 ^ length s \<le> (a + 1) * 10 * 10 ^ length s" by (rule mult_le_mono1)
  with Cons.IH [OF r] have "n < (a + 1) * 10 * 10 ^ length s" by (rule less_le_trans)
  then show ?case by (simp add: algebra_simps)
qed simp

lemma frac_digits_bound:
  assumes "list_all is_digit ds"
  shows "frac_digits ds < 10 ^ 9"
proof -
  let ?x = "take 9 (ds @ replicate 9 (CHR ''0''))"
  have ex: "\<exists>n. digits_val a s = Some n" if "list_all is_digit s" for a s
    using that by (induction s arbitrary: a) auto
  have "list_all is_digit ?x" using assms
    by (auto simp: list_all_iff is_digit_def dest!: in_set_takeD)
  from ex [OF this] obtain n where n: "digits_val 0 ?x = Some n" by blast
  moreover have "length ?x = 9" by simp
  ultimately show ?thesis using digits_val_bound [OF n] by (simp add: frac_digits_def)
qed

lemma get_year_bound: "get_year v = Some (y, r) \<Longrightarrow> y \<le> 9999"
  using digits_val_bound [of 0 "take 4 v" y] by (auto simp: get_year_def min_def split: if_splits)

lemma get_fraction_bound: "fst (get_fraction v) < 10 ^ 9"
proof -
  have "list_all is_digit (takeWhile is_digit s)" for s by (induction s) auto
  then show ?thesis using frac_digits_bound
    by (auto simp: get_fraction_def simp del: takeWhile.simps split: list.splits if_splits)
qed

lemma parse_rfc3339_ok: "parse_rfc3339 v = Some t \<Longrightarrow> time_ok t"
  using get_fraction_bound
  by (auto simp: parse_rfc3339_def time_ok_def Let_def case_prod_beta bind_eq_Some_conv
      dest: get_year_bound split: if_splits)

end
