(* ===== verification/GoBase64.thy ===== *)
theory GoBase64
  imports GoStd
begin

text \<open>
  \<open>encoding/base64.StdEncoding\<close>: padded encoding, and decoding with or without \<open>Strict\<close>
  (zero padding bits). Line breaks in the input are skipped, as the Go decoder skips them.
\<close>

definition b64_char :: "nat \<Rightarrow> char" where
  "b64_char n =
     (if n < 26 then char_of (65 + n) else if n < 52 then char_of (71 + n)
      else if n < 62 then char_of (n - 4) else if n = 62 then CHR ''+'' else CHR ''/'')"

definition b64_val :: "char \<Rightarrow> nat option" where
  "b64_val c =
     (if is_upper c then Some (byte c - 65) else if is_lower c then Some (byte c - 71)
      else if is_digit c then Some (byte c + 4) else if c = CHR ''+'' then Some 62
      else if c = CHR ''/'' then Some 63 else None)"

fun b64_encode :: "string \<Rightarrow> string" where
  "b64_encode [] = []"
| "b64_encode [a] = [b64_char (byte a div 4), b64_char (byte a mod 4 * 16), CHR ''='', CHR ''='']"
| "b64_encode [a, b] =
     [b64_char (byte a div 4), b64_char (byte a mod 4 * 16 + byte b div 16),
      b64_char (byte b mod 16 * 4), CHR ''='']"
| "b64_encode (a # b # c # r) =
     b64_char (byte a div 4) # b64_char (byte a mod 4 * 16 + byte b div 16) #
     b64_char (byte b mod 16 * 4 + byte c div 64) # b64_char (byte c mod 64) # b64_encode r"

fun b64_groups :: "bool \<Rightarrow> string \<Rightarrow> string option" where
  "b64_groups strict [] = Some []"
| "b64_groups strict (p # q # r # s # t) =
     (case (b64_val p, b64_val q) of
        (Some w, Some x) \<Rightarrow>
          (case (b64_val r, b64_val s) of
             (Some y, Some z) \<Rightarrow>
               map_option (\<lambda>u. char_of (w * 4 + x div 16) # char_of (x mod 16 * 16 + y div 4)
                 # char_of (y mod 4 * 64 + z) # u) (b64_groups strict t)
           | (Some y, None) \<Rightarrow>
               if s = CHR ''='' \<and> t = [] \<and> (strict \<longrightarrow> y mod 4 = 0)
               then Some [char_of (w * 4 + x div 16), char_of (x mod 16 * 16 + y div 4)] else None
           | _ \<Rightarrow>
               if r = CHR ''='' \<and> s = CHR ''='' \<and> t = [] \<and> (strict \<longrightarrow> x mod 16 = 0)
               then Some [char_of (w * 4 + x div 16)] else None)
      | _ \<Rightarrow> None)"
| "b64_groups strict _ = None"

definition b64_decode :: "bool \<Rightarrow> string \<Rightarrow> string option" where
  "b64_decode strict s = b64_groups strict (filter (\<lambda>c. byte c \<noteq> 10 \<and> byte c \<noteq> 13) s)"

lemma b64_val_char [simp]: "n < 64 \<Longrightarrow> b64_val (b64_char n) = Some n"
  by (auto simp: b64_val_def b64_char_def is_upper_def is_lower_def is_digit_def)

lemma b64_val_pad [simp]: "b64_val (CHR ''='') = None"
  by (simp add: b64_val_def is_upper_def is_lower_def is_digit_def)

lemma b64_char_range: "n < 64 \<Longrightarrow> 43 \<le> byte (b64_char n) \<and> byte (b64_char n) < 128"
  by (auto simp: b64_char_def)

lemma b64_parts:
  "byte a div 4 < 64" "byte a mod 4 * 16 + byte b div 16 < 64" "byte b mod 16 * 4 + byte c div 64 < 64"
  "byte a mod 4 * 16 < 64" "byte b mod 16 * 4 < 64" "byte c mod 64 < 64"
proof -
  have q: "byte a div 4 < 64" "byte b div 16 < 16" "byte c div 64 < 4"
    by (rule less_mult_imp_div_less, simp)+
  have "byte a mod 4 < 4" "byte b mod 16 < 16" by simp_all
  with q show "byte a mod 4 * 16 + byte b div 16 < 64" "byte b mod 16 * 4 + byte c div 64 < 64"
    "byte a mod 4 * 16 < 64" "byte b mod 16 * 4 < 64" by linarith+
qed (simp_all add: less_mult_imp_div_less)

lemma b64_groups_encode: "b64_groups strict (b64_encode s) = Some s"
proof (induction s rule: b64_encode.induct)
  case (2 a)
  show ?case by (simp add: b64_parts)
next
  case (3 a b)
  have "byte b div 16 < 16" using byte_less_256 [of b] by linarith
  then show ?case using b64_parts by (simp add: div_mult_mod_eq)
next
  case (4 a b c r)
  have "byte b div 16 < 16" "byte c div 64 < 4" using byte_less_256 [of b] byte_less_256 [of c] by linarith+
  then show ?case using b64_parts 4 by (simp add: div_mult_mod_eq)
qed simp

lemma b64_encode_range: "c \<in> set (b64_encode s) \<Longrightarrow> 43 \<le> byte c \<and> byte c < 128"
proof (induction s rule: b64_encode.induct)
  case (2 a)
  then show ?case using b64_char_range b64_parts by auto
next
  case (3 a b)
  then show ?case using b64_char_range b64_parts by auto
next
  case (4 a b c r)
  then show ?case using b64_char_range b64_parts by auto
qed simp

lemma b64_decode_encode: "b64_decode strict (b64_encode s) = Some s"
proof -
  have "filter (\<lambda>c. byte c \<noteq> 10 \<and> byte c \<noteq> 13) (b64_encode s) = b64_encode s"
    by (rule filter_True) (use b64_encode_range in fastforce)
  then show ?thesis by (simp add: b64_decode_def b64_groups_encode)
qed

lemma utf8_valid_b64_encode: "utf8_valid (b64_encode s)"
  by (rule utf8_valid_ascii) (auto simp: list_all_iff is_ascii_def dest: b64_encode_range)

end
