(* ===== verification/JsonV2.thy ===== *)
theory JsonV2
  imports GoJson GoTime GoBase64
begin

text \<open>
  \<open>internal/jsonv2\<close>: the strict JSON boundary. \<open>validate\<close>, \<open>decode\<close>, \<open>validate_value\<close> and
  \<open>marshal\<close> are its four functions. A Go value as reflection and \<open>encoding/json\<close> see it is a
  \<open>goval\<close>; struct fields carry their JSON name and \<open>omitempty\<close> flag, unexported and
  \<open>json:"-"\<close> fields are left out.
\<close>

datatype json_error =
    InvalidEncoding | InvalidValue | TrailingData | InvalidUnicode | NotJSON | EmittedInvalid

subsection \<open>Surrogate escapes\<close>

definition hex_code_unit :: "string \<Rightarrow> nat option" where
  "hex_code_unit s = (case s of a # b # c # d # _ \<Rightarrow> hex4 a b c d | _ \<Rightarrow> None)"

text \<open>Outside and inside a string literal, as the two nested loops run.\<close>

fun surr_out :: "string \<Rightarrow> bool" and surr_in :: "string \<Rightarrow> bool" where
  "surr_out [] = True"
| "surr_out (c # cs) = (if byte c = 34 then surr_in cs else surr_out cs)"
| "surr_in [] = False"
| "surr_in (c # cs) =
     (if byte c = 34 then surr_out cs
      else if byte c = 92 then
        (case cs of [] \<Rightarrow> False
         | e # r \<Rightarrow>
            if e = CHR ''u'' then
              (case r of h1 # h2 # h3 # h4 # r2 \<Rightarrow>
                 (case hex_code_unit r of None \<Rightarrow> surr_in r
                  | Some unit \<Rightarrow>
                     if 55296 \<le> unit \<and> unit \<le> 56319 then
                       (case r2 of b0 # b1 # l1 # l2 # l3 # l4 # r3 \<Rightarrow>
                          (if byte b0 \<noteq> 92 \<or> b1 \<noteq> CHR ''u'' then False
                           else case hex_code_unit (l1 # l2 # l3 # l4 # r3) of None \<Rightarrow> False
                           | Some low \<Rightarrow> if low < 56320 \<or> 57343 < low then False else surr_in r3)
                        | _ \<Rightarrow> False)
                     else if 56320 \<le> unit \<and> unit \<le> 57343 then False
                     else surr_in r2)
               | _ \<Rightarrow> surr_in r)
            else surr_in r)
      else surr_in cs)"

definition valid_surrogate_escapes :: "string \<Rightarrow> bool" where
  "valid_surrogate_escapes data = surr_out data"

subsection \<open>Validate and Decode\<close>

definition validate :: "string \<Rightarrow> json_error + unit" where
  "validate data =
     (if \<not> utf8_valid data \<or> \<not> valid_surrogate_escapes data then Inl InvalidEncoding
      else case pvalue (2 * length data + 1) data of
        None \<Rightarrow> Inl InvalidValue
      | Some (_, r) \<Rightarrow> if skip_ws r = [] then Inr () else Inl TrailingData)"

text \<open>\<open>json.Decoder\<close> refuses more than ten thousand levels of nesting.\<close>

definition decode :: "string \<Rightarrow> json_error + json" where
  "decode data =
     (case validate data of Inl e \<Rightarrow> Inl e
      | Inr _ \<Rightarrow> (case parse_json data of None \<Rightarrow> Inl InvalidValue
          | Some v \<Rightarrow> if json_depth v \<le> 10000 then Inr v else Inl InvalidValue))"

subsection \<open>Go values\<close>

datatype goval =
    GInvalid
  | GIface "goval option"
  | GBool bool
  | GInt int
  | GNumber string
  | GString string
  | GBytes "string option"
  | GSlice "goval list option"
  | GMap "(string \<times> goval) list option"
  | GStruct "(string \<times> bool \<times> goval) list"
  | GTime go_time
  | GRaw "string option"

fun valid_utf8_value :: "goval \<Rightarrow> nat \<Rightarrow> bool" where
  "valid_utf8_value v depth =
     (if 1024 < depth then False
      else case v of
        GInvalid \<Rightarrow> True
      | GRaw None \<Rightarrow> True
      | GRaw (Some b) \<Rightarrow> ok (validate b)
      | GIface None \<Rightarrow> True
      | GIface (Some w) \<Rightarrow> valid_utf8_value w (Suc depth)
      | GString s \<Rightarrow> utf8_valid s
      | GNumber s \<Rightarrow> utf8_valid s
      | GMap None \<Rightarrow> True
      | GMap (Some kvs) \<Rightarrow>
          list_all (\<lambda>(k, w). depth < 1024 \<and> utf8_valid k \<and> valid_utf8_value w (Suc depth)) kvs
      | GSlice None \<Rightarrow> True
      | GSlice (Some vs) \<Rightarrow> list_all (\<lambda>w. valid_utf8_value w (Suc depth)) vs
      | GBytes None \<Rightarrow> True
      | GBytes (Some b) \<Rightarrow> b = [] \<or> depth < 1024
      | GStruct fs \<Rightarrow> list_all (\<lambda>(_, _, w). valid_utf8_value w (Suc depth)) fs
      | GBool _ \<Rightarrow> True
      | GInt _ \<Rightarrow> True
      | GTime _ \<Rightarrow> True)"

text \<open>The same by constructor, for evaluation.\<close>

lemma valid_utf8_value_code [code]:
  "valid_utf8_value GInvalid d = (d \<le> 1024)"
  "valid_utf8_value (GRaw None) d = (d \<le> 1024)"
  "valid_utf8_value (GRaw (Some b)) d = (d \<le> 1024 \<and> ok (validate b))"
  "valid_utf8_value (GIface None) d = (d \<le> 1024)"
  "valid_utf8_value (GIface (Some w)) d = (d \<le> 1024 \<and> valid_utf8_value w (Suc d))"
  "valid_utf8_value (GString s) d = (d \<le> 1024 \<and> utf8_valid s)"
  "valid_utf8_value (GNumber s) d = (d \<le> 1024 \<and> utf8_valid s)"
  "valid_utf8_value (GMap None) d = (d \<le> 1024)"
  "valid_utf8_value (GMap (Some kvs)) d = (d \<le> 1024 \<and>
     list_all (\<lambda>(k, w). d < 1024 \<and> utf8_valid k \<and> valid_utf8_value w (Suc d)) kvs)"
  "valid_utf8_value (GSlice None) d = (d \<le> 1024)"
  "valid_utf8_value (GSlice (Some vs)) d = (d \<le> 1024 \<and> list_all (\<lambda>w. valid_utf8_value w (Suc d)) vs)"
  "valid_utf8_value (GBytes None) d = (d \<le> 1024)"
  "valid_utf8_value (GBytes (Some b)) d = (d \<le> 1024 \<and> (b = [] \<or> d < 1024))"
  "valid_utf8_value (GStruct fs) d = (d \<le> 1024 \<and>
     list_all (\<lambda>(_, _, w). valid_utf8_value w (Suc d)) fs)"
  "valid_utf8_value (GBool x) d = (d \<le> 1024)"
  "valid_utf8_value (GInt i) d = (d \<le> 1024)"
  "valid_utf8_value (GTime t) d = (d \<le> 1024)"
  by (subst valid_utf8_value.simps; auto simp del: valid_utf8_value.simps)+

definition validate_value :: "goval \<Rightarrow> json_error + unit" where
  "validate_value v = (if valid_utf8_value v 0 then Inr () else Inl InvalidUnicode)"

text \<open>
  What \<open>json.Marshal\<close> builds: map keys in byte order, struct fields in declaration order
  without the empty ones marked \<open>omitempty\<close>, byte slices in base64, times in RFC 3339. \<open>None\<close>
  is its error (a malformed number, a time outside years 0 to 9999, malformed raw JSON).
\<close>

fun is_empty_value :: "goval \<Rightarrow> bool" where
  "is_empty_value (GIface v) = (v = None)"
| "is_empty_value (GBool b) = (\<not> b)"
| "is_empty_value (GInt i) = (i = 0)"
| "is_empty_value (GNumber s) = (s = [])"
| "is_empty_value (GString s) = (s = [])"
| "is_empty_value (GBytes b) = (b = None \<or> b = Some [])"
| "is_empty_value (GSlice vs) = (vs = None \<or> vs = Some [])"
| "is_empty_value (GMap kvs) = (kvs = None \<or> kvs = Some [])"
| "is_empty_value (GRaw b) = (b = None \<or> b = Some [])"
| "is_empty_value _ = False"

fun opt_list :: "('a \<Rightarrow> 'b option) \<Rightarrow> 'a list \<Rightarrow> 'b list option" where
  "opt_list f [] = Some []"
| "opt_list f (x # xs) =
     (case f x of None \<Rightarrow> None
      | Some y \<Rightarrow> map_option (\<lambda>ys. y # ys) (opt_list f xs))"

lemma opt_list_cong [fundef_cong]:
  "xs = ys \<Longrightarrow> (\<And>x. x \<in> set ys \<Longrightarrow> f x = g x) \<Longrightarrow> opt_list f xs = opt_list g ys"
  by (induction xs arbitrary: ys) (auto split: option.splits)

lemma opt_list_Some: "opt_list f xs = Some ys \<longleftrightarrow> list_all2 (\<lambda>x y. f x = Some y) xs ys"
proof (induction xs arbitrary: ys)
  case (Cons x xs)
  show ?case
  proof (cases ys)
    case (Cons y ys')
    with Cons.IH [of ys'] show ?thesis by (auto split: option.splits)
  qed (auto split: option.splits)
qed auto

fun to_json :: "goval \<Rightarrow> json option" where
  "to_json GInvalid = Some JNull"
| "to_json (GIface None) = Some JNull"
| "to_json (GIface (Some v)) = to_json v"
| "to_json (GBool b) = Some (JBool b)"
| "to_json (GInt i) = Some (JNum (format_int i))"
| "to_json (GNumber s) =
     (if s = [] then Some (JNum ''0'') else if valid_number s then Some (JNum s) else None)"
| "to_json (GString s) = Some (JStr s)"
| "to_json (GBytes None) = Some JNull"
| "to_json (GBytes (Some b)) = Some (JStr (b64_encode b))"
| "to_json (GSlice None) = Some JNull"
| "to_json (GSlice (Some vs)) = map_option JArr (opt_list to_json vs)"
| "to_json (GMap None) = Some JNull"
| "to_json (GMap (Some kvs)) =
     map_option JObj (map_option (sort_key fst)
       (opt_list (\<lambda>(k, v). map_option (Pair k) (to_json v)) kvs))"
| "to_json (GStruct fs) =
     map_option JObj (opt_list (\<lambda>(k, _, v). map_option (Pair k) (to_json v))
       (filter (\<lambda>(_, omit, v). \<not> (omit \<and> is_empty_value v)) fs))"
| "to_json (GTime t) = (if yr_of t \<le> 9999 then Some (JStr (format_rfc3339_nano t)) else None)"
| "to_json (GRaw None) = Some JNull"
| "to_json (GRaw (Some b)) =
     (case parse_json b of None \<Rightarrow> None
      | Some j \<Rightarrow> if json_depth j \<le> 10000 then Some j else None)"

definition marshal :: "goval \<Rightarrow> json_error + string" where
  "marshal v =
     (case validate_value v of Inl e \<Rightarrow> Inl e
      | Inr _ \<Rightarrow> (case to_json v of None \<Rightarrow> Inl NotJSON
          | Some j \<Rightarrow> (case validate (json_text j) of Inl _ \<Rightarrow> Inl EmittedInvalid
              | Inr _ \<Rightarrow> Inr (json_text j))))"

subsection \<open>Printed trees are valid\<close>

lemma hex_digit_less: "hex_digit c = Some x \<Longrightarrow> x < 16"
  by (auto simp: hex_digit_def is_digit_def split: if_splits)

lemma hex4_bound:
  assumes "hex4 a b c d = Some u"
  shows "u < 65536"
proof -
  from assms obtain w x y z where "hex_digit a = Some w" "hex_digit b = Some x" "hex_digit c = Some y"
    "hex_digit d = Some z" "u = ((w * 16 + x) * 16 + y) * 16 + z"
    by (auto simp: hex4_def split: option.splits)
  with hex_digit_less have "w < 16" "x < 16" "y < 16" "z < 16" by blast+
  moreover have "u = 4096 * w + 256 * x + 16 * y + z" using \<open>u = _\<close> by simp
  ultimately show ?thesis by linarith
qed

text \<open>The 16-bit code unit of the source never overflows.\<close>

lemma hex_code_unit_bound: "hex_code_unit s = Some u \<Longrightarrow> u < 65536"
  by (auto simp: hex_code_unit_def dest: hex4_bound split: list.splits)

declare surr_in.simps(2) [simp del]

lemma surr_in_plain: "byte c \<noteq> 34 \<Longrightarrow> byte c \<noteq> 92 \<Longrightarrow> surr_in (c # t) = surr_in t"
  by (simp add: surr_in.simps(2) [of c t])

lemma surr_in_simple: "e \<noteq> CHR ''u'' \<Longrightarrow> surr_in (char_of (92::nat) # e # t) = surr_in t"
  by (subst surr_in.simps(2)) simp

lemma surr_in_u4:
  assumes "hex4 h1 h2 h3 h4 = Some u" "u < 55296"
  shows "surr_in (char_of (92::nat) # CHR ''u'' # h1 # h2 # h3 # h4 # t) = surr_in t"
  using assms by (subst surr_in.simps(2)) (simp add: hex_code_unit_def)

lemma hex4_00:
  "n < 256 \<Longrightarrow> hex4 (CHR ''0'') (CHR ''0'') (hex_char (n div 16)) (hex_char (n mod 16)) = Some n"
  using less_mult_imp_div_less [of n 16 16]
  by (simp add: hex4_def) (simp add: hex_digit_def is_digit_def)

lemma surr_in_escape_ascii:
  assumes "is_ascii c"
  shows "surr_in (escape_ascii c @ t) = surr_in t"
proof -
  have "byte c = 34 \<or> byte c = 92 \<Longrightarrow> c \<noteq> CHR ''u''" by auto
  moreover have "surr_in (char_of (92::nat) # CHR ''u'' # CHR ''0'' # CHR ''0'' #
      hex_char (byte c div 16) # hex_char (byte c mod 16) # t) = surr_in t"
    using assms hex4_00 [of "byte c"] by (intro surr_in_u4) (auto simp: is_ascii_def)
  ultimately show ?thesis
    by (simp add: escape_ascii_def Let_def surr_in_simple surr_in_plain)
qed

lemma surr_in_quote_body:
  assumes "utf8_valid s"
  shows "surr_in (quote_body s @ dquote # t) = surr_out t"
  using assms
proof (induction s rule: utf8_valid_induct)
  case Nil
  then show ?case by (simp add: quote_body_step dquote_def surr_in.simps(2))
next
  case (one c r)
  then show ?case by (simp add: quote_body_step surr_in_escape_ascii)
next
  case (two c c1 r)
  then show ?case by (simp add: quote_body_step surr_in_plain lead2_def is_cont_def)
next
  case (three c c1 c2 r)
  then show ?case using quote_body_step3 [OF three(1-3), of r]
    by (auto simp: surr_in_plain surr_in_u4 lead3_def is_cont_def second_ok_def split: if_splits)
next
  case (four c c1 c2 c3 r)
  then show ?case
    by (simp add: quote_body_step surr_in_plain lead4_def is_cont_def second_ok_def split: if_splits)
qed

lemma surr_out_quote_str: "utf8_valid s \<Longrightarrow> surr_out (quote_str s @ t) = surr_out t"
  using surr_in_quote_body by (simp add: quote_str_def)

lemma surr_out_plain: "\<forall>c\<in>set s. byte c \<noteq> 34 \<Longrightarrow> surr_out (s @ t) = surr_out t"
  by (induction s) auto

lemma surr_out_join:
  assumes "\<And>x t. x \<in> set xs \<Longrightarrow> surr_out (x @ t) = surr_out t"
  shows "surr_out (join_comma xs @ t) = surr_out t"
  using assms by (induction xs arbitrary: t rule: join_comma.induct) auto

text \<open>The bytes a number literal is made of.\<close>

definition num_byte :: "char \<Rightarrow> bool" where
  "num_byte c \<longleftrightarrow> is_digit c \<or> c \<in> set ''-+.eE''"

lemma num_byte_simps [simp]:
  "is_digit c \<Longrightarrow> num_byte c" "num_byte (CHR ''-'')" "num_byte (CHR ''+'')" "num_byte (CHR ''.'')"
  "num_byte (CHR ''e'')" "num_byte (CHR ''E'')"
  by (simp_all add: num_byte_def)

lemma digits_num_byte [simp]: "list_all num_byte (takeWhile is_digit s)"
  by (induction s) simp_all

lemma pinteger_bytes: "pinteger s = Some (l, r) \<Longrightarrow> list_all num_byte l"
  using digits_num_byte [of s]
  by (cases s) (auto simp: pinteger_def is_digit_def num_byte_def simp del: digits_num_byte split: if_splits)

lemma pfraction_bytes: "pfraction s = Some (l, r) \<Longrightarrow> list_all num_byte l"
  by (cases s) (auto simp: pfraction_def split: if_splits)

lemma pexponent_bytes: "pexponent s = Some (l, r) \<Longrightarrow> list_all num_byte l"
  by (auto simp: pexponent_def simp del: takeWhile.simps split: if_splits list.splits)

lemma punsigned_bytes: "punsigned s = Some (l, r) \<Longrightarrow> list_all num_byte l"
  by (auto simp: punsigned_def split: option.splits prod.splits
      dest!: pinteger_bytes pfraction_bytes pexponent_bytes)

lemma number_bytes: "valid_number s \<Longrightarrow> list_all num_byte s"
  by (cases s) (auto simp: valid_number_def pnumber_def dest!: punsigned_bytes split: if_splits)

lemma number_ascii: "valid_number s \<Longrightarrow> c \<in> set s \<Longrightarrow> is_ascii c \<and> byte c \<noteq> 34"
  using number_bytes [of s] by (auto simp: list_all_iff num_byte_def is_digit_def is_ascii_def)

lemma surr_out_json_text: "json_wf v \<Longrightarrow> surr_out (json_text v @ t) = surr_out t"
proof (induction v arbitrary: t)
  case (JNum x)
  then show ?case using number_ascii by (intro surr_out_plain) auto
next
  case (JArr vs)
  then have "surr_out (join_comma (map json_text vs) @ CHR '']'' # t) = surr_out (CHR '']'' # t)"
    by (intro surr_out_join) (auto simp: list_all_iff)
  then show ?case by simp
next
  case (JObj kvs)
  have "surr_out (join_comma (map (\<lambda>(k, v). quote_str k @ '':'' @ json_text v) kvs) @ CHR ''}'' # t)
      = surr_out (CHR ''}'' # t)"
  proof (intro surr_out_join)
    fix x u assume "x \<in> set (map (\<lambda>(k, v). quote_str k @ '':'' @ json_text v) kvs)"
    then obtain k v where kv: "(k, v) \<in> set kvs" "x = quote_str k @ '':'' @ json_text v" by auto
    with JObj show "surr_out (x @ u) = surr_out u"
      by (auto simp: list_all_iff surr_out_quote_str)
  qed
  then show ?case by simp
qed (simp_all add: surr_out_quote_str)

lemma utf8_valid_join:
  "(\<And>x. x \<in> set xs \<Longrightarrow> utf8_valid x) \<Longrightarrow> utf8_valid (join_comma xs)"
  by (induction xs rule: join_comma.induct)
    (auto simp: utf8_valid_append utf8_valid_step is_ascii_def)

lemma utf8_valid_quote_body:
  assumes "utf8_valid s"
  shows "utf8_valid (quote_body s)"
  using assms
proof (induction s rule: utf8_valid_induct)
  case (one c r)
  have "list_all is_ascii (escape_ascii c)"
    using one(1) less_mult_imp_div_less [of "byte c" 16 16]
    by (auto simp: escape_ascii_def Let_def is_ascii_def hex_char_def)
  with one show ?case by (simp add: quote_body_step utf8_valid_append utf8_valid_ascii)
next
  case (three c c1 c2 r)
  from quote_body_step3 [OF three(1-3), of r] show ?case
  proof (elim disjE exE conjE)
    fix h u
    assume q: "quote_body (c # c1 # c2 # r) = char_of (92::nat) # ''u202'' @ h # quote_body r"
      and h: "hex4 (CHR ''2'') (CHR ''0'') (CHR ''2'') h = Some u"
    from h have "is_ascii h"
      by (auto simp: hex4_def hex_digit_def is_ascii_def is_digit_def split: if_splits option.splits)
    with q three show ?thesis by (simp add: utf8_valid_step is_ascii_def)
  qed (use three in \<open>simp add: utf8_valid_step\<close>)
qed (simp_all add: quote_body_step utf8_valid_step)

lemma utf8_valid_quote_str: "utf8_valid s \<Longrightarrow> utf8_valid (quote_str s)"
  by (simp add: quote_str_def dquote_def utf8_valid_step is_ascii_def utf8_valid_append
      utf8_valid_quote_body)

lemma utf8_valid_json_text: "json_wf v \<Longrightarrow> utf8_valid (json_text v)"
proof (induction v)
  case (JNum x)
  then show ?case using number_ascii by (intro utf8_valid_ascii) (auto simp: list_all_iff)
next
  case (JArr vs)
  then have "utf8_valid (join_comma (map json_text vs))"
    by (intro utf8_valid_join) (auto simp: list_all_iff)
  then show ?case by (simp add: utf8_valid_step utf8_valid_append is_ascii_def)
next
  case (JObj kvs)
  have "utf8_valid (join_comma (map (\<lambda>(k, v). quote_str k @ '':'' @ json_text v) kvs))"
    using JObj by (intro utf8_valid_join)
      (auto simp: list_all_iff utf8_valid_append utf8_valid_quote_str utf8_valid_step is_ascii_def)
  then show ?case by (simp add: utf8_valid_step utf8_valid_append is_ascii_def)
qed (auto simp: utf8_valid_step is_ascii_def utf8_valid_quote_str)

lemma validate_json_text:
  assumes "json_wf v"
  shows "validate (json_text v) = Inr ()"
  using assms surr_out_json_text [of v "[]"] pvalue_json_text [of v "[]"] utf8_valid_json_text
  by (simp add: validate_def valid_surrogate_escapes_def skip_ws_def del: pvalue.simps)

lemma decode_json_text:
  "json_wf v \<Longrightarrow> json_depth v \<le> 10000 \<Longrightarrow> decode (json_text v) = Inr v"
  by (simp add: decode_def validate_json_text parse_json_text)

end
