(* ===== verification/JsonV2Laws.thy ===== *)
theory JsonV2Laws
  imports JsonV2
begin

text \<open>
  Laws of the strict JSON boundary: every tree the reader returns is well formed (valid UTF-8,
  valid number literals, distinct keys), and what \<open>marshal\<close> emits \<open>decode\<close> reads back.
\<close>

subsection \<open>Strings\<close>

lemma div_le: "(r::nat) < k * m \<Longrightarrow> r div k < m"
  by (metis less_mult_imp_div_less mult.commute)

lemma utf8_valid_enc3:
  fixes a b c :: nat
  assumes "a < 16" "b < 64" "c < 64" "a = 0 \<Longrightarrow> 32 \<le> b" "a = 13 \<Longrightarrow> b < 32"
  shows "utf8_valid [char_of (224 + a), char_of (128 + b), char_of (128 + c)]"
  using assms by (subst utf8_valid_step(3)) (auto simp: lead3_def second_ok_def is_cont_def)

lemma utf8_valid_enc4:
  fixes a b c d :: nat
  assumes "a < 5" "b < 64" "c < 64" "d < 64" "a = 0 \<Longrightarrow> 16 \<le> b" "a = 4 \<Longrightarrow> b < 16"
  shows "utf8_valid [char_of (240 + a), char_of (128 + b), char_of (128 + c), char_of (128 + d)]"
  using assms by (subst utf8_valid_step(4)) (auto simp: lead4_def second_ok_def is_cont_def)

lemma utf8_valid_encode_rune: "utf8_valid (encode_rune r)"
proof -
  consider "r < 128" | "128 \<le> r" "r < 2048"
    | "2048 \<le> r" "r > 1114111 \<or> (55296 \<le> r \<and> r \<le> 57343)"
    | "2048 \<le> r" "r < 55296 \<or> 57343 < r" "r < 65536"
    | "65536 \<le> r" "r \<le> 1114111" by linarith
  then show ?thesis
  proof cases
    case 1
    then show ?thesis by (simp add: encode_rune_def utf8_valid_step is_ascii_def)
  next
    case 2
    then have "2 \<le> r div 64" "r div 64 < 32" using div_le [of r 64 32] by linarith+
    with 2 show ?thesis
      by (simp add: encode_rune_def utf8_valid_step lead2_def is_cont_def)
  next
    case 3
    then show ?thesis by (auto simp: encode_rune_def utf8_valid_step lead3_def second_ok_def is_cont_def)
  next
    case 4
    have a: "r div 4096 < 16" using 4 div_le [of r 4096 16] by simp
    have b: "r div 64 mod 64 < 64" "r mod 64 < 64" by simp_all
    have e: "r div 64 = 64 * (r div 4096) + r div 64 mod 64"
      using div_mult2_eq [of r 64 64] by simp
    have c: "r div 4096 = 0 \<Longrightarrow> 32 \<le> r div 64 mod 64" using 4 e by linarith
    have d: "r div 4096 = 13 \<Longrightarrow> r div 64 mod 64 < 32" using 4 e by linarith
    from utf8_valid_enc3 [OF a b c d] 4 show ?thesis
      by (auto simp: encode_rune_def)
  next
    case 5
    have a: "r div 262144 < 5" using 5 div_le [of r 262144 5] by simp
    have b: "r div 4096 mod 64 < 64" "r div 64 mod 64 < 64" "r mod 64 < 64" by simp_all
    have e: "r div 4096 = 64 * (r div 262144) + r div 4096 mod 64"
      using div_mult2_eq [of r 4096 64] by simp
    have c: "r div 262144 = 0 \<Longrightarrow> 16 \<le> r div 4096 mod 64" using 5 e by linarith
    have d: "r div 262144 = 4 \<Longrightarrow> r div 4096 mod 64 < 16" using 5 e by linarith
    from utf8_valid_enc4 [OF a b c d] 5 show ?thesis
      by (simp add: encode_rune_def)
  qed
qed

lemma utf8_valid_cases [consumes 1, case_names Nil one two three four]:
  assumes "utf8_valid s"
  obtains "s = []"
  | c r where "s = c # r" "is_ascii c" "utf8_valid r"
  | c c1 r where "s = c # c1 # r" "lead2 c" "is_cont c1" "utf8_valid r"
  | c c1 c2 r where "s = c # c1 # c2 # r" "lead3 c" "second_ok c c1" "is_cont c2" "utf8_valid r"
  | c c1 c2 c3 r where "s = c # c1 # c2 # c3 # r" "lead4 c" "second_ok c c1" "is_cont c2"
      "is_cont c3" "utf8_valid r"
  using assms that
proof (induction s rule: utf8_valid_induct)
  case Nil
  from Nil.prems(1) show ?case by simp
next
  case (one c r)
  from one.prems(2) [OF refl one.hyps] show ?case .
next
  case (two c c1 r)
  from two.prems(3) [OF refl two.hyps] show ?case .
next
  case (three c c1 c2 r)
  from three.prems(4) [OF refl three.hyps] show ?case .
next
  case (four c c1 c2 c3 r)
  from four.prems(5) [OF refl four.hyps] show ?case .
qed

lemma hex_digit_ascii: "hex_digit c = Some x \<Longrightarrow> is_ascii c"
  by (auto simp: hex_digit_def is_ascii_def is_digit_def split: if_splits)

lemma hex4_ascii: "hex4 a b c d = Some u \<Longrightarrow> is_ascii a \<and> is_ascii b \<and> is_ascii c \<and> is_ascii d"
  by (auto simp: hex4_def hex_digit_ascii split: option.splits)

lemma simple_escape_ascii: "simple_escape e = Some d \<Longrightarrow> is_ascii e \<and> is_ascii d"
  by (auto simp: simple_escape_def is_ascii_def split: if_splits)

lemma pstring_cases:
  assumes "pstring (c # cs) = Some (x, r)"
  obtains "byte c = 34" "x = []" "r = cs"
  | p t y u where "byte c = 92" "cs = p @ t" "p \<noteq> []" "list_all is_ascii p"
      "pstring t = Some (y, r)" "x = u @ y" "utf8_valid u"
  | y where "pstring cs = Some (y, r)" "x = c # y" "32 \<le> byte c"
proof -
  consider "byte c = 34" | "byte c = 92" | "byte c \<noteq> 34" "byte c \<noteq> 92" by blast
  then show ?thesis
  proof cases
    case 2
    note esc = that(2)
    show ?thesis
    proof (cases cs)
      case Nil
      with assms 2 show ?thesis by (simp add: pstring.simps(2))
    next
      case (Cons e r0)
      note st = assms [unfolded pstring.simps(2) [of c cs], unfolded Cons, simplified 2, simplified]
      show ?thesis
      proof (cases "simple_escape e")
        case (Some d)
        with st obtain y where "pstring r0 = Some (y, r)" "x = [d] @ y" by auto
        moreover have "utf8_valid [d]" "is_ascii e" using simple_escape_ascii [OF Some] by (simp_all add: utf8_valid_step)
        ultimately show ?thesis by (intro esc [of "[e]" r0 y "[d]"]) (use 2 Cons in auto)
      next
        case None
        with st obtain h1 h2 h3 h4 r2 where e: "e = CHR ''u''" and r0: "r0 = h1 # h2 # h3 # h4 # r2"
          by (auto split: if_splits list.splits)
        with st None obtain u where u: "hex4 h1 h2 h3 h4 = Some u" by (auto split: option.splits)
        let ?p = "[e, h1, h2, h3, h4]"
        have p: "list_all is_ascii ?p" using hex4_ascii [OF u] e by (simp add: is_ascii_def)
        have one: thesis if "pstring r2 = Some (y, r)" "x = encode_rune k @ y" for y k
          using that p utf8_valid_encode_rune [of k] 
          by (intro esc [of ?p r2 y "encode_rune k"]) (use 2 Cons r0 in auto)
        have two: thesis if "r2 = b0 # b1 # l1 # l2 # l3 # l4 # r3" "byte b0 = 92" "b1 = CHR ''u''"
          "hex4 l1 l2 l3 l4 = Some lo" "pstring r3 = Some (y, r)" "x = encode_rune k @ y"
          for b0 b1 l1 l2 l3 l4 r3 lo y k
          using that p utf8_valid_encode_rune [of k] hex4_ascii [OF that(4)] 
          by (intro esc [of "?p @ [b0, b1, l1, l2, l3, l4]" r3 y "encode_rune k"])
             (use 2 Cons r0 in \<open>auto simp: is_ascii_def\<close>)
        from st None e r0 u show ?thesis
          by (auto split: if_splits list.splits option.splits bool.splits intro: one two)
      qed
    qed
  qed (use assms that in \<open>auto simp: pstring.simps(2) [of c cs] split: if_splits\<close>)
qed
lemma pstring_utf8:
  "utf8_valid s \<Longrightarrow> pstring s = Some (x, r) \<Longrightarrow> utf8_valid x \<and> utf8_valid r"
proof (induction "length s" arbitrary: s x rule: less_induct)
  case less
  have IH: "length t < length s \<Longrightarrow> utf8_valid t \<Longrightarrow> pstring t = Some (y, r) \<Longrightarrow>
      utf8_valid y \<and> utf8_valid r" for t y using less.hyps by blast
  have plain: "\<exists>y. pstring cs = Some (y, r) \<and> z = c # y" if "pstring (c # cs) = Some (z, r)" "128 \<le> byte c"
    for c cs z using that(1) by (rule pstring_cases) (use that(2) in auto)
  from less.prems(1) show ?case
  proof (cases s rule: utf8_valid_cases)
    case Nil
    with less.prems show ?thesis by simp
  next
    case (one c cs)
    from less.prems(2) [unfolded one] show ?thesis
    proof (cases rule: pstring_cases)
      case 1
      with one show ?thesis by simp
    next
      case (2 p t y u)
      have "utf8_valid t" using one(3) 2(2,4) utf8_valid_append [OF utf8_valid_ascii] by simp
      with IH [of t y] one 2 show ?thesis by (simp add: utf8_valid_append)
    next
      case (3 y)
      with IH [of cs y] one show ?thesis by (simp add: utf8_valid_step)
    qed
  next
    case (two c c1 cs)
    from plain less.prems(2) two obtain y where "pstring cs = Some (y, r)" "x = c # c1 # y"
      by (auto 0 4 simp: lead2_def is_cont_def dest!: plain)
    with IH [of cs y] two show ?thesis by (simp add: utf8_valid_step)
  next
    case (three c c1 c2 cs)
    from plain less.prems(2) three obtain y where "pstring cs = Some (y, r)" "x = c # c1 # c2 # y"
      by (auto 0 4 simp: lead3_def is_cont_def second_ok_def split: if_splits dest!: plain)
    with IH [of cs y] three show ?thesis by (simp add: utf8_valid_step)
  next
    case (four c c1 c2 c3 cs)
    from plain less.prems(2) four obtain y where "pstring cs = Some (y, r)" "x = c # c1 # c2 # c3 # y"
      by (auto 0 4 simp: lead4_def is_cont_def second_ok_def split: if_splits dest!: plain)
    with IH [of cs y] four show ?thesis by (simp add: utf8_valid_step)
  qed
qed

subsection \<open>Numbers\<close>

text \<open>A literal the reader takes is a number of its own.\<close>

lemma takeWhile_self:
  assumes "t = [] \<or> \<not> P (hd t)"
  shows "takeWhile P (takeWhile P s @ t) = takeWhile P s" "dropWhile P (takeWhile P s @ t) = t"
proof -
  have "takeWhile P t = []" "dropWhile P t = t" using assms by (cases t; auto)+
  then show "takeWhile P (takeWhile P s @ t) = takeWhile P s" "dropWhile P (takeWhile P s @ t) = t"
    by (induction s) auto
qed

lemma digit_marks [simp]:
  "\<not> is_digit (CHR ''.'')" "\<not> is_digit (CHR ''e'')" "\<not> is_digit (CHR ''E'')"
  "\<not> is_digit (CHR ''+'')" "\<not> is_digit (CHR ''-'')"
  by (simp_all add: is_digit_def)

lemma pinteger_self:
  assumes "pinteger s = Some (l, r)" "t = [] \<or> \<not> is_digit (hd t)"
  shows "pinteger (l @ t) = Some (l, t)"
  using assms(1) takeWhile_self [where P = is_digit, OF assms(2)]
  by (cases s) (auto simp: pinteger_def split: if_splits)

lemma pfraction_self:
  assumes "pfraction s = Some (l, r)" "t = [] \<or> \<not> is_digit (hd t) \<and> hd t \<noteq> CHR ''.''"
  shows "pfraction (l @ t) = Some (l, t)"
proof -
  have "t = [] \<or> \<not> is_digit (hd t)" using assms(2) by blast
  from assms takeWhile_self [where P = is_digit, OF this] show ?thesis
    by (cases s; cases t) (auto simp: pfraction_def split: if_splits)
qed

lemma pexponent_self:
  assumes "pexponent s = Some (l, r)"
  shows "pexponent l = Some (l, [])"
proof (cases s)
  case (Cons c q)
  show ?thesis
  proof (cases q)
    case q: (Cons d q')
    have [simp]: "takeWhile is_digit (takeWhile is_digit x) = takeWhile is_digit x"
      "dropWhile is_digit (takeWhile is_digit x) = []" for x
      using takeWhile_self [of "[]" is_digit x] by simp_all
    have "d \<noteq> CHR ''+'' \<and> d \<noteq> CHR ''-''" if "is_digit d" using that by auto
    with assms Cons q show ?thesis
      by (auto simp: pexponent_def split: if_splits)
  qed (use assms Cons in \<open>auto simp: pexponent_def split: if_splits\<close>)
qed (use assms in \<open>simp add: pexponent_def\<close>)

lemma pexponent_head: "pexponent s = Some (l, r) \<Longrightarrow> l = [] \<or> hd l = CHR ''e'' \<or> hd l = CHR ''E''"
  by (auto simp: pexponent_def split: list.splits if_splits)

lemma pfraction_head: "pfraction s = Some (l, r) \<Longrightarrow> l = [] \<or> hd l = CHR ''.''"
  by (auto simp: pfraction_def split: list.splits if_splits)

lemma punsigned_self:
  assumes "punsigned s = Some (l, r)"
  shows "punsigned l = Some (l, [])"
proof -
  from assms obtain ip r1 fp r2 ep where i: "pinteger s = Some (ip, r1)" and f: "pfraction r1 = Some (fp, r2)"
    and e: "pexponent r2 = Some (ep, r)" and l: "l = ip @ fp @ ep"
    by (auto simp: punsigned_def split: option.splits)
  have "pfraction (fp @ ep) = Some (fp, ep)"
    using pexponent_head [OF e] by (intro pfraction_self [OF f]) auto
  moreover have "pinteger (ip @ fp @ ep) = Some (ip, fp @ ep)"
    using pfraction_head [OF f] pexponent_head [OF e] by (intro pinteger_self [OF i]) (cases fp; auto)
  ultimately show ?thesis using pexponent_self [OF e] by (simp add: punsigned_def l)
qed

lemma pnumber_valid: "pnumber s = Some (l, r) \<Longrightarrow> valid_number l"
proof (cases s)
  case (Cons c q)
  assume p: "pnumber s = Some (l, r)"
  show ?thesis
  proof (cases "c = CHR ''-''")
    case True
    with p Cons obtain y where "punsigned q = Some (y, r)" "l = c # y" by (auto simp: pnumber_def)
    with punsigned_self True show ?thesis by (simp add: valid_number_def pnumber_def)
  next
    case False
    with p Cons have u: "punsigned s = Some (l, r)" by (simp add: pnumber_def)
    obtain l' where "l = c # l'" using punsigned_Some [OF u] Cons by (cases l) auto
    with punsigned_self [OF u] False show ?thesis by (simp add: valid_number_def pnumber_def)
  qed
qed (simp add: pnumber_def)

subsection \<open>Values\<close>

lemma skip_ws_utf8: "utf8_valid s \<Longrightarrow> utf8_valid (skip_ws s)"
proof (induction s)
  case (Cons c s)
  show ?case
  proof (cases "is_ws c")
    case True
    then have "is_ascii c" by (auto simp: is_ws_def is_ascii_def)
    with Cons True show ?thesis by (simp add: skip_ws_def utf8_valid_step)
  qed (use Cons in \<open>simp add: skip_ws_def\<close>)
qed (simp add: skip_ws_def)

lemma ascii_tail: "utf8_valid (c # r) \<Longrightarrow> byte c < 128 \<Longrightarrow> utf8_valid r"
  by (simp add: utf8_valid_step is_ascii_def)

lemma ascii_append: "utf8_valid (l @ r) \<Longrightarrow> list_all is_ascii l \<Longrightarrow> utf8_valid r"
  by (simp add: utf8_valid_append utf8_valid_ascii)

lemma pnumber_rest: "pnumber s = Some (l, r) \<Longrightarrow> utf8_valid s \<Longrightarrow> utf8_valid r"
  using number_ascii [OF pnumber_valid, of s l r] ascii_append [of l r] pnumber_Some [of s l r]
  by (auto simp: list_all_iff)

lemma plit_rest: "plit w v s = Some (u, r) \<Longrightarrow> list_all is_ascii w \<Longrightarrow> utf8_valid s \<Longrightarrow> utf8_valid r"
  using plit_Some ascii_append by blast

definition pscalar :: "string \<Rightarrow> (json \<times> string) option" where
  "pscalar s =
     (if hd s = CHR ''t'' then plit ''true'' (JBool True) s
      else if hd s = CHR ''f'' then plit ''false'' (JBool False) s
      else if hd s = CHR ''n'' then plit ''null'' JNull s
      else map_option (\<lambda>(x, t). (JNum x, t)) (pnumber s))"

lemma pscalar_wf:
  assumes "pscalar s = Some (v, r)" "utf8_valid s"
  shows "json_wf v \<and> utf8_valid r"
proof -
  have "plit w u s = Some (v, r) \<Longrightarrow> json_wf u \<Longrightarrow> list_all is_ascii w \<Longrightarrow> ?thesis" for w u
    using plit_rest [of w u s v r] plit_Some [of w u s v r] assms(2) by simp
  moreover have "pnumber s = Some (x, r) \<Longrightarrow> v = JNum x \<Longrightarrow> ?thesis" for x
    using pnumber_valid pnumber_rest assms(2) by auto
  ultimately show ?thesis using assms(1)
    by (auto simp: pscalar_def is_ascii_def split: if_splits)
qed

lemma reader_wf:
  "pvalue n s = Some (v, r) \<Longrightarrow> utf8_valid s \<Longrightarrow> json_wf v \<and> utf8_valid r"
  "parray n s = Some (vs, r) \<Longrightarrow> utf8_valid s \<Longrightarrow> list_all json_wf vs \<and> utf8_valid r"
  "pobject n seen s = Some (kvs, r) \<Longrightarrow> utf8_valid s \<Longrightarrow>
     json_wf (JObj kvs) \<and> utf8_valid r \<and> (\<forall>k\<in>set (map fst kvs). k \<notin> set seen)"
proof (induction n s and n s and n seen s arbitrary: v r and vs r and kvs r
    rule: pvalue_parray_pobject.induct)
  case (2 n s)
  then obtain c t where t: "skip_ws s = c # t" by (auto split: list.splits)
  from skip_ws_utf8 [OF 2(4)] have ut: "utf8_valid (c # t)" by (simp add: t)
  have tl: "byte c < 128 \<Longrightarrow> utf8_valid t" by (rule ascii_tail [OF ut])
  have tw: "has_prefix (skip_ws t) [d] \<Longrightarrow> byte c < 128 \<Longrightarrow> byte d < 128 \<Longrightarrow> utf8_valid (tl (skip_ws t))" for d
    using tl skip_ws_utf8 [of t] ascii_tail [of d] by (auto simp: has_prefix_ex)
  from 2(3) have step: "(case c # t of [] \<Rightarrow> None | c # r \<Rightarrow>
         if c = CHR ''{'' then
           (if has_prefix (skip_ws r) ''}'' then Some (JObj [], tl (skip_ws r))
            else map_option (\<lambda>(kvs, t). (JObj kvs, t)) (pobject n [] r))
         else if c = CHR ''['' then
           (if has_prefix (skip_ws r) '']'' then Some (JArr [], tl (skip_ws r))
            else map_option (\<lambda>(vs, t). (JArr vs, t)) (parray n r))
         else if byte c = 34 then map_option (\<lambda>(x, t). (JStr x, t)) (pstring r)
         else pscalar (c # r)) = Some (v, r)"
    unfolding pvalue.simps(2) t pscalar_def by (simp cong: if_cong)
  show ?case
  proof (cases "c = CHR ''{''")
    case ob: True
    show ?thesis
    proof (cases "has_prefix (skip_ws t) ''}''")
      case False
      with step ob obtain k where k: "pobject n [] t = Some (k, r)" "v = JObj k" by auto
      from "2.IH"(1) [OF t ob False k(1)] tl ob k(2) show ?thesis by simp
    qed (use step ob tw in auto)
  next
    case nob: False
    show ?thesis
    proof (cases "c = CHR ''[''")
      case ar: True
      show ?thesis
      proof (cases "has_prefix (skip_ws t) '']''")
        case False
        with step ar obtain k where k: "parray n t = Some (k, r)" "v = JArr k" by auto
        from "2.IH"(2) [OF t nob ar False k(1)] tl ar k(2) show ?thesis by simp
      qed (use step ar tw in auto)
    next
      case nar: False
      show ?thesis
      proof (cases "byte c = 34")
        case True
        with step nob nar obtain x where x: "pstring t = Some (x, r)" "v = JStr x" by auto
        have "utf8_valid t" by (rule tl) (use True in simp)
        from pstring_utf8 [OF this x(1)] x(2) show ?thesis by simp
      next
        case False
        with step nob nar have "pscalar (c # t) = Some (v, r)" by simp
        with pscalar_wf ut show ?thesis by blast
      qed
    qed
  qed
next
  case (4 n s)
  then obtain w u where w: "pvalue n s = Some (w, u)" by (auto split: option.splits)
  then obtain c t where t: "skip_ws u = c # t" using 4 by (auto split: list.splits)
  from "4.IH"(1) [OF w 4(4)] have wu: "json_wf w" "utf8_valid u" by simp_all
  with skip_ws_utf8 [of u] t have ut: "utf8_valid (c # t)" by simp
  from 4(3) w t consider "c = CHR '']''" "vs = [w]" "r = t"
    | ys where "c \<noteq> CHR '']''" "c = CHR '',''" "parray n t = Some (ys, r)" "vs = w # ys"
    by (auto split: if_splits)
  then show ?case
  proof cases
    case 1
    with wu ascii_tail [OF ut] show ?thesis by simp
  next
    case 2
    from "4.IH"(2) [OF w refl t 2(1-3)] 2 wu ascii_tail [OF ut] show ?thesis by simp
  qed
next
  case (6 n seen s)
  then obtain q r0 where q: "skip_ws s = q # r0" by (auto split: list.splits)
  with 6(3) have q34: "\<not> byte q \<noteq> 34" by (auto split: if_splits)
  with 6(3) q obtain k r1 where k: "pstring r0 = Some (k, r1)" by (auto split: option.splits)
  with 6(3) q q34 have ns: "k \<notin> set seen" by (auto split: if_splits)
  with 6(3) q q34 k obtain c r2 where c: "skip_ws r1 = c # r2" "\<not> c \<noteq> CHR '':''"
    by (auto split: if_splits list.splits)
  with 6(3) q q34 k ns obtain w r3 where w: "pvalue n r2 = Some (w, r3)" by (auto split: option.splits)
  with 6(3) q q34 k ns c obtain d t where t: "skip_ws r3 = d # t" by (auto split: list.splits)
  have "utf8_valid (q # r0)" using skip_ws_utf8 [OF 6(4)] q by simp
  with q34 ascii_tail [of q r0] have "utf8_valid r0" by simp
  with pstring_utf8 k have uk: "utf8_valid k" "utf8_valid r1" by blast+
  with skip_ws_utf8 c have "utf8_valid (c # r2)" by metis
  with c ascii_tail [of c r2] have "utf8_valid r2" by simp
  from "6.IH"(1) [OF q q34 k refl ns c w this] have uw: "json_wf w" "utf8_valid r3" by simp_all
  with skip_ws_utf8 t have ut: "utf8_valid (d # t)" by metis
  from 6(3) q q34 k ns c w t consider "d = CHR ''}''" "kvs = [(k, w)]" "r = t"
    | ys where "d \<noteq> CHR ''}''" "d = CHR '',''" "pobject n (k # seen) t = Some (ys, r)" "kvs = (k, w) # ys"
    by (auto split: if_splits)
  then show ?case
  proof cases
    case 1
    with uw uk ns ascii_tail [OF ut] show ?thesis by simp
  next
    case 2
    from "6.IH"(2) [OF q q34 k refl ns c w refl t 2(1-3)] 2 uw uk ns ascii_tail [OF ut] show ?thesis by auto
  qed
qed simp_all

lemma parse_json_wf: "parse_json s = Some v \<Longrightarrow> utf8_valid s \<Longrightarrow> json_wf v"
  using reader_wf(1) by (auto simp: parse_json_def simp del: pvalue.simps split: option.splits if_splits)

lemma decode_wf: "decode data = Inr v \<Longrightarrow> json_wf v \<and> json_depth v \<le> 10000"
  using parse_json_wf [of data]
  by (auto simp: decode_def validate_def split: sum.splits option.splits if_splits)

lemma validate_utf8: "validate b = Inr u \<Longrightarrow> utf8_valid b"
  by (simp add: validate_def split: if_splits)

subsection \<open>Marshalled values\<close>

text \<open>
  Values as Go has them: a map has each key once, a struct type has distinct ASCII field names,
  a time is a valid instant of the calendar.
\<close>

fun go_wf :: "goval \<Rightarrow> bool" where
  "go_wf (GIface (Some v)) = go_wf v"
| "go_wf (GSlice (Some vs)) = list_all go_wf vs"
| "go_wf (GMap (Some kvs)) = (distinct (map fst kvs) \<and> list_all (\<lambda>(_, v). go_wf v) kvs)"
| "go_wf (GStruct fs) =
     (distinct (map fst fs) \<and> list_all (\<lambda>(k, _, v). list_all is_ascii k \<and> go_wf v) fs)"
| "go_wf (GTime t) = list_all is_ascii (format_rfc3339_nano t)"
| "go_wf _ = True"

declare valid_utf8_value.simps [simp del]

lemma format_nat_takeWhile [simp]: "takeWhile is_digit (format_nat n) = format_nat n"
  "dropWhile is_digit (format_nat n) = []"
  by (auto simp: takeWhile_eq_all_conv format_nat_digits)

lemma format_nat_zero: "hd (format_nat n) = CHR ''0'' \<Longrightarrow> format_nat n = ''0''"
proof (induction n rule: format_nat.induct)
  case (1 n)
  show ?case
  proof (cases "n < 10")
    case True
    with 1(2) show ?thesis by (auto simp: format_nat.simps [of n])
  next
    case False
    with 1(2) have "hd (format_nat (n div 10)) = CHR ''0''" by (simp add: format_nat.simps [of n] hd_append)
    with 1(1) False have "format_nat (n div 10) = ''0''" by blast
    then have "digits_val 0 (format_nat (n div 10)) = Some 0" by (simp add: is_digit_def)
    with False show ?thesis by simp
  qed
qed

lemma pinteger_format_nat: "pinteger (format_nat n) = Some (format_nat n, [])"
proof (cases "format_nat n")
  case (Cons c r)
  with format_nat_digits [of c n] have "is_digit c" by simp
  with Cons format_nat_zero [of n] format_nat_takeWhile [of n] show ?thesis
    by (auto simp: pinteger_def simp del: format_nat_takeWhile)
qed simp

lemma valid_number_format_int: "valid_number (format_int i)"
proof -
  have u: "punsigned (format_nat n) = Some (format_nat n, [])" for n
    by (simp add: punsigned_def pinteger_format_nat pfraction_def pexponent_def)
  moreover have "pnumber (format_nat n) = punsigned (format_nat n)" for n
    using format_nat_digits [of "CHR ''-''" n] by (cases "format_nat n") (auto simp: pnumber_def)
  ultimately show ?thesis by (simp add: valid_number_def format_int_def pnumber_def)
qed

lemma opt_list_pair:
  assumes "opt_list (\<lambda>(k, v). map_option (Pair k) (f v)) kvs = Some ys"
  shows "map fst ys = map fst kvs"
    and "\<And>k j. (k, j) \<in> set ys \<Longrightarrow> \<exists>v. (k, v) \<in> set kvs \<and> f v = Some j"
proof -
  from assms have a: "list_all2 (\<lambda>x y. map_option (Pair (fst x)) (f (snd x)) = Some y) kvs ys"
    by (simp add: opt_list_Some case_prod_unfold)
  then show "map fst ys = map fst kvs" by (induction rule: list_all2_induct) auto
  from a show "\<And>k j. (k, j) \<in> set ys \<Longrightarrow> \<exists>v. (k, v) \<in> set kvs \<and> f v = Some j"
    by (induction rule: list_all2_induct) force+
qed

lemma valid_number_zero: "valid_number ''0''"
  by (simp add: valid_number_def pnumber_def punsigned_def pinteger_def pfraction_def pexponent_def)

lemma json_wf_members:
  assumes "map fst ys = map fst fs" "distinct (map fst fs)"
    and "\<And>k j. (k, j) \<in> set ys \<Longrightarrow> utf8_valid k \<and> json_wf j"
  shows "json_wf (JObj ys)"
  using assms by (auto simp: list_all_iff)

lemma sort_key_distinct: "distinct (map fst ys) \<Longrightarrow> distinct (map fst (sort_key fst ys))"
  by (simp add: distinct_map)

lemma opt_list_fields:
  "opt_list (\<lambda>(k, _, v). map_option (Pair k) (f v)) fs
   = opt_list (\<lambda>(k, v). map_option (Pair k) (f v)) (map (\<lambda>(k, _, v). (k, v)) fs)"
  by (induction fs) (auto split: option.splits)

lemma to_json_wf:
  "to_json v = Some j \<Longrightarrow> valid_utf8_value v d \<Longrightarrow> go_wf v \<Longrightarrow> json_wf j"
proof (induction v arbitrary: j d rule: to_json.induct)
  case (11 vs)
  then obtain ys where ys: "list_all2 (\<lambda>x y. to_json x = Some y) vs ys" and j: "j = JArr ys"
    by (auto simp: opt_list_Some)
  have "json_wf y" if y: "y \<in> set ys" for y
  proof -
    from ys y obtain x where x: "x \<in> set vs" "to_json x = Some y"
      by (induction rule: list_all2_induct) auto
    with 11 show ?thesis
      by (auto simp: valid_utf8_value.simps [of "GSlice _"] list_all_iff split: if_splits)
  qed
  then show ?case by (simp add: j list_all_iff)
next
  case (13 kvs)
  then obtain ys where ys: "opt_list (\<lambda>(k, v). map_option (Pair k) (to_json v)) kvs = Some ys"
    and j: "j = JObj (sort_key fst ys)" by auto
  have "utf8_valid k \<and> json_wf u" if "(k, u) \<in> set ys" for k u
  proof -
    from opt_list_pair(2) [OF ys that] obtain x where "(k, x) \<in> set kvs" "to_json x = Some u" by blast
    with 13 show ?thesis
      by (fastforce simp: valid_utf8_value.simps [of "GMap _"] list_all_iff split: if_splits)
  qed
  with 13(4) opt_list_pair(1) [OF ys] show ?case
    unfolding j by (auto simp: list_all_iff sort_key_distinct)
next
  case (14 fs)
  let ?fs = "filter (\<lambda>(_, omit, v). \<not> (omit \<and> is_empty_value v)) fs"
  from 14 obtain ys where ys: "opt_list (\<lambda>(k, v). map_option (Pair k) (to_json v))
      (map (\<lambda>(k, _, v). (k, v)) ?fs) = Some ys" and j: "j = JObj ys" by (auto simp: opt_list_fields)
  have "utf8_valid k \<and> json_wf u" if "(k, u) \<in> set ys" for k u
  proof -
    from opt_list_pair(2) [OF ys that] obtain b x where x: "(k, b, x) \<in> set ?fs" "to_json x = Some u" by auto
    with 14(3,4) have "valid_utf8_value x (Suc d)" "go_wf x" "utf8_valid k"
      by (auto simp: valid_utf8_value.simps [of "GStruct _"] list_all_iff utf8_valid_ascii split: if_splits)
    with 14(1) [OF x(1) refl refl x(2)] show ?thesis by blast
  qed
  moreover have "map fst ys = map fst ?fs"
    using opt_list_pair(1) [OF ys] by (simp add: case_prod_unfold comp_def)
  moreover have "distinct (map fst ?fs)" using 14(4) by (simp add: distinct_map_filter)
  ultimately show ?case unfolding j by (intro json_wf_members)
next
  case (17 b)
  then show ?case
    by (auto simp: valid_utf8_value.simps [of "GRaw _"] ok_iff dest!: validate_utf8 intro: parse_json_wf
        split: if_splits option.splits)
qed (auto simp: valid_utf8_value.simps [of "GIface _"] valid_utf8_value.simps [of "GString _"]
  utf8_valid_ascii utf8_valid_b64_encode valid_number_format_int valid_number_zero split: if_splits)

lemma marshal_Inr:
  assumes "marshal v = Inr d" "go_wf v"
  obtains j where "to_json v = Some j" "d = json_text j" "json_wf j"
  using assms to_json_wf [of v _ 0]
  by (auto simp: marshal_def validate_value_def split: sum.splits option.splits if_splits)

lemma marshal_decode:
  assumes "marshal v = Inr d" "go_wf v" "to_json v = Some j" "json_depth j \<le> 10000"
  shows "decode d = Inr j"
  using assms by (auto elim!: marshal_Inr intro: decode_json_text)

lemma marshal_ok:
  assumes "valid_utf8_value v 0" "go_wf v" "to_json v = Some j"
  shows "marshal v = Inr (json_text j)"
  using assms to_json_wf [of v j 0] by (simp add: marshal_def validate_value_def validate_json_text)


text \<open>
  A value without raw JSON nests at most as deep as \<open>validate_value\<close> allows, well below the
  reader's limit.
\<close>

fun raw_free :: "goval \<Rightarrow> bool" where
  "raw_free (GIface (Some v)) = raw_free v"
| "raw_free (GSlice (Some vs)) = list_all raw_free vs"
| "raw_free (GMap (Some kvs)) = list_all (\<lambda>(_, v). raw_free v) kvs"
| "raw_free (GStruct fs) = list_all (\<lambda>(_, _, v). raw_free v) fs"
| "raw_free (GRaw _) = False"
| "raw_free _ = True"

lemma fold_max_le: "\<forall>x\<in>set xs. x \<le> n \<Longrightarrow> a \<le> n \<Longrightarrow> fold max xs a \<le> (n::nat)"
  by (induction xs arbitrary: a) auto

lemma valid_utf8_depth: "valid_utf8_value v d \<Longrightarrow> d \<le> 1024"
  by (auto simp: valid_utf8_value.simps split: if_splits)

lemma json_depth_arr: "(\<And>x. x \<in> set vs \<Longrightarrow> json_depth x \<le> n) \<Longrightarrow> json_depth (JArr vs) \<le> Suc n"
  by (simp add: fold_max_le)

lemma json_depth_obj: "(\<And>k x. (k, x) \<in> set kvs \<Longrightarrow> json_depth x \<le> n) \<Longrightarrow> json_depth (JObj kvs) \<le> Suc n"
  by (auto intro!: fold_max_le)

lemma to_json_depth:
  "to_json v = Some j \<Longrightarrow> valid_utf8_value v d \<Longrightarrow> raw_free v \<Longrightarrow> json_depth j + d \<le> 1025"
proof (induction v arbitrary: j d rule: to_json.induct)
  case (3 v)
  then have "valid_utf8_value v (Suc d)" by (simp add: valid_utf8_value.simps [of "GIface _"] split: if_splits)
  from "3.IH" [OF _ this] 3 show ?case by simp
next
  case (11 vs)
  then obtain ys where ys: "list_all2 (\<lambda>x y. to_json x = Some y) vs ys" and j: "j = JArr ys"
    by (auto simp: opt_list_Some)
  note d = valid_utf8_depth [OF 11(3)]
  have "json_depth y \<le> 1024 - d" if y: "y \<in> set ys" for y
  proof -
    from ys y obtain x where x: "x \<in> set vs" "to_json x = Some y"
      by (induction rule: list_all2_induct) auto
    with 11(3,4) have "valid_utf8_value x (Suc d)" "raw_free x"
      by (auto simp: valid_utf8_value.simps [of "GSlice _"] list_all_iff split: if_splits)
    from 11(1) [OF x(1) x(2) this] show ?thesis by simp
  qed
  from json_depth_arr [of ys, OF this] d show ?case by (simp add: j del: json_depth.simps)
next
  case (13 kvs)
  then obtain ys where ys: "opt_list (\<lambda>(k, v). map_option (Pair k) (to_json v)) kvs = Some ys"
    and j: "j = JObj (sort_key fst ys)" by auto
  note d = valid_utf8_depth [OF 13(3)]
  have u: "json_depth u \<le> 1024 - d" if "(k, u) \<in> set (sort_key fst ys)" for k u
  proof -
    from that have "(k, u) \<in> set ys" by simp
    from opt_list_pair(2) [OF ys this] obtain x where x: "(k, x) \<in> set kvs" "to_json x = Some u" by blast
    with 13(3,4) have "valid_utf8_value x (Suc d)" "raw_free x"
      by (auto simp: valid_utf8_value.simps [of "GMap _"] list_all_iff split: if_splits)
    from 13(1) [OF x(1) refl x(2) this] show ?thesis by simp
  qed
  have "json_depth (JObj (sort_key fst ys)) \<le> Suc (1024 - d)" by (rule json_depth_obj) (rule u)
  with d show ?case by (simp add: j del: json_depth.simps)
next
  case (14 fs)
  let ?fs = "filter (\<lambda>(_, omit, v). \<not> (omit \<and> is_empty_value v)) fs"
  from 14 obtain ys where ys: "opt_list (\<lambda>(k, v). map_option (Pair k) (to_json v))
      (map (\<lambda>(k, _, v). (k, v)) ?fs) = Some ys" and j: "j = JObj ys" by (auto simp: opt_list_fields)
  note d = valid_utf8_depth [OF 14(3)]
  have u: "json_depth u \<le> 1024 - d" if "(k, u) \<in> set ys" for k u
  proof -
    from opt_list_pair(2) [OF ys that] obtain b x where x: "(k, b, x) \<in> set ?fs" "to_json x = Some u" by auto
    with 14(3,4) have "valid_utf8_value x (Suc d)" "raw_free x"
      by (auto simp: valid_utf8_value.simps [of "GStruct _"] list_all_iff split: if_splits)
    from 14(1) [OF x(1) refl refl x(2) this] show ?thesis by simp
  qed
  have "json_depth (JObj ys) \<le> Suc (1024 - d)" by (rule json_depth_obj) (rule u)
  with d show ?case by (simp add: j del: json_depth.simps)
qed (auto dest: valid_utf8_depth split: if_splits)

text \<open>What \<open>Marshal\<close> emits for a value without raw JSON, \<open>Decode\<close> reads back as its tree.\<close>

lemma marshal_decode_tree:
  assumes "marshal v = Inr d" "go_wf v" "raw_free v"
  obtains j where "to_json v = Some j" "d = json_text j" "decode d = Inr j"
proof -
  from marshal_Inr [OF assms(1,2)] obtain j where j: "to_json v = Some j" "d = json_text j" "json_wf j" by blast
  have "valid_utf8_value v 0"
    using assms(1) by (auto simp: marshal_def validate_value_def split: sum.splits if_splits)
  from to_json_depth [OF j(1) this assms(3)] j decode_json_text [OF j(3)] show ?thesis
    by (intro that [of j]) auto
qed

end
