(* ===== verification/GoUrl.thy ===== *)
theory GoUrl
  imports GoStd
begin

text \<open>
  \<open>net/url.Parse\<close> (Go 1.25) as far as the Provider reads its result: scheme, opaque part,
  presence of userinfo, host, path, query, \<open>ForceQuery\<close> and fragment, together with
  \<open>Hostname\<close>, \<open>Port\<close>, \<open>IsAbs\<close> and the IPv6 literals that \<open>netip.ParseAddr\<close> accepts between
  brackets. \<open>url_raw\<close> keeps the path as written, before unescaping.
\<close>

record go_url =
  url_scheme :: string
  url_opaque :: string
  url_user :: bool
  url_host :: string
  url_path :: string
  url_raw :: string
  url_query :: string
  url_force_query :: bool
  url_fragment :: string

definition empty_url :: go_url where
  "empty_url = \<lparr>url_scheme = [], url_opaque = [], url_user = False, url_host = [], url_path = [],
     url_raw = [], url_query = [], url_force_query = False, url_fragment = []\<rparr>"

subsection \<open>Percent escapes\<close>

datatype url_mode = Path_mode | Host_mode | Zone_mode

definition host_plain :: "char \<Rightarrow> bool" where
  "host_plain c \<longleftrightarrow> is_alnum c \<or> c \<in> set ''!$&()*+,;=:[]<>-_.~'' \<or> byte c = 39 \<or> byte c = 34"

definition escape_allowed :: "url_mode \<Rightarrow> char \<Rightarrow> char \<Rightarrow> bool" where
  "escape_allowed mode a b =
     (case (hex_digit a, hex_digit b) of
        (Some x, Some y) \<Rightarrow>
          (case mode of Path_mode \<Rightarrow> True
           | Host_mode \<Rightarrow> 8 \<le> x \<or> (a = CHR ''2'' \<and> b = CHR ''5'')
           | Zone_mode \<Rightarrow> (a = CHR ''2'' \<and> b = CHR ''5'') \<or> 16 * x + y = 32
               \<or> host_plain (char_of (16 * x + y)))
      | _ \<Rightarrow> False)"

fun unescape :: "url_mode \<Rightarrow> string \<Rightarrow> string option" where
  "unescape mode [] = Some []"
| "unescape mode (c # cs) =
     (if c = CHR ''%'' then
        (case cs of a # b # r \<Rightarrow>
             if escape_allowed mode a b
             then map_option (\<lambda>u. char_of (16 * the (hex_digit a) + the (hex_digit b)) # u)
                    (unescape mode r)
             else None
         | _ \<Rightarrow> None)
      else if mode \<noteq> Path_mode \<and> is_ascii c \<and> \<not> host_plain c then None
      else map_option (\<lambda>u. c # u) (unescape mode cs))"

subsection \<open>IPv6 literals\<close>

text \<open>The four dotted decimal fields that may end an IPv6 literal (\<open>parseIPv4Fields\<close>).\<close>

definition ipv4_field :: "string \<Rightarrow> bool" where
  "ipv4_field f \<longleftrightarrow> f \<noteq> [] \<and> list_all is_digit f \<and> length f \<le> 3 \<and>
     (f = ''0'' \<or> hd f \<noteq> CHR ''0'') \<and> (case digits_val 0 f of Some n \<Rightarrow> n \<le> 255 | None \<Rightarrow> False)"

definition ipv4_fields :: "string \<Rightarrow> bool" where
  "ipv4_fields s \<longleftrightarrow> (let fs = split_on (CHR ''.'') s in length fs = 4 \<and> list_all ipv4_field fs)"

definition is_hex :: "char \<Rightarrow> bool" where
  "is_hex c \<longleftrightarrow> hex_digit c \<noteq> None"

text \<open>
  The loop of \<open>parseIPv6\<close>: \<open>n\<close> is the number of address bytes filled, \<open>ell\<close> whether an
  ellipsis was seen, \<open>s\<close> what is left. It ends after at most eight groups; \<open>fuel\<close> counts
  them, so eight is enough.
\<close>

fun ipv6_loop :: "nat \<Rightarrow> nat \<Rightarrow> bool \<Rightarrow> string \<Rightarrow> bool" where
  "ipv6_loop 0 n ell s = (s = [] \<and> \<not> ell)"
| "ipv6_loop (Suc fuel) n ell s =
     (let g = takeWhile is_hex s; r = dropWhile is_hex s in
      if g = [] \<or> 4 < length g then False
      else case r of
        [] \<Rightarrow> (if n + 2 < 16 then ell else \<not> ell)
      | c # r1 \<Rightarrow>
          if c = CHR ''.'' then
            (if \<not> ell \<and> n \<noteq> 12 \<or> 16 < n + 4 then False
             else ipv4_fields s \<and> (if n + 4 < 16 then ell else \<not> ell))
          else if c \<noteq> CHR '':'' \<or> r1 = [] then False
          else if hd r1 = CHR '':'' then
            (if ell then False
             else if tl r1 = [] then n + 2 < 16
             else ipv6_loop fuel (n + 2) True (tl r1))
          else ipv6_loop fuel (n + 2) ell r1)"

definition ipv6_literal :: "string \<Rightarrow> bool" where
  "ipv6_literal t =
     (let (s, zone, zoned) = cut_at (CHR ''%'') t in
      CHR '':'' \<in> set s \<and> takeWhile (\<lambda>c. c \<noteq> CHR '':'') s = filter (\<lambda>c. c \<noteq> CHR ''.'') (takeWhile (\<lambda>c. c \<noteq> CHR '':'') s) \<and>
      (zoned \<longrightarrow> zone \<noteq> []) \<and>
      (if has_prefix s ''::'' then drop 2 s = [] \<or> ipv6_loop 8 0 True (drop 2 s)
       else ipv6_loop 8 0 False s))"

subsection \<open>Authority\<close>

definition valid_optional_port :: "string \<Rightarrow> bool" where
  "valid_optional_port p = (case p of [] \<Rightarrow> True | c # ds \<Rightarrow> c = CHR '':'' \<and> list_all is_digit ds)"

text \<open>\<open>LastIndex\<close> splits: the text before the last occurrence and the text after it.\<close>

definition cut_last :: "char \<Rightarrow> string \<Rightarrow> (string \<times> string) option" where
  "cut_last c s = (case dropWhile (\<lambda>d. d \<noteq> c) (rev s) of
      [] \<Rightarrow> None | _ # before \<Rightarrow> Some (rev before, rev (takeWhile (\<lambda>d. d \<noteq> c) (rev s))))"

fun index_str :: "string \<Rightarrow> string \<Rightarrow> nat option" where
  "index_str [] p = (if p = [] then Some 0 else None)"
| "index_str (c # cs) p = (if has_prefix (c # cs) p then Some 0 else map_option Suc (index_str cs p))"

definition parse_host :: "string \<Rightarrow> string option" where
  "parse_host host =
     (case cut_last (CHR ''['') host of
        Some (pre, _) \<Rightarrow>
          (case cut_last (CHR '']'') host of None \<Rightarrow> None
           | Some (inner, colon_port) \<Rightarrow>
               if \<not> valid_optional_port colon_port \<or> length inner < Suc (length pre) then None
               else
                 let name = drop (Suc (length pre)) inner;
                     un = (case index_str name ''%25'' of
                         Some z \<Rightarrow> (case (unescape Host_mode (take z name), unescape Zone_mode (drop z name)) of
                             (Some h, Some zn) \<Rightarrow> Some (h @ zn) | _ \<Rightarrow> None)
                       | None \<Rightarrow> unescape Host_mode name)
                 in (case un of None \<Rightarrow> None
                     | Some h \<Rightarrow> if ipv6_literal h then Some (''['' @ h @ '']'' @ colon_port) else None))
      | None \<Rightarrow>
          (case cut_last (CHR '':'') host of
             Some (_, port) \<Rightarrow> if list_all is_digit port then unescape Host_mode host else None
           | None \<Rightarrow> unescape Host_mode host))"

definition valid_userinfo :: "string \<Rightarrow> bool" where
  "valid_userinfo s = (list_all (\<lambda>c. is_alnum c \<or> c \<in> set ''-._:~!$&()*+,;=%@'' \<or> byte c = 39) s
     \<and> unescape Path_mode s \<noteq> None)"

definition parse_authority :: "string \<Rightarrow> (bool \<times> string) option" where
  "parse_authority a =
     (case cut_last (CHR ''@'') a of
        None \<Rightarrow> map_option (\<lambda>h. (False, h)) (parse_host a)
      | Some (userinfo, host) \<Rightarrow>
          (case parse_host host of None \<Rightarrow> None
           | Some h \<Rightarrow> if valid_userinfo userinfo then Some (True, h) else None))"

subsection \<open>Parse\<close>

text \<open>\<open>getScheme\<close>: \<open>None\<close> for a missing scheme before a colon, otherwise scheme and rest.\<close>

fun scheme_prefix :: "string \<Rightarrow> string \<Rightarrow> (string \<times> string) option" where
  "scheme_prefix acc [] = Some ([], rev acc)"
| "scheme_prefix acc (c # cs) =
     (if is_upper c \<or> is_lower c then scheme_prefix (c # acc) cs
      else if is_digit c \<or> c \<in> set ''+-.'' then
        (if acc = [] then Some ([], c # cs) else scheme_prefix (c # acc) cs)
      else if c = CHR '':'' then (if acc = [] then None else Some (rev acc, cs))
      else Some ([], rev acc @ c # cs))"

definition has_ctl_byte :: "string \<Rightarrow> bool" where
  "has_ctl_byte s = list_ex (\<lambda>c. byte c < 32 \<or> byte c = 127) s"

definition split_query :: "string \<Rightarrow> string \<times> string \<times> bool" where
  "split_query rest =
     (if has_suffix rest ''?'' \<and> length (filter (\<lambda>c. c = CHR ''?'') rest) = 1
      then (butlast rest, [], True)
      else (let (r, q, _) = cut_at (CHR ''?'') rest in (r, q, False)))"

definition with_path :: "go_url \<Rightarrow> string \<Rightarrow> go_url option" where
  "with_path u rest = map_option (\<lambda>p. u\<lparr>url_path := p, url_raw := rest\<rparr>) (unescape Path_mode rest)"

definition parse_nofrag :: "string \<Rightarrow> go_url option" where
  "parse_nofrag raw =
     (if has_ctl_byte raw then None
      else if raw = ''*'' then Some (empty_url\<lparr>url_path := ''*''\<rparr>)
      else case scheme_prefix [] raw of None \<Rightarrow> None
      | Some (scheme, rest0) \<Rightarrow>
          let (rest, query, force) = split_query rest0;
              u = empty_url\<lparr>url_scheme := to_lower scheme, url_query := query, url_force_query := force\<rparr>
          in if \<not> has_prefix rest ''/'' \<and> scheme \<noteq> [] then Some (u\<lparr>url_opaque := rest\<rparr>)
             else if \<not> has_prefix rest ''/'' \<and> CHR '':'' \<in> set (takeWhile (\<lambda>c. c \<noteq> CHR ''/'') rest) then None
             else if (scheme \<noteq> [] \<or> \<not> has_prefix rest ''///'') \<and> has_prefix rest ''//'' then
               (let authority = takeWhile (\<lambda>c. c \<noteq> CHR ''/'') (drop 2 rest);
                    path = dropWhile (\<lambda>c. c \<noteq> CHR ''/'') (drop 2 rest)
                in case parse_authority authority of None \<Rightarrow> None
                   | Some (user, host) \<Rightarrow> with_path (u\<lparr>url_user := user, url_host := host\<rparr>) path)
             else with_path u rest)"

definition url_parse :: "string \<Rightarrow> go_url option" where
  "url_parse raw =
     (let (u, frag, _) = cut_at (CHR ''#'') raw in
      case parse_nofrag u of None \<Rightarrow> None
      | Some url \<Rightarrow>
          if frag = [] then Some url
          else map_option (\<lambda>f. url\<lparr>url_fragment := f\<rparr>) (unescape Path_mode frag))"

definition is_abs :: "go_url \<Rightarrow> bool" where
  "is_abs u = (url_scheme u \<noteq> [])"

definition split_host_port :: "string \<Rightarrow> string \<times> string" where
  "split_host_port hp =
     (let (host, port) = (case cut_last (CHR '':'') hp of
            Some (h, p) \<Rightarrow> if list_all is_digit p then (h, p) else (hp, [])
          | None \<Rightarrow> (hp, []))
      in (if has_prefix host ''['' \<and> has_suffix host '']'' then butlast (tl host) else host, port))"

definition hostname :: "go_url \<Rightarrow> string" where
  "hostname u = fst (split_host_port (url_host u))"

definition url_port :: "go_url \<Rightarrow> string" where
  "url_port u = snd (split_host_port (url_host u))"

lemma url_parse_example:
  "url_parse ''https://h.example:8443/a%20b'' =
     Some \<lparr>url_scheme = ''https'', url_opaque = [], url_user = False, url_host = ''h.example:8443'',
       url_path = ''/a b'', url_raw = ''/a%20b'', url_query = [], url_force_query = False,
       url_fragment = []\<rparr>"
  by code_simp

lemma ipv6_literal_examples:
  "ipv6_literal ''::1'' \<and> ipv6_literal ''fe80::1%en0'' \<and> ipv6_literal ''::ffff:10.0.0.1''
   \<and> ipv6_literal ''1:2:3:4:5:6:7:8'' \<and> ipv6_literal ''1::''
   \<and> \<not> ipv6_literal ''10.0.0.1'' \<and> \<not> ipv6_literal ''1:2:3:4:5:6:7'' \<and> \<not> ipv6_literal ''1::2::3''
   \<and> \<not> ipv6_literal ''12345::'' \<and> \<not> ipv6_literal ''1:2:3:4:5:6:7::8:9''"
  by code_simp

end
