(* ===== verification/IntentTypes.thy ===== *)
theory IntentTypes
  imports JsonV2Laws GoUrl
begin

text \<open>
  \<open>internal/intentv2/store.go\<close>, data and validators: the claims a caller makes before it sends
  a mutation, the evidence it brings back, the journal snapshot that holds them, and the
  predicates the journal checks on all of these. A nil and an empty slice are one value; where
  the source tells them apart (a snapshot without \<open>records\<close>) the codec does.
\<close>

type_synonym action = string
type_synonym status = string

abbreviation ActionCreate :: action where "ActionCreate \<equiv> ''create''"
abbreviation ActionUpdate :: action where "ActionUpdate \<equiv> ''update''"
abbreviation ActionDelete :: action where "ActionDelete \<equiv> ''delete''"

abbreviation StatusClaimed :: status where "StatusClaimed \<equiv> ''claimed''"
abbreviation StatusAccepted :: status where "StatusAccepted \<equiv> ''accepted''"
abbreviation StatusAcceptedFailed :: status where "StatusAcceptedFailed \<equiv> ''accepted-failed''"
abbreviation StatusFailedReserved :: status where "StatusFailedReserved \<equiv> ''failed-reserved''"
abbreviation StatusApplied :: status where "StatusApplied \<equiv> ''applied''"
abbreviation StatusDeleteConfirmed :: status where "StatusDeleteConfirmed \<equiv> ''delete-confirmed''"

datatype store_error =
    ErrStoreUnavailable | ErrStoreIdentity | ErrStoreLocked | ErrIntentConflict
  | ErrUnresolvedIntent | ErrTargetOccupied | ErrStoreConflict | ErrStoreUncertain

definition storeFormat :: string where
  "storeFormat = ''takoform.provider-hostv2-intents@v1''"
definition maxSnapshotBytes :: nat where "maxSnapshotBytes = 16 * 2 ^ 20"
definition maxRecords :: nat where "maxRecords = 4096"
definition maxPublicJSONBytes :: nat where "maxPublicJSONBytes = 2 ^ 20"
definition maxPrivateInputNames :: nat where "maxPrivateInputNames = 256"
definition maxReplayWindowSeconds :: int where "maxReplayWindowSeconds = 9007199254740991"
definition maxPrincipalScopeBytes :: nat where "maxPrincipalScopeBytes = 256"
definition maxTargetComponentBytes :: nat where "maxTargetComponentBytes = 1024"
definition idempotencyKeyBytes :: nat where "idempotencyKeyBytes = 32"

subsection \<open>Data\<close>

record Target =
  t_HostAPI :: string
  t_PrincipalScope :: string
  t_Space :: string
  t_Name :: string

record StoreBinding =
  b_HostAPI :: string

record ImportEvidence =
  ie_HostAPI :: string
  ie_Path :: string
  ie_StatusCode :: int
  ie_UID :: string
  ie_Form :: string
  ie_Space :: string
  ie_Name :: string
  ie_Generation :: int

record ImportRequest =
  ir_Target :: Target
  ir_UID :: string
  ir_Form :: string
  ir_Evidence :: ImportEvidence

record ImportBinding =
  ib_Target :: Target
  ib_UID :: string
  ib_Form :: string
  ib_Generation :: int

record BeginRequest =
  r_Target :: Target
  r_Action :: action
  r_Form :: string
  r_Method :: string
  r_Path :: string
  r_UID :: string
  r_Generation :: string
  r_SupersedesIntentID :: string
  r_PublicJSON :: bytes
  r_PrivateInputNames :: "string list"
  r_AdvertisedReplayWindowSecs :: int

record Intent =
  i_ID :: string
  i_Key :: string
  i_Target :: Target
  i_Action :: action
  i_Form :: string
  i_Method :: string
  i_Path :: string
  i_UID :: string
  i_Generation :: string
  i_SupersedesIntentID :: string
  i_PublicJSON :: bytes
  i_PrivateInputNames :: "string list"
  i_FirstSentAt :: go_time
  i_AdvertisedReplayWindowSecs :: int
  i_Status :: status
  i_OperationID :: string
  i_OperationUID :: string
  i_OperationGeneration :: int
  i_OperationStatus :: string
  i_OperationEffect :: string
  i_InitialRetainUntil :: go_time
  i_RetainUntil :: go_time
  i_ResultUID :: string
  i_ResultGeneration :: string
  i_ObservedGeneration :: string

record OperationAck =
  a_ID :: string
  a_ResourceUID :: string
  a_Action :: action
  a_Generation :: int
  a_Status :: string
  a_Effect :: string
  a_RetainUntil :: string

record ResourceObservation =
  o_Present :: bool
  o_Path :: string
  o_StatusCode :: int
  o_UID :: string
  o_Form :: string
  o_Space :: string
  o_Name :: string
  o_Generation :: int
  o_Phase :: string

record CompletionEvidence =
  e_Operation :: OperationAck
  e_Resource :: ResourceObservation

record diskHeader =
  h_Format :: string
  h_StoreID :: string
  h_Path :: string

record diskSnapshot =
  s_Format :: string
  s_StoreID :: string
  s_Binding :: "StoreBinding option"
  s_Imports :: "ImportBinding list"
  s_Records :: "Intent list"

subsection \<open>Identifiers and locations\<close>

definition validHostID :: "string \<Rightarrow> bool" where
  "validHostID v = match_rep is_alnum (\<lambda>c. is_alnum c \<or> c \<in> set ''._-'') 0 127 v"

definition isASCII :: "string \<Rightarrow> bool" where
  "isASCII v = ascii_only v"

definition validFormURL :: "string \<Rightarrow> bool" where
  "validFormURL raw =
     (case url_parse raw of None \<Rightarrow> False
      | Some u \<Rightarrow> is_abs u \<and> url_scheme u = ''https'' \<and> hostname u \<noteq> [] \<and> \<not> url_user u \<and>
          url_query u = [] \<and> \<not> url_force_query u \<and> url_fragment u = [] \<and>
          \<not> contains_any raw ''?#'' \<and> isASCII raw)"

definition validHostAPIBaseURL :: "string \<Rightarrow> bool" where
  "validHostAPIBaseURL raw =
     (case url_parse raw of None \<Rightarrow> False
      | Some u \<Rightarrow> is_abs u \<and> url_scheme u = ''https'' \<and> hostname u \<noteq> [] \<and> \<not> url_user u \<and>
          url_query u = [] \<and> \<not> url_force_query u \<and> url_fragment u = [] \<and>
          \<not> contains_any raw ''?#'' \<and> \<not> has_suffix (url_path u) ''/'' \<and> isASCII raw)"

definition nul :: char where "nul = CHR 0x00"

definition validateStoreID :: "string \<Rightarrow> store_error + unit" where
  "validateStoreID s =
     (if s = [] \<or> 128 < length s \<or> \<not> utf8_valid s \<or> nul \<in> set s \<or> trim_space s \<noteq> s
      then Inl ErrStoreUnavailable else Inr ())"

definition validateTarget :: "Target \<Rightarrow> store_error + unit" where
  "validateTarget t =
     (if t_HostAPI t = [] \<or> t_PrincipalScope t = [] \<or>
         maxPrincipalScopeBytes < length (t_PrincipalScope t) \<or>
         \<not> utf8_valid (t_PrincipalScope t) \<or> nul \<in> set (t_PrincipalScope t) \<or>
         \<not> validHostID (t_Space t) \<or> \<not> validHostID (t_Name t)
      then Inl ErrStoreUnavailable else Inr ())"

definition validateStoreBinding :: "StoreBinding \<Rightarrow> store_error + unit" where
  "validateStoreBinding b =
     (if \<not> validHostAPIBaseURL (b_HostAPI b) then Inl ErrStoreUnavailable else Inr ())"

definition bindingMatches :: "diskSnapshot \<Rightarrow> string \<Rightarrow> Target \<Rightarrow> bool" where
  "bindingMatches s storeID t =
     (case s_Binding s of None \<Rightarrow> False
      | Some b \<Rightarrow> ok (validateStoreBinding b) \<and> t_HostAPI t = b_HostAPI b \<and>
          t_PrincipalScope t = storeID)"

definition validKey :: "string \<Rightarrow> bool" where
  "validKey key =
     (case hex_decode key of None \<Rightarrow> False | Some d \<Rightarrow> length d = idempotencyKeyBytes)"

text \<open>\<open>newKey\<close> prints 32 random bytes; \<open>None\<close> is a failing random source.\<close>

definition newKey :: "bytes option \<Rightarrow> string option" where
  "newKey rand = map_option hex_encode rand"

subsection \<open>Generations\<close>

definition validExpectedGeneration :: "string \<Rightarrow> bool" where
  "validExpectedGeneration v =
     (case parse_int64 v of None \<Rightarrow> False
      | Some p \<Rightarrow> 0 < p \<and> p < maxReplayWindowSeconds \<and> format_int p = v)"

definition validGeneration :: "string \<Rightarrow> bool" where
  "validGeneration v =
     (case parse_int64 v of None \<Rightarrow> False
      | Some p \<Rightarrow> 0 < p \<and> p \<le> maxReplayWindowSeconds \<and> format_int p = v)"

text \<open>\<open>ParseInt\<close> with the error dropped: zero on a syntax error, the nearest bound on overflow.\<close>

definition mustGeneration :: "string \<Rightarrow> int" where
  "mustGeneration v =
     (case parse_int64 v of Some p \<Rightarrow> p
      | None \<Rightarrow>
          (case v of [] \<Rightarrow> 0
           | c # cs \<Rightarrow>
               let neg = (c = CHR ''-''); body = (if neg \<or> c = CHR ''+'' then cs else v)
               in if body = [] \<or> digits_val 0 body = None then 0
                  else if neg then - (2 ^ 63) else 2 ^ 63 - 1))"

definition validResultIdentity :: "string \<Rightarrow> string \<Rightarrow> bool" where
  "validResultIdentity uid generation \<longleftrightarrow> validHostID uid \<and> validGeneration generation"

definition validOperationID :: "string \<Rightarrow> bool" where
  "validOperationID v \<longleftrightarrow> v = [] \<or> validHostID v"

subsection \<open>Public request bodies\<close>

definition hasOnlyKeys :: "(string \<times> json) list \<Rightarrow> string list \<Rightarrow> bool" where
  "hasOnlyKeys obj keys = list_all (\<lambda>(k, _). k \<in> set keys) obj"

fun as_string :: "json option \<Rightarrow> string option" where
  "as_string (Some (JStr s)) = Some s"
| "as_string _ = None"

fun as_object :: "json option \<Rightarrow> (string \<times> json) list option" where
  "as_object (Some (JObj kvs)) = Some kvs"
| "as_object _ = None"

definition validOffering :: "(string \<times> json) list \<Rightarrow> bool" where
  "validOffering obj =
     (case map_of obj ''offering'' of None \<Rightarrow> True
      | Some raw \<Rightarrow>
          (case as_object (Some raw) of None \<Rightarrow> False
           | Some off \<Rightarrow> hasOnlyKeys off [''id'', ''revision''] \<and>
               (case (as_string (map_of off ''id''), as_string (map_of off ''revision'')) of
                  (Some i, Some rv) \<Rightarrow> validHostID i \<and> rv \<noteq> []
                | _ \<Rightarrow> False)))"

definition validCreatePublicObject :: "(string \<times> json) list \<Rightarrow> BeginRequest \<Rightarrow> bool" where
  "validCreatePublicObject obj r =
     (hasOnlyKeys obj [''form'', ''space'', ''name'', ''offering'', ''spec''] \<and>
      as_string (map_of obj ''form'') = Some (r_Form r) \<and>
      as_string (map_of obj ''space'') = Some (t_Space (r_Target r)) \<and>
      as_string (map_of obj ''name'') = Some (t_Name (r_Target r)) \<and>
      as_object (map_of obj ''spec'') \<noteq> None \<and>
      validOffering obj)"

definition validUpdatePublicObject :: "(string \<times> json) list \<Rightarrow> bool" where
  "validUpdatePublicObject obj =
     (hasOnlyKeys obj [''spec''] \<and> as_object (map_of obj ''spec'') \<noteq> None)"

text \<open>The body checks of \<open>validateBegin\<close> for Create and Update.\<close>

definition validPublicJSON :: "BeginRequest \<Rightarrow> bool" where
  "validPublicJSON r =
     (r_PublicJSON r \<noteq> [] \<and>
      (case decode (r_PublicJSON r) of
         Inr (JObj obj) \<Rightarrow> map_of obj ''privateInputs'' = None \<and>
           (r_Action r = ActionCreate \<longrightarrow> validCreatePublicObject obj r) \<and>
           (r_Action r = ActionUpdate \<longrightarrow> validUpdatePublicObject obj)
       | _ \<Rightarrow> False))"

definition resourcePath :: "string \<Rightarrow> string" where
  "resourcePath uid = ''/resources/'' @ uid"

text \<open>Method, path and fence of each action.\<close>

definition validRoute :: "BeginRequest \<Rightarrow> bool" where
  "validRoute r =
     ((r_Action r = ActionCreate \<longrightarrow> r_UID r = [] \<and> r_Generation r = [] \<and> r_Method r = ''POST'' \<and>
         r_Path r = ''/resources'') \<and>
      (r_Action r = ActionUpdate \<longrightarrow> r_UID r \<noteq> [] \<and> r_Method r = ''PUT'' \<and>
         r_Path r = resourcePath (r_UID r) \<and> validExpectedGeneration (r_Generation r)) \<and>
      (r_Action r = ActionDelete \<longrightarrow> r_UID r \<noteq> [] \<and> r_Method r = ''DELETE'' \<and>
         r_Path r = resourcePath (r_UID r) \<and> validExpectedGeneration (r_Generation r) \<and>
         r_PublicJSON r = [] \<and> r_PrivateInputNames r = []))"

fun validNames :: "string list \<Rightarrow> bool" where
  "validNames [] = True"
| "validNames [n] =
     (n \<noteq> [] \<and> length n \<le> maxTargetComponentBytes \<and> utf8_valid n \<and> nul \<notin> set n)"
| "validNames (n # m # ns) =
     (n \<noteq> [] \<and> length n \<le> maxTargetComponentBytes \<and> utf8_valid n \<and> nul \<notin> set n \<and> n \<noteq> m \<and>
      validNames (m # ns))"

definition validateBegin :: "BeginRequest \<Rightarrow> store_error + BeginRequest" where
  "validateBegin r =
     (if \<not> ok (validateTarget (r_Target r)) \<or>
         r_Action r \<notin> {ActionCreate, ActionUpdate, ActionDelete} \<or>
         \<not> validFormURL (r_Form r) \<or> maxTargetComponentBytes < length (r_Path r) \<or>
         contains_any (r_Path r) ''?#'' \<or> \<not> utf8_valid (r_Path r) \<or>
         maxPublicJSONBytes < length (r_PublicJSON r) \<or>
         r_AdvertisedReplayWindowSecs r \<le> 0 \<or>
         maxReplayWindowSeconds < r_AdvertisedReplayWindowSecs r
      then Inl ErrStoreUnavailable
      else if \<not> validHostAPIBaseURL (t_HostAPI (r_Target r)) then Inl ErrStoreUnavailable
      else if \<not> validRoute r then Inl ErrStoreUnavailable
      else if r_Action r \<noteq> ActionDelete \<and> \<not> validPublicJSON r then Inl ErrStoreUnavailable
      else if maxPrivateInputNames < length (r_PrivateInputNames r) \<or>
              (r_SupersedesIntentID r \<noteq> [] \<and>
               (\<not> validKey (r_SupersedesIntentID r) \<or> r_Action r = ActionCreate))
      then Inl ErrStoreUnavailable
      else let names = sort (r_PrivateInputNames r) in
        if \<not> validNames names then Inl ErrStoreUnavailable
        else Inr (r\<lparr>r_PrivateInputNames := names\<rparr>))"

subsection \<open>Operations and observations\<close>

definition parseRetainUntil :: "string \<Rightarrow> store_error + go_time" where
  "parseRetainUntil v =
     (if v = [] \<or> \<not> has_suffix v ''Z'' then Inl ErrStoreUnavailable
      else case parse_rfc3339 v of None \<Rightarrow> Inl ErrStoreUnavailable
      | Some p \<Rightarrow> if is_zero_time p then Inl ErrStoreUnavailable else Inr (p\<lparr>is_utc := True\<rparr>))"

definition validOperationStatus :: "string \<Rightarrow> string \<Rightarrow> bool" where
  "validOperationStatus st effect =
     (if st \<notin> {''queued'', ''running'', ''waiting_input'', ''reconciling'', ''succeeded'', ''failed''}
      then False
      else if effect \<notin> {''none'', ''unknown'', ''partial'', ''complete''} then False
      else if st = ''succeeded'' \<and> effect \<noteq> ''complete'' \<or>
              st = ''failed'' \<and> effect \<noteq> ''none'' \<and> effect \<noteq> ''partial'' \<or>
              st = ''reconciling'' \<and> effect \<noteq> ''unknown''
      then False else True)"

definition validateOperationForIntent :: "Intent \<Rightarrow> OperationAck \<Rightarrow> store_error + unit" where
  "validateOperationForIntent rec ack =
     (if a_Action ack \<noteq> i_Action rec \<or> a_Generation ack < 1 \<or>
         maxReplayWindowSeconds < a_Generation ack
      then Inl ErrIntentConflict
      else if i_Action rec \<noteq> ActionCreate then
        (case parse_int64 (i_Generation rec) of None \<Rightarrow> Inl ErrIntentConflict
         | Some g \<Rightarrow>
             if g < 1 \<or> maxReplayWindowSeconds \<le> g then Inl ErrIntentConflict
             else if a_ResourceUID ack \<noteq> i_UID rec then Inl ErrIntentConflict
             else if a_Generation ack \<noteq> g + 1 then Inl ErrIntentConflict else Inr ())
      else if a_Generation ack \<noteq> 1 then Inl ErrIntentConflict else Inr ())"

definition sameOperation :: "Intent \<Rightarrow> OperationAck \<Rightarrow> bool" where
  "sameOperation rec ack \<longleftrightarrow>
     i_OperationID rec = a_ID ack \<and> i_OperationUID rec = a_ResourceUID ack \<and>
     i_Action rec = a_Action ack \<and> i_OperationGeneration rec = a_Generation ack"

definition resourceMatchesTarget :: "Intent \<Rightarrow> ResourceObservation \<Rightarrow> bool" where
  "resourceMatchesTarget rec obs \<longleftrightarrow>
     o_Path obs = resourcePath (i_OperationUID rec) \<and> o_StatusCode obs = 200 \<and> o_Present obs \<and>
     o_UID obs = i_OperationUID rec \<and> o_Form obs = i_Form rec \<and>
     o_Space obs = t_Space (i_Target rec) \<and> o_Name obs = t_Name (i_Target rec)"

definition resourceMatches :: "Intent \<Rightarrow> ResourceObservation \<Rightarrow> int \<Rightarrow> bool" where
  "resourceMatches rec obs generation \<longleftrightarrow>
     resourceMatchesTarget rec obs \<and> o_Phase obs = ''idle'' \<and>
     generation = i_OperationGeneration rec \<and> o_Generation obs = generation"

definition resourceAbsentMatches :: "Intent \<Rightarrow> ResourceObservation \<Rightarrow> bool" where
  "resourceAbsentMatches rec obs \<longleftrightarrow>
     \<not> o_Present obs \<and> o_Path obs = resourcePath (i_UID rec) \<and>
     (o_StatusCode obs = 404 \<or> o_StatusCode obs = 410) \<and>
     o_UID obs = [] \<and> o_Form obs = [] \<and> o_Space obs = [] \<and> o_Name obs = [] \<and>
     o_Generation obs = 0"

subsection \<open>Comparing claims\<close>

definition sameTarget :: "Target \<Rightarrow> Target \<Rightarrow> bool" where
  "sameTarget a b \<longleftrightarrow> a = b"

definition sameFence :: "Intent \<Rightarrow> BeginRequest \<Rightarrow> bool" where
  "sameFence prior r \<longleftrightarrow>
     sameTarget (i_Target prior) (r_Target r) \<and> i_Action prior = r_Action r \<and>
     i_UID prior = r_UID r \<and> i_Generation prior = r_Generation r"

definition sameStrings :: "string list \<Rightarrow> string list \<Rightarrow> bool" where
  "sameStrings l r \<longleftrightarrow> length l = length r \<and> list_all2 (=) l r"

definition sameRequest :: "Intent \<Rightarrow> BeginRequest \<Rightarrow> bool" where
  "sameRequest prior r \<longleftrightarrow>
     sameTarget (i_Target prior) (r_Target r) \<and> i_Action prior = r_Action r \<and>
     i_Form prior = r_Form r \<and> i_Method prior = r_Method r \<and> i_Path prior = r_Path r \<and>
     i_UID prior = r_UID r \<and> i_Generation prior = r_Generation r \<and>
     i_SupersedesIntentID prior = r_SupersedesIntentID r \<and>
     i_PublicJSON prior = r_PublicJSON r \<and>
     sameStrings (i_PrivateInputNames prior) (r_PrivateInputNames r)"

definition sameCreateRequest :: "Intent \<Rightarrow> BeginRequest \<Rightarrow> bool" where
  "sameCreateRequest prior r \<longleftrightarrow> i_Action prior = ActionCreate \<and> sameRequest prior r"

subsection \<open>Stored claims\<close>

definition intent_request :: "Intent \<Rightarrow> BeginRequest" where
  "intent_request i =
     \<lparr>r_Target = i_Target i, r_Action = i_Action i, r_Form = i_Form i, r_Method = i_Method i,
      r_Path = i_Path i, r_UID = i_UID i, r_Generation = i_Generation i,
      r_SupersedesIntentID = i_SupersedesIntentID i, r_PublicJSON = i_PublicJSON i,
      r_PrivateInputNames = i_PrivateInputNames i,
      r_AdvertisedReplayWindowSecs = i_AdvertisedReplayWindowSecs i\<rparr>"

definition intent_ack :: "Intent \<Rightarrow> OperationAck" where
  "intent_ack i =
     \<lparr>a_ID = i_OperationID i, a_ResourceUID = i_OperationUID i, a_Action = i_Action i,
      a_Generation = i_OperationGeneration i, a_Status = i_OperationStatus i,
      a_Effect = i_OperationEffect i, a_RetainUntil = format_rfc3339_nano (i_RetainUntil i)\<rparr>"

text \<open>The fields every stored claim must have, whatever its status.\<close>

definition validStoredFields :: "Intent \<Rightarrow> bool" where
  "validStoredFields i \<longleftrightarrow>
     \<not> (\<not> validKey (i_ID i) \<or> i_ID i \<noteq> i_Key i \<or> \<not> ok (validateTarget (i_Target i)) \<or>
        is_zero_time (i_FirstSentAt i) \<or> \<not> is_utc (i_FirstSentAt i) \<or>
        (\<not> is_zero_time (i_InitialRetainUntil i) \<and> \<not> is_utc (i_InitialRetainUntil i)) \<or>
        (\<not> is_zero_time (i_RetainUntil i) \<and> \<not> is_utc (i_RetainUntil i)) \<or>
        i_AdvertisedReplayWindowSecs i \<le> 0 \<or>
        maxReplayWindowSeconds < i_AdvertisedReplayWindowSecs i \<or>
        \<not> validOperationID (i_OperationID i) \<or>
        (\<not> is_zero_time (i_RetainUntil i) \<and> i_OperationID i = []) \<or>
        (\<not> is_zero_time (i_InitialRetainUntil i) \<and> i_OperationID i = []) \<or>
        (i_OperationID i \<noteq> [] \<and>
          (is_zero_time (i_InitialRetainUntil i) \<or> before (i_RetainUntil i) (i_InitialRetainUntil i))) \<or>
        (i_OperationID i = [] \<and>
          (i_OperationUID i \<noteq> [] \<or> i_OperationGeneration i \<noteq> 0 \<or> i_OperationStatus i \<noteq> [] \<or>
           i_OperationEffect i \<noteq> [])) \<or>
        (i_OperationID i \<noteq> [] \<and>
          (\<not> validHostID (i_OperationUID i) \<or> i_OperationGeneration i < 1 \<or>
           maxReplayWindowSeconds < i_OperationGeneration i \<or>
           \<not> validOperationStatus (i_OperationStatus i) (i_OperationEffect i))))"

text \<open>The fields each status allows.\<close>

definition validStatusFields :: "Intent \<Rightarrow> bool" where
  "validStatusFields i =
     (if i_Status i = StatusClaimed then
        \<not> (i_OperationID i \<noteq> [] \<or> \<not> is_zero_time (i_InitialRetainUntil i) \<or>
           \<not> is_zero_time (i_RetainUntil i) \<or> i_ResultUID i \<noteq> [] \<or> i_ResultGeneration i \<noteq> [] \<or>
           i_ObservedGeneration i \<noteq> [])
      else if i_Status i = StatusAccepted then
        \<not> (i_OperationID i = [] \<or> i_OperationStatus i = ''failed'' \<or> i_ResultUID i \<noteq> [] \<or>
           i_ResultGeneration i \<noteq> [] \<or> i_ObservedGeneration i \<noteq> [])
      else if i_Status i = StatusAcceptedFailed then
        \<not> (i_OperationID i = [] \<or> i_OperationStatus i \<noteq> ''failed'' \<or> i_ResultUID i \<noteq> [] \<or>
           i_ResultGeneration i \<noteq> [] \<or> i_ObservedGeneration i \<noteq> [])
      else if i_Status i = StatusFailedReserved then
        \<not> (i_OperationID i = [] \<or> i_OperationStatus i \<noteq> ''failed'' \<or>
           \<not> validGeneration (i_ObservedGeneration i) \<or>
           mustGeneration (i_ObservedGeneration i) \<noteq> i_OperationGeneration i \<or>
           i_ResultUID i \<noteq> [] \<or> i_ResultGeneration i \<noteq> [])
      else if i_Status i = StatusApplied then
        \<not> ((i_Action i \<noteq> ActionCreate \<and> i_Action i \<noteq> ActionUpdate) \<or> i_OperationID i = [] \<or>
           i_OperationStatus i \<noteq> ''succeeded'' \<or> i_OperationEffect i \<noteq> ''complete'' \<or>
           \<not> validResultIdentity (i_ResultUID i) (i_ResultGeneration i) \<or>
           i_ResultUID i \<noteq> i_OperationUID i \<or>
           mustGeneration (i_ResultGeneration i) \<noteq> i_OperationGeneration i)
      else if i_Status i = StatusDeleteConfirmed then
        \<not> (i_Action i \<noteq> ActionDelete \<or> i_OperationID i = [] \<or> i_OperationStatus i \<noteq> ''succeeded'' \<or>
           i_OperationEffect i \<noteq> ''complete'' \<or> i_OperationUID i \<noteq> i_UID i \<or> i_ResultUID i \<noteq> [] \<or>
           i_ResultGeneration i \<noteq> [])
      else False)"

definition validStoredIntent :: "Intent \<Rightarrow> bool" where
  "validStoredIntent i =
     (if \<not> validStoredFields i then False
      else case validateBegin (intent_request i) of Inl _ \<Rightarrow> False
      | Inr r \<Rightarrow>
          if \<not> sameStrings (r_PrivateInputNames r) (i_PrivateInputNames i) then False
          else if i_OperationID i \<noteq> [] \<and> \<not> ok (validateOperationForIntent i (intent_ack i)) then False
          else validStatusFields i)"

end
