(* ===== verification/IntentStore.thy ===== *)
theory IntentStore
  imports IntentTypes
begin

text \<open>
  \<open>internal/intentv2/store.go\<close>, transactions: the checks \<open>decodeSnapshot\<close> makes on a decoded
  snapshot and the functions that \<open>Open\<close>, \<open>Binding\<close>, \<open>BindEmpty\<close>, \<open>BindImportedResource\<close>,
  \<open>ReadImportBinding\<close>, \<open>Begin\<close>, \<open>Read\<close>, \<open>RecordAccepted\<close> and \<open>Complete\<close> run on it under the
  store lock. A transaction maps a snapshot to an error, in which case nothing is written, or to
  the snapshot to write and the value returned. The random source and the clock of \<open>Begin\<close> are
  arguments. Snapshots are values here, so \<open>copyIntent\<close> has nothing to do.
\<close>

type_synonym 'a tx = "diskSnapshot \<Rightarrow> store_error + diskSnapshot \<times> 'a"

subsection \<open>Snapshot checks\<close>

fun check_records :: "diskSnapshot \<Rightarrow> string \<Rightarrow> string list \<Rightarrow> Intent list \<Rightarrow> bool" where
  "check_records s storeID seen [] = True"
| "check_records s storeID seen (rec # recs) =
     (if \<not> validStoredIntent rec \<or> i_ID rec \<in> set seen then False
      else if s_Binding s \<noteq> None \<and> \<not> bindingMatches s storeID (i_Target rec) then False
      else check_records s storeID (i_ID rec # seen) recs)"

definition uid_key :: "ImportBinding \<Rightarrow> string" where
  "uid_key b = t_HostAPI (ib_Target b) @ nul # ib_UID b"

fun check_imports ::
  "diskSnapshot \<Rightarrow> string \<Rightarrow> Target list \<Rightarrow> string list \<Rightarrow> ImportBinding list \<Rightarrow> bool" where
  "check_imports s storeID targets uids [] = True"
| "check_imports s storeID targets uids (b # bs) =
     (if s_Binding s = None \<or> \<not> bindingMatches s storeID (ib_Target b) \<or> \<not> validHostID (ib_UID b) \<or>
         \<not> validFormURL (ib_Form b) \<or> ib_Generation b < 1 \<or>
         maxReplayWindowSeconds < ib_Generation b \<or>
         ib_Target b \<in> set targets \<or> uid_key b \<in> set uids
      then False
      else check_imports s storeID (ib_Target b # targets) (uid_key b # uids) bs)"

definition check_snapshot :: "string \<Rightarrow> diskSnapshot \<Rightarrow> bool" where
  "check_snapshot storeID s =
     (if s_Format s \<noteq> storeFormat \<or> s_StoreID s \<noteq> storeID \<or>
         maxRecords < length (s_Records s) + length (s_Imports s)
      then False
      else if (case s_Binding s of Some b \<Rightarrow> \<not> ok (validateStoreBinding b)
               | None \<Rightarrow> s_Imports s \<noteq> [])
      then False
      else check_records s storeID [] (s_Records s) \<and>
           check_imports s storeID [] [] (s_Imports s))"

subsection \<open>Lookups\<close>

fun find_from :: "nat \<Rightarrow> Intent list \<Rightarrow> string \<Rightarrow> (Intent \<times> nat) option" where
  "find_from n [] i = None"
| "find_from n (rec # recs) i = (if i_ID rec = i then Some (rec, n) else find_from (Suc n) recs i)"

definition findIntent :: "diskSnapshot \<Rightarrow> string \<Rightarrow> (Intent \<times> nat) option" where
  "findIntent s i = find_from 0 (s_Records s) i"

definition latestIntent :: "diskSnapshot \<Rightarrow> Target \<Rightarrow> Intent option" where
  "latestIntent s t = find_last (\<lambda>rec. sameTarget (i_Target rec) t) (s_Records s)"

text \<open>\<open>currentIdentity\<close>: UID, generation, Form, found, deleted.\<close>

type_synonym identity = "string \<times> string \<times> string \<times> bool \<times> bool"

fun identity_scan :: "Target \<Rightarrow> Intent list \<Rightarrow> identity option" where
  "identity_scan t [] = None"
| "identity_scan t (rec # recs) =
     (if \<not> sameTarget (i_Target rec) t then identity_scan t recs
      else if i_Status rec = StatusDeleteConfirmed then Some ([], [], [], False, True)
      else if i_Status rec = StatusApplied \<and> (i_Action rec = ActionCreate \<or> i_Action rec = ActionUpdate)
      then Some (i_ResultUID rec, i_ResultGeneration rec, i_Form rec, True, False)
      else if i_Status rec = StatusFailedReserved
      then Some (i_OperationUID rec, i_ObservedGeneration rec, i_Form rec, True, False)
      else identity_scan t recs)"

definition currentIdentity :: "diskSnapshot \<Rightarrow> Target \<Rightarrow> identity" where
  "currentIdentity s t =
     (case identity_scan t (rev (s_Records s)) of Some r \<Rightarrow> r
      | None \<Rightarrow>
          (case List.find (\<lambda>b. sameTarget (ib_Target b) t) (s_Imports s) of
             Some b \<Rightarrow> (ib_UID b, format_int (ib_Generation b), ib_Form b, True, False)
           | None \<Rightarrow> ([], [], [], False, False)))"

subsection \<open>Open, Binding, BindEmpty\<close>

definition Open_fn :: "unit tx" where
  "Open_fn s =
     (if s_Binding s = None \<and> (s_Records s \<noteq> [] \<or> s_Imports s \<noteq> []) then Inl ErrStoreIdentity
      else Inr (s, ()))"

definition Binding_fn :: "StoreBinding tx" where
  "Binding_fn s = (case s_Binding s of None \<Rightarrow> Inl ErrStoreIdentity | Some b \<Rightarrow> Inr (s, b))"

definition BindEmpty_fn :: "StoreBinding \<Rightarrow> unit tx" where
  "BindEmpty_fn b s =
     (case s_Binding s of
        Some c \<Rightarrow> if c = b then Inr (s, ()) else Inl ErrStoreIdentity
      | None \<Rightarrow>
          if s_Records s \<noteq> [] \<or> s_Imports s \<noteq> [] then Inl ErrStoreIdentity
          else Inr (s\<lparr>s_Binding := Some b\<rparr>, ()))"

definition BindEmpty :: "StoreBinding \<Rightarrow> unit tx" where
  "BindEmpty b s =
     (case validateStoreBinding b of Inl e \<Rightarrow> Inl e | Inr _ \<Rightarrow> BindEmpty_fn b s)"

subsection \<open>BindImportedResource, ReadImportBinding\<close>

definition validImport :: "ImportRequest \<Rightarrow> store_error + ImportBinding" where
  "validImport req =
     (let t = ir_Target req; ev = ir_Evidence req in
      if \<not> ok (validateTarget t) \<or> \<not> validHostID (ir_UID req) \<or> \<not> validFormURL (ir_Form req) \<or>
         \<not> validHostAPIBaseURL (ie_HostAPI ev) \<or> ie_Path ev \<noteq> resourcePath (ie_UID ev) \<or>
         ie_StatusCode ev \<noteq> 200 \<or> \<not> validHostID (ie_UID ev) \<or> \<not> validFormURL (ie_Form ev) \<or>
         ie_Space ev \<noteq> t_Space t \<or> ie_Name ev \<noteq> t_Name t \<or> ie_Generation ev < 1 \<or>
         maxReplayWindowSeconds < ie_Generation ev
      then Inl ErrStoreUnavailable
      else if ir_UID req \<noteq> ie_UID ev \<or> ir_Form req \<noteq> ie_Form ev then Inl ErrIntentConflict
      else Inr \<lparr>ib_Target = t, ib_UID = ir_UID req, ib_Form = ir_Form req,
                ib_Generation = ie_Generation ev\<rparr>)"

text \<open>The loop over the imports: the first entry for this target or this UID decides.\<close>

fun import_scan :: "ImportBinding \<Rightarrow> ImportBinding list \<Rightarrow> (store_error + ImportBinding) option" where
  "import_scan imp [] = None"
| "import_scan imp (prior # rest) =
     (if sameTarget (ib_Target prior) (ib_Target imp) then
        (if prior = imp then Some (Inr prior) else Some (Inl ErrIntentConflict))
      else if t_HostAPI (ib_Target prior) = t_HostAPI (ib_Target imp) \<and> ib_UID prior = ib_UID imp
      then Some (Inl ErrIntentConflict)
      else import_scan imp rest)"

definition BindImported_fn :: "string \<Rightarrow> string \<Rightarrow> ImportBinding \<Rightarrow> ImportBinding tx" where
  "BindImported_fn storeID hostAPI imp s =
     (if \<not> bindingMatches s storeID (ib_Target imp) \<or> map_option b_HostAPI (s_Binding s) \<noteq> Some hostAPI
      then Inl ErrStoreIdentity
      else if list_ex (\<lambda>prior. sameTarget (i_Target prior) (ib_Target imp)) (s_Records s)
      then Inl ErrUnresolvedIntent
      else case import_scan imp (s_Imports s) of
        Some (Inl e) \<Rightarrow> Inl e
      | Some (Inr prior) \<Rightarrow> Inr (s, prior)
      | None \<Rightarrow>
          if maxRecords \<le> length (s_Records s) + length (s_Imports s) then Inl ErrStoreUnavailable
          else Inr (s\<lparr>s_Imports := s_Imports s @ [imp]\<rparr>, imp))"

definition BindImportedResource :: "string \<Rightarrow> ImportRequest \<Rightarrow> ImportBinding tx" where
  "BindImportedResource storeID req s =
     (case validImport req of Inl e \<Rightarrow> Inl e
      | Inr imp \<Rightarrow> BindImported_fn storeID (ie_HostAPI (ir_Evidence req)) imp s)"

definition ReadImport_fn :: "string \<Rightarrow> Target \<Rightarrow> ImportBinding option tx" where
  "ReadImport_fn storeID t s =
     (if \<not> bindingMatches s storeID t then Inl ErrStoreIdentity
      else Inr (s, List.find (\<lambda>b. sameTarget (ib_Target b) t) (s_Imports s)))"

definition ReadImportBinding :: "string \<Rightarrow> Target \<Rightarrow> ImportBinding option tx" where
  "ReadImportBinding storeID t s =
     (case validateTarget t of Inl e \<Rightarrow> Inl e | Inr _ \<Rightarrow> ReadImport_fn storeID t s)"

subsection \<open>Begin\<close>

text \<open>
  The first loop of \<open>Begin\<close> over the records, newest first. \<open>Some\<close> is a return from inside the
  loop, \<open>None\<close> its end or its \<open>break\<close>.
\<close>

fun begin_scan :: "BeginRequest \<Rightarrow> Intent list \<Rightarrow> (store_error + Intent) option" where
  "begin_scan r [] = None"
| "begin_scan r (prior # rest) =
     (if \<not> sameTarget (i_Target prior) (r_Target r) then begin_scan r rest
      else if r_SupersedesIntentID r \<noteq> [] \<and> i_ID prior \<noteq> r_SupersedesIntentID r then
        (if sameFence prior r \<and> sameRequest prior r then Some (Inr prior) else begin_scan r rest)
      else if r_Action r = ActionCreate \<and> i_Status prior = StatusDeleteConfirmed then None
      else if r_Action r = ActionCreate \<and> sameCreateRequest prior r then Some (Inr prior)
      else if r_Action r = ActionCreate \<and> i_Action prior = ActionCreate \<and>
              (i_Status prior = StatusClaimed \<or> i_Status prior = StatusAccepted)
      then Some (Inl ErrIntentConflict)
      else if r_Action r \<noteq> ActionCreate \<and> sameFence prior r then
        (if sameRequest prior r then Some (Inr prior)
         else if i_Status prior = StatusFailedReserved \<and> r_SupersedesIntentID r = i_ID prior
         then begin_scan r rest
         else Some (Inl ErrIntentConflict))
      else begin_scan r rest)"

definition unresolved :: "Intent \<Rightarrow> bool" where
  "unresolved rec \<longleftrightarrow> i_Status rec = StatusClaimed \<or> i_Status rec = StatusAccepted \<or>
     i_Status rec = StatusAcceptedFailed"

text \<open>The identity and supersession checks before a new claim.\<close>

definition begin_fence :: "BeginRequest \<Rightarrow> diskSnapshot \<Rightarrow> store_error + unit" where
  "begin_fence r s =
     (let latest = latestIntent s (r_Target r);
          (uid, generation, form, found, deleted) = currentIdentity s (r_Target r) in
      if r_Action r = ActionCreate then
        (if found \<and> \<not> deleted \<or>
            (case latest of None \<Rightarrow> False | Some l \<Rightarrow> i_Status l \<noteq> StatusDeleteConfirmed)
         then Inl ErrTargetOccupied else Inr ())
      else if deleted \<or> \<not> found then Inl ErrTargetOccupied
      else if uid \<noteq> r_UID r \<or> generation \<noteq> r_Generation r \<or> form \<noteq> r_Form r
      then Inl ErrIntentConflict
      else if r_SupersedesIntentID r \<noteq> [] then
        (case (findIntent s (r_SupersedesIntentID r), latest) of
           (Some (prior, _), Some l) \<Rightarrow>
             if i_ID l \<noteq> r_SupersedesIntentID r \<or> i_Status prior \<noteq> StatusFailedReserved \<or>
                \<not> sameTarget (i_Target prior) (r_Target r) \<or> i_OperationUID prior \<noteq> uid \<or>
                i_ObservedGeneration prior \<noteq> generation
             then Inl ErrIntentConflict else Inr ()
         | _ \<Rightarrow> Inl ErrIntentConflict)
      else if (case latest of None \<Rightarrow> False | Some l \<Rightarrow> i_Status l = StatusFailedReserved)
      then Inl ErrUnresolvedIntent else Inr ())"

definition new_intent :: "string \<Rightarrow> go_time \<Rightarrow> BeginRequest \<Rightarrow> Intent" where
  "new_intent key now r =
     \<lparr>i_ID = key, i_Key = key, i_Target = r_Target r, i_Action = r_Action r, i_Form = r_Form r,
      i_Method = r_Method r, i_Path = r_Path r, i_UID = r_UID r, i_Generation = r_Generation r,
      i_SupersedesIntentID = r_SupersedesIntentID r, i_PublicJSON = r_PublicJSON r,
      i_PrivateInputNames = r_PrivateInputNames r, i_FirstSentAt = now\<lparr>is_utc := True\<rparr>,
      i_AdvertisedReplayWindowSecs = r_AdvertisedReplayWindowSecs r, i_Status = StatusClaimed,
      i_OperationID = [], i_OperationUID = [], i_OperationGeneration = 0, i_OperationStatus = [],
      i_OperationEffect = [], i_InitialRetainUntil = zero_time, i_RetainUntil = zero_time,
      i_ResultUID = [], i_ResultGeneration = [], i_ObservedGeneration = []\<rparr>"

definition Begin_fn ::
  "string \<Rightarrow> bytes option \<Rightarrow> go_time \<Rightarrow> BeginRequest \<Rightarrow> Intent tx" where
  "Begin_fn storeID rand now r s =
     (if \<not> bindingMatches s storeID (r_Target r) then Inl ErrStoreIdentity
      else case begin_scan r (rev (s_Records s)) of
        Some (Inl e) \<Rightarrow> Inl e
      | Some (Inr prior) \<Rightarrow> Inr (s, prior)
      | None \<Rightarrow>
          if list_ex (\<lambda>prior. sameTarget (i_Target prior) (r_Target r) \<and> unresolved prior) (s_Records s)
          then Inl ErrUnresolvedIntent
          else case begin_fence r s of Inl e \<Rightarrow> Inl e
          | Inr _ \<Rightarrow>
              if maxRecords \<le> length (s_Records s) + length (s_Imports s) then Inl ErrStoreUnavailable
              else case newKey rand of None \<Rightarrow> Inl ErrStoreUnavailable
              | Some key \<Rightarrow>
                  Inr (s\<lparr>s_Records := s_Records s @ [new_intent key now r]\<rparr>, new_intent key now r))"

definition Begin ::
  "string \<Rightarrow> bytes option \<Rightarrow> go_time \<Rightarrow> BeginRequest \<Rightarrow> Intent tx" where
  "Begin storeID rand now r s =
     (case validateBegin r of Inl e \<Rightarrow> Inl e | Inr r' \<Rightarrow> Begin_fn storeID rand now r' s)"

subsection \<open>Read\<close>

definition Read_fn :: "Target \<Rightarrow> Intent list tx" where
  "Read_fn t s = Inr (s, filter (\<lambda>rec. sameTarget (i_Target rec) t) (s_Records s))"

definition Read :: "Target \<Rightarrow> Intent list tx" where
  "Read t s = (case validateTarget t of Inl e \<Rightarrow> Inl e | Inr _ \<Rightarrow> Read_fn t s)"

subsection \<open>RecordAccepted\<close>

definition accepted :: "Intent \<Rightarrow> OperationAck \<Rightarrow> go_time \<Rightarrow> Intent" where
  "accepted rec ack retain =
     rec\<lparr>i_Status := (if a_Status ack = ''failed'' then StatusAcceptedFailed else StatusAccepted),
         i_OperationID := a_ID ack, i_OperationUID := a_ResourceUID ack,
         i_OperationGeneration := a_Generation ack, i_OperationStatus := a_Status ack,
         i_OperationEffect := a_Effect ack, i_InitialRetainUntil := retain,
         i_RetainUntil := retain\<rparr>"

definition put_record :: "diskSnapshot \<Rightarrow> nat \<Rightarrow> Intent \<Rightarrow> store_error + diskSnapshot \<times> Intent" where
  "put_record s index rec = Inr (s\<lparr>s_Records := (s_Records s)[index := rec]\<rparr>, rec)"

definition RecordAccepted_fn :: "string \<Rightarrow> string \<Rightarrow> OperationAck \<Rightarrow> go_time \<Rightarrow> Intent tx" where
  "RecordAccepted_fn storeID i ack retain s =
     (case findIntent s i of None \<Rightarrow> Inl ErrStoreUnavailable
      | Some (rec, index) \<Rightarrow>
          if \<not> bindingMatches s storeID (i_Target rec) then Inl ErrStoreIdentity
          else if i_Status rec = StatusAccepted \<or> i_Status rec = StatusAcceptedFailed then
            (if \<not> sameOperation rec ack \<or> \<not> time_equal (i_RetainUntil rec) retain
             then Inl ErrIntentConflict else Inr (s, rec))
          else if i_Status rec \<noteq> StatusClaimed then Inl ErrIntentConflict
          else if \<not> ok (validateOperationForIntent rec ack) then Inl ErrIntentConflict
          else put_record s index (accepted rec ack retain))"

definition validAck :: "string \<Rightarrow> OperationAck \<Rightarrow> bool" where
  "validAck i ack \<longleftrightarrow> validKey i \<and> validHostID (a_ID ack) \<and> validHostID (a_ResourceUID ack) \<and>
     validOperationStatus (a_Status ack) (a_Effect ack)"

definition RecordAccepted :: "string \<Rightarrow> string \<Rightarrow> OperationAck \<Rightarrow> Intent tx" where
  "RecordAccepted storeID i ack s =
     (if \<not> validAck i ack then Inl ErrStoreUnavailable
      else case parseRetainUntil (a_RetainUntil ack) of Inl _ \<Rightarrow> Inl ErrStoreUnavailable
      | Inr retain \<Rightarrow> RecordAccepted_fn storeID i ack retain s)"

subsection \<open>Complete\<close>

definition settled :: "Intent \<Rightarrow> OperationAck \<Rightarrow> go_time \<Rightarrow> Intent" where
  "settled rec op retain =
     rec\<lparr>i_OperationStatus := a_Status op, i_OperationEffect := a_Effect op, i_RetainUntil := retain\<rparr>"

text \<open>The decision on one record: an error or the record that replaces it.\<close>

definition complete_record ::
  "Intent \<Rightarrow> CompletionEvidence \<Rightarrow> go_time \<Rightarrow> store_error + Intent" where
  "complete_record rec ev retain =
     (let op = e_Operation ev; res = e_Resource ev in
      if \<not> sameOperation rec op \<or> a_Action op \<noteq> i_Action rec \<or> before retain (i_RetainUntil rec) \<or>
         before retain (i_InitialRetainUntil rec)
      then Inl ErrIntentConflict
      else if i_Status rec = StatusApplied \<and> a_Status op = ''succeeded'' \<and> a_Effect op = ''complete'' \<and>
              o_Present res \<and> resourceMatches rec res (a_Generation op)
      then Inr (rec\<lparr>i_RetainUntil := retain\<rparr>)
      else if i_Status rec = StatusDeleteConfirmed \<and> a_Status op = ''succeeded'' \<and>
              a_Effect op = ''complete'' \<and> resourceAbsentMatches rec res
      then Inr (rec\<lparr>i_RetainUntil := retain\<rparr>)
      else if i_Status rec = StatusFailedReserved \<and> a_Status op = ''failed'' \<and> o_Present res \<and>
              o_Generation res = i_OperationGeneration rec \<and>
              o_Generation res = mustGeneration (i_ObservedGeneration rec) \<and>
              resourceMatchesTarget rec res \<and> o_Phase res = ''error''
      then Inr (rec\<lparr>i_RetainUntil := retain\<rparr>)
      else if i_Status rec \<noteq> StatusAccepted \<and> i_Status rec \<noteq> StatusAcceptedFailed
      then Inl ErrIntentConflict
      else if a_Status op = ''failed'' then
        (if o_Present res \<and> resourceMatchesTarget rec res \<and> o_Phase res = ''error'' \<and>
            o_Generation res = a_Generation op
         then Inr (settled (rec\<lparr>i_Status := StatusFailedReserved,
                   i_ObservedGeneration := format_int (o_Generation res)\<rparr>) op retain)
         else Inl ErrIntentConflict)
      else if a_Status op \<noteq> ''succeeded'' \<or> a_Effect op \<noteq> ''complete'' then Inl ErrIntentConflict
      else if i_Action rec = ActionDelete then
        (if \<not> resourceAbsentMatches rec res then Inl ErrIntentConflict
         else Inr (settled (rec\<lparr>i_Status := StatusDeleteConfirmed\<rparr>) op retain))
      else if \<not> o_Present res \<or> \<not> resourceMatches rec res (a_Generation op)
      then Inl ErrIntentConflict
      else Inr (settled (rec\<lparr>i_Status := StatusApplied, i_ResultUID := a_ResourceUID op,
                 i_ResultGeneration := format_int (a_Generation op)\<rparr>) op retain))"

definition Complete_fn :: "string \<Rightarrow> string \<Rightarrow> CompletionEvidence \<Rightarrow> go_time \<Rightarrow> Intent tx" where
  "Complete_fn storeID i ev retain s =
     (case findIntent s i of None \<Rightarrow> Inl ErrStoreUnavailable
      | Some (rec, index) \<Rightarrow>
          if \<not> bindingMatches s storeID (i_Target rec) then Inl ErrStoreIdentity
          else case complete_record rec ev retain of Inl e \<Rightarrow> Inl e
          | Inr rec' \<Rightarrow> put_record s index rec')"

definition Complete :: "string \<Rightarrow> string \<Rightarrow> CompletionEvidence \<Rightarrow> Intent tx" where
  "Complete storeID i ev s =
     (if \<not> validAck i (e_Operation ev) then Inl ErrStoreUnavailable
      else case parseRetainUntil (a_RetainUntil (e_Operation ev)) of Inl _ \<Rightarrow> Inl ErrStoreUnavailable
      | Inr retain \<Rightarrow> Complete_fn storeID i ev retain s)"

end
