(* ===== verification/IntentLaws.thy ===== *)
theory IntentLaws
  imports IntentStore
begin

text \<open>
  Laws of the journal's data: the checks of \<open>decodeSnapshot\<close> as an invariant, \<open>validateBegin\<close> as
  one condition, the status machine of a record, and that every record \<open>Begin\<close>,
  \<open>RecordAccepted\<close> and \<open>Complete\<close> write is one \<open>validStoredIntent\<close> accepts.
\<close>

subsection \<open>Snapshot checks as invariants\<close>

lemma check_records_iff:
  "check_records s sid seen recs \<longleftrightarrow>
     distinct (map i_ID recs) \<and> set (map i_ID recs) \<inter> set seen = {} \<and>
     (\<forall>rec\<in>set recs. validStoredIntent rec \<and>
        (s_Binding s \<noteq> None \<longrightarrow> bindingMatches s sid (i_Target rec)))"
  by (induction recs arbitrary: seen) auto

definition valid_import :: "diskSnapshot \<Rightarrow> string \<Rightarrow> ImportBinding \<Rightarrow> bool" where
  "valid_import s sid b \<longleftrightarrow> bindingMatches s sid (ib_Target b) \<and> validHostID (ib_UID b) \<and>
     validFormURL (ib_Form b) \<and> 1 \<le> ib_Generation b \<and> ib_Generation b \<le> maxReplayWindowSeconds"

lemma check_imports_iff:
  "check_imports s sid targets uids bs \<longleftrightarrow>
     (\<forall>b\<in>set bs. valid_import s sid b) \<and>
     distinct (map ib_Target bs) \<and> set (map ib_Target bs) \<inter> set targets = {} \<and>
     distinct (map uid_key bs) \<and> set (map uid_key bs) \<inter> set uids = {}"
proof (induction bs arbitrary: targets uids)
  case (Cons b bs)
  have "bindingMatches s sid t \<Longrightarrow> s_Binding s \<noteq> None" for t
    by (auto simp: bindingMatches_def split: option.splits)
  with Cons show ?case by (auto simp: valid_import_def)
qed simp

text \<open>The snapshot invariant: what a decoded snapshot satisfies.\<close>

definition snapshot_ok :: "string \<Rightarrow> diskSnapshot \<Rightarrow> bool" where
  "snapshot_ok sid s \<longleftrightarrow>
     s_Format s = storeFormat \<and> s_StoreID s = sid \<and>
     length (s_Records s) + length (s_Imports s) \<le> maxRecords \<and>
     (case s_Binding s of Some b \<Rightarrow> ok (validateStoreBinding b) | None \<Rightarrow> s_Imports s = []) \<and>
     distinct (map i_ID (s_Records s)) \<and>
     (\<forall>rec\<in>set (s_Records s). validStoredIntent rec \<and>
        (s_Binding s \<noteq> None \<longrightarrow> bindingMatches s sid (i_Target rec))) \<and>
     (\<forall>b\<in>set (s_Imports s). valid_import s sid b) \<and>
     distinct (map ib_Target (s_Imports s)) \<and> distinct (map uid_key (s_Imports s))"

lemma check_snapshot_iff: "check_snapshot sid s \<longleftrightarrow> snapshot_ok sid s"
  by (auto simp: check_snapshot_def snapshot_ok_def check_records_iff check_imports_iff
      split: option.splits)

subsection \<open>Requests\<close>

lemma sameStrings_eq [simp]: "sameStrings a b \<longleftrightarrow> a = b"
  by (auto simp: sameStrings_def list.rel_eq)

lemma sameTarget_eq [simp]: "sameTarget a b \<longleftrightarrow> a = b"
  by (simp add: sameTarget_def)

lemma validPublicJSON_names [simp]:
  "validPublicJSON (r\<lparr>r_PrivateInputNames := ns\<rparr>) = validPublicJSON r"
  by (simp add: validPublicJSON_def validCreatePublicObject_def split: sum.split json.split)

lemma sort_Nil [simp]: "sort xs = [] \<longleftrightarrow> xs = []"
  by (metis length_0_conv length_sort)

lemma sort_sort [simp]: "sort (sort xs) = sort (xs :: string list)"
  by (simp add: sorted_sort_id)

text \<open>All of \<open>validateBegin\<close>'s conditions at once.\<close>

definition begin_ok :: "BeginRequest \<Rightarrow> bool" where
  "begin_ok r \<longleftrightarrow> ok (validateTarget (r_Target r)) \<and>
     r_Action r \<in> {ActionCreate, ActionUpdate, ActionDelete} \<and> validFormURL (r_Form r) \<and>
     length (r_Path r) \<le> maxTargetComponentBytes \<and> \<not> contains_any (r_Path r) ''?#'' \<and>
     utf8_valid (r_Path r) \<and> length (r_PublicJSON r) \<le> maxPublicJSONBytes \<and>
     0 < r_AdvertisedReplayWindowSecs r \<and> r_AdvertisedReplayWindowSecs r \<le> maxReplayWindowSeconds \<and>
     validHostAPIBaseURL (t_HostAPI (r_Target r)) \<and> validRoute r \<and>
     (r_Action r \<noteq> ActionDelete \<longrightarrow> validPublicJSON r) \<and>
     length (r_PrivateInputNames r) \<le> maxPrivateInputNames \<and>
     (r_SupersedesIntentID r \<noteq> [] \<longrightarrow> validKey (r_SupersedesIntentID r) \<and> r_Action r \<noteq> ActionCreate) \<and>
     validNames (sort (r_PrivateInputNames r))"

lemma validateBegin_iff:
  "validateBegin r =
     (if begin_ok r then Inr (r\<lparr>r_PrivateInputNames := sort (r_PrivateInputNames r)\<rparr>)
      else Inl ErrStoreUnavailable)"
proof -
  have guards: "(if A then e else if B then e else if C then e else if D then e else if E then e
      else if F then e else x) = (if \<not> A \<and> \<not> B \<and> \<not> C \<and> \<not> D \<and> \<not> E \<and> \<not> F then x else e)"
    for A B C D E F :: bool and e x :: "store_error + BeginRequest"
    by simp
  show ?thesis
    unfolding validateBegin_def Let_def guards begin_ok_def
    by (rule if_cong [OF _ refl refl]) (simp only: not_less not_le de_Morgan_disj de_Morgan_conj not_not
        imp_conv_disj disj_assoc conj_assoc)
qed

lemma begin_ok_sorted [simp]:
  "begin_ok (r\<lparr>r_PrivateInputNames := sort (r_PrivateInputNames r)\<rparr>) = begin_ok r"
  by (simp add: begin_ok_def validRoute_def)

lemma validateBegin_Inr:
  assumes "validateBegin r = Inr r'"
  shows "r' = r\<lparr>r_PrivateInputNames := sort (r_PrivateInputNames r)\<rparr>" "validateBegin r' = Inr r'"
    "begin_ok r'"
  using assms by (auto simp: validateBegin_iff split: if_splits)

lemma intent_request_new [simp]: "intent_request (new_intent key now r) = r"
  by (simp add: intent_request_def new_intent_def)

subsection \<open>Generations\<close>

lemma parse_int64_generation:
  "0 < g \<Longrightarrow> g \<le> maxReplayWindowSeconds \<Longrightarrow> parse_int64 (format_int g) = Some g"
  by (rule parse_int64_format_int) (simp_all add: maxReplayWindowSeconds_def)

lemma validGeneration_format:
  "0 < g \<Longrightarrow> g \<le> maxReplayWindowSeconds \<Longrightarrow> validGeneration (format_int g)"
  by (simp add: validGeneration_def parse_int64_generation)

lemma mustGeneration_format:
  "0 < g \<Longrightarrow> g \<le> maxReplayWindowSeconds \<Longrightarrow> mustGeneration (format_int g) = g"
  by (simp add: mustGeneration_def parse_int64_generation)

lemma validGeneration_must: "validGeneration v \<Longrightarrow> format_int (mustGeneration v) = v \<and> 0 < mustGeneration v"
  by (auto simp: validGeneration_def mustGeneration_def split: option.splits)

lemma validExpectedGeneration_must:
  "validExpectedGeneration v \<Longrightarrow> format_int (mustGeneration v) = v \<and> 0 < mustGeneration v \<and>
     mustGeneration v < maxReplayWindowSeconds \<and> parse_int64 v = Some (mustGeneration v)"
  by (auto simp: validExpectedGeneration_def mustGeneration_def split: option.splits)

subsection \<open>Keys and retention\<close>

lemma validKey_new: "newKey rand = Some key \<Longrightarrow> (\<And>b. rand = Some b \<Longrightarrow> length b = idempotencyKeyBytes) \<Longrightarrow> validKey key"
  by (auto simp: newKey_def validKey_def hex_decode_encode)

lemma validHostID_not_Nil [simp]: "\<not> validHostID []"
  by (simp add: validHostID_def match_rep_def)

lemma parseRetainUntil_Inr:
  "parseRetainUntil v = Inr t \<Longrightarrow> time_ok t \<and> is_utc t \<and> \<not> is_zero_time t"
  by (auto simp: parseRetainUntil_def is_zero_time_def instant_def time_ok_def
      dest!: parse_rfc3339_ok split: if_splits option.splits)

subsection \<open>Lookups\<close>

lemma find_from_Some:
  "find_from n recs i = Some (rec, k) \<Longrightarrow> n \<le> k \<and> k < n + length recs \<and> recs ! (k - n) = rec \<and> i_ID rec = i"
proof (induction recs arbitrary: n)
  case (Cons a recs)
  then show ?case by (fastforce simp: nth_Cons' split: if_splits)
qed simp

lemma findIntent_Some:
  "findIntent s i = Some (rec, k) \<Longrightarrow> k < length (s_Records s) \<and> s_Records s ! k = rec \<and> i_ID rec = i"
  using find_from_Some [of 0 "s_Records s" i rec k] by (simp add: findIntent_def)

lemma findIntent_mem: "findIntent s i = Some (rec, k) \<Longrightarrow> rec \<in> set (s_Records s)"
  using findIntent_Some nth_mem by fastforce

lemma find_from_complete:
  "distinct (map i_ID recs) \<Longrightarrow> rec \<in> set recs \<Longrightarrow> \<exists>k. find_from n recs (i_ID rec) = Some (rec, k)"
  by (induction recs arbitrary: n) (auto simp: rev_image_eqI)

lemma latestIntent_Some:
  "latestIntent s t = Some rec \<Longrightarrow> rec \<in> set (s_Records s) \<and> i_Target rec = t"
  by (auto simp: latestIntent_def dest: find_last_Some)


subsection \<open>What a record update may change\<close>

text \<open>The claim: what was sent, under which key, and when first.\<close>

definition claim_of :: "Intent \<Rightarrow> string \<times> string \<times> BeginRequest \<times> go_time" where
  "claim_of i = (i_ID i, i_Key i, intent_request i, i_FirstSentAt i)"

lemma claim_of_simps [simp]:
  "claim_of (i\<lparr>i_Status := x\<rparr>) = claim_of i"
  "claim_of (i\<lparr>i_OperationID := x1\<rparr>) = claim_of i"
  "claim_of (i\<lparr>i_OperationUID := x1\<rparr>) = claim_of i"
  "claim_of (i\<lparr>i_OperationGeneration := x2\<rparr>) = claim_of i"
  "claim_of (i\<lparr>i_OperationStatus := x1\<rparr>) = claim_of i"
  "claim_of (i\<lparr>i_OperationEffect := x1\<rparr>) = claim_of i"
  "claim_of (i\<lparr>i_InitialRetainUntil := x3\<rparr>) = claim_of i"
  "claim_of (i\<lparr>i_RetainUntil := x3\<rparr>) = claim_of i"
  "claim_of (i\<lparr>i_ResultUID := x1\<rparr>) = claim_of i"
  "claim_of (i\<lparr>i_ResultGeneration := x1\<rparr>) = claim_of i"
  "claim_of (i\<lparr>i_ObservedGeneration := x1\<rparr>) = claim_of i"
  by (simp_all add: claim_of_def intent_request_def)

lemma claim_of_fields:
  assumes "claim_of a = claim_of b"
  shows "i_ID a = i_ID b" "i_Key a = i_Key b" "i_Target a = i_Target b" "i_Action a = i_Action b"
    "i_Form a = i_Form b" "i_UID a = i_UID b" "i_Generation a = i_Generation b"
    "i_SupersedesIntentID a = i_SupersedesIntentID b" "i_FirstSentAt a = i_FirstSentAt b"
    "intent_request a = intent_request b" "i_PrivateInputNames a = i_PrivateInputNames b"
    "i_AdvertisedReplayWindowSecs a = i_AdvertisedReplayWindowSecs b"
  using assms by (auto simp: claim_of_def intent_request_def)

lemma claim_of_accepted [simp]: "claim_of (accepted rec ack t) = claim_of rec"
  by (simp add: accepted_def)

lemma claim_of_complete: "complete_record rec ev t = Inr rec' \<Longrightarrow> claim_of rec' = claim_of rec"
  by (auto simp: complete_record_def Let_def settled_def split: if_splits)

text \<open>The status machine of one record, as \<open>RecordAccepted\<close> and \<open>Complete\<close> drive it.\<close>

inductive status_step :: "status \<Rightarrow> status \<Rightarrow> bool" where
  stay: "status_step x x"
| accept: "status_step StatusClaimed StatusAccepted"
| accept_failed: "status_step StatusClaimed StatusAcceptedFailed"
| settle: "x = StatusAccepted \<or> x = StatusAcceptedFailed \<Longrightarrow>
     y \<in> {StatusApplied, StatusDeleteConfirmed, StatusFailedReserved} \<Longrightarrow> status_step x y"

inductive_cases status_stepE [elim]: "status_step x y"

lemma status_step_resolved:
  "status_step x y \<Longrightarrow> x \<in> {StatusApplied, StatusDeleteConfirmed, StatusFailedReserved} \<Longrightarrow> y = x"
  by (auto elim!: status_stepE)

lemma status_complete: "complete_record rec ev t = Inr rec' \<Longrightarrow> status_step (i_Status rec) (i_Status rec')"
  by (auto simp: complete_record_def Let_def settled_def intro: status_step.intros split: if_splits)

text \<open>A settled record keeps its outcome: only its retention can move, and only forwards.\<close>

lemma complete_settled:
  "complete_record rec ev t = Inr rec' \<Longrightarrow> \<not> unresolved rec \<Longrightarrow> rec' = rec\<lparr>i_RetainUntil := t\<rparr>"
  by (auto simp: complete_record_def Let_def settled_def unresolved_def split: if_splits)

lemma complete_retention:
  "complete_record rec ev t = Inr rec' \<Longrightarrow> i_RetainUntil rec' = t \<and> \<not> before t (i_RetainUntil rec) \<and>
     \<not> before t (i_InitialRetainUntil rec) \<and> i_InitialRetainUntil rec' = i_InitialRetainUntil rec"
  by (auto simp: complete_record_def Let_def settled_def split: if_splits)

lemma complete_unresolved [consumes 2, case_names failed deleted applied]:
  assumes step: "complete_record rec ev t = Inr rec'" and u: "unresolved rec"
  obtains "i_Status rec \<noteq> StatusClaimed" "a_Status (e_Operation ev) = ''failed''"
      "resourceMatchesTarget rec (e_Resource ev)" "o_Phase (e_Resource ev) = ''error''"
      "o_Generation (e_Resource ev) = a_Generation (e_Operation ev)"
      "rec' = settled (rec\<lparr>i_Status := StatusFailedReserved,
                 i_ObservedGeneration := format_int (o_Generation (e_Resource ev))\<rparr>) (e_Operation ev) t"
  | "i_Status rec \<noteq> StatusClaimed" "a_Status (e_Operation ev) = ''succeeded''"
      "a_Effect (e_Operation ev) = ''complete''" "i_Action rec = ActionDelete"
      "resourceAbsentMatches rec (e_Resource ev)"
      "rec' = settled (rec\<lparr>i_Status := StatusDeleteConfirmed\<rparr>) (e_Operation ev) t"
  | "i_Status rec \<noteq> StatusClaimed" "a_Status (e_Operation ev) = ''succeeded''"
      "a_Effect (e_Operation ev) = ''complete''" "i_Action rec \<noteq> ActionDelete"
      "resourceMatches rec (e_Resource ev) (a_Generation (e_Operation ev))"
      "rec' = settled (rec\<lparr>i_Status := StatusApplied, i_ResultUID := a_ResourceUID (e_Operation ev),
                 i_ResultGeneration := format_int (a_Generation (e_Operation ev))\<rparr>) (e_Operation ev) t"
proof -
  from u have "i_Status rec \<noteq> StatusApplied" "i_Status rec \<noteq> StatusDeleteConfirmed"
    "i_Status rec \<noteq> StatusFailedReserved" by (auto simp: unresolved_def)
  with step have core: "i_Status rec \<noteq> StatusClaimed \<and>
     (if a_Status (e_Operation ev) = ''failed'' then
        resourceMatchesTarget rec (e_Resource ev) \<and> o_Phase (e_Resource ev) = ''error'' \<and>
        o_Generation (e_Resource ev) = a_Generation (e_Operation ev) \<and>
        rec' = settled (rec\<lparr>i_Status := StatusFailedReserved,
                 i_ObservedGeneration := format_int (o_Generation (e_Resource ev))\<rparr>) (e_Operation ev) t
      else a_Status (e_Operation ev) = ''succeeded'' \<and> a_Effect (e_Operation ev) = ''complete'' \<and>
        (if i_Action rec = ActionDelete then resourceAbsentMatches rec (e_Resource ev) \<and>
           rec' = settled (rec\<lparr>i_Status := StatusDeleteConfirmed\<rparr>) (e_Operation ev) t
         else resourceMatches rec (e_Resource ev) (a_Generation (e_Operation ev)) \<and>
           rec' = settled (rec\<lparr>i_Status := StatusApplied, i_ResultUID := a_ResourceUID (e_Operation ev),
                 i_ResultGeneration := format_int (a_Generation (e_Operation ev))\<rparr>) (e_Operation ev) t))"
    unfolding complete_record_def Let_def by (auto split: if_splits)
  show thesis
  proof (cases "a_Status (e_Operation ev) = ''failed''")
    case True
    with core that(1) show thesis by simp
  next
    case False
    with core that(2,3) show thesis by (cases "i_Action rec = ActionDelete") simp_all
  qed
qed

subsection \<open>Stored claims stay valid\<close>

lemma validStoredIntent_iff:
  "validStoredIntent i \<longleftrightarrow> validStoredFields i \<and> begin_ok (intent_request i) \<and>
     sort (i_PrivateInputNames i) = i_PrivateInputNames i \<and>
     (i_OperationID i \<noteq> [] \<longrightarrow> ok (validateOperationForIntent i (intent_ack i))) \<and> validStatusFields i"
  by (auto simp: validStoredIntent_def validateBegin_iff intent_request_def)

lemma validStored_status:
  "validStoredIntent i \<Longrightarrow> i_Status i \<in> {StatusClaimed, StatusAccepted, StatusAcceptedFailed,
     StatusFailedReserved, StatusApplied, StatusDeleteConfirmed}"
  by (auto simp: validStoredIntent_iff validStatusFields_def split: if_splits)

lemma validStored_operation:
  "validStoredIntent i \<Longrightarrow> i_Status i \<noteq> StatusClaimed \<Longrightarrow> i_OperationID i \<noteq> []"
  by (auto simp: validStoredIntent_iff validStatusFields_def split: if_splits)

lemma new_intent_valid:
  assumes "begin_ok r" "sort (r_PrivateInputNames r) = r_PrivateInputNames r" "validKey key"
    "\<not> is_zero_time now"
  shows "validStoredIntent (new_intent key now r)"
proof -
  have "ok (validateTarget (r_Target r))" "0 < r_AdvertisedReplayWindowSecs r"
    "r_AdvertisedReplayWindowSecs r \<le> maxReplayWindowSeconds"
    using assms(1) by (simp_all add: begin_ok_def)
  moreover have "is_zero_time (now\<lparr>is_utc := True\<rparr>) = is_zero_time now"
    by (simp add: is_zero_time_def instant_def)
  moreover have "is_zero_time zero_time" by (simp add: is_zero_time_def)
  ultimately show ?thesis using assms unfolding validStoredIntent_iff intent_request_new
    by (simp add: validStoredFields_def validStatusFields_def new_intent_def validOperationID_def)
qed

lemma accepted_valid:
  assumes rec: "validStoredIntent rec" and "i_Status rec = StatusClaimed" and ack: "validAck i ack"
    and t: "is_utc t" "\<not> is_zero_time t" and v: "ok (validateOperationForIntent rec ack)"
  shows "validStoredIntent (accepted rec ack t)"
proof -
  let ?a = "accepted rec ack t"
  have f: "i_Action ?a = i_Action rec" "i_UID ?a = i_UID rec" "i_Generation ?a = i_Generation rec"
    by (simp_all add: accepted_def)
  have "validateOperationForIntent ?a (intent_ack ?a) = validateOperationForIntent rec ack"
    using v by (auto simp: validateOperationForIntent_def f intent_ack_def accepted_def ok_def split: sum.splits option.splits if_splits)
  moreover have "1 \<le> a_Generation ack" "a_Generation ack \<le> maxReplayWindowSeconds"
    using v by (auto simp: validateOperationForIntent_def split: if_splits)
  moreover have "a_ID ack \<noteq> []" using ack by (auto simp: validAck_def)
  ultimately show ?thesis using assms
    by (auto simp: validStoredIntent_iff validStoredFields_def validStatusFields_def accepted_def
        intent_request_def validOperationID_def validAck_def)
qed


text \<open>
  An update that keeps the claim and the operation, moves the retention forwards and gives the
  status the fields it allows keeps the record valid.
\<close>

lemma settle_valid:
  assumes rec: "validStoredIntent rec" and op: "i_OperationID rec \<noteq> []"
    and c: "claim_of rec' = claim_of rec"
    and same: "i_OperationID rec' = i_OperationID rec" "i_OperationUID rec' = i_OperationUID rec"
      "i_OperationGeneration rec' = i_OperationGeneration rec"
      "i_InitialRetainUntil rec' = i_InitialRetainUntil rec"
    and t: "is_utc (i_RetainUntil rec')" "\<not> before (i_RetainUntil rec') (i_InitialRetainUntil rec)"
    and st: "validOperationStatus (i_OperationStatus rec') (i_OperationEffect rec')" "validStatusFields rec'"
  shows "validStoredIntent rec'"
proof -
  note f = claim_of_fields [OF c]
  have "validateOperationForIntent rec' (intent_ack rec') = validateOperationForIntent rec (intent_ack rec)"
    by (simp add: validateOperationForIntent_def intent_ack_def f same split: option.split)
  with rec op t st show ?thesis unfolding validStoredIntent_iff f(10,11)
    by (simp add: validStoredFields_def f same) auto
qed

lemma validStored_generation:
  assumes "validStoredIntent rec" "i_OperationID rec \<noteq> []"
  shows "0 < i_OperationGeneration rec" "i_OperationGeneration rec \<le> maxReplayWindowSeconds"
    "validHostID (i_OperationUID rec)" "validOperationStatus (i_OperationStatus rec) (i_OperationEffect rec)"
  using assms by (auto simp: validStoredIntent_iff validStoredFields_def)

lemma validStored_uid:
  assumes "validStoredIntent rec" "i_OperationID rec \<noteq> []" "i_Action rec \<noteq> ActionCreate"
  shows "i_OperationUID rec = i_UID rec"
  using assms by (auto simp: validStoredIntent_iff validateOperationForIntent_def intent_ack_def
      split: option.splits if_splits)

lemma complete_valid:
  assumes rec: "validStoredIntent rec" and op: "i_OperationID rec \<noteq> []"
    and ev: "validOperationStatus (a_Status (e_Operation ev)) (a_Effect (e_Operation ev))"
    and t: "is_utc t"
    and step: "complete_record rec ev t = Inr rec'"
  shows "validStoredIntent rec'"
proof (rule settle_valid [OF rec op claim_of_complete [OF step]])
  note g = validStored_generation [OF rec op]
  note [simp] = mustGeneration_format [OF g(1,2)] validGeneration_format [OF g(1,2)]
  from rec have vs: "validStatusFields rec" and act: "i_Action rec \<in> {ActionCreate, ActionUpdate, ActionDelete}"
    by (auto simp: validStoredIntent_iff begin_ok_def intent_request_def)
  have same: "sameOperation rec (e_Operation ev)"
    using step by (auto simp: complete_record_def Let_def split: if_splits)
  show "i_OperationID rec' = i_OperationID rec" "i_OperationUID rec' = i_OperationUID rec"
    "i_OperationGeneration rec' = i_OperationGeneration rec"
    "i_InitialRetainUntil rec' = i_InitialRetainUntil rec"
    "is_utc (i_RetainUntil rec')" "\<not> before (i_RetainUntil rec') (i_InitialRetainUntil rec)"
    "validOperationStatus (i_OperationStatus rec') (i_OperationEffect rec')"
    using step t ev g by (auto simp: complete_record_def Let_def settled_def split: if_splits)
  show "validStatusFields rec'"
  proof (cases "unresolved rec")
    case False
    with vs complete_settled [OF step] show ?thesis
      by (auto simp: validStatusFields_def unresolved_def split: if_splits)
  next
    case True
    with vs op have r: "i_ResultUID rec = []" "i_ResultGeneration rec = []" "i_ObservedGeneration rec = []"
      by (auto simp: validStatusFields_def unresolved_def)
    from same have e: "a_ResourceUID (e_Operation ev) = i_OperationUID rec"
      "a_Generation (e_Operation ev) = i_OperationGeneration rec" by (simp_all add: sameOperation_def)
    from step True show ?thesis
    proof (cases rule: complete_unresolved)
      case failed
      with r e op show ?thesis by (simp add: settled_def validStatusFields_def)
    next
      case deleted
      with r op validStored_uid [OF rec op] show ?thesis by (simp add: settled_def validStatusFields_def)
    next
      case applied
      with e op act g(3) show ?thesis by (auto simp: settled_def validStatusFields_def validResultIdentity_def)
    qed
  qed
qed

end
