(* ===== verification/JournalInvariant.thy ===== *)
theory JournalInvariant
  imports IntentLaws
begin

text \<open>
  The journal as a state machine. Every successful transaction has one of a few effects on the
  snapshot (\<open>effect\<close>); the snapshots the program can reach keep the checks of \<open>decodeSnapshot\<close>
  and a chain invariant on the history of each target: a claim is appended only to a settled
  history, a Create only after a confirmed Delete, an Update or Delete only on the identity the
  newest record left, and a reserved failure only superseded by its own identifier.
  \<open>fresh_source\<close> is what the program relies on from \<open>crypto/rand\<close>: a full key that no stored
  claim already has.
\<close>

subsection \<open>Effects of the transactions\<close>

definition fresh_source :: "bytes option \<Rightarrow> diskSnapshot \<Rightarrow> bool" where
  "fresh_source rand s =
     (case rand of None \<Rightarrow> True
      | Some b \<Rightarrow> length b = idempotencyKeyBytes \<and> hex_encode b \<notin> set (map i_ID (s_Records s)))"

text \<open>What it relies on from the clock: a date that exists, not the zero time.\<close>

definition clock_ok :: "go_time \<Rightarrow> bool" where
  "clock_ok now \<longleftrightarrow> \<not> is_zero_time now \<and> time_ok (now\<lparr>is_utc := True\<rparr>)"

definition history :: "diskSnapshot \<Rightarrow> Target \<Rightarrow> Intent list" where
  "history s t = filter (\<lambda>rec. i_Target rec = t) (s_Records s)"

inductive evolve :: "Intent \<Rightarrow> Intent \<Rightarrow> bool" where
  accept: "i_Status rec = StatusClaimed \<Longrightarrow> validAck i ack \<Longrightarrow> time_ok t \<Longrightarrow> \<not> is_zero_time t \<Longrightarrow>
     ok (validateOperationForIntent rec ack) \<Longrightarrow> evolve rec (accepted rec ack t)"
| complete: "validOperationStatus (a_Status (e_Operation ev)) (a_Effect (e_Operation ev)) \<Longrightarrow>
     validHostID (a_ID (e_Operation ev)) \<Longrightarrow> time_ok t \<Longrightarrow>
     complete_record rec ev t = Inr rec' \<Longrightarrow> evolve rec rec'"

lemma evolve_claim: "evolve rec rec' \<Longrightarrow> claim_of rec' = claim_of rec"
  by (auto elim!: evolve.cases dest: claim_of_complete)

lemma evolve_status: "evolve rec rec' \<Longrightarrow> status_step (i_Status rec) (i_Status rec')"
  by (auto elim!: evolve.cases dest: status_complete intro: status_step.intros simp: accepted_def)

lemma evolve_resolved: "evolve rec rec' \<Longrightarrow> \<not> unresolved rec \<Longrightarrow> \<exists>t. rec' = rec\<lparr>i_RetainUntil := t\<rparr>"
  by (auto elim!: evolve.cases dest: complete_settled simp: unresolved_def)

lemma evolve_valid: "evolve rec rec' \<Longrightarrow> validStoredIntent rec \<Longrightarrow> validStoredIntent rec'"
proof (induction rule: evolve.induct)
  case (accept rec i ack t)
  from accept(3) have "is_utc t" by (simp add: time_ok_def)
  from accepted_valid [OF accept(6,1,2) this accept(4,5)] show ?case .
next
  case (complete ev t rec rec')
  have "sameOperation rec (e_Operation ev)"
    using complete(4) by (auto simp: complete_record_def Let_def split: if_splits)
  with complete(2) have "i_OperationID rec \<noteq> []" by (auto simp: sameOperation_def)
  moreover have "is_utc t" using complete(3) by (simp add: time_ok_def)
  ultimately show ?case using complete_valid [OF complete(5) _ complete(1) _ complete(4)] by blast
qed

text \<open>Each successful transaction leaves the snapshot alone or makes one of four changes.\<close>

inductive effect :: "string \<Rightarrow> diskSnapshot \<Rightarrow> diskSnapshot \<Rightarrow> bool" for sid where
  same: "effect sid s s"
| bind: "s_Binding s = None \<Longrightarrow> s_Records s = [] \<Longrightarrow> s_Imports s = [] \<Longrightarrow>
     validateStoreBinding b = Inr () \<Longrightarrow> effect sid s (s\<lparr>s_Binding := Some b\<rparr>)"
| adopt: "valid_import s sid imp \<Longrightarrow> ok (validateTarget (ib_Target imp)) \<Longrightarrow>
     history s (ib_Target imp) = [] \<Longrightarrow> import_scan imp (s_Imports s) = None \<Longrightarrow>
     length (s_Records s) + length (s_Imports s) < maxRecords \<Longrightarrow>
     effect sid s (s\<lparr>s_Imports := s_Imports s @ [imp]\<rparr>)"
| claim: "bindingMatches s sid (r_Target r) \<Longrightarrow> begin_ok r \<Longrightarrow>
     sort (r_PrivateInputNames r) = r_PrivateInputNames r \<Longrightarrow>
     begin_scan r (rev (s_Records s)) = None \<Longrightarrow>
     \<forall>rec\<in>set (history s (r_Target r)). \<not> unresolved rec \<Longrightarrow> begin_fence r s = Inr () \<Longrightarrow>
     length (s_Records s) + length (s_Imports s) < maxRecords \<Longrightarrow>
     validKey key \<Longrightarrow> key \<notin> set (map i_ID (s_Records s)) \<Longrightarrow> clock_ok now \<Longrightarrow>
     effect sid s (s\<lparr>s_Records := s_Records s @ [new_intent key now r]\<rparr>)"
| replace: "findIntent s i = Some (rec, k) \<Longrightarrow> evolve rec rec' \<Longrightarrow>
     effect sid s (s\<lparr>s_Records := (s_Records s)[k := rec']\<rparr>)"

lemma BindEmpty_effect: "BindEmpty b s = Inr (s', u) \<Longrightarrow> effect sid s s'"
  by (auto simp: BindEmpty_def BindEmpty_fn_def validateStoreBinding_def intro: effect.intros
      split: sum.splits option.splits if_splits)

lemma Import_effect:
  assumes "BindImportedResource sid req s = Inr (s', b)"
  shows "effect sid s s'"
proof -
  from assms obtain imp where imp: "validImport req = Inr imp"
    and fn: "BindImported_fn sid (ie_HostAPI (ir_Evidence req)) imp s = Inr (s', b)"
    by (auto simp: BindImportedResource_def split: sum.splits)
  have "validHostID (ib_UID imp)" "validFormURL (ib_Form imp)" "1 \<le> ib_Generation imp"
    "ib_Generation imp \<le> maxReplayWindowSeconds" "ok (validateTarget (ib_Target imp))"
    using imp by (auto simp: validImport_def Let_def split: if_splits)
  moreover have "list_ex (\<lambda>p. i_Target p = t) (s_Records s) \<or> history s t = []" for t
    by (auto simp: history_def list_ex_iff filter_empty_conv)
  ultimately show ?thesis using fn
    by (auto simp: BindImported_fn_def valid_import_def intro!: effect.same effect.adopt
        split: sum.splits option.splits if_splits)
qed

lemma Begin_effect:
  assumes "Begin sid rand now r s = Inr (s', i)" "fresh_source rand s" "clock_ok now"
  shows "effect sid s s'"
proof -
  from assms(1) obtain r' where r': "validateBegin r = Inr r'" and fn: "Begin_fn sid rand now r' s = Inr (s', i)"
    by (auto simp: Begin_def split: sum.splits)
  note v = validateBegin_Inr [OF r']
  have k: "validKey key \<and> key \<notin> set (map i_ID (s_Records s))" if "newKey rand = Some key" for key
    using that assms(2) by (auto simp: fresh_source_def newKey_def validKey_def)
  have "sort (r_PrivateInputNames r') = r_PrivateInputNames r'" by (simp add: v(1))
  with v(3) k fn assms(3) show ?thesis
    unfolding Begin_fn_def
    by (auto intro!: effect.same effect.claim simp: list_ex_iff history_def split: sum.splits option.splits if_splits)
qed

lemma RecordAccepted_effect:
  assumes "RecordAccepted sid i ack s = Inr (s', rec)"
  shows "effect sid s s'"
proof -
  from assms obtain t where t: "parseRetainUntil (a_RetainUntil ack) = Inr t" and a: "validAck i ack"
    and fn: "RecordAccepted_fn sid i ack t s = Inr (s', rec)"
    by (auto simp: RecordAccepted_def split: sum.splits if_splits)
  from parseRetainUntil_Inr [OF t] a fn show ?thesis
    by (auto simp: RecordAccepted_fn_def put_record_def
        intro!: effect.same effect.replace evolve.accept [where i = i]
        split: sum.splits option.splits if_splits)
qed

lemma Complete_effect:
  assumes "Complete sid i ev s = Inr (s', rec)"
  shows "effect sid s s'"
proof -
  from assms obtain t where t: "parseRetainUntil (a_RetainUntil (e_Operation ev)) = Inr t"
    and a: "validAck i (e_Operation ev)" and fn: "Complete_fn sid i ev t s = Inr (s', rec)"
    by (auto simp: Complete_def split: sum.splits if_splits)
  from parseRetainUntil_Inr [OF t] a fn show ?thesis
    by (auto simp: Complete_fn_def put_record_def validAck_def
        intro!: effect.replace evolve.complete split: sum.splits option.splits if_splits)
qed


subsection \<open>The journal as a state machine\<close>

inductive journal_step :: "string \<Rightarrow> diskSnapshot \<Rightarrow> diskSnapshot \<Rightarrow> bool" for sid where
  bind: "BindEmpty b s = Inr (s', u) \<Longrightarrow> journal_step sid s s'"
| adopt: "BindImportedResource sid req s = Inr (s', b) \<Longrightarrow> journal_step sid s s'"
| claim: "Begin sid rand now r s = Inr (s', i) \<Longrightarrow> fresh_source rand s \<Longrightarrow> clock_ok now \<Longrightarrow>
     journal_step sid s s'"
| accept: "RecordAccepted sid i ack s = Inr (s', rec) \<Longrightarrow> journal_step sid s s'"
| complete: "Complete sid i ev s = Inr (s', rec) \<Longrightarrow> journal_step sid s s'"

lemma step_effect: "journal_step sid s s' \<Longrightarrow> effect sid s s'"
  by (auto elim!: journal_step.cases
      intro: BindEmpty_effect Import_effect Begin_effect RecordAccepted_effect Complete_effect)

definition initial_snapshot :: "string \<Rightarrow> StoreBinding option \<Rightarrow> diskSnapshot" where
  "initial_snapshot sid b =
     \<lparr>s_Format = storeFormat, s_StoreID = sid, s_Binding = b, s_Imports = [], s_Records = []\<rparr>"

inductive reachable :: "string \<Rightarrow> diskSnapshot \<Rightarrow> bool" for sid where
  init: "(\<And>c. b = Some c \<Longrightarrow> validateStoreBinding c = Inr ()) \<Longrightarrow> reachable sid (initial_snapshot sid b)"
| step: "reachable sid s \<Longrightarrow> journal_step sid s s' \<Longrightarrow> reachable sid s'"

subsection \<open>Every transaction keeps the snapshot checks\<close>

lemma bindingMatches_cong: "s_Binding s = s_Binding s' \<Longrightarrow> bindingMatches s sid t = bindingMatches s' sid t"
  by (simp add: bindingMatches_def)

lemma valid_import_cong: "s_Binding s = s_Binding s' \<Longrightarrow> valid_import s sid b = valid_import s' sid b"
  by (simp add: valid_import_def bindingMatches_def)

lemma import_scan_None:
  "import_scan imp bs = None \<Longrightarrow> \<forall>b\<in>set bs. ib_Target b \<noteq> ib_Target imp \<and>
     \<not> (t_HostAPI (ib_Target b) = t_HostAPI (ib_Target imp) \<and> ib_UID b = ib_UID imp)"
  by (induction bs) (auto split: if_splits)

text \<open>
  The UID index joins the Host root and the UID with a NUL byte; within one binding the root is
  fixed, so equal index keys are equal UIDs.
\<close>

lemma uid_key_inj:
  "valid_import s sid a \<Longrightarrow> valid_import s sid b \<Longrightarrow> uid_key a = uid_key b \<Longrightarrow>
     t_HostAPI (ib_Target a) = t_HostAPI (ib_Target b) \<and> ib_UID a = ib_UID b"
  by (auto simp: valid_import_def bindingMatches_def uid_key_def split: option.splits)

lemma update_by_id:
  assumes "distinct (map i_ID recs)" "k < length recs" "i_ID (recs ! k) = i"
  shows "recs[k := rec'] = map (\<lambda>x. if i_ID x = i then rec' else x) recs"
proof (rule nth_equalityI)
  fix j assume j: "j < length (recs[k := rec'])"
  with assms have "i_ID (recs ! j) = i \<longleftrightarrow> j = k"
    by (auto simp: distinct_conv_nth)
  with j assms(2) show "recs[k := rec'] ! j = map (\<lambda>x. if i_ID x = i then rec' else x) recs ! j"
    by (auto simp: nth_list_update)
qed simp

lemma effect_snapshot_ok:
  assumes "effect sid s s'" "snapshot_ok sid s"
  shows "snapshot_ok sid s'"
  using assms
proof (induction rule: effect.induct)
  case (bind s b)
  then show ?case by (auto simp: snapshot_ok_def)
next
  case (adopt s imp)
  let ?s = "s\<lparr>s_Imports := s_Imports s @ [imp]\<rparr>"
  have c: "bindingMatches ?s sid t = bindingMatches s sid t" "valid_import ?s sid b = valid_import s sid b" for t b
    by (rule bindingMatches_cong valid_import_cong, simp)+
  from import_scan_None [OF adopt(4)] have n: "ib_Target imp \<notin> set (map ib_Target (s_Imports s))"
    by auto
  have "uid_key imp \<notin> set (map uid_key (s_Imports s))"
  proof
    assume "uid_key imp \<in> set (map uid_key (s_Imports s))"
    then obtain b where b: "b \<in> set (s_Imports s)" "uid_key b = uid_key imp" by auto
    with adopt(6) have "valid_import s sid b" by (simp add: snapshot_ok_def)
    from uid_key_inj [OF this adopt(1) b(2)] import_scan_None [OF adopt(4)] b(1) show False by blast
  qed
  moreover have "s_Binding s \<noteq> None" using adopt(1)
    by (auto simp: valid_import_def bindingMatches_def split: option.splits)
  ultimately show ?case using adopt n unfolding snapshot_ok_def c by (auto split: option.splits)
next
  case (claim s r key now)
  let ?s = "s\<lparr>s_Records := s_Records s @ [new_intent key now r]\<rparr>"
  have c: "bindingMatches ?s sid t = bindingMatches s sid t" "valid_import ?s sid b = valid_import s sid b" for t b
    by (rule bindingMatches_cong valid_import_cong, simp)+
  have "i_ID (new_intent key now r) = key" "i_Target (new_intent key now r) = r_Target r"
    by (simp_all add: new_intent_def)
  with claim new_intent_valid [OF claim(2,3,8)] show ?case
    unfolding snapshot_ok_def c by (auto simp: clock_ok_def split: option.splits)
next
  case (replace s i rec k rec')
  note f = findIntent_Some [OF replace(1)]
  let ?s = "s\<lparr>s_Records := (s_Records s)[k := rec']\<rparr>"
  have c: "bindingMatches ?s sid t = bindingMatches s sid t" "valid_import ?s sid b = valid_import s sid b" for t b
    by (rule bindingMatches_cong valid_import_cong, simp)+
  note cl = claim_of_fields [OF evolve_claim [OF replace(2)]]
  have rec: "rec \<in> set (s_Records s)" using f nth_mem by blast
  have v: "validStoredIntent rec'" using evolve_valid [OF replace(2)] rec replace(3)
    by (simp add: snapshot_ok_def)
  have "map i_ID ((s_Records s)[k := rec']) = map i_ID (s_Records s)"
    using f cl(1) by (simp add: map_update list_update_same_conv)
  moreover have "validStoredIntent x \<and> (s_Binding s \<noteq> None \<longrightarrow> bindingMatches s sid (i_Target x))"
    if "x \<in> set ((s_Records s)[k := rec'])" for x
  proof -
    from that set_update_subset_insert [of "s_Records s" k rec'] have "x \<in> set (s_Records s) \<or> x = rec'" by blast
    with replace(3) v rec cl(3) show ?thesis by (auto simp: snapshot_ok_def)
  qed
  ultimately show ?case using replace(3) unfolding snapshot_ok_def c by (auto split: option.splits)
qed

lemma initial_ok: "(\<And>c. b = Some c \<Longrightarrow> validateStoreBinding c = Inr ()) \<Longrightarrow> snapshot_ok sid (initial_snapshot sid b)"
  by (auto simp: snapshot_ok_def initial_snapshot_def maxRecords_def split: option.splits)

lemma reachable_ok: "reachable sid s \<Longrightarrow> snapshot_ok sid s"
  by (induction rule: reachable.induct) (auto intro: initial_ok effect_snapshot_ok step_effect)


subsection \<open>The history of a target\<close>

definition identity_of :: "Intent \<Rightarrow> (string \<times> string \<times> string) option" where
  "identity_of i =
     (if i_Status i = StatusApplied then Some (i_ResultUID i, i_ResultGeneration i, i_Form i)
      else if i_Status i = StatusFailedReserved
      then Some (i_OperationUID i, i_ObservedGeneration i, i_Form i) else None)"

text \<open>\<open>b\<close> may follow \<open>a\<close> in the history of a target.\<close>

definition follows :: "Intent \<Rightarrow> Intent \<Rightarrow> bool" where
  "follows a b \<longleftrightarrow> \<not> unresolved a \<and>
     (if i_Action b = ActionCreate then i_Status a = StatusDeleteConfirmed
      else identity_of a = Some (i_UID b, i_Generation b, i_Form b) \<and>
        (if i_Status a = StatusFailedReserved then i_SupersedesIntentID b = i_ID a
         else i_SupersedesIntentID b = []))"

text \<open>What the first record of a target may be: a Create, or a mutation of an imported Resource.\<close>

definition starts :: "diskSnapshot \<Rightarrow> Intent \<Rightarrow> bool" where
  "starts s b \<longleftrightarrow> (if i_Action b = ActionCreate
     then \<forall>imp\<in>set (s_Imports s). ib_Target imp \<noteq> i_Target b
     else \<exists>imp\<in>set (s_Imports s). ib_Target imp = i_Target b \<and>
        (i_UID b, i_Generation b, i_Form b) = (ib_UID imp, format_int (ib_Generation imp), ib_Form imp))"

definition chained :: "diskSnapshot \<Rightarrow> bool" where
  "chained s \<longleftrightarrow> (\<forall>t. successively follows (history s t) \<and>
     (history s t \<noteq> [] \<longrightarrow> starts s (hd (history s t))))"

lemma follows_claim:
  assumes "claim_of b' = claim_of b"
  shows "follows a b' = follows a b"
  by (simp add: follows_def claim_of_fields [OF assms])

lemma follows_retention [simp]: "follows (a\<lparr>i_RetainUntil := t\<rparr>) b = follows a b"
  by (simp add: follows_def identity_of_def unresolved_def)

lemma successively_last:
  "successively P (xs @ [y]) \<longleftrightarrow> successively P xs \<and> (xs \<noteq> [] \<longrightarrow> P (last xs) y)"
  by (auto simp: successively_append_iff)

lemma successively_map_weak:
  assumes "successively P xs" "\<And>a b. a \<in> set (butlast xs) \<Longrightarrow> b \<in> set xs \<Longrightarrow> P a b \<Longrightarrow> P (f a) (f b)"
  shows "successively P (map f xs)"
  using assms by (induction xs rule: induct_list012) auto

lemma chained_resolved:
  "successively follows xs \<Longrightarrow> a \<in> set (butlast xs) \<Longrightarrow> \<not> unresolved a"
  by (induction xs rule: induct_list012) (auto simp: follows_def split: if_splits)

text \<open>In a chained history the newest record decides the identity of the target.\<close>

lemma history_last:
  "latestIntent s t = (if history s t = [] then None else Some (last (history s t)))"
  by (simp add: latestIntent_def history_def find_last_filter)

lemma identity_scan_filter: "identity_scan t recs = identity_scan t (filter (\<lambda>r. i_Target r = t) recs)"
  by (induction recs) auto

lemma currentIdentity_last:
  assumes "history s t = xs @ [l]" "\<not> unresolved l" "validStoredIntent l"
  shows "currentIdentity s t =
    (case identity_of l of Some (u, g, f) \<Rightarrow> (u, g, f, True, False) | None \<Rightarrow> ([], [], [], False, True))"
proof -
  have "l \<in> set (history s t)" by (simp add: assms(1))
  then have t: "i_Target l = t" by (simp add: history_def)
  have "identity_scan t (rev (s_Records s)) = identity_scan t (rev (history s t))"
    using identity_scan_filter [of t "rev (s_Records s)"] by (simp add: history_def rev_filter)
  also have "\<dots> = Some (case identity_of l of Some (u, g, f) \<Rightarrow> (u, g, f, True, False) | None \<Rightarrow> ([], [], [], False, True))"
    using assms t validStored_status [OF assms(3)]
    by (auto simp: identity_of_def unresolved_def validStoredIntent_iff validStatusFields_def split: if_splits)
  finally show ?thesis by (simp add: currentIdentity_def)
qed

lemma currentIdentity_empty:
  "history s t = [] \<Longrightarrow> currentIdentity s t =
    (case List.find (\<lambda>b. ib_Target b = t) (s_Imports s) of
       Some b \<Rightarrow> (ib_UID b, format_int (ib_Generation b), ib_Form b, True, False)
     | None \<Rightarrow> ([], [], [], False, False))"
  using identity_scan_filter [of t "rev (s_Records s)"]
  by (simp add: currentIdentity_def history_def filter_empty_conv rev_filter [symmetric])


subsection \<open>Every transaction extends or keeps the chain\<close>

lemma new_intent_simps [simp]:
  "i_ID (new_intent key now r) = key" "i_Key (new_intent key now r) = key"
  "i_Target (new_intent key now r) = r_Target r" "i_Action (new_intent key now r) = r_Action r"
  "i_Form (new_intent key now r) = r_Form r" "i_UID (new_intent key now r) = r_UID r"
  "i_Generation (new_intent key now r) = r_Generation r"
  "i_SupersedesIntentID (new_intent key now r) = r_SupersedesIntentID r"
  "i_Status (new_intent key now r) = StatusClaimed"
  by (simp_all add: new_intent_def)

lemma findIntent_self:
  assumes "snapshot_ok sid s" "l \<in> set (s_Records s)"
  shows "\<exists>k. findIntent s (i_ID l) = Some (l, k)"
  using assms find_from_complete [of "s_Records s" l 0] by (auto simp: snapshot_ok_def findIntent_def)

lemma fence_follows:
  assumes inv: "snapshot_ok sid s" and h: "history s (r_Target r) = xs @ [l]" "\<not> unresolved l"
    and fence: "begin_fence r s = Inr ()"
  shows "follows l (new_intent key now r)"
proof -
  have l: "l \<in> set (s_Records s)" using h(1) by (metis (mono_tags, lifting) filter_is_subset history_def in_set_conv_decomp subsetD)
  with inv have v: "validStoredIntent l" by (simp add: snapshot_ok_def)
  obtain k where k: "findIntent s (i_ID l) = Some (l, k)" using findIntent_self [OF inv l] by blast
  have latest: "latestIntent s (r_Target r) = Some l" by (simp add: history_last h)
  note ci = currentIdentity_last [OF h v]
  show ?thesis
  proof (cases "r_Action r = ActionCreate")
    case True
    with fence latest h(2) show ?thesis
      by (auto simp: begin_fence_def Let_def follows_def split: prod.splits if_splits)
  next
    case False
    with fence ci latest obtain u g f where i: "identity_of l = Some (u, g, f)"
      "u = r_UID r" "g = r_Generation r" "f = r_Form r"
      by (auto simp: begin_fence_def Let_def split: option.splits if_splits)
    show ?thesis
    proof (cases "r_SupersedesIntentID r = []")
      case True
      with fence ci latest i False h(2) show ?thesis
        by (auto simp: begin_fence_def Let_def follows_def split: if_splits)
    next
      case sup: False
      with fence ci latest i False have "i_ID l = r_SupersedesIntentID r"
        by (auto simp: begin_fence_def Let_def split: if_splits option.splits prod.splits)
      with sup fence ci latest i False k h(2) show ?thesis
        by (auto simp: begin_fence_def Let_def follows_def split: if_splits)
    qed
  qed
qed

lemma fence_starts:
  assumes h: "history s (r_Target r) = []" and fence: "begin_fence r s = Inr ()"
  shows "starts (s\<lparr>s_Records := recs\<rparr>) (new_intent key now r)"
proof -
  have latest: "latestIntent s (r_Target r) = None" by (simp add: history_last h)
  show ?thesis using fence latest currentIdentity_empty [OF h]
    by (auto simp: begin_fence_def Let_def starts_def find_None_iff find_Some_iff
        split: option.splits if_splits)
qed

lemma history_append:
  "history (s\<lparr>s_Records := s_Records s @ [i]\<rparr>) t = history s t @ (if i_Target i = t then [i] else [])"
  by (simp add: history_def)

lemma starts_cong: "s_Imports s = s_Imports s' \<Longrightarrow> starts s b = starts s' b"
  by (simp add: starts_def)

lemma starts_claim:
  assumes "claim_of b' = claim_of b"
  shows "starts s b' = starts s b"
  by (simp add: starts_def claim_of_fields [OF assms])

lemma history_replace:
  assumes inv: "snapshot_ok sid s" and f: "findIntent s i = Some (rec, k)" and e: "evolve rec rec'"
  shows "history (s\<lparr>s_Records := (s_Records s)[k := rec']\<rparr>) t
    = map (\<lambda>x. if i_ID x = i then rec' else x) (history s t)"
proof -
  note fs = findIntent_Some [OF f]
  have d: "distinct (map i_ID (s_Records s))" using inv by (simp add: snapshot_ok_def)
  have u: "(s_Records s)[k := rec'] = map (\<lambda>x. if i_ID x = i then rec' else x) (s_Records s)"
    using update_by_id [OF d] fs by blast
  have t: "i_Target rec' = i_Target rec" by (rule claim_of_fields(3) [OF evolve_claim [OF e]])
  have "i_Target (if i_ID x = i then rec' else x) = i_Target x" if "x \<in> set (s_Records s)" for x
    using that fs d t by (auto simp: distinct_map inj_on_def dest: nth_mem)
  then show ?thesis by (simp add: history_def u filter_map comp_def cong: filter_cong)
qed

lemma effect_chained:
  assumes "effect sid s s'" "snapshot_ok sid s" "chained s"
  shows "chained s'"
  using assms
proof (induction rule: effect.induct)
  case (same s)
  then show ?case by simp
next
  case (bind s b)
  then show ?case by (simp add: chained_def history_def)
next
  case (adopt s imp)
  have h: "history (s\<lparr>s_Imports := s_Imports s @ [imp]\<rparr>) t = history s t" for t by (simp add: history_def)
  have "starts (s\<lparr>s_Imports := s_Imports s @ [imp]\<rparr>) b" if "starts s b" "b \<in> set (history s t)" for b t
  proof -
    have "i_Target b \<noteq> ib_Target imp" using that(2) adopt(3) by (auto simp: history_def filter_empty_conv)
    with that(1) show ?thesis by (auto simp: starts_def)
  qed
  with adopt(7) hd_in_set show ?case unfolding chained_def h by blast
next
  case (claim s r key now)
  let ?i = "new_intent key now r" and ?s = "s\<lparr>s_Records := s_Records s @ [new_intent key now r]\<rparr>"
  show ?case unfolding chained_def
  proof (intro allI conjI impI)
    fix t
    note c = claim(12) [unfolded chained_def, rule_format, of t]
    have st: "starts ?s b = starts s b" for b by (rule starts_cong) simp
    consider "r_Target r \<noteq> t" | "r_Target r = t" "history s t = []"
      | xs l where "r_Target r = t" "history s t = xs @ [l]" by (metis rev_exhaust)
    then show "successively follows (history ?s t)"
    proof cases
      case 3
      with claim(5) have "\<not> unresolved l" by simp
      with fence_follows [OF claim(11) _ this claim(6)] c 3 show ?thesis
        unfolding history_append by (simp add: successively_append_iff)
    qed (use c in \<open>simp_all add: history_append\<close>)
    assume "history ?s t \<noteq> []"
    then show "starts ?s (hd (history ?s t))"
      using c st fence_starts [OF _ claim(6), of _ key now]
      by (cases "history s t") (auto simp: history_append split: if_splits)
  qed
next
  case (replace s i rec k rec')
  let ?f = "\<lambda>x. if i_ID x = i then rec' else x" and ?s = "s\<lparr>s_Records := (s_Records s)[k := rec']\<rparr>"
  note fs = findIntent_Some [OF replace(1)]
  have h: "history ?s t = map ?f (history s t)" for t by (rule history_replace [OF replace(3,1,2)])
  have eq: "x = rec" if "x \<in> set (history s t)" "i_ID x = i" for x t
    using that fs replace(3) by (auto simp: snapshot_ok_def distinct_map inj_on_def history_def dest: nth_mem)
  have cl: "claim_of (?f x) = claim_of x" if "x \<in> set (history s t)" for x t
    using eq that evolve_claim [OF replace(2)] by auto
  show ?case unfolding chained_def
  proof (intro allI conjI impI)
    fix t
    note c = replace(4) [unfolded chained_def, rule_format, of t]
    show "successively follows (history ?s t)" unfolding h
    proof (rule successively_map_weak)
      fix a b assume ab: "a \<in> set (butlast (history s t))" "b \<in> set (history s t)" "follows a b"
      have "\<not> unresolved a" using chained_resolved c ab(1) by blast
      moreover have "a \<in> set (history s t)" using ab(1) in_set_butlastD by fast
      ultimately have "follows (?f a) b"
        using eq [of a t] evolve_resolved [OF replace(2)] ab(3) by auto
      with follows_claim [OF cl [OF ab(2)]] show "follows (?f a) (?f b)" by blast
    qed (use c in blast)
    assume ne: "history ?s t \<noteq> []"
    have "starts ?s b = starts s b" for b by (rule starts_cong) simp
    with c starts_claim [OF cl [of "hd (history s t)" t]] ne show "starts ?s (hd (history ?s t))"
      by (simp add: h hd_map)
  qed
qed

lemma reachable_chained: "reachable sid s \<Longrightarrow> chained s"
proof (induction rule: reachable.induct)
  case (init b)
  then show ?case by (simp add: chained_def history_def initial_snapshot_def)
next
  case (step s s')
  then show ?case using effect_chained reachable_ok step_effect by blast
qed


subsection \<open>Replays\<close>

lemma sameRequest_new: "sameRequest (new_intent key now r) r"
  by (simp add: sameRequest_def new_intent_def)

lemma sameFence_new: "sameFence (new_intent key now r) r"
  by (simp add: sameFence_def)

lemma begin_scan_new:
  assumes "r_SupersedesIntentID r \<noteq> key"
  shows "begin_scan r (new_intent key now r # rest) = Some (Inr (new_intent key now r))"
  using assms by (auto simp: sameRequest_new sameFence_new sameCreateRequest_def)

text \<open>What a successful \<open>Begin\<close> did: it returned an earlier claim or wrote a new one.\<close>

lemma Begin_cases [consumes 1, case_names replay claim]:
  assumes "Begin sid rand now r s = Inr (s', i)"
  obtains r' where "validateBegin r = Inr r'" "bindingMatches s sid (r_Target r')" "s' = s"
      "begin_scan r' (rev (s_Records s)) = Some (Inr i)"
  | r' key where "validateBegin r = Inr r'" "bindingMatches s sid (r_Target r')"
      "begin_scan r' (rev (s_Records s)) = None" "newKey rand = Some key" "i = new_intent key now r'"
      "s' = s\<lparr>s_Records := s_Records s @ [i]\<rparr>" "\<forall>rec\<in>set (history s (r_Target r')). \<not> unresolved rec"
      "begin_fence r' s = Inr ()" "length (s_Records s) + length (s_Imports s) < maxRecords"
proof -
  from assms obtain r' where r': "validateBegin r = Inr r'" and fn: "Begin_fn sid rand now r' s = Inr (s', i)"
    by (auto simp: Begin_def split: sum.splits)
  then have b: "bindingMatches s sid (r_Target r')" by (auto simp: Begin_fn_def split: if_splits)
  show thesis
  proof (cases "begin_scan r' (rev (s_Records s))")
    case (Some a)
    with fn b that(1) r' show thesis by (auto simp: Begin_fn_def split: sum.splits)
  next
    case None
    with fn b that(2) r' show thesis
      by (auto simp: Begin_fn_def list_ex_iff history_def split: option.splits sum.splits if_splits)
  qed
qed

lemma begin_scan_Inr: "begin_scan r recs = Some (Inr i) \<Longrightarrow> i \<in> set recs \<and> sameRequest i r"
  by (induction recs) (auto simp: sameCreateRequest_def split: if_splits)

lemma sameRequest_sound:
  assumes "sameRequest i r"
  shows "intent_request i = r\<lparr>r_AdvertisedReplayWindowSecs := i_AdvertisedReplayWindowSecs i\<rparr>"
  using assms by (simp add: sameRequest_def intent_request_def)

lemma bindingMatches_records [simp]:
  "bindingMatches (s\<lparr>s_Records := recs\<rparr>) sid t = bindingMatches s sid t"
  by (simp add: bindingMatches_def)

lemma fence_supersedes:
  assumes "begin_fence r s = Inr ()" "r_SupersedesIntentID r \<noteq> []" "r_Action r \<noteq> ActionCreate"
  shows "r_SupersedesIntentID r \<in> set (map i_ID (s_Records s))"
proof -
  from assms obtain prior k where "findIntent s (r_SupersedesIntentID r) = Some (prior, k)"
    by (auto simp: begin_fence_def Let_def split: if_splits option.splits prod.splits)
  note f = findIntent_mem [OF this] findIntent_Some [OF this]
  then have "i_ID prior = r_SupersedesIntentID r" by blast
  with f(1) show ?thesis by (metis image_eqI list.set_map)
qed

lemma Begin_replay:
  assumes b: "Begin sid rand now r s = Inr (s', i)" and fresh: "fresh_source rand s"
  shows "Begin sid rand' now' r s' = Inr (s', i)"
  using b
proof (cases rule: Begin_cases)
  case (replay r')
  then show ?thesis by (simp add: Begin_def Begin_fn_def)
next
  case (claim r' key)
  have act: "r_SupersedesIntentID r' \<noteq> [] \<Longrightarrow> r_Action r' \<noteq> ActionCreate"
    using validateBegin_Inr(3) [OF claim(1)] by (simp add: begin_ok_def)
  have "key \<notin> set (map i_ID (s_Records s))" "key \<noteq> []"
    using fresh claim(4) by (auto simp: fresh_source_def newKey_def idempotencyKeyBytes_def hex_encode_def split: option.splits)
  with fence_supersedes [OF claim(8)] act have "r_SupersedesIntentID r' \<noteq> key" by metis
  from begin_scan_new [OF this, of now "rev (s_Records s)"] claim show ?thesis
    by (simp add: Begin_def Begin_fn_def)
qed

end
