(* ===== verification/JournalSpec.thy ===== *)
theory JournalSpec
  imports JournalInvariant
begin

text \<open>
  What the journal promises, as an abstract machine per target: nothing there, a live Resource at
  an identity, a failed mutation that still reserves it, or one pending mutation with its key.
  Every transaction of the journal is a step of that machine, claims are never rewritten, and
  the operation generations along a history are consecutive.
\<close>

type_synonym fence = "string \<times> string \<times> string"

datatype custody =
    Vacant
  | Live fence
  | Reserved string fence
  | Pending string action fence

definition next_generation :: "action \<Rightarrow> string \<Rightarrow> string" where
  "next_generation a g = (if a = ActionCreate then ''1'' else format_int (mustGeneration g + 1))"

inductive custody_step :: "custody \<Rightarrow> custody \<Rightarrow> bool" where
  stutter: "custody_step c c"
| adopt: "custody_step Vacant (Live f)"
| claim_create: "custody_step Vacant (Pending k ActionCreate ([], [], form))"
| claim_live: "a \<noteq> ActionCreate \<Longrightarrow> custody_step (Live f) (Pending k a f)"
| claim_reserved: "a \<noteq> ActionCreate \<Longrightarrow> custody_step (Reserved i f) (Pending k a f)"
| applied: "a \<noteq> ActionDelete \<Longrightarrow> a \<noteq> ActionCreate \<longrightarrow> u' = u \<Longrightarrow>
     custody_step (Pending k a (u, g, form)) (Live (u', next_generation a g, form))"
| deleted: "custody_step (Pending k ActionDelete f) Vacant"
| failed: "a \<noteq> ActionCreate \<longrightarrow> u' = u \<Longrightarrow>
     custody_step (Pending k a (u, g, form)) (Reserved k (u', next_generation a g, form))"

definition record_custody :: "Intent \<Rightarrow> custody" where
  "record_custody l =
     (if unresolved l then Pending (i_Key l) (i_Action l) (i_UID l, i_Generation l, i_Form l)
      else case identity_of l of None \<Rightarrow> Vacant
      | Some f \<Rightarrow> if i_Status l = StatusFailedReserved then Reserved (i_ID l) f else Live f)"

definition custody_of :: "diskSnapshot \<Rightarrow> Target \<Rightarrow> custody" where
  "custody_of s t =
     (case latestIntent s t of Some l \<Rightarrow> record_custody l
      | None \<Rightarrow> (case List.find (\<lambda>b. sameTarget (ib_Target b) t) (s_Imports s) of None \<Rightarrow> Vacant
          | Some b \<Rightarrow> Live (ib_UID b, format_int (ib_Generation b), ib_Form b)))"

lemma validStored_next:
  assumes "validStoredIntent rec" "i_OperationID rec \<noteq> []"
  shows "format_int (i_OperationGeneration rec) = next_generation (i_Action rec) (i_Generation rec)"
proof (cases "i_Action rec = ActionCreate")
  case True
  with assms have "i_OperationGeneration rec = 1"
    by (auto simp: validStoredIntent_iff validateOperationForIntent_def intent_ack_def split: if_splits)
  moreover have "format_int 1 = ''1''" by code_simp
  ultimately show ?thesis by (simp add: True next_generation_def)
next
  case False
  with assms show ?thesis
    by (auto simp: validStoredIntent_iff validateOperationForIntent_def intent_ack_def
        next_generation_def mustGeneration_def split: if_splits option.splits)
qed

lemma validStored_key: "validStoredIntent rec \<Longrightarrow> i_Key rec = i_ID rec"
  by (auto simp: validStoredIntent_iff validStoredFields_def)

lemma evolve_custody:
  assumes "evolve rec rec'" "validStoredIntent rec"
  shows "custody_step (record_custody rec) (record_custody rec')"
proof -
  note f = claim_of_fields [OF evolve_claim [OF assms(1)]]
  from assms(1) show ?thesis
  proof cases
    case (accept i ack t)
    then have "record_custody rec' = record_custody rec"
      by (simp add: record_custody_def unresolved_def accepted_def)
    then show ?thesis by (simp add: custody_step.stutter)
  next
    case (complete ev t)
    have same: "sameOperation rec (e_Operation ev)"
      using complete(4) by (auto simp: complete_record_def Let_def split: if_splits)
    with complete(2) have op: "i_OperationID rec \<noteq> []" by (auto simp: sameOperation_def)
    note g = validStored_next [OF assms(2) op] and u = validStored_uid [OF assms(2) op]
    show ?thesis
    proof (cases "unresolved rec")
      case False
      from complete_settled [OF complete(4) this] have "record_custody rec' = record_custody rec"
        by (simp add: record_custody_def unresolved_def identity_of_def)
      then show ?thesis by (simp add: custody_step.stutter)
    next
      case True
      then have r: "record_custody rec = Pending (i_ID rec) (i_Action rec) (i_UID rec, i_Generation rec, i_Form rec)"
        using validStored_key [OF assms(2)] by (simp add: record_custody_def)
      from complete(4) True show ?thesis
      proof (cases rule: complete_unresolved)
        case failed
        then have "record_custody rec' = Reserved (i_ID rec)
            (i_OperationUID rec, next_generation (i_Action rec) (i_Generation rec), i_Form rec)"
          using same g by (simp add: record_custody_def unresolved_def identity_of_def settled_def sameOperation_def)
        then show ?thesis unfolding r by (simp add: custody_step.failed u)
      next
        case deleted
        then have "record_custody rec' = Vacant"
          by (simp add: record_custody_def unresolved_def identity_of_def settled_def)
        then show ?thesis unfolding r deleted(4) by (simp add: custody_step.deleted)
      next
        case applied
        then have "record_custody rec' = Live
            (i_OperationUID rec, next_generation (i_Action rec) (i_Generation rec), i_Form rec)"
          using same g by (simp add: record_custody_def unresolved_def identity_of_def settled_def sameOperation_def)
        then show ?thesis unfolding r by (simp add: custody_step.applied u applied(4))
      qed
    qed
  qed
qed

lemma custody_of_history:
  "history s t \<noteq> [] \<Longrightarrow> custody_of s t = record_custody (last (history s t))"
  by (simp add: custody_of_def history_last)

lemma custody_of_import:
  "history s t = [] \<Longrightarrow> custody_of s t = (case List.find (\<lambda>b. ib_Target b = t) (s_Imports s) of None \<Rightarrow> Vacant
          | Some b \<Rightarrow> Live (ib_UID b, format_int (ib_Generation b), ib_Form b))"
  by (simp add: custody_of_def history_last)

lemma record_custody_new:
  "record_custody (new_intent key now r) = Pending key (r_Action r) (r_UID r, r_Generation r, r_Form r)"
  by (simp add: record_custody_def unresolved_def)

lemma follows_custody:
  assumes "follows l b" "validStoredIntent l"
  shows "i_Action b = ActionCreate \<Longrightarrow> record_custody l = Vacant"
    and "i_Action b \<noteq> ActionCreate \<Longrightarrow> record_custody l = Live (i_UID b, i_Generation b, i_Form b) \<or>
      record_custody l = Reserved (i_ID l) (i_UID b, i_Generation b, i_Form b)"
  using assms by (auto simp: follows_def record_custody_def identity_of_def)

lemma create_fence: "begin_ok r \<Longrightarrow> r_Action r = ActionCreate \<Longrightarrow> r_UID r = [] \<and> r_Generation r = []"
  by (simp add: begin_ok_def validRoute_def)

lemma find_snoc: "List.find P (xs @ [x]) = (case List.find P xs of Some y \<Rightarrow> Some y | None \<Rightarrow> if P x then Some x else None)"
  by (induction xs) auto

lemma claim_starts_custody:
  assumes inv: "snapshot_ok sid s" and r: "begin_ok r" and h: "history s t = []" and t: "r_Target r = t"
    and st: "starts (s\<lparr>s_Records := recs\<rparr>) (new_intent key now r)"
  shows "custody_step (custody_of s t) (Pending key (r_Action r) (r_UID r, r_Generation r, r_Form r))"
proof (cases "r_Action r = ActionCreate")
  case True
  with st t have "List.find (\<lambda>b. ib_Target b = t) (s_Imports s) = None"
    by (auto simp: starts_def find_None_iff)
  with True create_fence [OF r] h show ?thesis by (simp add: custody_of_import custody_step.claim_create)
next
  case False
  with st t obtain imp where imp: "imp \<in> set (s_Imports s)" "ib_Target imp = t"
    "(r_UID r, r_Generation r, r_Form r) = (ib_UID imp, format_int (ib_Generation imp), ib_Form imp)"
    by (auto simp: starts_def)
  then obtain b where b: "List.find (\<lambda>b. ib_Target b = t) (s_Imports s) = Some b"
    by (cases "List.find (\<lambda>b. ib_Target b = t) (s_Imports s)") (auto simp: find_None_iff)
  then have "b \<in> set (s_Imports s)" "ib_Target b = t" by (auto simp: find_Some_iff)
  with imp inv have "b = imp" by (auto simp: snapshot_ok_def distinct_map inj_on_def)
  with b imp(3) h have "custody_of s t = Live (r_UID r, r_Generation r, r_Form r)" by (simp add: custody_of_import)
  with False show ?thesis by (simp add: custody_step.claim_live)
qed

lemma effect_custody:
  assumes "effect sid s s'" "snapshot_ok sid s" "chained s"
  shows "custody_step (custody_of s t) (custody_of s' t)"
  using assms
proof (induction rule: effect.induct)
  case (same s)
  then show ?case by (simp add: custody_step.stutter)
next
  case (bind s b)
  then show ?case by (simp add: custody_of_def latestIntent_def custody_step.stutter)
next
  case (adopt s imp)
  let ?s = "s\<lparr>s_Imports := s_Imports s @ [imp]\<rparr>"
  have h: "history ?s t = history s t" by (simp add: history_def)
  show ?case
  proof (cases "ib_Target imp = t")
    case True
    with import_scan_None [OF adopt(4)] have "List.find (\<lambda>b. ib_Target b = t) (s_Imports s) = None"
      by (auto simp: find_None_iff)
    with adopt(3) True h show ?thesis
      by (auto simp: custody_of_import custody_step.adopt custody_step.stutter split: option.splits)
  next
    case False
    then have "List.find (\<lambda>b. ib_Target b = t) (s_Imports s @ [imp]) = List.find (\<lambda>b. ib_Target b = t) (s_Imports s)"
      by (simp add: find_snoc split: option.split)
    with h have "custody_of ?s t = custody_of s t" by (simp add: custody_of_def history_last)
    then show ?thesis by (simp add: custody_step.stutter)
  qed
next
  case (claim s r key now)
  let ?i = "new_intent key now r" and ?s = "s\<lparr>s_Records := s_Records s @ [new_intent key now r]\<rparr>"
  show ?case
  proof (cases "r_Target r = t")
    case False
    then have "custody_of ?s t = custody_of s t" by (simp add: custody_of_def history_last history_append)
    then show ?thesis by (simp add: custody_step.stutter)
  next
    case t: True
    then have s': "custody_of ?s t = Pending key (r_Action r) (r_UID r, r_Generation r, r_Form r)"
      by (simp add: custody_of_history history_append record_custody_new)
    show ?thesis
    proof (cases "history s t" rule: rev_cases)
      case Nil
      have "chained ?s" by (rule effect_chained [OF effect.claim [OF claim(1-10)] claim(11,12)])
      then have "starts ?s ?i" using Nil t by (auto simp: chained_def history_append dest!: spec [of _ t])
      with claim_starts_custody [OF claim(11) claim(2) Nil t] s' show ?thesis by simp
    next
      case (snoc xs l)
      with t claim(5) have u: "\<not> unresolved l" by simp
      from fence_follows [OF claim(11) _ u claim(6), of xs key now] snoc t
      have fl: "follows l (new_intent key now r)" by simp
      have "l \<in> set (history s t)" using snoc by simp
      then have v: "validStoredIntent l" using claim(11) by (simp add: snapshot_ok_def history_def)
      have "custody_of s t = record_custody l" using snoc by (simp add: custody_of_history)
      with follows_custody [OF fl v] create_fence [OF claim(2)] s' show ?thesis
        by (cases "r_Action r = ActionCreate")
          (auto intro: custody_step.claim_create custody_step.claim_live custody_step.claim_reserved)
    qed
  qed
next
  case (replace s i rec k rec')
  let ?s = "s\<lparr>s_Records := (s_Records s)[k := rec']\<rparr>"
  have h: "history ?s t = map (\<lambda>x. if i_ID x = i then rec' else x) (history s t)"
    by (rule history_replace [OF replace(3,1,2)])
  show ?case
  proof (cases "history s t = []")
    case True
    then have "custody_of ?s t = custody_of s t" using h by (simp add: custody_of_import)
    then show ?thesis by (simp add: custody_step.stutter)
  next
    case False
    let ?l = "last (history s t)"
    have l: "?l \<in> set (s_Records s)" using last_in_set [OF False] by (simp add: history_def)
    have c: "custody_of ?s t = record_custody (if i_ID ?l = i then rec' else ?l)"
      using False h by (simp add: custody_of_history last_map)
    show ?thesis
    proof (cases "i_ID ?l = i")
      case True
      then have "?l = rec" using l findIntent_mem [OF replace(1)] findIntent_Some [OF replace(1)] replace(3)
        by (auto simp: snapshot_ok_def distinct_map inj_on_def)
      moreover have "validStoredIntent rec" using findIntent_mem [OF replace(1)] replace(3) by (simp add: snapshot_ok_def)
      ultimately show ?thesis using evolve_custody [OF replace(2)] True c False by (simp add: custody_of_history)
    qed (use c False in \<open>simp add: custody_of_history custody_step.stutter\<close>)
  qed
qed

subsection \<open>Claims never change\<close>

lemma effect_claims:
  assumes "effect sid s s'"
  shows "\<exists>new. map claim_of (s_Records s') = map claim_of (s_Records s) @ new"
  using assms
proof cases
  case (replace i rec k rec')
  then have "map claim_of ((s_Records s)[k := rec']) = map claim_of (s_Records s)"
    using findIntent_Some [OF replace(2)] evolve_claim [OF replace(3)]
    by (simp add: map_update list_update_same_conv)
  with replace show ?thesis by simp
qed simp_all

lemma steps_claims:
  "(journal_step sid)\<^sup>*\<^sup>* s s' \<Longrightarrow> \<exists>new. map claim_of (s_Records s') = map claim_of (s_Records s) @ new"
proof (induction rule: rtranclp_induct)
  case (step y z)
  then show ?case using effect_claims [OF step_effect [OF step(2)]] by force
qed simp

lemma steps_status:
  assumes "(journal_step sid)\<^sup>*\<^sup>* s s'" "k < length (s_Records s)"
  shows "k < length (s_Records s') \<and> status_step\<^sup>*\<^sup>* (i_Status (s_Records s ! k)) (i_Status (s_Records s' ! k))"
  using assms(1)
proof (induction rule: rtranclp_induct)
  case base
  then show ?case using assms(2) by simp
next
  case (step y z)
  from step_effect [OF step(2)] have "k < length (s_Records z) \<and>
    status_step (i_Status (s_Records y ! k)) (i_Status (s_Records z ! k))"
  proof cases
    case (claim r key now)
    with step.IH show ?thesis by (simp add: nth_append status_step.stay)
  next
    case (replace i rec j rec')
    with step.IH findIntent_Some [OF replace(2)] evolve_status [OF replace(3)] show ?thesis
      by (auto simp: nth_list_update status_step.stay)
  qed (use step.IH in \<open>simp_all add: status_step.stay\<close>)
  with step.IH show ?case by (meson rtranclp.rtrancl_into_rtrancl)
qed

subsection \<open>Generations along a history\<close>

lemma follows_generation:
  assumes f: "follows a b" and v: "validStoredIntent a" "validStoredIntent b"
    and b: "i_Action b \<noteq> ActionCreate" "i_OperationID b \<noteq> []"
  shows "i_OperationGeneration b = i_OperationGeneration a + 1 \<and> i_OperationUID b = i_OperationUID a"
proof -
  from f b have a: "i_Status a = StatusApplied \<or> i_Status a = StatusFailedReserved"
    by (auto simp: follows_def identity_of_def split: if_splits)
  then have opa: "i_OperationID a \<noteq> []" using v(1) validStored_operation by fastforce
  note g = validStored_generation [OF v(1) opa]
  have "mustGeneration (i_Generation b) = i_OperationGeneration a \<and> i_UID b = i_OperationUID a"
    using f a v(1) b(1)
    by (auto simp: follows_def identity_of_def validStoredIntent_iff validStatusFields_def split: if_splits)
  moreover have "i_OperationGeneration b = mustGeneration (i_Generation b) + 1"
    using v(2) b by (auto simp: validStoredIntent_iff validateOperationForIntent_def intent_ack_def
        mustGeneration_def split: if_splits option.splits)
  ultimately show ?thesis using validStored_uid [OF v(2) b(2,1)] by simp
qed

end
