(* ===== verification/Samples.thy ===== *)
theory Samples
  imports JournalSpec "HOL-Library.Code_Target_Numeral"
begin

text \<open>
  One concrete journal run that the witnesses share: a bound empty store, a Create that is
  claimed, accepted and applied, and an Update of the created Resource that is claimed and
  accepted. Each step is evaluated by the kernel.
\<close>

definition sample_host :: string where
  "sample_host = ''https://host.example/api''"
definition sample_form :: string where
  "sample_form = ''https://forms.example/edge''"
definition sample_store :: string where
  "sample_store = ''scope''"
definition sample_binding :: StoreBinding where
  "sample_binding = \<lparr>b_HostAPI = sample_host\<rparr>"
definition sample_target :: Target where
  "sample_target = \<lparr>t_HostAPI = sample_host, t_PrincipalScope = sample_store, t_Space = ''prod'',
     t_Name = ''web''\<rparr>"
definition sample_body :: bytes where
  "sample_body = json_text (JObj [(''form'', JStr sample_form), (''space'', JStr ''prod''),
     (''name'', JStr ''web''), (''spec'', JObj [])])"
definition sample_create :: BeginRequest where
  "sample_create = \<lparr>r_Target = sample_target, r_Action = ActionCreate, r_Form = sample_form,
     r_Method = ''POST'', r_Path = ''/resources'', r_UID = [], r_Generation = [],
     r_SupersedesIntentID = [], r_PublicJSON = sample_body,
     r_PrivateInputNames = [''tok'', ''key''], r_AdvertisedReplayWindowSecs = 3600\<rparr>"
definition sample_update :: BeginRequest where
  "sample_update = \<lparr>r_Target = sample_target, r_Action = ActionUpdate, r_Form = sample_form,
     r_Method = ''PUT'', r_Path = ''/resources/u1'', r_UID = ''u1'', r_Generation = ''1'',
     r_SupersedesIntentID = [], r_PublicJSON = json_text (JObj [(''spec'', JObj [])]),
     r_PrivateInputNames = [], r_AdvertisedReplayWindowSecs = 3600\<rparr>"
definition sample_now :: go_time where
  "sample_now = \<lparr>yr_of = 2026, mon_of = 3, day_of = 4, hour_of = 5, min_of = 6, sec_of = 7,
     nsec_of = 8, is_utc = False\<rparr>"
definition sample_rand :: "char \<Rightarrow> bytes option" where
  "sample_rand c = Some (replicate 32 c)"
definition sample_key :: "char \<Rightarrow> string" where
  "sample_key c = hex_encode (replicate 32 c)"
definition sample_ack :: "action \<Rightarrow> int \<Rightarrow> string \<Rightarrow> string \<Rightarrow> OperationAck" where
  "sample_ack a g st eff = \<lparr>a_ID = ''op1'', a_ResourceUID = ''u1'', a_Action = a, a_Generation = g,
     a_Status = st, a_Effect = eff, a_RetainUntil = ''2026-05-01T00:00:00Z''\<rparr>"
definition sample_retain :: go_time where
  "sample_retain = \<lparr>yr_of = 2026, mon_of = 5, day_of = 1, hour_of = 0, min_of = 0, sec_of = 0,
     nsec_of = 0, is_utc = True\<rparr>"
definition sample_evidence :: CompletionEvidence where
  "sample_evidence = \<lparr>e_Operation = sample_ack ActionCreate 1 ''succeeded'' ''complete'',
     e_Resource = \<lparr>o_Present = True, o_Path = ''/resources/u1'', o_StatusCode = 200, o_UID = ''u1'',
       o_Form = sample_form, o_Space = ''prod'', o_Name = ''web'', o_Generation = 1,
       o_Phase = ''idle''\<rparr>\<rparr>"

definition sample_sorted :: BeginRequest where
  "sample_sorted = sample_create\<lparr>r_PrivateInputNames := [''key'', ''tok'']\<rparr>"
definition sample_intent1 :: Intent where
  "sample_intent1 = new_intent (sample_key (CHR ''k'')) sample_now sample_sorted"
definition sample_intent2 :: Intent where
  "sample_intent2 = accepted sample_intent1 (sample_ack ActionCreate 1 ''running'' ''unknown'') sample_retain"
definition sample_intent3 :: Intent where
  "sample_intent3 = settled (sample_intent2\<lparr>i_Status := StatusApplied, i_ResultUID := ''u1'',
     i_ResultGeneration := ''1''\<rparr>) (e_Operation sample_evidence) sample_retain"
definition sample_intent4 :: Intent where
  "sample_intent4 = new_intent (sample_key (CHR ''m'')) sample_now sample_update"
definition sample_intent5 :: Intent where
  "sample_intent5 = accepted sample_intent4 (sample_ack ActionUpdate 2 ''running'' ''unknown'') sample_retain"

definition snap :: "Intent list \<Rightarrow> diskSnapshot" where
  "snap recs = (initial_snapshot sample_store (Some sample_binding))\<lparr>s_Records := recs\<rparr>"

definition snap0 :: diskSnapshot where "snap0 = snap []"
definition snap1 :: diskSnapshot where "snap1 = snap [sample_intent1]"
definition snap2 :: diskSnapshot where "snap2 = snap [sample_intent2]"
definition snap3 :: diskSnapshot where "snap3 = snap [sample_intent3]"
definition snap4 :: diskSnapshot where "snap4 = snap [sample_intent3, sample_intent4]"
definition snap5 :: diskSnapshot where "snap5 = snap [sample_intent3, sample_intent5]"

lemma sample_begin:
  "Begin sample_store (sample_rand (CHR ''k'')) sample_now sample_create snap0 = Inr (snap1, sample_intent1)"
  by code_simp

lemma sample_fresh: "fresh_source (sample_rand (CHR ''k'')) snap0" "clock_ok sample_now"
  by code_simp+

lemma sample_accept:
  "RecordAccepted sample_store (sample_key (CHR ''k'')) (sample_ack ActionCreate 1 ''running'' ''unknown'')
     snap1 = Inr (snap2, sample_intent2)"
  by code_simp

lemma sample_complete:
  "Complete sample_store (sample_key (CHR ''k'')) sample_evidence snap2 = Inr (snap3, sample_intent3)"
  by code_simp

lemma sample_begin_update:
  "Begin sample_store (sample_rand (CHR ''m'')) sample_now sample_update snap3 = Inr (snap4, sample_intent4)"
  by code_simp

lemma sample_fresh_update: "fresh_source (sample_rand (CHR ''m'')) snap3"
  by code_simp

lemma sample_accept_update:
  "RecordAccepted sample_store (sample_key (CHR ''m'')) (sample_ack ActionUpdate 2 ''running'' ''unknown'')
     snap4 = Inr (snap5, sample_intent5)"
  by code_simp

lemma sample_binding_ok: "validateStoreBinding sample_binding = Inr ()"
  by code_simp

lemma sample_reachable0: "reachable sample_store snap0"
  using reachable.init [of "Some sample_binding" sample_store] sample_binding_ok
  by (simp add: snap0_def snap_def initial_snapshot_def)

lemma sample_steps:
  shows "journal_step sample_store snap0 snap1"
    and "journal_step sample_store snap1 snap2"
    and "journal_step sample_store snap2 snap3"
    and "journal_step sample_store snap3 snap4"
    and "journal_step sample_store snap4 snap5"
proof -
  show "journal_step sample_store snap0 snap1" by (rule journal_step.claim [OF sample_begin sample_fresh])
  show "journal_step sample_store snap1 snap2" by (rule journal_step.accept [OF sample_accept])
  show "journal_step sample_store snap2 snap3" by (rule journal_step.complete [OF sample_complete])
  show "journal_step sample_store snap3 snap4"
    by (rule journal_step.claim [OF sample_begin_update sample_fresh_update sample_fresh(2)])
  show "journal_step sample_store snap4 snap5" by (rule journal_step.accept [OF sample_accept_update])
qed

lemma sample_reachable1: "reachable sample_store snap1"
  by (rule reachable.step [OF sample_reachable0 sample_steps(1)])

lemma sample_reachable2: "reachable sample_store snap2"
  by (rule reachable.step [OF sample_reachable1 sample_steps(2)])

lemma sample_reachable3: "reachable sample_store snap3"
  by (rule reachable.step [OF sample_reachable2 sample_steps(3)])

lemma sample_reachable4: "reachable sample_store snap4"
  by (rule reachable.step [OF sample_reachable3 sample_steps(4)])

lemma sample_reachable5: "reachable sample_store snap5"
  by (rule reachable.step [OF sample_reachable4 sample_steps(5)])

end
