(* ===== verification/JournalProps.thy ===== *)
theory JournalProps
  imports Samples
begin

text \<open>
  The properties of the mutation journal (\<open>internal/intentv2/store.go\<close>), each with a witness on
  the sample run where it has hypotheses, and the interface through which the lifecycle code
  uses \<open>Begin\<close>.
\<close>

subsection \<open>The claim interface\<close>

text \<open>
  What a caller relies on from a store of claims: a claim is durable when it is returned,
  repeating the request returns the same claim and leaves the store alone, and no two stored
  claims share a key.
\<close>

locale claim_log =
  fixes claim :: "'src \<Rightarrow> 'req \<Rightarrow> 's \<Rightarrow> 'e + 's \<times> 'c"
    and fresh :: "'src \<Rightarrow> 's \<Rightarrow> bool"
    and good :: "'s \<Rightarrow> bool"
    and stored :: "'s \<Rightarrow> 'c list"
    and key :: "'c \<Rightarrow> 'k"
  assumes claim_good: "good s \<Longrightarrow> fresh src s \<Longrightarrow> claim src r s = Inr (s', c) \<Longrightarrow> good s'"
    and claim_stored: "claim src r s = Inr (s', c) \<Longrightarrow> c \<in> set (stored s')"
    and claim_replay: "fresh src s \<Longrightarrow> claim src r s = Inr (s', c) \<Longrightarrow> claim src2 r s' = Inr (s', c)"
    and keys_distinct: "good s \<Longrightarrow> distinct (map key (stored s))"
begin

text \<open>A caller that restarts: each attempt claims again with a new source.\<close>

primrec attempts :: "'src list \<Rightarrow> 'req \<Rightarrow> 's \<Rightarrow> ('e + 'c) list \<times> 's" where
  "attempts [] r s = ([], s)"
| "attempts (src # srcs) r s =
     (case claim src r s of
        Inl e \<Rightarrow> (let (rs, s') = attempts srcs r s in (Inl e # rs, s'))
      | Inr (s1, c) \<Rightarrow> (let (rs, s') = attempts srcs r s1 in (Inr c # rs, s')))"

lemma attempts_replay:
  assumes "fresh src s" "claim src r s = Inr (s', c)"
  shows "attempts srcs r s' = (replicate (length srcs) (Inr c), s')"
  by (induction srcs) (simp_all add: claim_replay [OF assms])

lemma attempts_after_claim:
  assumes "fresh src s" "claim src r s = Inr (s', c)"
  shows "attempts (src # srcs) r s = (replicate (Suc (length srcs)) (Inr c), s')"
  using assms attempts_replay [OF assms, of srcs] by simp

lemma same_key_same_claim:
  assumes "good s" "c \<in> set (stored s)" "d \<in> set (stored s)" "key c = key d"
  shows "c = d"
  using assms keys_distinct [OF assms(1)] by (auto simp: distinct_map inj_on_def)

lemma claim_is_the_holder:
  assumes "good s" "fresh src s" "claim src r s = Inr (s', c)" "d \<in> set (stored s')" "key d = key c"
  shows "d = c"
  using same_key_same_claim [OF claim_good [OF assms(1-3)] assms(4) claim_stored [OF assms(3)] assms(5)] .

end

definition claim_source :: "bytes option \<times> go_time \<Rightarrow> diskSnapshot \<Rightarrow> bool" where
  "claim_source src s \<longleftrightarrow> fresh_source (fst src) s \<and> clock_ok (snd src)"

definition begin_at ::
  "string \<Rightarrow> bytes option \<times> go_time \<Rightarrow> BeginRequest \<Rightarrow> Intent tx" where
  "begin_at sid src r = Begin sid (fst src) (snd src) r"

lemma Begin_stored:
  assumes "Begin sid rand now r s = Inr (s', i)"
  shows "i \<in> set (s_Records s')"
  using assms by (cases rule: Begin_cases) (auto dest: begin_scan_Inr)

lemma snapshot_keys_distinct:
  assumes "snapshot_ok sid s"
  shows "distinct (map i_Key (s_Records s))"
proof -
  have keys: "map i_Key (s_Records s) = map i_ID (s_Records s)"
    using assms validStored_key by (simp add: snapshot_ok_def)
  show ?thesis unfolding keys using assms by (simp add: snapshot_ok_def)
qed

interpretation jr: claim_log "begin_at sid" claim_source "snapshot_ok sid" s_Records i_Key for sid
proof unfold_locales
  fix s src r s' c
  assume "snapshot_ok sid s" "claim_source src s" "begin_at sid src r s = Inr (s', c)"
  then show "snapshot_ok sid s'"
    using effect_snapshot_ok [OF Begin_effect] by (simp add: claim_source_def begin_at_def)
next
  fix src r s s' c
  assume "begin_at sid src r s = Inr (s', c)"
  then show "c \<in> set (s_Records s')" using Begin_stored by (simp add: begin_at_def)
next
  fix src s r s' c src2
  assume "claim_source src s" "begin_at sid src r s = Inr (s', c)"
  then show "begin_at sid src2 r s' = Inr (s', c)"
    using Begin_replay by (simp add: claim_source_def begin_at_def)
qed (rule snapshot_keys_distinct)

subsection \<open>Properties\<close>

text \<open>
  C10: every snapshot the journal can reach from an initialized store, by any sequence of
  successful \<open>BindEmpty\<close>, \<open>BindImportedResource\<close>, \<open>Begin\<close>, \<open>RecordAccepted\<close> and
  \<open>Complete\<close> calls, passes all the checks \<open>decodeSnapshot\<close> makes when it is read back: the
  store never writes a snapshot it would refuse.
\<close>
theorem journal_readable: "reachable sid s \<Longrightarrow> check_snapshot sid s"
  by (simp add: check_snapshot_iff reachable_ok)

theorem journal_readable_witness:
  "reachable sample_store snap5 \<and> check_snapshot sample_store snap5"
  using journal_readable [OF sample_reachable5] sample_reachable5 by blast

text \<open>
  C8: \<open>Begin\<close> is idempotent. Once it has returned a claim, calling it again any number of times
  with the same request, other random bytes and other clock readings returns that same
  claim, hence the same idempotency key and first-send time, and writes nothing new.
\<close>
theorem begin_restarts:
  assumes "fresh_source rand s" "clock_ok now" "Begin sid rand now r s = Inr (s', i)"
  shows "jr.attempts sid ((rand, now) # srcs) r s = (replicate (Suc (length srcs)) (Inr i), s')"
  using jr.attempts_after_claim [of "(rand, now)" s sid r s' i srcs] assms
  by (simp add: claim_source_def begin_at_def)

theorem begin_restarts_witness:
  "jr.attempts sample_store
     [(sample_rand (CHR ''k''), sample_now), (sample_rand (CHR ''x''), sample_retain)] sample_create snap0
   = ([Inr sample_intent1, Inr sample_intent1], snap1)"
  using begin_restarts [OF sample_fresh sample_begin, of "[(sample_rand (CHR ''x''), sample_retain)]"]
  by (simp add: numeral_2_eq_2)

text \<open>
  C9: the journal implements the custody machine: in every reachable snapshot each successful
  transaction moves the custody of each target by one step of \<open>custody_step\<close> or leaves it. In
  particular a Create is claimed only where nothing is live, an Update or Delete only on the
  exact live or reserved identity, and a settled mutation leaves the same UID with the
  generation raised by one.
\<close>
theorem journal_refines_custody:
  assumes "reachable sid s" "journal_step sid s s'"
  shows "custody_step (custody_of s t) (custody_of s' t)"
  by (rule effect_custody [OF step_effect [OF assms(2)] reachable_ok [OF assms(1)] reachable_chained [OF assms(1)]])

theorem journal_refines_custody_witness:
  "custody_step (custody_of snap3 sample_target) (custody_of snap4 sample_target) \<and>
   custody_of snap3 sample_target = Live (''u1'', ''1'', sample_form) \<and>
   custody_of snap4 sample_target = Pending (sample_key (CHR ''m'')) ActionUpdate (''u1'', ''1'', sample_form)"
proof (intro conjI)
  show "custody_step (custody_of snap3 sample_target) (custody_of snap4 sample_target)"
    by (rule journal_refines_custody [OF sample_reachable3 sample_steps(4)])
  show "custody_of snap3 sample_target = Live (''u1'', ''1'', sample_form)" by code_simp
  show "custody_of snap4 sample_target =
      Pending (sample_key (CHR ''m'')) ActionUpdate (''u1'', ''1'', sample_form)" by code_simp
qed

text \<open>
  C11: at most one mutation of a target is unresolved, and it is the newest record of the target.
\<close>
theorem one_unresolved:
  assumes "reachable sid s" "rec \<in> set (s_Records s)" "unresolved rec"
  shows "latestIntent s (i_Target rec) = Some rec"
proof -
  let ?h = "history s (i_Target rec)"
  have rec: "rec \<in> set ?h" using assms(2) by (simp add: history_def)
  then have ne: "?h \<noteq> []" by auto
  have "successively follows ?h" using reachable_chained [OF assms(1)] by (simp add: chained_def)
  then have "rec \<notin> set (butlast ?h)" using chained_resolved assms(3) by blast
  moreover have "set ?h = insert (last ?h) (set (butlast ?h))"
    using append_butlast_last_id [OF ne] by (metis Un_insert_right list.simps(15) set_append sup_bot_right empty_set)
  ultimately have "rec = last ?h" using rec by auto
  with ne show ?thesis by (simp add: history_last)
qed

theorem one_unresolved_witness:
  "unresolved sample_intent4 \<and> latestIntent snap4 (i_Target sample_intent4) = Some sample_intent4"
proof -
  have "sample_intent4 \<in> set (s_Records snap4)" by (simp add: snap4_def snap_def)
  moreover have "unresolved sample_intent4" by code_simp
  ultimately show ?thesis using one_unresolved [OF sample_reachable4] by blast
qed

text \<open>
  C12: while a mutation of the target is unresolved, a successful \<open>Begin\<close> writes nothing: it
  can only hand back a stored claim made for the very same request.
\<close>
theorem no_second_claim:
  assumes "Begin sid rand now r s = Inr (s', i)" "rec \<in> set (s_Records s)"
    "i_Target rec = r_Target r" "unresolved rec"
  shows "s' = s \<and> i \<in> set (s_Records s) \<and>
    (\<exists>r'. validateBegin r = Inr r' \<and> sameRequest i r')"
  using assms(1)
proof (cases rule: Begin_cases)
  case (replay r')
  with begin_scan_Inr show ?thesis by fastforce
next
  case (claim r' key)
  have "r_Target r' = r_Target r" using validateBegin_Inr(1) [OF claim(1)] by simp
  with claim(7) assms(2-4) show ?thesis by (auto simp: history_def)
qed

theorem no_second_claim_witness:
  "Begin sample_store (sample_rand (CHR ''x'')) sample_now sample_create snap1 = Inr (snap1, sample_intent1) \<and>
   sample_intent1 \<in> set (s_Records snap1)"
proof -
  have b: "Begin sample_store (sample_rand (CHR ''x'')) sample_now sample_create snap1 = Inr (snap1, sample_intent1)"
    by code_simp
  have m: "sample_intent1 \<in> set (s_Records snap1)" by (simp add: snap1_def snap_def)
  have "i_Target sample_intent1 = r_Target sample_create" "unresolved sample_intent1" by code_simp+
  from no_second_claim [OF b m this] b show ?thesis by blast
qed

text \<open>
  C13: a claim is never rewritten. Whatever transactions follow, every record keeps its place,
  its identifier, its key, its whole request and its first-send time.
\<close>
theorem claims_immutable:
  assumes "(journal_step sid)\<^sup>*\<^sup>* s s'" "k < length (s_Records s)"
  shows "k < length (s_Records s') \<and> claim_of (s_Records s' ! k) = claim_of (s_Records s ! k)"
proof -
  from steps_claims [OF assms(1)] obtain new where
    m: "map claim_of (s_Records s') = map claim_of (s_Records s) @ new" by blast
  then have l: "length (s_Records s) \<le> length (s_Records s')" by (metis length_append length_map le_add1)
  with assms(2) have k: "k < length (s_Records s')" by simp
  have "claim_of (s_Records s' ! k) = map claim_of (s_Records s') ! k" using k by simp
  also have "\<dots> = claim_of (s_Records s ! k)" using assms(2) by (simp add: m nth_append)
  finally show ?thesis using k by simp
qed

theorem claims_immutable_witness:
  "claim_of (s_Records snap3 ! 0) = claim_of (s_Records snap1 ! 0)"
proof -
  have "(journal_step sample_store)\<^sup>*\<^sup>* snap1 snap3" using sample_steps(2,3) by auto
  moreover have "0 < length (s_Records snap1)" by (simp add: snap1_def snap_def)
  ultimately show ?thesis using claims_immutable by blast
qed

text \<open>
  C14: the status of a stored record moves only along claimed, accepted or accepted-failed, then
  applied, delete-confirmed or failed-reserved; a settled status is final.
\<close>
theorem settled_is_final:
  assumes "(journal_step sid)\<^sup>*\<^sup>* s s'" "k < length (s_Records s)"
    "i_Status (s_Records s ! k) \<in> {StatusApplied, StatusDeleteConfirmed, StatusFailedReserved}"
  shows "i_Status (s_Records s' ! k) = i_Status (s_Records s ! k)"
proof -
  from steps_status [OF assms(1,2)]
  have "status_step\<^sup>*\<^sup>* (i_Status (s_Records s ! k)) (i_Status (s_Records s' ! k))" by blast
  then show ?thesis
    by (induction rule: rtranclp_induct) (use assms(3) status_step_resolved in auto)
qed

theorem settled_is_final_witness:
  "i_Status (s_Records snap3 ! 0) = StatusApplied \<and> i_Status (s_Records snap5 ! 0) = StatusApplied"
proof -
  have st: "(journal_step sample_store)\<^sup>*\<^sup>* snap3 snap5" using sample_steps(4,5) by auto
  have k: "0 < length (s_Records snap3)" by (simp add: snap3_def snap_def)
  have a: "i_Status (s_Records snap3 ! 0) = StatusApplied" by code_simp
  from settled_is_final [OF st k] a show ?thesis by simp
qed

text \<open>
  C15: along the history of a target, an Update or Delete that the Host accepted works on the same
  Resource as the record before it and carries the next generation.
\<close>
theorem history_generations:
  assumes "reachable sid s" "history s t = xs @ a # b # ys"
    "i_Action b \<noteq> ActionCreate" "i_OperationID b \<noteq> []"
  shows "i_OperationGeneration b = i_OperationGeneration a + 1 \<and> i_OperationUID b = i_OperationUID a"
proof -
  have "successively follows (xs @ a # b # ys)"
    using reachable_chained [OF assms(1)] assms(2) by (metis chained_def)
  then have "follows a b" by (simp add: successively_append_iff)
  moreover have "a \<in> set (s_Records s)" "b \<in> set (s_Records s)"
  proof -
    have "a \<in> set (history s t)" "b \<in> set (history s t)" by (simp_all add: assms(2))
    then show "a \<in> set (s_Records s)" "b \<in> set (s_Records s)" by (simp_all add: history_def)
  qed
  ultimately show ?thesis using reachable_ok [OF assms(1)] assms(3,4)
    by (intro follows_generation) (auto simp: snapshot_ok_def)
qed

theorem history_generations_witness:
  "i_OperationGeneration sample_intent5 = i_OperationGeneration sample_intent3 + 1 \<and>
   i_OperationUID sample_intent5 = ''u1''"
proof -
  have h: "history snap5 sample_target = [] @ sample_intent3 # sample_intent5 # []" by code_simp
  have b: "i_Action sample_intent5 \<noteq> ActionCreate" "i_OperationID sample_intent5 \<noteq> []" by code_simp+
  have "i_OperationUID sample_intent3 = ''u1''" by code_simp
  with history_generations [OF sample_reachable5 h b] show ?thesis by simp
qed

text \<open>A read of the Resource that a record's operation names, at the operation's generation.\<close>

definition own_resource :: "Intent \<Rightarrow> ResourceObservation \<Rightarrow> bool" where
  "own_resource rec obs \<longleftrightarrow> o_Present obs \<and> o_StatusCode obs = 200 \<and> o_Path obs = resourcePath (i_OperationUID rec) \<and>
     o_UID obs = i_OperationUID rec \<and> o_Form obs = i_Form rec \<and> o_Space obs = t_Space (i_Target rec) \<and>
     o_Name obs = t_Name (i_Target rec) \<and> o_Generation obs = i_OperationGeneration rec"

text \<open>
  C16: \<open>Complete\<close> settles a record only on exact evidence. The operation is the recorded one: its
  ID, Resource, action and generation. A record becomes applied when the operation succeeded with
  complete effect and the Resource was read present and idle, with the recorded UID, Form, Space,
  name and generation. It becomes failed and reserved when the operation failed and the same
  Resource was read in its error phase at the operation's generation. A Delete is confirmed only
  when it succeeded with complete effect and the read of its own UID was answered 404 or 410
  without any Resource. There is no other outcome.
\<close>
theorem complete_needs_evidence:
  assumes "Complete sid i ev s = Inr (s', rec')" "findIntent s i = Some (rec, k)" "unresolved rec"
  shows "i_OperationID rec = a_ID (e_Operation ev) \<and> i_OperationUID rec = a_ResourceUID (e_Operation ev) \<and>
    i_Action rec = a_Action (e_Operation ev) \<and> i_OperationGeneration rec = a_Generation (e_Operation ev) \<and>
    (i_Status rec' = StatusApplied \<and> i_Action rec \<noteq> ActionDelete \<and>
       a_Status (e_Operation ev) = ''succeeded'' \<and> a_Effect (e_Operation ev) = ''complete'' \<and>
       own_resource rec (e_Resource ev) \<and> o_Phase (e_Resource ev) = ''idle'' \<or>
     i_Status rec' = StatusFailedReserved \<and> a_Status (e_Operation ev) = ''failed'' \<and>
       own_resource rec (e_Resource ev) \<and> o_Phase (e_Resource ev) = ''error'' \<or>
     i_Status rec' = StatusDeleteConfirmed \<and> i_Action rec = ActionDelete \<and>
       a_Status (e_Operation ev) = ''succeeded'' \<and> a_Effect (e_Operation ev) = ''complete'' \<and>
       \<not> o_Present (e_Resource ev) \<and> o_Path (e_Resource ev) = resourcePath (i_UID rec) \<and>
       o_StatusCode (e_Resource ev) \<in> {404, 410} \<and> o_UID (e_Resource ev) = [])"
proof -
  from assms(1) obtain t where "Complete_fn sid i ev t s = Inr (s', rec')"
    by (auto simp: Complete_def split: sum.splits if_splits)
  with assms(2) have c: "complete_record rec ev t = Inr rec'"
    by (auto simp: Complete_fn_def put_record_def split: sum.splits if_splits)
  then have op: "sameOperation rec (e_Operation ev)"
    by (auto simp: complete_record_def Let_def split: if_splits)
  from c assms(3) show ?thesis
    by (cases rule: complete_unresolved)
       (use op in \<open>auto simp: settled_def sameOperation_def own_resource_def resourceMatches_def
          resourceMatchesTarget_def resourceAbsentMatches_def\<close>)
qed

theorem complete_needs_evidence_witness:
  "own_resource sample_intent2 (e_Resource sample_evidence) \<and> o_Phase (e_Resource sample_evidence) = ''idle''"
proof -
  have f: "findIntent snap2 (sample_key (CHR ''k'')) = Some (sample_intent2, 0)" by code_simp
  have u: "unresolved sample_intent2" by code_simp
  have "i_Status sample_intent3 = StatusApplied" by code_simp
  with complete_needs_evidence [OF sample_complete f u] show ?thesis by auto
qed

end
