(* ===== verification/GoStruct.thy ===== *)
theory GoStruct
  imports JsonV2Laws
begin

text \<open>
  \<open>encoding/json\<close> decoding into Go structs. A decoder takes the value a variable holds and a
  JSON tree and gives the value after decoding, or \<open>None\<close> where the package reports an error;
  \<open>null\<close> leaves scalars and structs alone and empties slices and pointers. Object members are
  applied in order, a member's field is found by exact name or else by case folding, and an
  unknown member is an error under \<open>DisallowUnknownFields\<close>.
\<close>

type_synonym 'a dec = "'a \<Rightarrow> json \<Rightarrow> 'a option"

subsection \<open>Field names\<close>

text \<open>
  \<open>foldName\<close>: ASCII letters in upper case; the two other runes whose simple folding is an ASCII
  letter are U+017F (long s) and U+212A (Kelvin sign).
\<close>

definition fold_rune :: "nat \<times> string \<Rightarrow> string" where
  "fold_rune = (\<lambda>(r, bs).
     if 97 \<le> r \<and> r \<le> 122 then [char_of (r - 32)]
     else if r = 383 then ''S'' else if r = 8490 then ''K'' else bs)"

definition fold_name :: "string \<Rightarrow> string" where
  "fold_name s = concat (map fold_rune (runes s))"

type_synonym 's fields = "(string \<times> 's dec) list"

definition find_field :: "'s fields \<Rightarrow> string \<Rightarrow> 's dec option" where
  "find_field fs k =
     (case map_of fs k of Some d \<Rightarrow> Some d
      | None \<Rightarrow> map_option snd (List.find (\<lambda>(n, _). fold_name n = fold_name k) fs))"

subsection \<open>Decoders\<close>

definition dec_string :: "string dec" where
  "dec_string cur v = (case v of JStr s \<Rightarrow> Some s | JNull \<Rightarrow> Some cur | _ \<Rightarrow> None)"

definition dec_bool :: "bool dec" where
  "dec_bool cur v = (case v of JBool b \<Rightarrow> Some b | JNull \<Rightarrow> Some cur | _ \<Rightarrow> None)"

definition dec_int64 :: "int dec" where
  "dec_int64 cur v = (case v of JNum n \<Rightarrow> parse_int64 n | JNull \<Rightarrow> Some cur | _ \<Rightarrow> None)"

definition dec_uint64 :: "nat dec" where
  "dec_uint64 cur v = (case v of JNum n \<Rightarrow> parse_uint64 n | JNull \<Rightarrow> Some cur | _ \<Rightarrow> None)"

fun dec_elems :: "'a dec \<Rightarrow> 'a \<Rightarrow> 'a list \<Rightarrow> json list \<Rightarrow> 'a list option" where
  "dec_elems d zero cur [] = Some []"
| "dec_elems d zero cur (v # vs) =
     (case d (case cur of c # _ \<Rightarrow> c | [] \<Rightarrow> zero) v of None \<Rightarrow> None
      | Some x \<Rightarrow> map_option (\<lambda>xs. x # xs) (dec_elems d zero (tl cur) vs))"

text \<open>A slice: \<open>None\<close> is the nil slice.\<close>

definition dec_slice :: "'a dec \<Rightarrow> 'a \<Rightarrow> 'a list option dec" where
  "dec_slice d zero cur v =
     (case v of JNull \<Rightarrow> Some None
      | JArr vs \<Rightarrow> map_option Some (dec_elems d zero (case cur of None \<Rightarrow> [] | Some xs \<Rightarrow> xs) vs)
      | _ \<Rightarrow> None)"

text \<open>The same where the program does not tell nil from empty.\<close>

definition dec_list :: "'a dec \<Rightarrow> 'a \<Rightarrow> 'a list dec" where
  "dec_list d zero cur v =
     (case v of JNull \<Rightarrow> Some [] | JArr vs \<Rightarrow> dec_elems d zero cur vs | _ \<Rightarrow> None)"

definition dec_byte :: "char dec" where
  "dec_byte cur v =
     (case v of JNull \<Rightarrow> Some cur
      | JNum n \<Rightarrow> (case parse_uint64 n of Some k \<Rightarrow> if k < 256 then Some (char_of k) else None | None \<Rightarrow> None)
      | _ \<Rightarrow> None)"

text \<open>\<open>[]byte\<close>: base64 text, or an array of numbers.\<close>

definition dec_bytes :: "bytes dec" where
  "dec_bytes cur v =
     (case v of JStr s \<Rightarrow> b64_decode False s
      | _ \<Rightarrow> dec_list dec_byte (char_of (0::nat)) cur v)"

definition dec_pointer :: "'a dec \<Rightarrow> 'a \<Rightarrow> 'a option dec" where
  "dec_pointer d zero cur v =
     (if v = JNull then Some None
      else map_option Some (d (case cur of None \<Rightarrow> zero | Some x \<Rightarrow> x) v))"

text \<open>
  \<open>time.Time\<close>: RFC 3339 in its strict reading, with \<open>Z\<close>. A value with a numeric offset is not
  in UTC and the snapshot checks refuse it.
\<close>

definition dec_time :: "go_time dec" where
  "dec_time cur v =
     (case v of JNull \<Rightarrow> Some cur
      | JStr s \<Rightarrow>
          (case parse_rfc3339 s of None \<Rightarrow> None
           | Some t \<Rightarrow> if s ! 12 = CHR '':'' \<or> s ! 19 = CHR '','' then None else Some t)
      | _ \<Rightarrow> None)"

fun dec_members :: "'s fields \<Rightarrow> 's \<Rightarrow> (string \<times> json) list \<Rightarrow> 's option" where
  "dec_members fs cur [] = Some cur"
| "dec_members fs cur ((k, v) # kvs) =
     (case find_field fs k of None \<Rightarrow> None
      | Some d \<Rightarrow> (case d cur v of None \<Rightarrow> None | Some cur' \<Rightarrow> dec_members fs cur' kvs))"

definition dec_struct :: "'s fields \<Rightarrow> 's dec" where
  "dec_struct fs cur v =
     (case v of JNull \<Rightarrow> Some cur | JObj kvs \<Rightarrow> dec_members fs cur kvs | _ \<Rightarrow> None)"

text \<open>The same where unknown members are skipped, as without \<open>DisallowUnknownFields\<close>.\<close>

fun lax_members :: "'s fields \<Rightarrow> 's \<Rightarrow> (string \<times> json) list \<Rightarrow> 's option" where
  "lax_members fs cur [] = Some cur"
| "lax_members fs cur ((k, v) # kvs) =
     (case find_field fs k of None \<Rightarrow> lax_members fs cur kvs
      | Some d \<Rightarrow> (case d cur v of None \<Rightarrow> None | Some cur' \<Rightarrow> lax_members fs cur' kvs))"

definition lax_struct :: "'s fields \<Rightarrow> 's dec" where
  "lax_struct fs cur v =
     (case v of JNull \<Rightarrow> Some cur | JObj kvs \<Rightarrow> lax_members fs cur kvs | _ \<Rightarrow> None)"

text \<open>A \<open>map[string]any\<close>: members are added to the map the variable holds; \<open>None\<close> is nil.\<close>

definition dec_map :: "(string \<times> json) list option dec" where
  "dec_map cur v =
     (case v of JNull \<Rightarrow> Some None
      | JObj kvs \<Rightarrow> Some (Some (filter (\<lambda>(k, _). k \<notin> fst ` set kvs) (case cur of None \<Rightarrow> [] | Some m \<Rightarrow> m) @ kvs))
      | _ \<Rightarrow> None)"

text \<open>A field: its getter, its setter and the decoder of its type.\<close>

definition field :: "string \<Rightarrow> ('s \<Rightarrow> 'a) \<Rightarrow> (('a \<Rightarrow> 'a) \<Rightarrow> 's \<Rightarrow> 's) \<Rightarrow> 'a dec \<Rightarrow> string \<times> 's dec" where
  "field n get upd d = (n, \<lambda>s v. map_option (\<lambda>x. upd (\<lambda>_. x) s) (d (get s) v))"

text \<open>\<open>decodeStrict\<close>: one strict value, decoded into a zero struct with unknown fields refused.\<close>

definition decodeStrict :: "'s fields \<Rightarrow> 's \<Rightarrow> bytes \<Rightarrow> 's option" where
  "decodeStrict fs zero data =
     (case decode data of Inl _ \<Rightarrow> None | Inr v \<Rightarrow> dec_struct fs zero v)"

subsection \<open>Facts\<close>

lemma field_simp [simp]:
  "fst (field n get upd d) = n"
  "snd (field n get upd d) s v = map_option (\<lambda>x. upd (\<lambda>_. x) s) (d (get s) v)"
  by (simp_all add: field_def)

lemma find_field_exact: "map_of fs k = Some d \<Longrightarrow> find_field fs k = Some d"
  by (simp add: find_field_def)

lemma dec_members_append:
  "dec_members fs cur (xs @ ys) =
     (case dec_members fs cur xs of None \<Rightarrow> None | Some c \<Rightarrow> dec_members fs c ys)"
  by (induction xs arbitrary: cur) (auto split: option.splits)

lemma dec_string_simp [simp]: "dec_string cur (JStr s) = Some s"
  by (simp add: dec_string_def)

lemma dec_int64_simp [simp]:
  "- (2 ^ 63) \<le> i \<Longrightarrow> i < 2 ^ 63 \<Longrightarrow> dec_int64 cur (JNum (format_int i)) = Some i"
  by (simp add: dec_int64_def)

lemma dec_bytes_simp [simp]: "dec_bytes cur (JStr (b64_encode b)) = Some b" "dec_bytes cur JNull = Some []"
  by (simp_all add: dec_bytes_def dec_list_def b64_decode_encode)

lemma dec_elems_map:
  assumes "\<And>x. x \<in> set xs \<Longrightarrow> d zero (f x) = Some x"
  shows "dec_elems d zero [] (map f xs) = Some xs"
  using assms by (induction xs) auto


subsection \<open>Reading what was written\<close>

text \<open>
  Decoding the encoding of a struct, one field at a time: a field that was left out as empty
  changes nothing.
\<close>

definition put :: "'s fields \<Rightarrow> string \<Rightarrow> bool \<Rightarrow> goval \<Rightarrow> 's \<Rightarrow> 's option" where
  "put fs k omit v cur =
     (if omit \<and> is_empty_value v then Some cur
      else Option.bind (to_json v) (\<lambda>j. Option.bind (find_field fs k) (\<lambda>d. d cur j)))"

fun put_all :: "'s fields \<Rightarrow> (string \<times> bool \<times> goval) list \<Rightarrow> 's \<Rightarrow> 's option" where
  "put_all fs [] cur = Some cur"
| "put_all fs ((k, omit, v) # gs) cur = Option.bind (put fs k omit v cur) (put_all fs gs)"

lemma dec_struct_put_all:
  assumes "to_json (GStruct gs) = Some j"
  shows "dec_struct fs cur j = put_all fs gs cur"
proof -
  let ?w = "\<lambda>(_, omit, v). \<not> (omit \<and> is_empty_value v)"
  let ?m = "\<lambda>(k, _, v). map_option (Pair k) (to_json v)"
  from assms obtain ys where ys: "opt_list ?m (filter ?w gs) = Some ys" and j: "j = JObj ys" by auto
  from ys have "dec_members fs cur ys = put_all fs gs cur"
  proof (induction gs arbitrary: ys cur)
    case (Cons g gs)
    obtain k omit v where g: "g = (k, omit, v)" by (cases g)
    show ?case
    proof (cases "omit \<and> is_empty_value v")
      case True
      with Cons g show ?thesis by (simp add: put_def)
    next
      case False
      with Cons.prems g obtain jv zs where jv: "to_json v = Some jv"
        and zs: "opt_list ?m (filter ?w gs) = Some zs" and y: "ys = (k, jv) # zs"
        by (auto split: option.splits)
      from Cons.IH [OF zs] have IH: "dec_members fs c zs = put_all fs gs c" for c .
      from False g jv y IH show ?thesis by (auto simp: put_def split: option.splits)
    qed
  qed simp
  then show ?thesis by (simp add: dec_struct_def j)
qed

lemma put_field:
  assumes "find_field fs k = Some (snd (field n get upd d))"
    and "omit \<Longrightarrow> is_empty_value v \<Longrightarrow> upd (\<lambda>_. x) cur = cur"
    and "to_json v = Some j" "d (get cur) j = Some x"
  shows "put fs k omit v cur = Some (upd (\<lambda>_. x) cur)"
  using assms by (simp add: put_def)

lemma put_string:
  assumes "find_field fs k = Some (snd (field n get upd dec_string))"
    and "omit \<Longrightarrow> s = [] \<Longrightarrow> upd (\<lambda>_. []) cur = cur"
  shows "put fs k omit (GString s) cur = Some (upd (\<lambda>_. s) cur)"
  by (rule put_field [OF assms(1)]) (use assms(2) in auto)

lemma put_int:
  assumes "find_field fs k = Some (snd (field n get upd dec_int64))" "- (2 ^ 63) \<le> i" "i < 2 ^ 63"
    and "omit \<Longrightarrow> i = 0 \<Longrightarrow> upd (\<lambda>_. 0) cur = cur"
  shows "put fs k omit (GInt i) cur = Some (upd (\<lambda>_. i) cur)"
  by (rule put_field [OF assms(1)]) (use assms(2-4) in auto)

lemma dec_time_format:
  assumes "time_ok t"
  shows "dec_time cur (JStr (format_rfc3339_nano t)) = Some t"
proof -
  have l: "length (pad 4 (yr_of t)) = 4" "length (pad 2 n) = 2" for n by simp_all
  have "format_rfc3339_nano t ! 12 \<noteq> CHR '':''"
  proof -
    have "format_rfc3339_nano t ! 12 = pad 2 (hour_of t) ! 1"
      by (simp add: format_rfc3339_nano_def nth_append nth_Cons')
    moreover have "is_digit (pad 2 (hour_of t) ! 1)" by (rule pad_digits [of _ 2 "hour_of t"]) simp
    ultimately show ?thesis by (auto simp: is_digit_def)
  qed
  moreover have "format_rfc3339_nano t ! 19 \<noteq> CHR '',''"
    by (simp add: format_rfc3339_nano_def nth_append nth_Cons' fraction_text_def)
  ultimately show ?thesis by (simp add: dec_time_def parse_format_rfc3339 assms)
qed

lemma put_time:
  assumes "find_field fs k = Some (snd (field n get upd dec_time))" "time_ok t"
  shows "put fs k omit (GTime t) cur = Some (upd (\<lambda>_. t) cur)"
  by (rule put_field [OF assms(1)]) (use assms(2) dec_time_format [OF assms(2)] in \<open>auto simp: time_ok_def\<close>)

lemma opt_list_map: "opt_list f (map g xs) = opt_list (f \<circ> g) xs"
  by (induction xs) (auto split: option.splits)

lemma opt_list_all: "(\<And>x. x \<in> set xs \<Longrightarrow> f x = Some (g x)) \<Longrightarrow> opt_list f xs = Some (map g xs)"
  by (induction xs) auto

lemma put_struct:
  assumes "find_field fs k = Some (snd (field n get upd (dec_struct fs2)))"
    and "to_json (GStruct gs) = Some j" "put_all fs2 gs (get cur) = Some x"
  shows "put fs k False (GStruct gs) cur = Some (upd (\<lambda>_. x) cur)"
proof (rule put_field [OF assms(1) _ assms(2)])
  show "dec_struct fs2 (get cur) j = Some x" by (simp only: dec_struct_put_all [OF assms(2)] assms(3))
qed simp

end
