(* ===== verification/IntentCodec.thy ===== *)
theory IntentCodec
  imports JournalInvariant GoStruct
begin

text \<open>
  The journal's bytes: the JSON forms of \<open>store.go\<close>'s structs, as \<open>jsonv2.Marshal\<close> writes them
  and \<open>decodeStrict\<close> reads them, and \<open>decodeSnapshot\<close> on bytes.
\<close>

subsection \<open>Writing\<close>

definition enc_target :: "Target \<Rightarrow> goval" where
  "enc_target t = GStruct
     [(''hostApi'', False, GString (t_HostAPI t)),
      (''principalScope'', False, GString (t_PrincipalScope t)),
      (''space'', False, GString (t_Space t)), (''name'', False, GString (t_Name t))]"

definition enc_binding :: "StoreBinding option \<Rightarrow> goval" where
  "enc_binding b = GIface (map_option (\<lambda>b. GStruct [(''hostApi'', False, GString (b_HostAPI b))]) b)"

definition enc_import :: "ImportBinding \<Rightarrow> goval" where
  "enc_import b = GStruct
     [(''target'', False, enc_target (ib_Target b)), (''uid'', False, GString (ib_UID b)),
      (''form'', False, GString (ib_Form b)), (''generation'', False, GInt (ib_Generation b))]"

text \<open>\<open>append([]byte(nil), b...)\<close> is nil for an empty \<open>b\<close>.\<close>

definition nil_bytes :: "bytes \<Rightarrow> bytes option" where
  "nil_bytes b = (if b = [] then None else Some b)"

definition enc_intent :: "Intent \<Rightarrow> goval" where
  "enc_intent i = GStruct
     [(''id'', False, GString (i_ID i)), (''key'', False, GString (i_Key i)),
      (''target'', False, enc_target (i_Target i)), (''action'', False, GString (i_Action i)),
      (''form'', False, GString (i_Form i)), (''method'', False, GString (i_Method i)),
      (''path'', False, GString (i_Path i)), (''uid'', True, GString (i_UID i)),
      (''generation'', True, GString (i_Generation i)),
      (''supersedesIntentId'', True, GString (i_SupersedesIntentID i)),
      (''publicJson'', False, GBytes (nil_bytes (i_PublicJSON i))),
      (''privateInputNames'', True, GSlice (Some (map GString (i_PrivateInputNames i)))),
      (''firstSentAt'', False, GTime (i_FirstSentAt i)),
      (''advertisedReplayWindowSeconds'', False, GInt (i_AdvertisedReplayWindowSecs i)),
      (''status'', False, GString (i_Status i)),
      (''operationId'', True, GString (i_OperationID i)),
      (''operationUid'', True, GString (i_OperationUID i)),
      (''operationGeneration'', True, GInt (i_OperationGeneration i)),
      (''operationStatus'', True, GString (i_OperationStatus i)),
      (''operationEffect'', True, GString (i_OperationEffect i)),
      (''initialRetainUntil'', True, GTime (i_InitialRetainUntil i)),
      (''retainUntil'', False, GTime (i_RetainUntil i)),
      (''resultUid'', True, GString (i_ResultUID i)),
      (''resultGeneration'', True, GString (i_ResultGeneration i)),
      (''observedGeneration'', True, GString (i_ObservedGeneration i))]"

definition enc_snapshot :: "diskSnapshot \<Rightarrow> goval" where
  "enc_snapshot s = GStruct
     [(''format'', False, GString (s_Format s)), (''storeId'', False, GString (s_StoreID s)),
      (''binding'', True, enc_binding (s_Binding s)),
      (''imports'', True, GSlice (Some (map enc_import (s_Imports s)))),
      (''records'', False, GSlice (Some (map enc_intent (s_Records s))))]"

definition enc_header :: "diskHeader \<Rightarrow> goval" where
  "enc_header h = GStruct
     [(''format'', False, GString (h_Format h)), (''storeId'', False, GString (h_StoreID h)),
      (''path'', False, GString (h_Path h))]"

subsection \<open>Reading\<close>

definition zero_target :: Target where
  "zero_target = \<lparr>t_HostAPI = [], t_PrincipalScope = [], t_Space = [], t_Name = []\<rparr>"

definition target_fields :: "Target fields" where
  "target_fields =
     [field ''hostApi'' t_HostAPI t_HostAPI_update dec_string,
      field ''principalScope'' t_PrincipalScope t_PrincipalScope_update dec_string,
      field ''space'' t_Space t_Space_update dec_string,
      field ''name'' t_Name t_Name_update dec_string]"

definition binding_fields :: "StoreBinding fields" where
  "binding_fields = [field ''hostApi'' b_HostAPI b_HostAPI_update dec_string]"

definition zero_import :: ImportBinding where
  "zero_import = \<lparr>ib_Target = zero_target, ib_UID = [], ib_Form = [], ib_Generation = 0\<rparr>"

definition import_fields :: "ImportBinding fields" where
  "import_fields =
     [field ''target'' ib_Target ib_Target_update (dec_struct target_fields),
      field ''uid'' ib_UID ib_UID_update dec_string,
      field ''form'' ib_Form ib_Form_update dec_string,
      field ''generation'' ib_Generation ib_Generation_update dec_int64]"

definition zero_intent :: Intent where
  "zero_intent =
     \<lparr>i_ID = [], i_Key = [], i_Target = zero_target, i_Action = [], i_Form = [], i_Method = [],
      i_Path = [], i_UID = [], i_Generation = [], i_SupersedesIntentID = [], i_PublicJSON = [],
      i_PrivateInputNames = [], i_FirstSentAt = zero_time, i_AdvertisedReplayWindowSecs = 0,
      i_Status = [], i_OperationID = [], i_OperationUID = [], i_OperationGeneration = 0,
      i_OperationStatus = [], i_OperationEffect = [], i_InitialRetainUntil = zero_time,
      i_RetainUntil = zero_time, i_ResultUID = [], i_ResultGeneration = [], i_ObservedGeneration = []\<rparr>"

definition intent_fields :: "Intent fields" where
  "intent_fields =
     [field ''id'' i_ID i_ID_update dec_string, field ''key'' i_Key i_Key_update dec_string,
      field ''target'' i_Target i_Target_update (dec_struct target_fields),
      field ''action'' i_Action i_Action_update dec_string,
      field ''form'' i_Form i_Form_update dec_string,
      field ''method'' i_Method i_Method_update dec_string,
      field ''path'' i_Path i_Path_update dec_string,
      field ''uid'' i_UID i_UID_update dec_string,
      field ''generation'' i_Generation i_Generation_update dec_string,
      field ''supersedesIntentId'' i_SupersedesIntentID i_SupersedesIntentID_update dec_string,
      field ''publicJson'' i_PublicJSON i_PublicJSON_update dec_bytes,
      field ''privateInputNames'' i_PrivateInputNames i_PrivateInputNames_update (dec_list dec_string []),
      field ''firstSentAt'' i_FirstSentAt i_FirstSentAt_update dec_time,
      field ''advertisedReplayWindowSeconds'' i_AdvertisedReplayWindowSecs
        i_AdvertisedReplayWindowSecs_update dec_int64,
      field ''status'' i_Status i_Status_update dec_string,
      field ''operationId'' i_OperationID i_OperationID_update dec_string,
      field ''operationUid'' i_OperationUID i_OperationUID_update dec_string,
      field ''operationGeneration'' i_OperationGeneration i_OperationGeneration_update dec_int64,
      field ''operationStatus'' i_OperationStatus i_OperationStatus_update dec_string,
      field ''operationEffect'' i_OperationEffect i_OperationEffect_update dec_string,
      field ''initialRetainUntil'' i_InitialRetainUntil i_InitialRetainUntil_update dec_time,
      field ''retainUntil'' i_RetainUntil i_RetainUntil_update dec_time,
      field ''resultUid'' i_ResultUID i_ResultUID_update dec_string,
      field ''resultGeneration'' i_ResultGeneration i_ResultGeneration_update dec_string,
      field ''observedGeneration'' i_ObservedGeneration i_ObservedGeneration_update dec_string]"

text \<open>A snapshot being decoded, and whether \<open>records\<close> is still nil.\<close>

record wireSnapshot =
  w_Snapshot :: diskSnapshot
  w_Records :: "Intent list option"

definition zero_wire :: wireSnapshot where
  "zero_wire = \<lparr>w_Snapshot = \<lparr>s_Format = [], s_StoreID = [], s_Binding = None, s_Imports = [],
     s_Records = []\<rparr>, w_Records = None\<rparr>"

definition snapshot_fields :: "wireSnapshot fields" where
  "snapshot_fields =
     [field ''format'' (s_Format \<circ> w_Snapshot) (w_Snapshot_update \<circ> s_Format_update) dec_string,
      field ''storeId'' (s_StoreID \<circ> w_Snapshot) (w_Snapshot_update \<circ> s_StoreID_update) dec_string,
      field ''binding'' (s_Binding \<circ> w_Snapshot) (w_Snapshot_update \<circ> s_Binding_update)
        (dec_pointer (dec_struct binding_fields) \<lparr>b_HostAPI = []\<rparr>),
      field ''imports'' (s_Imports \<circ> w_Snapshot) (w_Snapshot_update \<circ> s_Imports_update)
        (dec_list (dec_struct import_fields) zero_import),
      field ''records'' w_Records w_Records_update (dec_slice (dec_struct intent_fields) zero_intent)]"

definition header_fields :: "diskHeader fields" where
  "header_fields =
     [field ''format'' h_Format h_Format_update dec_string,
      field ''storeId'' h_StoreID h_StoreID_update dec_string,
      field ''path'' h_Path h_Path_update dec_string]"

definition zero_header :: diskHeader where
  "zero_header = \<lparr>h_Format = [], h_StoreID = [], h_Path = []\<rparr>"

definition decodeSnapshot :: "bytes \<Rightarrow> string \<Rightarrow> store_error + diskSnapshot" where
  "decodeSnapshot data storeID =
     (if data = [] \<or> maxSnapshotBytes < length data then Inl ErrStoreUnavailable
      else case decodeStrict snapshot_fields zero_wire data of None \<Rightarrow> Inl ErrStoreUnavailable
      | Some w \<Rightarrow>
          (case w_Records w of None \<Rightarrow> Inl ErrStoreUnavailable
           | Some recs \<Rightarrow>
               let s = (w_Snapshot w)\<lparr>s_Records := recs\<rparr> in
               if check_snapshot storeID s then Inr s else Inl ErrStoreUnavailable))"

definition encodeSnapshot :: "diskSnapshot \<Rightarrow> store_error + bytes" where
  "encodeSnapshot s =
     (case marshal (enc_snapshot s) of Inl _ \<Rightarrow> Inl ErrStoreUnavailable
      | Inr data \<Rightarrow> if maxSnapshotBytes < length data then Inl ErrStoreUnavailable else Inr data)"

end
