(* ===== verification/CodecLaws.thy ===== *)
theory CodecLaws
  imports IntentCodec
begin

text \<open>
  What the journal writes it reads back: field by field for the structs of a snapshot, then for
  the bytes of \<open>encodeSnapshot\<close> and \<open>decodeSnapshot\<close>.
\<close>

subsection \<open>Structs\<close>

lemma to_json_struct_ok:
  assumes "\<forall>(k, omit, v)\<in>set gs. \<exists>j. to_json v = Some j"
  shows "\<exists>j. to_json (GStruct gs) = Some j"
proof -
  have "\<exists>ys. opt_list (\<lambda>(k, _, v). map_option (Pair k) (to_json v))
      (filter (\<lambda>(_, omit, v). \<not> (omit \<and> is_empty_value v)) gs) = Some ys"
    using assms by (induction gs) auto
  then show ?thesis by (auto simp del: de_Morgan_conj)
qed

lemma to_json_slice_ok:
  assumes "\<forall>v\<in>set vs. \<exists>j. to_json v = Some j"
  shows "\<exists>j. to_json (GSlice (Some vs)) = Some j"
  using assms by (induction vs) auto

definition target_members :: "Target \<Rightarrow> (string \<times> bool \<times> goval) list" where
  "target_members t = (case enc_target t of GStruct gs \<Rightarrow> gs | _ \<Rightarrow> [])"
definition intent_members :: "Intent \<Rightarrow> (string \<times> bool \<times> goval) list" where
  "intent_members t = (case enc_intent t of GStruct gs \<Rightarrow> gs | _ \<Rightarrow> [])"
definition import_members :: "ImportBinding \<Rightarrow> (string \<times> bool \<times> goval) list" where
  "import_members t = (case enc_import t of GStruct gs \<Rightarrow> gs | _ \<Rightarrow> [])"

lemma enc_members:
  "enc_target t = GStruct (target_members t)" "enc_intent i = GStruct (intent_members i)"
  "enc_import b = GStruct (import_members b)"
  by (simp_all add: enc_target_def enc_intent_def enc_import_def target_members_def intent_members_def
      import_members_def)

lemma find_target_fields [simp]:
  "find_field target_fields ''hostApi'' = Some (snd (field ''hostApi'' t_HostAPI t_HostAPI_update dec_string))"
  "find_field target_fields ''principalScope'' = Some (snd (field ''principalScope'' t_PrincipalScope t_PrincipalScope_update dec_string))"
  "find_field target_fields ''space'' = Some (snd (field ''space'' t_Space t_Space_update dec_string))"
  "find_field target_fields ''name'' = Some (snd (field ''name'' t_Name t_Name_update dec_string))"
  by (simp_all add: find_field_def target_fields_def field_def)

lemma target_put: "put_all target_fields (target_members t) cur = Some t"
  by (cases t, cases cur) (simp add: target_members_def enc_target_def put_string)

lemma target_json: "\<exists>j. to_json (GStruct (target_members t)) = Some j"
  by (rule to_json_struct_ok) (simp add: target_members_def enc_target_def)

lemma dec_strings:
  "to_json (GSlice (Some (map GString ns))) = Some (JArr (map JStr ns))"
  "dec_list dec_string [] [] (JArr (map JStr ns)) = Some ns"
proof -
  have "opt_list to_json (map GString ns) = Some (map JStr ns)" by (induction ns) auto
  then show "to_json (GSlice (Some (map GString ns))) = Some (JArr (map JStr ns))" by simp
  show "dec_list dec_string [] [] (JArr (map JStr ns)) = Some ns"
    by (simp add: dec_list_def dec_elems_map)
qed

lemma find_intent_fields [simp]:
  "find_field intent_fields ''id'' = Some (snd (field ''id'' i_ID i_ID_update dec_string))"
  "find_field intent_fields ''key'' = Some (snd (field ''key'' i_Key i_Key_update dec_string))"
  "find_field intent_fields ''target'' = Some (snd (field ''target'' i_Target i_Target_update (dec_struct target_fields)))"
  "find_field intent_fields ''action'' = Some (snd (field ''action'' i_Action i_Action_update dec_string))"
  "find_field intent_fields ''form'' = Some (snd (field ''form'' i_Form i_Form_update dec_string))"
  "find_field intent_fields ''method'' = Some (snd (field ''method'' i_Method i_Method_update dec_string))"
  "find_field intent_fields ''path'' = Some (snd (field ''path'' i_Path i_Path_update dec_string))"
  "find_field intent_fields ''uid'' = Some (snd (field ''uid'' i_UID i_UID_update dec_string))"
  "find_field intent_fields ''generation'' = Some (snd (field ''generation'' i_Generation i_Generation_update dec_string))"
  "find_field intent_fields ''supersedesIntentId'' = Some (snd (field ''supersedesIntentId'' i_SupersedesIntentID i_SupersedesIntentID_update dec_string))"
  "find_field intent_fields ''publicJson'' = Some (snd (field ''publicJson'' i_PublicJSON i_PublicJSON_update dec_bytes))"
  "find_field intent_fields ''privateInputNames'' = Some (snd (field ''privateInputNames'' i_PrivateInputNames i_PrivateInputNames_update (dec_list dec_string [])))"
  "find_field intent_fields ''firstSentAt'' = Some (snd (field ''firstSentAt'' i_FirstSentAt i_FirstSentAt_update dec_time))"
  "find_field intent_fields ''advertisedReplayWindowSeconds'' = Some (snd (field ''advertisedReplayWindowSeconds'' i_AdvertisedReplayWindowSecs i_AdvertisedReplayWindowSecs_update dec_int64))"
  "find_field intent_fields ''status'' = Some (snd (field ''status'' i_Status i_Status_update dec_string))"
  "find_field intent_fields ''operationId'' = Some (snd (field ''operationId'' i_OperationID i_OperationID_update dec_string))"
  "find_field intent_fields ''operationUid'' = Some (snd (field ''operationUid'' i_OperationUID i_OperationUID_update dec_string))"
  "find_field intent_fields ''operationGeneration'' = Some (snd (field ''operationGeneration'' i_OperationGeneration i_OperationGeneration_update dec_int64))"
  "find_field intent_fields ''operationStatus'' = Some (snd (field ''operationStatus'' i_OperationStatus i_OperationStatus_update dec_string))"
  "find_field intent_fields ''operationEffect'' = Some (snd (field ''operationEffect'' i_OperationEffect i_OperationEffect_update dec_string))"
  "find_field intent_fields ''initialRetainUntil'' = Some (snd (field ''initialRetainUntil'' i_InitialRetainUntil i_InitialRetainUntil_update dec_time))"
  "find_field intent_fields ''retainUntil'' = Some (snd (field ''retainUntil'' i_RetainUntil i_RetainUntil_update dec_time))"
  "find_field intent_fields ''resultUid'' = Some (snd (field ''resultUid'' i_ResultUID i_ResultUID_update dec_string))"
  "find_field intent_fields ''resultGeneration'' = Some (snd (field ''resultGeneration'' i_ResultGeneration i_ResultGeneration_update dec_string))"
  "find_field intent_fields ''observedGeneration'' = Some (snd (field ''observedGeneration'' i_ObservedGeneration i_ObservedGeneration_update dec_string))"
  by (simp_all add: find_field_def intent_fields_def field_def)

definition intent_times :: "Intent \<Rightarrow> bool" where
  "intent_times i \<longleftrightarrow> time_ok (i_FirstSentAt i) \<and> time_ok (i_InitialRetainUntil i) \<and> time_ok (i_RetainUntil i)"

lemma put_bytes:
  assumes "find_field fs k = Some (snd (field n get upd dec_bytes))"
  shows "put fs k False (GBytes (nil_bytes b)) cur = Some (upd (\<lambda>_. b) cur)"
proof (cases "b = []")
  case True
  show ?thesis by (rule put_field [OF assms(1), where j = JNull]) (simp_all add: True nil_bytes_def)
next
  case False
  show ?thesis
    by (rule put_field [OF assms(1), where j = "JStr (b64_encode b)"]) (use False in \<open>simp_all add: nil_bytes_def\<close>)
qed

lemma put_strings:
  assumes "find_field fs k = Some (snd (field n get upd (dec_list dec_string [])))" "get cur = []"
    and "ns = [] \<Longrightarrow> upd (\<lambda>_. []) cur = cur"
  shows "put fs k True (GSlice (Some (map GString ns))) cur = Some (upd (\<lambda>_. ns) cur)"
  by (rule put_field [OF assms(1) _ dec_strings(1)]) (use assms dec_strings(2) in auto)

lemma put_target:
  assumes "find_field fs k = Some (snd (field n get upd (dec_struct target_fields)))"
  shows "put fs k False (enc_target t) cur = Some (upd (\<lambda>_. t) cur)"
proof -
  from target_json obtain j where "to_json (GStruct (target_members t)) = Some j" by blast
  from put_struct [OF assms this target_put] show ?thesis by (simp add: enc_members)
qed

lemma intent_put:
  assumes "intent_times i" "- (2 ^ 63) \<le> i_OperationGeneration i" "i_OperationGeneration i < 2 ^ 63"
    "- (2 ^ 63) \<le> i_AdvertisedReplayWindowSecs i" "i_AdvertisedReplayWindowSecs i < 2 ^ 63"
  shows "put_all intent_fields (intent_members i) zero_intent = Some i"
  using assms
  by (cases i) (simp add: intent_members_def enc_intent_def zero_intent_def intent_times_def put_string
      put_int put_time put_bytes put_strings put_target del: enc_members)

subsection \<open>Snapshots\<close>

declare to_json.simps(11,13,14) [simp del]

lemma find_import_fields [simp]:
  "find_field import_fields ''target'' = Some (snd (field ''target'' ib_Target ib_Target_update (dec_struct target_fields)))"
  "find_field import_fields ''uid'' = Some (snd (field ''uid'' ib_UID ib_UID_update dec_string))"
  "find_field import_fields ''form'' = Some (snd (field ''form'' ib_Form ib_Form_update dec_string))"
  "find_field import_fields ''generation'' = Some (snd (field ''generation'' ib_Generation ib_Generation_update dec_int64))"
  by (simp_all add: find_field_def import_fields_def field_def)

lemma import_put:
  assumes "- (2 ^ 63) \<le> ib_Generation b" "ib_Generation b < 2 ^ 63"
  shows "put_all import_fields (import_members b) zero_import = Some b"
  using assms by (cases b) (simp add: import_members_def enc_import_def zero_import_def put_string put_int put_target)

lemma intent_json: "intent_times i \<Longrightarrow> \<exists>j. to_json (GStruct (intent_members i)) = Some j"
  using target_json [of "i_Target i"] dec_strings(1) [of "i_PrivateInputNames i"]
  by (intro to_json_struct_ok)
    (auto simp: intent_members_def enc_intent_def enc_members(1) intent_times_def time_ok_def nil_bytes_def)

lemma import_json: "\<exists>j. to_json (GStruct (import_members b)) = Some j"
  using target_json [of "ib_Target b"]
  by (intro to_json_struct_ok) (simp add: import_members_def enc_import_def enc_members(1))

lemma find_snapshot_fields [simp]:
  "find_field snapshot_fields ''format'' = Some (snd (field ''format'' (s_Format \<circ> w_Snapshot) (w_Snapshot_update \<circ> s_Format_update) dec_string))"
  "find_field snapshot_fields ''storeId'' = Some (snd (field ''storeId'' (s_StoreID \<circ> w_Snapshot) (w_Snapshot_update \<circ> s_StoreID_update) dec_string))"
  "find_field snapshot_fields ''binding'' = Some (snd (field ''binding'' (s_Binding \<circ> w_Snapshot) (w_Snapshot_update \<circ> s_Binding_update)
        (dec_pointer (dec_struct binding_fields) \<lparr>b_HostAPI = []\<rparr>)))"
  "find_field snapshot_fields ''imports'' = Some (snd (field ''imports'' (s_Imports \<circ> w_Snapshot) (w_Snapshot_update \<circ> s_Imports_update)
        (dec_list (dec_struct import_fields) zero_import)))"
  "find_field snapshot_fields ''records'' = Some (snd (field ''records'' w_Records w_Records_update (dec_slice (dec_struct intent_fields) zero_intent)))"
  by (simp_all add: find_field_def snapshot_fields_def field_def)

lemma to_json_slice:
  assumes "\<And>x. x \<in> set xs \<Longrightarrow> \<exists>j. to_json (f x) = Some j"
  shows "to_json (GSlice (Some (map f xs))) = Some (JArr (map (\<lambda>x. the (to_json (f x))) xs))"
proof -
  have "opt_list to_json (map f xs) = Some (map (\<lambda>x. the (to_json (f x))) xs)"
    unfolding opt_list_map by (rule opt_list_all) (use assms in fastforce)
  then show ?thesis by (simp add: to_json.simps(11))
qed

lemma dec_structs:
  assumes "\<And>x. x \<in> set xs \<Longrightarrow> \<exists>j. to_json (GStruct (gs x)) = Some j"
    and "\<And>x. x \<in> set xs \<Longrightarrow> put_all fs (gs x) zero = Some x"
  shows "dec_elems (dec_struct fs) zero [] (map (\<lambda>x. the (to_json (GStruct (gs x)))) xs) = Some xs"
proof (rule dec_elems_map)
  fix x assume x: "x \<in> set xs"
  from assms(1) [OF x] obtain j where j: "to_json (GStruct (gs x)) = Some j" by blast
  from dec_struct_put_all [OF j, of fs zero] assms(2) [OF x] j
  show "dec_struct fs zero (the (to_json (GStruct (gs x)))) = Some x" by (simp del: to_json.simps)
qed

definition snapshot_times :: "diskSnapshot \<Rightarrow> bool" where
  "snapshot_times s \<longleftrightarrow> (\<forall>rec\<in>set (s_Records s). intent_times rec)"

lemma put_binding:
  assumes "find_field fs k = Some (snd (field n get upd (dec_pointer (dec_struct binding_fields) \<lparr>b_HostAPI = []\<rparr>)))"
    and "get cur = None" "b = None \<Longrightarrow> upd (\<lambda>_. None) cur = cur"
  shows "put fs k True (enc_binding b) cur = Some (upd (\<lambda>_. b) cur)"
proof (cases b)
  case None
  with assms show ?thesis by (simp add: put_def enc_binding_def)
next
  case (Some c)
  have j: "to_json (enc_binding b) = Some (JObj [(''hostApi'', JStr (b_HostAPI c))])"
    by (simp add: Some enc_binding_def to_json.simps(14))
  have "find_field binding_fields ''hostApi'' = Some (snd (field ''hostApi'' b_HostAPI b_HostAPI_update dec_string))"
    by (simp add: find_field_def binding_fields_def field_def)
  then have "dec_struct binding_fields \<lparr>b_HostAPI = []\<rparr> (JObj [(''hostApi'', JStr (b_HostAPI c))]) = Some c"
    by (cases c) (simp add: dec_struct_def)
  then have "dec_pointer (dec_struct binding_fields) \<lparr>b_HostAPI = []\<rparr> (get cur)
      (JObj [(''hostApi'', JStr (b_HostAPI c))]) = Some b"
    by (simp add: dec_pointer_def assms(2) Some)
  from put_field [OF assms(1) _ j this] show ?thesis by (simp add: Some enc_binding_def)
qed

lemma snapshot_put:
  assumes "snapshot_ok sid s" "snapshot_times s"
  shows "put_all snapshot_fields
     [(''format'', False, GString (s_Format s)), (''storeId'', False, GString (s_StoreID s)),
      (''binding'', True, enc_binding (s_Binding s)),
      (''imports'', True, GSlice (Some (map enc_import (s_Imports s)))),
      (''records'', False, GSlice (Some (map enc_intent (s_Records s))))] zero_wire
   = Some \<lparr>w_Snapshot = s\<lparr>s_Records := []\<rparr>, w_Records = Some (s_Records s)\<rparr>"
proof -
  have gi: "put_all import_fields (import_members b) zero_import = Some b" if "b \<in> set (s_Imports s)" for b
    using assms(1) that by (intro import_put) (auto simp: snapshot_ok_def valid_import_def maxReplayWindowSeconds_def)
  have gr: "put_all intent_fields (intent_members i) zero_intent = Some i" if "i \<in> set (s_Records s)" for i
  proof (rule intent_put)
    have v: "validStoredIntent i" using assms(1) that by (simp add: snapshot_ok_def)
    show "intent_times i" using assms(2) that by (simp add: snapshot_times_def)
    have "i_OperationGeneration i = 0 \<or> 0 < i_OperationGeneration i \<and> i_OperationGeneration i \<le> maxReplayWindowSeconds"
      "0 < i_AdvertisedReplayWindowSecs i" "i_AdvertisedReplayWindowSecs i \<le> maxReplayWindowSeconds"
      using v by (auto simp: validStoredIntent_iff validStoredFields_def)
    then show "- (2 ^ 63) \<le> i_OperationGeneration i" "i_OperationGeneration i < 2 ^ 63"
      "- (2 ^ 63) \<le> i_AdvertisedReplayWindowSecs i" "i_AdvertisedReplayWindowSecs i < 2 ^ 63"
      by (auto simp: maxReplayWindowSeconds_def)
  qed
  have di: "dec_elems (dec_struct import_fields) zero_import [] (map (\<lambda>x. the (to_json (GStruct (import_members x)))) (s_Imports s)) = Some (s_Imports s)"
    by (rule dec_structs) (use gi import_json in auto)
  have dr: "dec_elems (dec_struct intent_fields) zero_intent [] (map (\<lambda>x. the (to_json (GStruct (intent_members x)))) (s_Records s)) = Some (s_Records s)"
    by (rule dec_structs) (use gr intent_json assms(2) in \<open>auto simp: snapshot_times_def\<close>)
  have ji: "to_json (GSlice (Some (map enc_import (s_Imports s)))) = Some (JArr (map (\<lambda>x. the (to_json (GStruct (import_members x)))) (s_Imports s)))"
    unfolding enc_members by (rule to_json_slice) (use import_json in blast)
  have jr: "to_json (GSlice (Some (map enc_intent (s_Records s)))) = Some (JArr (map (\<lambda>x. the (to_json (GStruct (intent_members x)))) (s_Records s)))"
    unfolding enc_members by (rule to_json_slice) (use intent_json assms(2) in \<open>auto simp: snapshot_times_def\<close>)
  have pi: "put snapshot_fields ''imports'' True (GSlice (Some (map enc_import (s_Imports s)))) cur =
      Some ((w_Snapshot_update \<circ> s_Imports_update) (\<lambda>_. s_Imports s) cur)" if "s_Imports (w_Snapshot cur) = []" for cur
    by (rule put_field [OF find_snapshot_fields(4) _ ji]) (use that in \<open>auto simp: dec_list_def di\<close>)
  have pr: "put snapshot_fields ''records'' False (GSlice (Some (map enc_intent (s_Records s)))) cur =
      Some (w_Records_update (\<lambda>_. Some (s_Records s)) cur)" if "w_Records cur = None" for cur
    by (rule put_field [OF find_snapshot_fields(5) _ jr]) (use that in \<open>auto simp: dec_slice_def dr\<close>)
  have eq: "s\<lparr>s_Records := []\<rparr> = \<lparr>s_Format = s_Format s, s_StoreID = s_StoreID s, s_Binding = s_Binding s,
      s_Imports = s_Imports s, s_Records = []\<rparr>" by (cases s) simp
  show ?thesis unfolding eq by (simp add: put_string put_binding pi pr zero_wire_def)
qed

lemma digit_ascii: "is_digit c \<Longrightarrow> is_ascii c"
  by (simp add: is_digit_def is_ascii_def)

lemma format_time_ascii: "list_all is_ascii (format_rfc3339_nano t)"
proof -
  have d: "list_all is_ascii (pad w n)" for w n
    using pad_digits [of _ w n] digit_ascii by (auto simp: list_all_iff)
  have "list_all is_ascii (trim_right_byte c (pad 9 n))" for c n
    using d [of 9 n] by (auto simp: list_all_iff trim_right_byte_def dest: set_dropWhileD)
  with d show ?thesis by (simp add: format_rfc3339_nano_def fraction_text_def is_ascii_def)
qed

lemma enc_target_wf: "go_wf (enc_target t)" "raw_free (enc_target t)"
  by (simp_all add: enc_target_def is_ascii_def)

lemma enc_intent_wf: "go_wf (enc_intent i)" "raw_free (enc_intent i)"
  by (simp_all add: enc_intent_def enc_target_wf format_time_ascii [unfolded list_all_iff is_ascii_def]
      list_all_iff is_ascii_def nil_bytes_def)

lemma enc_import_wf: "go_wf (enc_import b)" "raw_free (enc_import b)"
  by (simp_all add: enc_import_def enc_target_wf is_ascii_def)

lemma enc_binding_wf: "go_wf (enc_binding b)" "raw_free (enc_binding b)"
  by (cases b; simp add: enc_binding_def is_ascii_def)+

lemma enc_snapshot_wf: "go_wf (enc_snapshot s)" "raw_free (enc_snapshot s)"
  by (simp_all add: enc_snapshot_def enc_binding_wf enc_import_wf enc_intent_wf list_all_iff is_ascii_def)

lemma decode_encode:
  assumes "snapshot_ok sid s" "snapshot_times s" "encodeSnapshot s = Inr data"
  shows "decodeSnapshot data sid = Inr s"
proof -
  from assms(3) have m: "marshal (enc_snapshot s) = Inr data" and l: "length data \<le> maxSnapshotBytes"
    by (auto simp: encodeSnapshot_def split: sum.splits if_splits)
  from marshal_decode_tree [OF m enc_snapshot_wf] obtain j where
    j: "to_json (enc_snapshot s) = Some j" "data = json_text j" "decode data = Inr j" by blast
  have "data \<noteq> []" using j(1,2) by (auto simp: enc_snapshot_def to_json.simps(14))
  moreover have "dec_struct snapshot_fields zero_wire j =
      Some \<lparr>w_Snapshot = s\<lparr>s_Records := []\<rparr>, w_Records = Some (s_Records s)\<rparr>"
    by (simp only: dec_struct_put_all [OF j(1) [unfolded enc_snapshot_def]] snapshot_put [OF assms(1,2)])
  moreover have "check_snapshot sid s" using assms(1) by (simp add: check_snapshot_iff)
  ultimately show ?thesis using j(3) l by (simp add: decodeSnapshot_def decodeStrict_def)
qed

lemma decodeSnapshot_ok: "decodeSnapshot data sid = Inr s \<Longrightarrow> snapshot_ok sid s"
  by (auto simp: decodeSnapshot_def Let_def check_snapshot_iff split: if_splits option.splits)

subsection \<open>Stored times are calendar times\<close>

lemma evolve_times: "evolve rec rec' \<Longrightarrow> intent_times rec \<Longrightarrow> intent_times rec'"
proof (induction rule: evolve.induct)
  case (accept rec i ack t)
  then show ?case by (simp add: intent_times_def accepted_def)
next
  case (complete ev t rec rec')
  note r = complete_retention [OF complete(4)] claim_of_fields(9) [OF claim_of_complete [OF complete(4)]]
  with complete(3,5) show ?case by (simp add: intent_times_def)
qed

lemma effect_times:
  assumes "effect sid s s'" "snapshot_times s"
  shows "snapshot_times s'"
  using assms
proof (induction rule: effect.induct)
  case (claim s r key now)
  then show ?case by (simp add: snapshot_times_def intent_times_def new_intent_def clock_ok_def)
next
  case (replace s i rec k rec')
  have "intent_times rec'"
    using evolve_times [OF replace(2)] findIntent_mem [OF replace(1)] replace(3) by (simp add: snapshot_times_def)
  with replace(3) show ?case unfolding snapshot_times_def
    using set_update_subset_insert [of "s_Records s" k rec'] by auto
qed (simp_all add: snapshot_times_def)

lemma reachable_times: "reachable sid s \<Longrightarrow> snapshot_times s"
proof (induction rule: reachable.induct)
  case (init b)
  then show ?case by (simp add: snapshot_times_def initial_snapshot_def)
next
  case (step s s')
  then show ?case using effect_times [OF step_effect] by blast
qed

end
