(* ===== verification/StoreDisk.thy ===== *)
theory StoreDisk
  imports CodecLaws
begin

text \<open>
  The local store: \<open>store_posix.go\<close> and the parts of \<open>store.go\<close> that run on it (\<open>Initialize\<close>,
  \<open>Open\<close>, \<open>Close\<close>, \<open>withSnapshot\<close>, \<open>verifyPathAndHeader\<close>). The file system is the set of
  entries of the store directory and what the store's path resolves to; every system call may
  fail, as the \<open>faults\<close> argument decides, and a failing \<open>write\<close> may leave a prefix. A crash of
  the process is a run in which every later call fails. What the machine holds and what its disk
  holds differ until \<open>fsync\<close>: a loss of power takes the directory back to any of its contents
  since it was last synced, and leaves anything in a file that was not synced after it was
  written. The store lock keeps other processes that follow the protocol out between the calls
  of one transaction.
\<close>

subsection \<open>Files\<close>

datatype kind = RegularFile | Directory | OtherFile

record inode =
  n_kind :: kind
  n_uid :: nat
  n_perm :: nat
  n_nlink :: nat
  n_dev :: nat
  n_ino :: nat
  n_data :: bytes
  n_synced :: bool

type_synonym entries = "(string \<times> inode) list"

record world =
  w_uid :: nat
  w_exists :: bool
  w_path :: "inode option"
  w_entries :: entries
  w_stale :: "entries list"
  w_calls :: nat

text \<open>
  \<open>n_synced\<close>: the disk holds the file's data. \<open>w_stale\<close>: the earlier contents of the directory
  that the disk may hold instead of \<open>w_entries\<close>.
\<close>

datatype flock_event = Acquired | Busy bool bool | Refused

text \<open>
  \<open>fails n\<close>: the n-th system call fails. \<open>written n\<close>: how much of the text a failing write left.
  \<open>flocks\<close>: what the successive non-blocking lock attempts see; \<open>Busy ctx late\<close> tells whether
  the context is done and whether the deadline has passed.
\<close>

record faults =
  fails :: "nat \<Rightarrow> bool"
  written :: "nat \<Rightarrow> nat"
  flocks :: "flock_event list"

type_synonym 'a io = "(world, store_error, 'a) st"

definition require :: "bool \<Rightarrow> unit io" where
  "require b w = (if b then Inr () else Inl ErrStoreUnavailable, w)"

text \<open>A system call: it counts, and it may fail.\<close>

definition syscall :: "faults \<Rightarrow> unit io" where
  "syscall f w =
     (if fails f (w_calls w) then Inl ErrStoreUnavailable else Inr (), w\<lparr>w_calls := w_calls w + 1\<rparr>)"

text \<open>The permission bits of group and others.\<close>

definition private_perm :: "inode \<Rightarrow> bool" where
  "private_perm n \<longleftrightarrow> n_perm n mod 64 = 0"

definition privateDirectoryStat :: "world \<Rightarrow> inode \<Rightarrow> bool" where
  "privateDirectoryStat w n \<longleftrightarrow> n_kind n = Directory \<and> n_uid n = w_uid w \<and> private_perm n"

definition privateFileStat :: "world \<Rightarrow> inode \<Rightarrow> bool" where
  "privateFileStat w n \<longleftrightarrow>
     n_kind n = RegularFile \<and> n_uid n = w_uid w \<and> private_perm n \<and> n_nlink n = 1"

definition fstatat :: "faults \<Rightarrow> string \<Rightarrow> inode io" where
  "fstatat f name = andThen (syscall f) (\<lambda>_ w.
     (case map_of (w_entries w) name of None \<Rightarrow> Inl ErrStoreUnavailable | Some n \<Rightarrow> Inr n, w))"

definition private_file :: "inode \<Rightarrow> unit io" where
  "private_file n w = require (privateFileStat w n) w"

subsection \<open>Canonical paths\<close>

text \<open>\<open>filepath.Clean\<close> on an absolute path.\<close>

fun clean_parts :: "string list \<Rightarrow> string list \<Rightarrow> string list" where
  "clean_parts stack [] = rev stack"
| "clean_parts stack (p # ps) =
     (if p = [] \<or> p = ''.'' then clean_parts stack ps
      else if p = ''..'' then clean_parts (tl stack) ps
      else clean_parts (p # stack) ps)"

definition clean_abs :: "string \<Rightarrow> string" where
  "clean_abs p =
     (case clean_parts [] (split_on (CHR ''/'') p) of [] \<Rightarrow> ''/''
      | ps \<Rightarrow> concat (map (\<lambda>q. CHR ''/'' # q) ps))"

definition validateCanonicalPath :: "string \<Rightarrow> store_error + unit" where
  "validateCanonicalPath p =
     (if p = [] \<or> \<not> has_prefix p ''/'' \<or> clean_abs p \<noteq> p then Inl ErrStoreUnavailable
      else if ''..'' \<in> set (split_on (CHR ''/'') p) then Inl ErrStoreUnavailable
      else Inr ())"

subsection \<open>The store directory\<close>

record secureDirectory =
  dir_path :: string
  dir_device :: nat
  dir_inode :: nat

definition openSecureDirectory :: "faults \<Rightarrow> string \<Rightarrow> secureDirectory io" where
  "openSecureDirectory f p =
     (case validateCanonicalPath p of Inl e \<Rightarrow> raise e
      | Inr _ \<Rightarrow> andThen (syscall f) (\<lambda>_. andThen (syscall f) (\<lambda>_ w.
          (case w_path w of None \<Rightarrow> Inl ErrStoreUnavailable
           | Some n \<Rightarrow>
               if \<not> privateDirectoryStat w n then Inl ErrStoreUnavailable
               else Inr \<lparr>dir_path = p, dir_device = n_dev n, dir_inode = n_ino n\<rparr>, w))))"

definition verifyPathIdentity :: "faults \<Rightarrow> secureDirectory \<Rightarrow> unit io" where
  "verifyPathIdentity f d = andThen (openSecureDirectory f (dir_path d)) (\<lambda>c.
     require (dir_device c = dir_device d \<and> dir_inode c = dir_inode d))"

fun check_entries :: "faults \<Rightarrow> string list \<Rightarrow> string list \<Rightarrow> unit io" where
  "check_entries f want [] = require (want = [])"
| "check_entries f want (e # es) =
     (if e \<notin> set want then raise ErrStoreUnavailable
      else andThen (fstatat f e) (\<lambda>n. andThen (private_file n) (\<lambda>_. check_entries f (remove1 e want) es)))"

definition validateStoreEntries :: "faults \<Rightarrow> unit io" where
  "validateStoreEntries f = andThen (syscall f) (\<lambda>_. andThen (syscall f) (\<lambda>_ w.
     (if length (w_entries w) \<noteq> 3 then raise ErrStoreUnavailable w
      else check_entries f [''lock'', ''store.json'', ''state.json''] (map fst (w_entries w)) w)))"

definition readFile :: "faults \<Rightarrow> string \<Rightarrow> nat \<Rightarrow> bytes io" where
  "readFile f name limit =
     (if name \<noteq> ''store.json'' \<and> name \<noteq> ''state.json'' then raise ErrStoreUnavailable
      else andThen (fstatat f name) (\<lambda>n. andThen (syscall f) (\<lambda>_. andThen (private_file n) (\<lambda>_.
        andThen (require (length (n_data n) \<le> limit)) (\<lambda>_. andThen (syscall f) (\<lambda>_. andThen (syscall f) (\<lambda>_.
        ret (n_data n))))))))"

subsection \<open>What a loss of power leaves\<close>

definition survives :: "entries \<Rightarrow> entries \<Rightarrow> bool" where
  "survives es es' \<longleftrightarrow> list_all2 (\<lambda>(k, n) (k', n'). k' = k \<and> n' = n\<lparr>n_data := n_data n', n_synced := True\<rparr> \<and>
     (n_synced n \<longrightarrow> n_data n' = n_data n)) es es'"

definition power_loss :: "world \<Rightarrow> world \<Rightarrow> bool" where
  "power_loss w w' \<longleftrightarrow> list_ex (\<lambda>es. survives es (w_entries w')) (w_entries w # w_stale w) \<and>
     w' = w\<lparr>w_entries := w_entries w', w_stale := []\<rparr>"

text \<open>A change of the directory: the disk may go on holding what was there before.\<close>

definition set_entries :: "entries \<Rightarrow> world \<Rightarrow> world" where
  "set_entries es w = w\<lparr>w_entries := es, w_stale := w_entries w # w_stale w\<rparr>"

text \<open>An inode number that no file has, here or on disk.\<close>

definition fresh_inode :: "world \<Rightarrow> nat" where
  "fresh_inode w = Suc (sum_list (map (\<lambda>(_, n). n_ino n) (concat (w_entries w # w_stale w))))"

subsection \<open>Replacing the snapshot\<close>

abbreviation temp_name :: string where "temp_name \<equiv> ''.state.tmp''"

text \<open>\<open>openat(O_CREAT|O_EXCL, 0600)\<close>: a new, private, empty file.\<close>

definition create_exclusive :: "faults \<Rightarrow> string \<Rightarrow> unit io" where
  "create_exclusive f name = andThen (syscall f) (\<lambda>_ w.
     (if map_of (w_entries w) name \<noteq> None then raise ErrStoreUnavailable w
      else (Inr (), set_entries (w_entries w @
         [(name, \<lparr>n_kind = RegularFile, n_uid = w_uid w, n_perm = 384, n_nlink = 1, n_dev = 0,
                  n_ino = fresh_inode w, n_data = [], n_synced = False\<rparr>)]) w)))"

definition set_data :: "string \<Rightarrow> bytes \<Rightarrow> entries \<Rightarrow> entries" where
  "set_data name b es = map (\<lambda>(k, n). (k, if k = name then n\<lparr>n_data := b, n_synced := False\<rparr> else n)) es"

text \<open>The same file, wherever an earlier content of the directory still has it.\<close>

definition unsync :: "nat \<Rightarrow> entries \<Rightarrow> entries" where
  "unsync ino es = map (\<lambda>(k, n). (k, if n_ino n = ino then n\<lparr>n_synced := False\<rparr> else n)) es"

definition write_file :: "string \<Rightarrow> bytes \<Rightarrow> world \<Rightarrow> world" where
  "write_file name b w =
     (case map_of (w_entries w) name of None \<Rightarrow> w
      | Some n \<Rightarrow> w\<lparr>w_entries := set_data name b (w_entries w), w_stale := map (unsync (n_ino n)) (w_stale w)\<rparr>)"

text \<open>
  \<open>os.File.Write\<close> returns a short count only with an error, so the loop of \<open>writeAll\<close> writes
  everything in its first round or reports the error after a prefix.
\<close>

definition writeAll :: "faults \<Rightarrow> string \<Rightarrow> bytes \<Rightarrow> unit io" where
  "writeAll f name b w =
     (let w' = w\<lparr>w_calls := w_calls w + 1\<rparr> in
      if fails f (w_calls w)
      then (Inl ErrStoreUnavailable, write_file name (take (written f (w_calls w)) b) w')
      else (Inr (), write_file name b w'))"

text \<open>\<open>file.Sync\<close>: the disk holds the file's data. \<open>Fsync\<close> of the directory: it holds the entries.\<close>

definition sync_file :: "faults \<Rightarrow> string \<Rightarrow> unit io" where
  "sync_file f name = andThen (syscall f) (\<lambda>_ w.
     (Inr (), w\<lparr>w_entries := map (\<lambda>(k, n). (k, if k = name then n\<lparr>n_synced := True\<rparr> else n)) (w_entries w)\<rparr>))"

definition sync_directory :: "faults \<Rightarrow> unit io" where
  "sync_directory f = andThen (syscall f) (\<lambda>_ w. (Inr (), w\<lparr>w_stale := []\<rparr>))"

text \<open>\<open>renameat\<close>: the entry \<open>old\<close> becomes \<open>new\<close>, in one step.\<close>

definition rename_entry :: "string \<Rightarrow> string \<Rightarrow> entries \<Rightarrow> entries" where
  "rename_entry old new es =
     map (\<lambda>(k, n). (if k = old then new else k, n)) (filter (\<lambda>(k, _). k \<noteq> new) es)"

definition renameat :: "faults \<Rightarrow> string \<Rightarrow> string \<Rightarrow> unit io" where
  "renameat f old new = andThen (syscall f) (\<lambda>_ w.
     (Inr (), set_entries (rename_entry old new (w_entries w)) w))"

definition replaceFile :: "faults \<Rightarrow> string \<Rightarrow> bytes \<Rightarrow> unit io" where
  "replaceFile f name contents =
     (if name \<noteq> ''state.json'' \<or> maxSnapshotBytes < length contents then raise ErrStoreUnavailable
      else andThen (fstatat f name) (\<lambda>existing. andThen (private_file existing) (\<lambda>_.
        andThen (create_exclusive f temp_name) (\<lambda>_.
        andThen (writeAll f temp_name contents) (\<lambda>_.
        andThen (sync_file f temp_name) (\<lambda>_. andThen (syscall f) (\<lambda>_.
        andThen (fstatat f temp_name) (\<lambda>temp. andThen (private_file temp) (\<lambda>_.
        andThen (renameat f temp_name name) (\<lambda>_.
        sync_directory f))))))))))"

subsection \<open>The lock\<close>

fun flock_loop :: "flock_event list \<Rightarrow> store_error + unit" where
  "flock_loop [] = Inl ErrStoreLocked"
| "flock_loop (Acquired # _) = Inr ()"
| "flock_loop (Refused # _) = Inl ErrStoreUnavailable"
| "flock_loop (Busy ctx_done late # es) =
     (if ctx_done then Inl ErrStoreLocked else if late then Inl ErrStoreLocked else flock_loop es)"

definition withLock :: "faults \<Rightarrow> secureDirectory \<Rightarrow> 'a io \<Rightarrow> 'a io" where
  "withLock f d action =
     andThen (fstatat f ''lock'') (\<lambda>lockStat. andThen (syscall f) (\<lambda>_. andThen (private_file lockStat) (\<lambda>_.
       (case flock_loop (flocks f) of Inl e \<Rightarrow> raise e
        | Inr _ \<Rightarrow>
            andThen (fstatat f ''lock'') (\<lambda>current. andThen (private_file current) (\<lambda>_.
            andThen (require (n_dev current = n_dev lockStat \<and> n_ino current = n_ino lockStat)) (\<lambda>_.
            andThen (verifyPathIdentity f d) (\<lambda>_. action))))))))"

subsection \<open>The store\<close>

record Store =
  st_dir :: secureDirectory
  st_path :: string
  st_storeID :: string
  st_closed :: bool

definition verifyPathAndHeader :: "faults \<Rightarrow> Store \<Rightarrow> unit io" where
  "verifyPathAndHeader f st =
     andThen (verifyPathIdentity f (st_dir st)) (\<lambda>_. andThen (validateStoreEntries f) (\<lambda>_.
     andThen (readFile f ''store.json'' 4096) (\<lambda>data.
       (case decodeStrict header_fields zero_header data of None \<Rightarrow> raise ErrStoreIdentity
        | Some h \<Rightarrow>
            if h_Format h \<noteq> storeFormat \<or> h_StoreID h \<noteq> st_storeID st \<or> h_Path h \<noteq> st_path st
            then raise ErrStoreIdentity else ret ()))))"

definition snapshot_action :: "faults \<Rightarrow> Store \<Rightarrow> bool \<Rightarrow> 'a tx \<Rightarrow> 'a io" where
  "snapshot_action f st write fn =
     andThen (verifyPathAndHeader f st) (\<lambda>_.
     andThen (readFile f ''state.json'' maxSnapshotBytes) (\<lambda>data.
     andThen (lift_result (decodeSnapshot data (st_storeID st))) (\<lambda>s.
     andThen (lift_result (fn s)) (\<lambda>(s', x).
       if \<not> write then ret x
       else andThen (lift_result (encodeSnapshot s')) (\<lambda>encoded.
            andThen (verifyPathAndHeader f st) (\<lambda>_.
            andThen (replaceFile f ''state.json'' encoded) (\<lambda>_. ret x)))))))"

definition withSnapshot :: "faults \<Rightarrow> Store \<Rightarrow> bool \<Rightarrow> 'a tx \<Rightarrow> 'a io" where
  "withSnapshot f st write fn =
     (if st_closed st then raise ErrStoreUnavailable
      else withLock f (st_dir st) (snapshot_action f st write fn))"

subsection \<open>Initialize, Open, Close\<close>

text \<open>
  \<open>initializeFiles\<close> walks a Go map, so the three files are created in any order; the order is an
  argument.
\<close>

fun initializeFiles :: "faults \<Rightarrow> (string \<times> bytes) list \<Rightarrow> unit io" where
  "initializeFiles f [] = sync_directory f"
| "initializeFiles f ((name, contents) # rest) =
     andThen (create_exclusive f name) (\<lambda>_.
     andThen (if contents \<noteq> [] then writeAll f name contents else ret ()) (\<lambda>_.
     andThen (sync_file f name) (\<lambda>_. andThen (syscall f) (\<lambda>_. initializeFiles f rest))))"

text \<open>
  \<open>mkdirat\<close> refuses an existing path; the new directory is private and empty. The sync of the
  parent may fail; what a loss of power leaves of the directory itself is not part of the world.
\<close>

definition createSecureDirectory :: "faults \<Rightarrow> string \<Rightarrow> secureDirectory io" where
  "createSecureDirectory f p =
     (case validateCanonicalPath p of Inl e \<Rightarrow> raise e
      | Inr _ \<Rightarrow>
          andThen (syscall f) (\<lambda>_. andThen (syscall f) (\<lambda>_ w.
            (if w_exists w then raise ErrStoreUnavailable w
             else andThen (syscall f) (\<lambda>_. openSecureDirectory f p)
               (w\<lparr>w_exists := True, w_entries := [], w_stale := [],
                  w_path := Some \<lparr>n_kind = Directory, n_uid = w_uid w, n_perm = 448, n_nlink = 2,
                    n_dev = 0, n_ino = fresh_inode w, n_data = [], n_synced = True\<rparr>\<rparr>)))))"

definition initialize ::
  "faults \<Rightarrow> (string \<times> bytes) list \<Rightarrow> string \<Rightarrow> string \<Rightarrow> StoreBinding option \<Rightarrow> unit io" where
  "initialize f order p storeID binding =
     (case validateStoreID storeID of Inl e \<Rightarrow> raise e
      | Inr _ \<Rightarrow> andThen (createSecureDirectory f p) (\<lambda>_.
          (case (marshal (enc_header \<lparr>h_Format = storeFormat, h_StoreID = storeID, h_Path = p\<rparr>),
                 marshal (enc_snapshot (initial_snapshot storeID binding))) of
             (Inr header, Inr state) \<Rightarrow>
               initializeFiles f (map (\<lambda>(k, _). (k, if k = ''store.json'' then header
                  else if k = ''state.json'' then state else [])) order)
           | _ \<Rightarrow> raise ErrStoreUnavailable)))"

definition Initialize :: "faults \<Rightarrow> (string \<times> bytes) list \<Rightarrow> string \<Rightarrow> string \<Rightarrow> unit io" where
  "Initialize f order p storeID = initialize f order p storeID None"

definition InitializeBound ::
  "faults \<Rightarrow> (string \<times> bytes) list \<Rightarrow> string \<Rightarrow> string \<Rightarrow> StoreBinding \<Rightarrow> unit io" where
  "InitializeBound f order p storeID binding =
     (case validateStoreBinding binding of Inl e \<Rightarrow> raise e
      | Inr _ \<Rightarrow> initialize f order p storeID (Some binding))"

definition Open :: "faults \<Rightarrow> string \<Rightarrow> string \<Rightarrow> Store io" where
  "Open f p storeID =
     (case validateStoreID storeID of Inl e \<Rightarrow> raise e
      | Inr _ \<Rightarrow> andThen (openSecureDirectory f p) (\<lambda>dir.
          let st = \<lparr>st_dir = dir, st_path = p, st_storeID = storeID, st_closed = False\<rparr> in
          andThen (withSnapshot f st False Open_fn) (\<lambda>_. ret st)))"

definition Close :: "Store \<Rightarrow> Store" where
  "Close st = st\<lparr>st_closed := True\<rparr>"

subsection \<open>The public operations on a local store\<close>

definition Store_BindEmpty :: "faults \<Rightarrow> Store \<Rightarrow> StoreBinding \<Rightarrow> unit io" where
  "Store_BindEmpty f st b =
     (case validateStoreBinding b of Inl e \<Rightarrow> raise e | Inr _ \<Rightarrow> withSnapshot f st True (BindEmpty_fn b))"

definition Store_Binding :: "faults \<Rightarrow> Store \<Rightarrow> StoreBinding io" where
  "Store_Binding f st = withSnapshot f st False Binding_fn"

definition Store_ReadImportBinding :: "faults \<Rightarrow> Store \<Rightarrow> Target \<Rightarrow> ImportBinding option io" where
  "Store_ReadImportBinding f st t =
     (case validateTarget t of Inl e \<Rightarrow> raise e
      | Inr _ \<Rightarrow> withSnapshot f st False (ReadImport_fn (st_storeID st) t))"

definition Store_BindImportedResource :: "faults \<Rightarrow> Store \<Rightarrow> ImportRequest \<Rightarrow> ImportBinding io" where
  "Store_BindImportedResource f st req =
     (case validImport req of Inl e \<Rightarrow> raise e
      | Inr imp \<Rightarrow> withSnapshot f st True
          (BindImported_fn (st_storeID st) (ie_HostAPI (ir_Evidence req)) imp))"

definition Store_Begin ::
  "faults \<Rightarrow> Store \<Rightarrow> bytes option \<Rightarrow> go_time \<Rightarrow> BeginRequest \<Rightarrow> Intent io" where
  "Store_Begin f st rand now r =
     (case validateBegin r of Inl e \<Rightarrow> raise e
      | Inr r' \<Rightarrow> withSnapshot f st True (Begin_fn (st_storeID st) rand now r'))"

definition Store_Read :: "faults \<Rightarrow> Store \<Rightarrow> Target \<Rightarrow> Intent list io" where
  "Store_Read f st t =
     (case validateTarget t of Inl e \<Rightarrow> raise e | Inr _ \<Rightarrow> withSnapshot f st False (Read_fn t))"

definition Store_RecordAccepted :: "faults \<Rightarrow> Store \<Rightarrow> string \<Rightarrow> OperationAck \<Rightarrow> Intent io" where
  "Store_RecordAccepted f st i ack =
     (if \<not> validAck i ack then raise ErrStoreUnavailable
      else case parseRetainUntil (a_RetainUntil ack) of Inl _ \<Rightarrow> raise ErrStoreUnavailable
      | Inr retain \<Rightarrow> withSnapshot f st True (RecordAccepted_fn (st_storeID st) i ack retain))"

definition Store_Complete :: "faults \<Rightarrow> Store \<Rightarrow> string \<Rightarrow> CompletionEvidence \<Rightarrow> Intent io" where
  "Store_Complete f st i ev =
     (if \<not> validAck i (e_Operation ev) then raise ErrStoreUnavailable
      else case parseRetainUntil (a_RetainUntil (e_Operation ev)) of Inl _ \<Rightarrow> raise ErrStoreUnavailable
      | Inr retain \<Rightarrow> withSnapshot f st True (Complete_fn (st_storeID st) i ev retain))"

subsection \<open>The initializer command\<close>

text \<open>
  \<open>intentstorecli.Run\<close> after its flags are parsed: \<open>lstat\<close> tells whether the path exists, fails
  otherwise, or fails to tell. Each of the store calls runs under its own schedule of faults.
\<close>

datatype lstat_result = Exists | NotExist | LstatError

definition cli_lstat :: "faults \<Rightarrow> world \<Rightarrow> lstat_result" where
  "cli_lstat f w = (if fails f (w_calls w) then LstatError else if w_exists w then Exists else NotExist)"

definition cli_bind :: "faults \<Rightarrow> Store \<Rightarrow> StoreBinding \<Rightarrow> unit io" where
  "cli_bind f st binding w =
     (case Store_Binding f st w of
        (Inr current, w1) \<Rightarrow> (if current = binding then Inr () else Inl ErrStoreIdentity, w1)
      | (Inl e, w1) \<Rightarrow> if e \<noteq> ErrStoreIdentity then (Inl e, w1) else Store_BindEmpty f st binding w1)"

definition cli_initialize ::
  "faults \<Rightarrow> (string \<times> bytes) list \<Rightarrow> string \<Rightarrow> string \<Rightarrow> string \<Rightarrow> unit io" where
  "cli_initialize f order p storeID hostAPI w =
     (let binding = \<lparr>b_HostAPI = hostAPI\<rparr>; w0 = w\<lparr>w_calls := w_calls w + 1\<rparr> in
      case cli_lstat f w of
        NotExist \<Rightarrow> InitializeBound f order p storeID binding w0
      | LstatError \<Rightarrow> (Inl ErrStoreUnavailable, w0)
      | Exists \<Rightarrow> andThen (Open f p storeID) (\<lambda>st. cli_bind f st binding) w0)"

definition cli_Run ::
  "faults \<Rightarrow> (string \<times> bytes) list \<Rightarrow> string \<Rightarrow> string \<Rightarrow> string \<Rightarrow> world \<Rightarrow> nat \<times> world" where
  "cli_Run f order p storeID hostAPI w =
     (if p = [] \<or> storeID = [] \<or> hostAPI = [] then (2, w)
      else case cli_initialize f order p storeID hostAPI w of
        (Inl _, w') \<Rightarrow> (1, w') | (Inr _, w') \<Rightarrow> (0, w'))"

end
