(* ===== verification/DiskLaws.thy ===== *)
theory DiskLaws
  imports StoreDisk
begin

text \<open>
  The local store under every schedule of failing system calls: the snapshot file holds the old
  bytes or the whole new snapshot, also when the power is lost, and a transaction that returns
  has its result on disk, in bytes that decode to the snapshot it computed.
\<close>

subsection \<open>Running\<close>

text \<open>Operations that do not touch the directory's entries.\<close>

definition quiet :: "'a io \<Rightarrow> bool" where
  "quiet m \<longleftrightarrow> (\<forall>w. w_entries (snd (m w)) = w_entries w \<and> w_stale (snd (m w)) = w_stale w)"

lemma quietD: "quiet m \<Longrightarrow> m w = (r, w') \<Longrightarrow> w_entries w' = w_entries w \<and> w_stale w' = w_stale w"
  by (metis quiet_def snd_conv)

lemma quiet_andThen [intro]: "quiet m \<Longrightarrow> (\<And>x. quiet (g x)) \<Longrightarrow> quiet (andThen m g)"
proof -
  assume m: "quiet m" and g: "\<And>x. quiet (g x)"
  have "w_entries (snd (andThen m g w)) = w_entries w \<and> w_stale (snd (andThen m g w)) = w_stale w" for w
  proof -
    obtain r w1 where e: "m w = (r, w1)" by (cases "m w")
    note quietD [OF m e]
    moreover have "w_entries (snd (g x w1)) = w_entries w1 \<and> w_stale (snd (g x w1)) = w_stale w1" for x
      using g by (simp add: quiet_def)
    ultimately show ?thesis by (cases r) (simp_all add: andThen_def e)
  qed
  then show ?thesis by (simp add: quiet_def)
qed

lemma quiet_value [simp, intro]: "quiet (\<lambda>w. (h w, w))"
  by (simp add: quiet_def)

lemma quiet_atoms [simp, intro]:
  "quiet (ret x)" "quiet (raise e)" "quiet (require b)" "quiet (syscall f)" "quiet (private_file n)"
  by (simp_all add: quiet_def ret_def raise_def require_def syscall_def private_file_def)

lemma quiet_fstatat [simp, intro]: "quiet (fstatat f name)"
  unfolding fstatat_def by (intro quiet_andThen quiet_atoms quiet_value)

lemma quiet_open [simp, intro]: "quiet (openSecureDirectory f p)"
  unfolding openSecureDirectory_def
  by (cases "validateCanonicalPath p") (auto intro!: quiet_andThen)

lemma quiet_verifyPath [simp, intro]: "quiet (verifyPathIdentity f d)"
  unfolding verifyPathIdentity_def by (intro quiet_andThen) auto

lemma quiet_check_entries [simp, intro]: "quiet (check_entries f want es)"
  by (induction f want es rule: check_entries.induct) (auto intro!: quiet_andThen)

lemma quiet_entries [simp, intro]: "quiet (validateStoreEntries f)"
  unfolding validateStoreEntries_def
  by (intro quiet_andThen quiet_atoms)
     (simp add: quiet_def raise_def quiet_check_entries [unfolded quiet_def])

lemma quiet_readFile [simp, intro]: "quiet (readFile f name limit)"
  unfolding readFile_def by (auto intro!: quiet_andThen)

lemma quiet_header [simp, intro]: "quiet (verifyPathAndHeader f st)"
  unfolding verifyPathAndHeader_def by (intro quiet_andThen) (auto split: option.splits)

lemma quiet_lift [simp, intro]: "quiet (lift_result r)"
  by (cases r) (auto simp: lift_result_def)

subsection \<open>Replacing the snapshot is atomic\<close>

definition state_data :: "world \<Rightarrow> bytes option" where
  "state_data w = map_option n_data (map_of (w_entries w) ''state.json'')"

lemma state_quiet: "quiet m \<Longrightarrow> m w = (r, w') \<Longrightarrow> state_data w' = state_data w"
  by (simp add: state_data_def quietD)

lemma map_of_set_data:
  "map_of (set_data name b es) k =
     map_option (\<lambda>n. if k = name then n\<lparr>n_data := b, n_synced := False\<rparr> else n) (map_of es k)"
  by (induction es) (auto simp: set_data_def)

lemma map_of_set_data_other [simp]: "k \<noteq> name \<Longrightarrow> map_of (set_data name b es) k = map_of es k"
  by (simp add: map_of_set_data option.map_ident)

lemma map_of_unsync:
  "map_of (unsync i es) k = map_option (\<lambda>n. if n_ino n = i then n\<lparr>n_synced := False\<rparr> else n) (map_of es k)"
  by (induction es) (simp_all add: unsync_def case_prod_unfold)

lemma map_of_sync:
  "map_of (map (\<lambda>(k, n). (k, if k = name then n\<lparr>n_synced := True\<rparr> else n)) es) k =
     map_option (\<lambda>n. if k = name then n\<lparr>n_synced := True\<rparr> else n) (map_of es k)"
  by (induction es) auto

lemma map_of_rename:
  "old \<noteq> new \<Longrightarrow> map_of (rename_entry old new es) new = map_of es old"
  by (induction es) (auto simp: rename_entry_def)

text \<open>Partial correctness over every fault: what holds of the result and the world after.\<close>

definition hoare :: "(world \<Rightarrow> bool) \<Rightarrow> 'a io \<Rightarrow> (store_error + 'a \<Rightarrow> world \<Rightarrow> bool) \<Rightarrow> bool" where
  "hoare P m Q \<longleftrightarrow> (\<forall>w. P w \<longrightarrow> Q (fst (m w)) (snd (m w)))"

lemma hoareD: "hoare P m Q \<Longrightarrow> P w \<Longrightarrow> m w = (r, w') \<Longrightarrow> Q r w'"
  by (auto simp: hoare_def)

lemma hoare_andThen:
  assumes "hoare P m (\<lambda>r w. case r of Inl e \<Rightarrow> Q (Inl e) w | Inr x \<Rightarrow> R x w)"
    and "\<And>x. hoare (R x) (g x) Q"
  shows "hoare P (andThen m g) Q"
proof -
  have "Q (fst (andThen m g w)) (snd (andThen m g w))" if "P w" for w
  proof -
    obtain r w1 where e: "m w = (r, w1)" by (cases "m w")
    have "case r of Inl e \<Rightarrow> Q (Inl e) w1 | Inr x \<Rightarrow> R x w1"
      using assms(1) [unfolded hoare_def, rule_format, OF that] by (simp add: e split: sum.splits)
    with assms(2) e show ?thesis by (cases r) (auto simp: andThen_def hoare_def)
  qed
  then show ?thesis by (simp add: hoare_def)
qed

lemma hoare_quiet:
  assumes "quiet m" "\<And>w w' r. P w \<Longrightarrow> w_entries w' = w_entries w \<Longrightarrow> w_stale w' = w_stale w \<Longrightarrow> Q r w'"
  shows "hoare P m Q"
  using assms by (simp add: hoare_def quiet_def)

definition temp_data :: "world \<Rightarrow> bytes option" where
  "temp_data w = map_option n_data (map_of (w_entries w) temp_name)"

lemma hoare_post:
  assumes "hoare P m Q" "\<And>r w. Q r w \<Longrightarrow> Q' r w"
  shows "hoare P m Q'"
  using assms by (auto simp: hoare_def)

subsubsection \<open>What the disk may hold\<close>

text \<open>Every content the disk may have has a synced snapshot file, with one of the given bytes.\<close>

definition state_in :: "bytes set \<Rightarrow> entries \<Rightarrow> bool" where
  "state_in S es \<longleftrightarrow> (\<exists>n. map_of es ''state.json'' = Some n \<and> n_synced n \<and> n_data n \<in> S)"

definition disk_in :: "bytes set \<Rightarrow> world \<Rightarrow> bool" where
  "disk_in S w \<longleftrightarrow> (\<forall>es\<in>set (w_entries w # w_stale w). state_in S es)"

lemma disk_in_mono: "disk_in S w \<Longrightarrow> S \<subseteq> T \<Longrightarrow> disk_in T w"
  unfolding disk_in_def state_in_def by blast

lemma disk_in_data: "disk_in {b} w \<Longrightarrow> state_data w = Some b"
  by (auto simp: disk_in_def state_in_def state_data_def)

lemma survives_map_of:
  assumes "survives es es'" "map_of es k = Some n" "n_synced n"
  shows "\<exists>n'. map_of es' k = Some n' \<and> n_data n' = n_data n"
  using assms unfolding survives_def
  by (induction es es' rule: list_all2_induct) (auto split: if_splits)

lemma disk_in_survives:
  assumes "disk_in S w" "power_loss w w'"
  shows "\<exists>b\<in>S. state_data w' = Some b"
proof -
  from assms(2) obtain es where es: "es \<in> set (w_entries w # w_stale w)" "survives es (w_entries w')"
    by (auto simp: power_loss_def list_ex_iff)
  with assms(1) obtain n where n: "map_of es ''state.json'' = Some n" "n_synced n" "n_data n \<in> S"
    unfolding disk_in_def state_in_def by blast
  from survives_map_of [OF es(2) n(1,2)] n(3) show ?thesis by (auto simp: state_data_def)
qed

text \<open>Anything may be left in a file that is not synced.\<close>

definition scribble :: "bytes \<Rightarrow> entries \<Rightarrow> entries" where
  "scribble b es = map (\<lambda>(k, n). (k, n\<lparr>n_data := if n_synced n then n_data n else b, n_synced := True\<rparr>)) es"

lemma survives_scribble: "survives es (scribble b es)"
  by (auto simp: survives_def scribble_def list_all2_map2 list_all2_same)

lemma map_of_scribble: "map_of (scribble b es) k =
    map_option (\<lambda>n. n\<lparr>n_data := if n_synced n then n_data n else b, n_synced := True\<rparr>) (map_of es k)"
  by (induction es) (auto simp: scribble_def)

lemma disk_in_single:
  assumes "\<And>w'. power_loss w w' \<Longrightarrow> state_data w' = Some old"
  shows "disk_in {old} w"
  unfolding disk_in_def
proof
  fix es
  assume "es \<in> set (w_entries w # w_stale w)"
  then have "power_loss w (w\<lparr>w_entries := scribble b es, w_stale := []\<rparr>)" for b
    using survives_scribble by (auto simp: power_loss_def list_ex_iff)
  from assms [OF this] have d: "map_option n_data (map_of (scribble b es) ''state.json'') = Some old" for b
    by (simp add: state_data_def)
  from d [of "old @ [nul]"] obtain n where n: "map_of es ''state.json'' = Some n"
    "(if n_synced n then n_data n else old @ [nul]) = old"
    unfolding map_of_scribble option.map_comp comp_def by auto
  then have "n_synced n" by (cases "n_synced n") auto
  with n show "state_in {old} es" by (simp add: state_in_def)
qed

subsubsection \<open>The steps of a replacement\<close>

definition temp_ready :: "bytes \<Rightarrow> world \<Rightarrow> bool" where
  "temp_ready b w \<longleftrightarrow> (\<exists>n. map_of (w_entries w) temp_name = Some n \<and> n_data n = b \<and> n_synced n)"

lemma hoare_create:
  "hoare (\<lambda>w. state_data w = old) (create_exclusive f temp_name)
     (\<lambda>r w. state_data w = old \<and> (r = Inr () \<longrightarrow> temp_data w \<noteq> None))"
  by (auto simp: hoare_def create_exclusive_def andThen_def syscall_def raise_def state_data_def temp_data_def
      set_entries_def map_add_def split: if_splits option.splits)

lemma hoare_write:
  "hoare (\<lambda>w. state_data w = old \<and> temp_data w \<noteq> None) (writeAll f temp_name b)
     (\<lambda>r w. state_data w = old \<and> (r = Inr () \<longrightarrow> temp_data w = Some b))"
  by (auto simp: hoare_def writeAll_def write_file_def state_data_def temp_data_def map_of_set_data
      option.map_ident Let_def split: option.splits)

lemma hoare_sync:
  "hoare (\<lambda>w. state_data w = old \<and> temp_data w = Some b) (sync_file f temp_name)
     (\<lambda>r w. state_data w = old \<and> (r = Inr () \<longrightarrow> temp_ready b w))"
  by (auto simp: hoare_def sync_file_def andThen_def syscall_def state_data_def temp_data_def temp_ready_def map_of_sync
      option.map_ident)

lemma hoare_rename:
  "hoare (\<lambda>w. state_data w = old \<and> temp_ready b w) (renameat f temp_name ''state.json'')
     (\<lambda>r w. case r of Inl _ \<Rightarrow> state_data w = old | Inr _ \<Rightarrow> state_in {b} (w_entries w))"
  by (auto simp: hoare_def renameat_def andThen_def syscall_def state_data_def temp_ready_def state_in_def set_entries_def
      map_of_rename)

definition replaced :: "bytes option \<Rightarrow> bytes \<Rightarrow> store_error + 'a \<Rightarrow> world \<Rightarrow> bool" where
  "replaced old b r w \<longleftrightarrow>
     (case r of Inl _ \<Rightarrow> state_data w = old \<or> state_data w = Some b | Inr _ \<Rightarrow> disk_in {b} w)"

lemma hoare_sync_directory:
  "hoare (\<lambda>w. state_in {b} (w_entries w)) (sync_directory f) (replaced old b)"
  by (auto simp: hoare_def sync_directory_def andThen_def syscall_def replaced_def disk_in_def state_in_def state_data_def)

lemma replaceFile_atomic:
  "hoare (\<lambda>w. state_data w = old) (replaceFile f ''state.json'' b) (replaced old b)"
proof (cases "maxSnapshotBytes < length b")
  case True
  then show ?thesis by (simp add: replaceFile_def hoare_def raise_def replaced_def)
next
  case False
  let ?A = "\<lambda>w. state_data w = old" and ?T = "\<lambda>w. state_data w = old \<and> temp_ready b w"
  have q: "quiet m \<Longrightarrow> hoare ?A m (\<lambda>r w. case r of Inl e \<Rightarrow> replaced old b (Inl e) w | Inr x \<Rightarrow> ?A w)" for m :: "'x io"
    by (rule hoare_quiet) (auto simp: replaced_def state_data_def split: sum.splits)
  have qt: "quiet m \<Longrightarrow> hoare ?T m (\<lambda>r w. case r of Inl e \<Rightarrow> replaced old b (Inl e) w | Inr x \<Rightarrow> ?T w)" for m :: "'x io"
    by (rule hoare_quiet) (auto simp: replaced_def state_data_def temp_ready_def split: sum.splits)
  have create: "hoare ?A (create_exclusive f temp_name)
      (\<lambda>r w. case r of Inl e \<Rightarrow> replaced old b (Inl e) w | Inr _ \<Rightarrow> ?A w \<and> temp_data w \<noteq> None)"
    by (rule hoare_post [OF hoare_create]) (auto simp: replaced_def split: sum.splits)
  have wr: "hoare (\<lambda>w. ?A w \<and> temp_data w \<noteq> None) (writeAll f temp_name b)
      (\<lambda>r w. case r of Inl e \<Rightarrow> replaced old b (Inl e) w | Inr _ \<Rightarrow> ?A w \<and> temp_data w = Some b)"
    by (rule hoare_post [OF hoare_write]) (auto simp: replaced_def split: sum.splits)
  have sync: "hoare (\<lambda>w. ?A w \<and> temp_data w = Some b) (sync_file f temp_name)
      (\<lambda>r w. case r of Inl e \<Rightarrow> replaced old b (Inl e) w | Inr _ \<Rightarrow> ?T w)"
    by (rule hoare_post [OF hoare_sync]) (auto simp: replaced_def split: sum.splits)
  have rename: "hoare ?T (renameat f temp_name ''state.json'')
      (\<lambda>r w. case r of Inl e \<Rightarrow> replaced old b (Inl e) w | Inr _ \<Rightarrow> state_in {b} (w_entries w))"
    by (rule hoare_post [OF hoare_rename]) (auto simp: replaced_def split: sum.splits)
  note steps = hoare_andThen [OF q [OF quiet_fstatat]] hoare_andThen [OF q [OF quiet_atoms(5)]]
    hoare_andThen [OF create] hoare_andThen [OF wr] hoare_andThen [OF sync] hoare_andThen [OF qt [OF quiet_atoms(4)]]
    hoare_andThen [OF qt [OF quiet_fstatat]] hoare_andThen [OF qt [OF quiet_atoms(5)]]
    hoare_andThen [OF rename] hoare_sync_directory
  from False show ?thesis unfolding replaceFile_def by (simp, intro steps)
qed

subsubsection \<open>A loss of power during a replacement\<close>

text \<open>The temporary file is a file of its own.\<close>

definition apart :: "bytes set \<Rightarrow> world \<Rightarrow> bool" where
  "apart S w \<longleftrightarrow> disk_in S w \<and> (\<exists>t. map_of (w_entries w) temp_name = Some t \<and>
     (\<forall>es\<in>set (w_entries w # w_stale w). \<forall>n. map_of es ''state.json'' = Some n \<longrightarrow> n_ino n \<noteq> n_ino t))"

lemma fresh_inode_new:
  assumes "es \<in> set (w_entries w # w_stale w)" "map_of es k = Some n"
  shows "n_ino n < fresh_inode w"
proof -
  have "(k, n) \<in> set (concat (w_entries w # w_stale w))" using assms map_of_SomeD [OF assms(2)] by auto
  then have "n_ino n \<in> set (map (\<lambda>(_, n). n_ino n) (concat (w_entries w # w_stale w)))" by force
  from member_le_sum_list [OF this] show ?thesis unfolding fresh_inode_def by linarith
qed

lemma apart_create:
  "hoare (disk_in S) (create_exclusive f temp_name) (\<lambda>r w. disk_in S w \<and> (r = Inr () \<longrightarrow> apart S w))"
proof -
  have new: "apart S (set_entries (w_entries w @ [(temp_name, n)]) w)"
    if d: "disk_in S w" and n: "map_of (w_entries w) temp_name = None" "n_ino n = fresh_inode w" for w n
  proof -
    let ?w = "set_entries (w_entries w @ [(temp_name, n)]) w"
    have e: "map_of (w_entries w @ [(temp_name, n)]) ''state.json'' = map_of (w_entries w) ''state.json''"
      by (simp add: map_add_def split: option.splits)
    have "state_in S (w_entries w @ [(temp_name, n)]) = state_in S (w_entries w)" unfolding state_in_def e ..
    with d have "disk_in S ?w" by (simp add: disk_in_def set_entries_def)
    moreover have "n_ino m \<noteq> n_ino n" if "es \<in> set (w_entries ?w # w_stale ?w)" "map_of es ''state.json'' = Some m" for es m
    proof -
      from that have "\<exists>es'\<in>set (w_entries w # w_stale w). map_of es' ''state.json'' = Some m"
        using e by (auto simp: set_entries_def)
      with fresh_inode_new n(2) show ?thesis by (metis less_irrefl)
    qed
    moreover have "map_of (w_entries ?w) temp_name = Some n" using n(1) by (simp add: set_entries_def map_add_def)
    ultimately show ?thesis unfolding apart_def by blast
  qed
  have calls: "disk_in S (w\<lparr>w_calls := c\<rparr>) = disk_in S w" for w c by (simp add: disk_in_def)
  have "apart S w \<Longrightarrow> disk_in S w" for w by (simp add: apart_def)
  then show ?thesis
    using new [of "_\<lparr>w_calls := _\<rparr>", simplified]
    by (auto simp: hoare_def create_exclusive_def andThen_def syscall_def raise_def calls)
qed

lemma state_in_unsync:
  "(\<And>n. map_of es ''state.json'' = Some n \<Longrightarrow> n_ino n \<noteq> i) \<Longrightarrow> state_in S (unsync i es) = state_in S es"
  by (auto simp: state_in_def map_of_unsync split: if_splits)

lemma apart_write_file:
  assumes "apart S w"
  shows "apart S (write_file temp_name b w)"
proof -
  from assms obtain t where t: "map_of (w_entries w) temp_name = Some t" "disk_in S w"
    "\<And>es n. es \<in> set (w_entries w # w_stale w) \<Longrightarrow> map_of es ''state.json'' = Some n \<Longrightarrow> n_ino n \<noteq> n_ino t"
    unfolding apart_def by blast
  have s: "state_in S (set_data temp_name b es) = state_in S es" for es by (simp add: state_in_def)
  have "disk_in S (write_file temp_name b w)"
    using t(1,2) t(3) by (auto simp: write_file_def disk_in_def s intro!: state_in_unsync [THEN iffD2])
  moreover have "map_of (w_entries (write_file temp_name b w)) temp_name = Some (t\<lparr>n_data := b, n_synced := False\<rparr>)"
    using t(1) by (simp add: write_file_def map_of_set_data)
  moreover have "n_ino n \<noteq> n_ino t" if "es \<in> set (w_entries (write_file temp_name b w) # w_stale (write_file temp_name b w))"
    "map_of es ''state.json'' = Some n" for es n
  proof -
    from that t(1) have "\<exists>es'\<in>set (w_entries w # w_stale w). \<exists>n'. map_of es' ''state.json'' = Some n' \<and> n_ino n = n_ino n'"
      by (force simp: write_file_def map_of_unsync)
    with t(3) show ?thesis by metis
  qed
  ultimately show ?thesis unfolding apart_def by auto
qed

lemma apart_write:
  "hoare (apart S) (writeAll f temp_name b) (\<lambda>r w. apart S w \<and> (r = Inr () \<longrightarrow> temp_data w = Some b))"
proof -
  have c: "apart S (w\<lparr>w_calls := c\<rparr>) = apart S w" for w c by (simp add: apart_def disk_in_def)
  have "temp_data (write_file temp_name b w) = Some b" if "apart S w" for w
    using that by (auto simp: apart_def write_file_def temp_data_def map_of_set_data)
  then show ?thesis by (auto simp: hoare_def writeAll_def Let_def c intro!: apart_write_file)
qed

lemma apart_sync:
  "hoare (\<lambda>w. apart S w \<and> temp_data w = Some b) (sync_file f temp_name)
     (\<lambda>r w. disk_in S w \<and> (r = Inr () \<longrightarrow> temp_ready b w))"
  by (auto simp: hoare_def sync_file_def andThen_def syscall_def temp_data_def temp_ready_def map_of_sync apart_def
      disk_in_def state_in_def option.map_ident)

lemma disk_rename:
  "hoare (\<lambda>w. disk_in S w \<and> temp_ready b w) (renameat f temp_name ''state.json'') (\<lambda>r. disk_in (insert b S))"
  by (auto simp: hoare_def renameat_def andThen_def syscall_def temp_ready_def disk_in_def state_in_def set_entries_def
      map_of_rename)

lemma disk_sync_directory: "hoare (disk_in S) (sync_directory f) (\<lambda>r. disk_in S)"
  by (auto simp: hoare_def sync_directory_def andThen_def syscall_def disk_in_def)

lemma replaceFile_disk:
  "hoare (disk_in S) (replaceFile f ''state.json'' b) (\<lambda>r. disk_in (insert b S))"
proof (cases "maxSnapshotBytes < length b")
  case True
  then show ?thesis by (auto simp: replaceFile_def hoare_def raise_def intro: disk_in_mono)
next
  case False
  let ?Q = "\<lambda>r :: store_error + unit. disk_in (insert b S)" and ?T = "\<lambda>w. disk_in S w \<and> temp_ready b w"
  have up: "disk_in S w \<Longrightarrow> disk_in (insert b S) w" for w by (erule disk_in_mono) blast
  have q: "quiet m \<Longrightarrow> hoare (disk_in S) m (\<lambda>r w. case r of Inl e \<Rightarrow> ?Q (Inl e) w | Inr x \<Rightarrow> disk_in S w)" for m :: "'x io"
    by (rule hoare_quiet) (auto simp: disk_in_def state_in_def split: sum.splits)
  have qt: "quiet m \<Longrightarrow> hoare ?T m (\<lambda>r w. case r of Inl e \<Rightarrow> ?Q (Inl e) w | Inr x \<Rightarrow> ?T w)" for m :: "'x io"
    by (rule hoare_quiet) (auto simp: disk_in_def state_in_def temp_ready_def split: sum.splits)
  have create: "hoare (disk_in S) (create_exclusive f temp_name) (\<lambda>r w. case r of Inl e \<Rightarrow> ?Q (Inl e) w | Inr _ \<Rightarrow> apart S w)"
    by (rule hoare_post [OF apart_create]) (auto intro: up split: sum.splits)
  have wr: "hoare (apart S) (writeAll f temp_name b)
      (\<lambda>r w. case r of Inl e \<Rightarrow> ?Q (Inl e) w | Inr _ \<Rightarrow> apart S w \<and> temp_data w = Some b)"
    by (rule hoare_post [OF apart_write]) (auto simp: apart_def intro: up split: sum.splits)
  have sync: "hoare (\<lambda>w. apart S w \<and> temp_data w = Some b) (sync_file f temp_name)
      (\<lambda>r w. case r of Inl e \<Rightarrow> ?Q (Inl e) w | Inr _ \<Rightarrow> ?T w)"
    by (rule hoare_post [OF apart_sync]) (auto intro: up split: sum.splits)
  have rename: "hoare ?T (renameat f temp_name ''state.json'')
      (\<lambda>r w. case r of Inl e \<Rightarrow> ?Q (Inl e) w | Inr _ \<Rightarrow> disk_in (insert b S) w)"
    by (rule hoare_post [OF disk_rename]) (auto split: sum.splits)
  note steps = hoare_andThen [OF q [OF quiet_fstatat]] hoare_andThen [OF q [OF quiet_atoms(5)]]
    hoare_andThen [OF create] hoare_andThen [OF wr] hoare_andThen [OF sync] hoare_andThen [OF qt [OF quiet_atoms(4)]]
    hoare_andThen [OF qt [OF quiet_fstatat]] hoare_andThen [OF qt [OF quiet_atoms(5)]]
    hoare_andThen [OF rename] disk_sync_directory
  from False show ?thesis unfolding replaceFile_def by (simp, intro steps)
qed

lemma hoare_quiet_state:
  "quiet m \<Longrightarrow> hoare (\<lambda>w. state_data w = old) m (\<lambda>_ w. state_data w = old)"
  by (rule hoare_quiet) (auto simp: state_data_def)


subsection \<open>Decoded times are calendar times\<close>

lemma find_field_mem: "find_field fs k = Some d \<Longrightarrow> d \<in> snd ` set fs"
  by (auto simp: find_field_def find_Some_iff image_iff dest!: map_of_SomeD split: option.splits)
     (metis nth_mem snd_conv)+

definition preserves :: "('s \<Rightarrow> bool) \<Rightarrow> 's dec \<Rightarrow> bool" where
  "preserves P d \<longleftrightarrow> (\<forall>s v s'. P s \<longrightarrow> d s v = Some s' \<longrightarrow> P s')"

lemma dec_members_preserves:
  assumes "\<forall>d\<in>snd ` set fs. preserves P d"
  shows "P cur \<Longrightarrow> dec_members fs cur kvs = Some c \<Longrightarrow> P c"
proof (induction kvs arbitrary: cur)
  case (Cons kv kvs)
  obtain k v where kv: "kv = (k, v)" by (cases kv)
  with Cons.prems obtain d c1 where d: "find_field fs k = Some d" "d cur v = Some c1" "dec_members fs c1 kvs = Some c"
    by (auto split: option.splits)
  from assms find_field_mem [OF d(1)] have "preserves P d" by blast
  with Cons.prems(1) d(2) have "P c1" by (auto simp: preserves_def)
  from Cons.IH [OF this d(3)] show ?case .
qed simp

lemma dec_struct_preserves:
  "\<forall>d\<in>snd ` set fs. preserves P d \<Longrightarrow> preserves P (dec_struct fs)"
  using dec_members_preserves [of fs P]
  by (auto simp: preserves_def [of P "dec_struct fs"] dec_struct_def split: json.splits)

lemma dec_elems_preserves:
  assumes "preserves P d" "P zero"
  shows "\<forall>x\<in>set cur. P x \<Longrightarrow> dec_elems d zero cur vs = Some ys \<Longrightarrow> \<forall>y\<in>set ys. P y"
proof (induction vs arbitrary: cur ys)
  case (Cons v vs)
  let ?c = "case cur of c # _ \<Rightarrow> c | [] \<Rightarrow> zero"
  from Cons.prems obtain x xs where x: "d ?c v = Some x" "dec_elems d zero (tl cur) vs = Some xs" "ys = x # xs"
    by (auto split: option.splits)
  have "P ?c" using Cons.prems(1) assms(2) by (cases cur) auto
  with assms(1) x(1) have "P x" by (auto simp: preserves_def)
  moreover have "\<forall>y\<in>set (tl cur). P y" using Cons.prems(1) by (cases cur) auto
  then have "\<forall>y\<in>set xs. P y" by (rule Cons.IH [OF _ x(2)])
  ultimately show ?case using x(3) by simp
qed simp

lemma dec_time_ok: "dec_time cur v = Some t \<Longrightarrow> time_ok cur \<Longrightarrow> time_ok t"
  by (auto simp: dec_time_def dest: parse_rfc3339_ok split: json.splits option.splits if_splits)

lemma intent_fields_times: "\<forall>d\<in>snd ` set intent_fields. preserves intent_times d"
  by (auto simp: intent_fields_def preserves_def field_def intent_times_def dest: dec_time_ok)

lemma zero_intent_times: "intent_times zero_intent"
  by (simp add: intent_times_def zero_intent_def)

definition wire_times :: "wireSnapshot \<Rightarrow> bool" where
  "wire_times w \<longleftrightarrow> (\<forall>recs. w_Records w = Some recs \<longrightarrow> (\<forall>rec\<in>set recs. intent_times rec))"

lemma snapshot_fields_times: "\<forall>d\<in>snd ` set snapshot_fields. preserves wire_times d"
proof -
  have "\<forall>rec\<in>set ys. intent_times rec"
    if "dec_slice (dec_struct intent_fields) zero_intent cur v = Some (Some ys)"
      "\<forall>recs. cur = Some recs \<longrightarrow> (\<forall>rec\<in>set recs. intent_times rec)" for cur v ys
  proof -
    from that(1) obtain vs where "dec_elems (dec_struct intent_fields) zero_intent
        (case cur of None \<Rightarrow> [] | Some xs \<Rightarrow> xs) vs = Some ys"
      by (auto simp: dec_slice_def split: json.splits)
    from dec_elems_preserves [OF dec_struct_preserves [OF intent_fields_times] zero_intent_times _ this] that(2)
    show ?thesis by (auto split: option.splits)
  qed
  then show ?thesis by (auto simp: snapshot_fields_def preserves_def field_def wire_times_def)
qed

lemma decodeSnapshot_times:
  assumes "decodeSnapshot data sid = Inr s"
  shows "snapshot_times s"
proof -
  from assms obtain w recs where w: "decodeStrict snapshot_fields zero_wire data = Some w"
    "w_Records w = Some recs" "s = (w_Snapshot w)\<lparr>s_Records := recs\<rparr>"
    by (auto simp: decodeSnapshot_def Let_def split: if_splits option.splits)
  have "preserves wire_times (dec_struct snapshot_fields)"
    by (rule dec_struct_preserves [OF snapshot_fields_times])
  moreover have "wire_times zero_wire" by (simp add: wire_times_def zero_wire_def)
  ultimately have "wire_times w" using w(1)
    by (auto simp: preserves_def decodeStrict_def split: sum.splits)
  with w show ?thesis by (simp add: snapshot_times_def wire_times_def)
qed

text \<open>A transaction on decoded bytes writes bytes that decode to its result.\<close>

lemma transaction_bytes:
  assumes "decodeSnapshot old sid = Inr s" "effect sid s s'" "encodeSnapshot s' = Inr b"
  shows "decodeSnapshot b sid = Inr s'"
  by (rule decode_encode [OF effect_snapshot_ok [OF assms(2) decodeSnapshot_ok [OF assms(1)]]
      effect_times [OF assms(2) decodeSnapshot_times [OF assms(1)]] assms(3)])

subsection \<open>A transaction on the store\<close>

definition committed :: "string \<Rightarrow> 'a tx \<Rightarrow> bytes \<Rightarrow> bytes \<Rightarrow> 'a \<Rightarrow> bool" where
  "committed sid fn old b x \<longleftrightarrow>
     (\<exists>s s'. decodeSnapshot old sid = Inr s \<and> fn s = Inr (s', x) \<and> encodeSnapshot s' = Inr b)"

definition tx_outcome :: "string \<Rightarrow> 'a tx \<Rightarrow> bytes \<Rightarrow> store_error + 'a \<Rightarrow> world \<Rightarrow> bool" where
  "tx_outcome sid fn old r w =
     (case r of
        Inl _ \<Rightarrow> state_data w = Some old \<or> (\<exists>b x. committed sid fn old b x \<and> state_data w = Some b)
      | Inr x \<Rightarrow> (\<exists>b. committed sid fn old b x \<and> disk_in {b} w))"

lemma hoare_read:
  "hoare (\<lambda>w. state_data w = Some old) (readFile f ''state.json'' limit)
     (\<lambda>r w. state_data w = Some old \<and> (\<forall>d. r = Inr d \<longrightarrow> d = old))"
  by (auto simp: hoare_def readFile_def fstatat_def andThen_def syscall_def private_file_def require_def ret_def
      state_data_def split: if_splits option.splits)

lemma hoare_conj_pure: "(C \<Longrightarrow> hoare P m Q) \<Longrightarrow> hoare (\<lambda>w. P w \<and> C) m Q"
  by (auto simp: hoare_def)

text \<open>
  A writing transaction, for a precondition that only the replacement of the snapshot disturbs.
\<close>

lemma withSnapshot_rule:
  assumes state: "\<And>w. P w \<Longrightarrow> state_data w = Some old"
    and stable: "\<And>w w'. P w \<Longrightarrow> w_entries w' = w_entries w \<Longrightarrow> w_stale w' = w_stale w \<Longrightarrow> P w'"
    and failed: "\<And>e w. P w \<Longrightarrow> Q (Inl e) w"
    and replace: "\<And>b x. committed (st_storeID st) fn old b x \<Longrightarrow>
      hoare P (replaceFile f ''state.json'' b) (\<lambda>r w. case r of Inl e \<Rightarrow> Q (Inl e) w | Inr _ \<Rightarrow> Q (Inr x) w)"
  shows "hoare P (withSnapshot f st True fn) Q"
proof -
  have q: "hoare P m (\<lambda>r w. case r of Inl e \<Rightarrow> Q (Inl e) w | Inr x \<Rightarrow> P w)" if "quiet m" for m :: "'x io"
    by (rule hoare_quiet [OF that]) (auto split: sum.splits intro: failed stable)
  have lift: "hoare P (lift_result r) (\<lambda>r' w. case r' of Inl e \<Rightarrow> Q (Inl e) w | Inr x \<Rightarrow> P w \<and> r = Inr x)"
    for r :: "store_error + 'x"
    by (cases r) (auto simp: hoare_def lift_result_def raise_def ret_def failed)
  have rd: "hoare P (readFile f ''state.json'' maxSnapshotBytes)
      (\<lambda>r w. case r of Inl e \<Rightarrow> Q (Inl e) w | Inr d \<Rightarrow> P w \<and> d = old)"
    unfolding hoare_def
  proof (intro allI impI)
    fix w
    assume "P w"
    obtain r w' where run: "readFile f ''state.json'' maxSnapshotBytes w = (r, w')" by fastforce
    have "P w'" using quietD [OF quiet_readFile run] stable \<open>P w\<close> by blast
    with hoareD [OF hoare_read state [OF \<open>P w\<close>] run] failed
    show "case fst (readFile f ''state.json'' maxSnapshotBytes w) of
        Inl e \<Rightarrow> Q (Inl e) (snd (readFile f ''state.json'' maxSnapshotBytes w))
      | Inr d \<Rightarrow> P (snd (readFile f ''state.json'' maxSnapshotBytes w)) \<and> d = old"
      by (simp add: run split: sum.splits)
  qed
  have fin: "hoare (\<lambda>w. Q (Inr x) w) (ret x) Q" for x by (simp add: hoare_def ret_def)
  have action: "hoare P (snapshot_action f st True fn) Q"
    unfolding snapshot_action_def
  proof (intro hoare_andThen [OF q [OF quiet_header]] hoare_andThen [OF rd] hoare_andThen [OF lift] hoare_conj_pure)
    fix d s p
    assume d: "d = old" and s: "decodeSnapshot d (st_storeID st) = Inr s" and p: "fn s = Inr p"
    obtain s' x where p': "p = (s', x)" by (cases p)
    have c: "committed (st_storeID st) fn old b x" if "encodeSnapshot s' = Inr b" for b
      using that d s p p' by (auto simp: committed_def)
    show "hoare P (case p of (s', x) \<Rightarrow> if \<not> True then ret x
       else andThen (lift_result (encodeSnapshot s')) (\<lambda>encoded. andThen (verifyPathAndHeader f st) (\<lambda>_.
            andThen (replaceFile f ''state.json'' encoded) (\<lambda>_. ret x)))) Q"
      unfolding p' prod.case
      by (simp, intro hoare_andThen [OF lift] hoare_conj_pure hoare_andThen [OF q [OF quiet_header]])
         (rule hoare_andThen [OF replace fin], erule c)
  qed
  have r: "hoare P (raise e) Q" for e by (simp add: hoare_def raise_def failed)
  show ?thesis unfolding withSnapshot_def withLock_def
    by (cases "st_closed st"; cases "flock_loop (flocks f)";
        simp add: r; intro hoare_andThen [OF q] action r; blast)
qed

lemma withSnapshot_outcome:
  "hoare (\<lambda>w. state_data w = Some old) (withSnapshot f st True fn) (tx_outcome (st_storeID st) fn old)"
proof (rule withSnapshot_rule)
  show "hoare (\<lambda>w. state_data w = Some old) (replaceFile f ''state.json'' b)
     (\<lambda>r w. case r of Inl e \<Rightarrow> tx_outcome (st_storeID st) fn old (Inl e) w | Inr _ \<Rightarrow> tx_outcome (st_storeID st) fn old (Inr x) w)"
    if "committed (st_storeID st) fn old b x" for b x
    by (rule hoare_post [OF replaceFile_atomic]) (use that in \<open>auto simp: tx_outcome_def replaced_def split: sum.splits\<close>)
qed (auto simp: tx_outcome_def state_data_def)

text \<open>What the disk may hold after a transaction, however it ended.\<close>

lemma withSnapshot_disk:
  "hoare (disk_in {old}) (withSnapshot f st True fn)
     (\<lambda>r w. disk_in {old} w \<or> (\<exists>b x. committed (st_storeID st) fn old b x \<and> disk_in {b, old} w))"
  by (rule withSnapshot_rule)
     (auto simp: disk_in_def disk_in_data intro!: hoare_post [OF replaceFile_disk] split: sum.splits)

subsection \<open>A stale temporary file\<close>

lemma check_entries_subset:
  assumes "check_entries f want es w = (Inr u, w')"
  shows "set es \<subseteq> set want"
  using assms
proof (induction f want es arbitrary: w rule: check_entries.induct)
  case (2 f want e es)
  then obtain w2 where e: "e \<in> set want" "check_entries f (remove1 e want) es w2 = (Inr u, w')"
    by (auto simp: andThen_Inr raise_def split: if_splits)
  then have "\<not> e \<notin> set want" by simp
  from 2(1) [OF this e(2)] e(1) show ?case using set_remove1_subset [of e want] by auto
qed simp

lemma entries_no_temp:
  assumes "validateStoreEntries f w = (Inr u, w')"
  shows "temp_data w = None"
proof -
  have "w_entries (snd (syscall f w)) = w_entries w" for w by (simp add: syscall_def)
  with assms obtain w1 where w1: "w_entries w1 = w_entries w"
    "check_entries f [''lock'', ''store.json'', ''state.json''] (map fst (w_entries w1)) w1 = (Inr u, w')"
    by (auto simp: validateStoreEntries_def andThen_Inr raise_def split: if_splits) (metis snd_conv)
  from check_entries_subset [OF w1(2)] w1(1) show ?thesis
    by (auto simp: temp_data_def map_of_eq_None_iff)
qed

definition stopped :: "'a io \<Rightarrow> bool" where
  "stopped m \<longleftrightarrow> hoare (\<lambda>w. temp_data w \<noteq> None) m (\<lambda>r w. \<not> ok r)"

lemma stopped_first: "stopped m \<Longrightarrow> stopped (andThen m g)"
  unfolding stopped_def hoare_def andThen_def by (auto split: sum.splits prod.splits)

lemma stopped_quiet: "quiet m \<Longrightarrow> (\<And>x. stopped (g x)) \<Longrightarrow> stopped (andThen m g)"
  unfolding stopped_def
  by (rule hoare_andThen [where R = "\<lambda>x w. temp_data w \<noteq> None"], rule hoare_quiet, assumption)
     (auto simp: temp_data_def split: sum.splits)

lemma stopped_raise: "stopped (raise x)"
  by (simp add: stopped_def hoare_def raise_def)

lemma stopped_entries: "stopped (validateStoreEntries f)"
proof -
  have "\<not> ok (fst (validateStoreEntries f w))" if p: "temp_data w \<noteq> None" for w
  proof -
    obtain r w1 where v: "validateStoreEntries f w = (r, w1)" by fastforce
    from p v entries_no_temp [of f w _ w1] show ?thesis by (cases r) auto
  qed
  then show ?thesis by (simp add: stopped_def hoare_def)
qed

lemma stopped_header: "stopped (verifyPathAndHeader f st)"
  unfolding verifyPathAndHeader_def
  by (intro stopped_quiet [OF quiet_verifyPath] stopped_first [OF stopped_entries])

lemma stale_temp_stops:
  assumes "temp_data w \<noteq> None"
  shows "\<not> ok (fst (withSnapshot f st wr fn w))"
proof -
  have a: "stopped (snapshot_action f st wr fn)"
    unfolding snapshot_action_def by (rule stopped_first [OF stopped_header])
  have "stopped (withSnapshot f st wr fn)"
    unfolding withSnapshot_def withLock_def
    by (cases "flock_loop (flocks f)")
       (auto intro!: stopped_quiet stopped_raise a simp del: not_None_eq)
  with assms show ?thesis by (simp add: stopped_def hoare_def)
qed

end
