(* ===== verification/RemoteSnapshot.thy ===== *)
theory RemoteSnapshot
  imports StoreDisk
begin

text \<open>
  The remote store: \<open>remote_snapshot.go\<close> and \<open>remote_descriptor_posix.go\<close>. The Runner's
  private-file service is not part of the program: its state and its answers are the
  \<open>deliver\<close> parameter, as are SHA-256, the random source and what each reading of the
  descriptor file finds on disk. Every request that leaves the process is recorded with its
  answer in \<open>rw_sent\<close>.
\<close>

subsection \<open>IP addresses\<close>

text \<open>
  \<open>net.ParseIP\<close> as sixteen bytes, following \<open>netip.ParseAddr\<close>: the first of \<open>.\<close>, \<open>:\<close> and
  \<open>%\<close> decides, and a zone is refused.
\<close>

definition hex_val :: "string \<Rightarrow> nat" where
  "hex_val g = foldl (\<lambda>a c. 16 * a + the (hex_digit c)) 0 g"

definition ipv4_bytes :: "string \<Rightarrow> nat list option" where
  "ipv4_bytes s = (if ipv4_fields s then Some (map (\<lambda>f. the (digits_val 0 f)) (split_on (CHR ''.'') s)) else None)"

definition fill_ellipsis :: "nat list \<Rightarrow> nat option \<Rightarrow> nat list option" where
  "fill_ellipsis bs ell =
     (case ell of None \<Rightarrow> if length bs = 16 then Some bs else None
      | Some e \<Rightarrow> if length bs < 16 then Some (take e bs @ replicate (16 - length bs) 0 @ drop e bs) else None)"

fun ipv6_bytes :: "nat \<Rightarrow> nat list \<Rightarrow> nat option \<Rightarrow> string \<Rightarrow> nat list option" where
  "ipv6_bytes 0 bs ell s = (if s = [] then fill_ellipsis bs ell else None)"
| "ipv6_bytes (Suc fuel) bs ell s =
     (let g = takeWhile is_hex s; r = dropWhile is_hex s; bs' = bs @ [hex_val g div 256, hex_val g mod 256] in
      if g = [] \<or> 4 < length g then None
      else case r of [] \<Rightarrow> fill_ellipsis bs' ell
      | c # r1 \<Rightarrow>
          if c = CHR ''.'' then
            (if ell = None \<and> length bs \<noteq> 12 \<or> 16 < length bs + 4 then None
             else case ipv4_bytes s of None \<Rightarrow> None | Some q \<Rightarrow> fill_ellipsis (bs @ q) ell)
          else if c \<noteq> CHR '':'' \<or> r1 = [] then None
          else if hd r1 = CHR '':'' then
            (if ell \<noteq> None then None
             else if tl r1 = [] then fill_ellipsis bs' (Some (length bs'))
             else ipv6_bytes fuel bs' (Some (length bs')) (tl r1))
          else ipv6_bytes fuel bs' ell r1)"

definition parse_ip :: "string \<Rightarrow> nat list option" where
  "parse_ip s =
     (if CHR ''%'' \<in> set s then None
      else case dropWhile (\<lambda>c. c \<noteq> CHR ''.'' \<and> c \<noteq> CHR '':'') s of [] \<Rightarrow> None
      | c # _ \<Rightarrow>
          if c = CHR ''.'' then map_option (\<lambda>q. replicate 10 0 @ [255, 255] @ q) (ipv4_bytes s)
          else if s = ''::'' then Some (replicate 16 0)
          else if has_prefix s ''::'' then ipv6_bytes 8 [] (Some 0) (drop 2 s)
          else ipv6_bytes 8 [] None s)"

definition is_loopback :: "nat list \<Rightarrow> bool" where
  "is_loopback b \<longleftrightarrow>
     (if take 12 b = replicate 10 0 @ [255, 255] then b ! 12 = 127 else b = replicate 15 0 @ [1])"

subsection \<open>Data\<close>

definition privateRunFilesPath :: string where "privateRunFilesPath = ''/internal/private-run-files/v1''"
definition maxRemoteWireBytes :: nat where "maxRemoteWireBytes = maxSnapshotBytes * 4 div 3 + 8192"
definition maxRemoteVersion :: nat where "maxRemoteVersion = 9007199254740991"
definition maxDescriptorBytes :: nat where "maxDescriptorBytes = 4 * 2 ^ 20"
definition maxDescriptorSequence :: nat where "maxDescriptorSequence = 2048"

record remoteFileGrant =
  g_Slot :: string
  g_Endpoint :: string
  g_Grant :: string

record remoteSnapshotBackend =
  rb_endpoint :: string
  rb_grant :: string
  rb_descriptorPath :: string
  rb_slot :: string
  rb_endpoints :: "(string \<times> string) list"
  rb_sequence :: nat
  rb_descriptorDigest :: bytes
  rb_binding :: StoreBinding

record remoteDescriptor =
  d_sequence :: nat
  d_digest :: bytes
  d_endpoints :: "(string \<times> string) list"
  d_grant :: string

record remoteReceipt =
  rc_Version :: nat
  rc_Digest :: string
  rc_CommitID :: string
  rc_ExpectedVersion :: nat

record remoteResponse =
  rr_Kind :: string
  rr_Version :: nat
  rr_Digest :: string
  rr_BytesBase64 :: string
  rr_Receipt :: "remoteReceipt option"
  rr_CommitID :: string
  rr_ExpectedVersion :: nat

text \<open>What the transport gives back: nothing, or a status and the body when it could be read.\<close>

datatype reply = NoReply | Reply nat "bytes option"

record sent =
  x_URL :: string
  x_Grant :: string
  x_Body :: bytes
  x_Reply :: reply

record 's remote_env =
  sha256 :: "bytes \<Rightarrow> bytes"
  descriptor_at :: "nat \<Rightarrow> faults \<times> world"
  random_at :: "nat \<Rightarrow> bytes option"
  deliver :: "'s \<Rightarrow> string \<Rightarrow> string \<Rightarrow> bytes \<Rightarrow> reply \<times> 's"
  env_static :: "bytes option"
  env_file :: "string option"

record 's rworld =
  rw_backend :: remoteSnapshotBackend
  rw_service :: 's
  rw_reads :: nat
  rw_keys :: nat
  rw_sent :: "sent list"

type_synonym ('s, 'a) remote = "('s rworld, store_error, 'a) st"

subsection \<open>Wire forms\<close>

definition grant_fields :: "remoteFileGrant fields" where
  "grant_fields =
     [field ''slot'' g_Slot g_Slot_update dec_string,
      field ''endpoint'' g_Endpoint g_Endpoint_update dec_string,
      field ''grant'' g_Grant g_Grant_update dec_string]"

definition zero_grant :: remoteFileGrant where
  "zero_grant = \<lparr>g_Slot = [], g_Endpoint = [], g_Grant = []\<rparr>"

definition decode_grants :: "bytes \<Rightarrow> remoteFileGrant list option" where
  "decode_grants raw =
     (case decode raw of Inl _ \<Rightarrow> None | Inr v \<Rightarrow> dec_list (dec_struct grant_fields) zero_grant [] v)"

record envelope =
  v_Version :: "nat option"
  v_Sequence :: "nat option"
  v_Files :: "remoteFileGrant list option"

definition envelope_fields :: "envelope fields" where
  "envelope_fields =
     [field ''version'' v_Version v_Version_update (dec_pointer dec_uint64 0),
      field ''sequence'' v_Sequence v_Sequence_update (dec_pointer dec_uint64 0),
      field ''files'' v_Files v_Files_update (dec_pointer (dec_list (dec_struct grant_fields) zero_grant) [])]"

definition zero_receipt :: remoteReceipt where
  "zero_receipt = \<lparr>rc_Version = 0, rc_Digest = [], rc_CommitID = [], rc_ExpectedVersion = 0\<rparr>"

definition receipt_fields :: "remoteReceipt fields" where
  "receipt_fields =
     [field ''version'' rc_Version rc_Version_update dec_uint64,
      field ''digest'' rc_Digest rc_Digest_update dec_string,
      field ''commitId'' rc_CommitID rc_CommitID_update dec_string,
      field ''expectedVersion'' rc_ExpectedVersion rc_ExpectedVersion_update dec_uint64]"

definition zero_response :: remoteResponse where
  "zero_response = \<lparr>rr_Kind = [], rr_Version = 0, rr_Digest = [], rr_BytesBase64 = [], rr_Receipt = None,
     rr_CommitID = [], rr_ExpectedVersion = 0\<rparr>"

definition response_fields :: "remoteResponse fields" where
  "response_fields =
     [field ''kind'' rr_Kind rr_Kind_update dec_string,
      field ''version'' rr_Version rr_Version_update dec_uint64,
      field ''digest'' rr_Digest rr_Digest_update dec_string,
      field ''bytesBase64'' rr_BytesBase64 rr_BytesBase64_update dec_string,
      field ''receipt'' rr_Receipt rr_Receipt_update (dec_pointer (dec_struct receipt_fields) zero_receipt),
      field ''commitId'' rr_CommitID rr_CommitID_update dec_string,
      field ''expectedVersion'' rr_ExpectedVersion rr_ExpectedVersion_update dec_uint64]"

subsection \<open>Grants and descriptors\<close>

definition remoteSlot :: "string \<Rightarrow> bool" where
  "remoteSlot v = match_rep is_alnum (\<lambda>c. is_alnum c \<or> c \<in> set ''._-'') 0 127 v"

definition remoteDigest :: "string \<Rightarrow> bool" where
  "remoteDigest v \<longleftrightarrow> has_prefix v ''sha256:'' \<and> length v = 71 \<and>
     list_all (\<lambda>c. is_digit c \<or> c \<in> set ''abcdef'') (drop 7 v)"

definition validPrivateRunFilesEndpoint :: "string \<Rightarrow> bool" where
  "validPrivateRunFilesEndpoint raw =
     (case url_parse raw of None \<Rightarrow> False
      | Some u \<Rightarrow>
          if url_opaque u \<noteq> [] \<or> url_user u \<or> url_host u = [] \<or> url_path u \<noteq> privateRunFilesPath \<or>
             url_raw u \<noteq> url_path u \<or> url_query u \<noteq> [] \<or> url_force_query u \<or> url_fragment u \<noteq> [] \<or>
             CHR ''#'' \<in> set raw \<or> has_suffix (url_host u) ''.''
          then False
          else if url_scheme u = ''https'' then True
          else if url_scheme u \<noteq> ''http'' then False
          else hostname u = ''localhost'' \<or>
               (case parse_ip (hostname u) of None \<Rightarrow> False | Some b \<Rightarrow> is_loopback b))"

definition validRemoteGrant :: "string \<Rightarrow> bool" where
  "validRemoteGrant g \<longleftrightarrow> g \<noteq> [] \<and> length g \<le> 8192 \<and> list_all (\<lambda>c. 33 \<le> byte c \<and> byte c \<le> 126) g"

fun select_loop ::
  "string \<Rightarrow> (string \<times> string) list \<Rightarrow> remoteFileGrant option \<Rightarrow> remoteFileGrant list \<Rightarrow>
   (remoteFileGrant option \<times> (string \<times> string) list) option" where
  "select_loop slot eps sel [] = Some (sel, eps)"
| "select_loop slot eps sel (g # gs) =
     (if \<not> remoteSlot (g_Slot g) \<or> map_of eps (g_Slot g) \<noteq> None \<or>
         \<not> validPrivateRunFilesEndpoint (g_Endpoint g) \<or> \<not> validRemoteGrant (g_Grant g) then None
      else select_loop slot (eps @ [(g_Slot g, g_Endpoint g)]) (if g_Slot g = slot then Some g else sel) gs)"

definition selectRemoteGrant ::
  "remoteFileGrant list \<Rightarrow> string \<Rightarrow> store_error + remoteFileGrant \<times> (string \<times> string) list" where
  "selectRemoteGrant grants slot =
     (if grants = [] \<or> 256 < length grants then Inl ErrStoreUnavailable
      else case select_loop slot [] None grants of
        Some (Some g, eps) \<Rightarrow> Inr (g, eps) | _ \<Rightarrow> Inl ErrStoreUnavailable)"

text \<open>\<open>filepath.Dir\<close> and \<open>filepath.Base\<close> of a clean absolute path.\<close>

definition dir_of :: "string \<Rightarrow> string" where
  "dir_of p = clean_abs (rev (dropWhile (\<lambda>c. c \<noteq> CHR ''/'') (rev p)))"

definition base_of :: "string \<Rightarrow> string" where
  "base_of p = (if p = ''/'' then p else rev (takeWhile (\<lambda>c. c \<noteq> CHR ''/'') (rev p)))"

definition readPrivateDescriptor :: "faults \<Rightarrow> string \<Rightarrow> nat \<Rightarrow> bytes io" where
  "readPrivateDescriptor f p limit =
     (if p = [] \<or> \<not> has_prefix p ''/'' \<or> clean_abs p \<noteq> p \<or> limit < 1 then raise ErrStoreUnavailable
      else andThen (openSecureDirectory f (dir_of p)) (\<lambda>dir.
        andThen (fstatat f (base_of p)) (\<lambda>n. andThen (syscall f) (\<lambda>_. andThen (private_file n) (\<lambda>_.
        andThen (require (1 \<le> length (n_data n) \<and> length (n_data n) \<le> limit)) (\<lambda>_.
        andThen (syscall f) (\<lambda>_. andThen (syscall f) (\<lambda>_.
        andThen (verifyPathIdentity f dir) (\<lambda>_. ret (n_data n))))))))))"

definition readRemoteDescriptor :: "'s remote_env \<Rightarrow> string \<Rightarrow> string \<Rightarrow> ('s, remoteDescriptor) remote" where
  "readRemoteDescriptor env p slot w =
     (let (f, disk) = descriptor_at env (rw_reads w); w' = w\<lparr>rw_reads := rw_reads w + 1\<rparr> in
      case fst (readPrivateDescriptor f p maxDescriptorBytes disk) of Inl _ \<Rightarrow> (Inl ErrStoreUnavailable, w')
      | Inr raw \<Rightarrow>
          (case decodeStrict envelope_fields \<lparr>v_Version = None, v_Sequence = None, v_Files = None\<rparr> raw of
             None \<Rightarrow> (Inl ErrStoreUnavailable, w')
           | Some e \<Rightarrow>
               (case (v_Version e, v_Sequence e, v_Files e) of
                  (Some v, Some q, Some files) \<Rightarrow>
                    if v \<noteq> 1 \<or> maxDescriptorSequence < q then (Inl ErrStoreUnavailable, w')
                    else (case selectRemoteGrant files slot of Inl e \<Rightarrow> (Inl e, w')
                      | Inr (g, eps) \<Rightarrow>
                          (Inr \<lparr>d_sequence = q, d_digest = sha256 env raw, d_endpoints = eps,
                             d_grant = g_Grant g\<rparr>, w'))
                | _ \<Rightarrow> (Inl ErrStoreUnavailable, w'))))"

definition endpoints_match :: "(string \<times> string) list \<Rightarrow> (string \<times> string) list \<Rightarrow> bool" where
  "endpoints_match now pinned \<longleftrightarrow>
     length now = length pinned \<and> list_all (\<lambda>(slot, endpoint). map_of now slot = Some endpoint) pinned"

definition currentGrant :: "'s remote_env \<Rightarrow> ('s, string) remote" where
  "currentGrant env w =
     (let r = rw_backend w in
      if rb_descriptorPath r = [] then (Inr (rb_grant r), w)
      else case readRemoteDescriptor env (rb_descriptorPath r) (rb_slot r) w of
        (Inl _, w') \<Rightarrow> (Inl ErrStoreUnavailable, w')
      | (Inr d, w') \<Rightarrow>
          if \<not> endpoints_match (d_endpoints d) (rb_endpoints r) then (Inl ErrStoreUnavailable, w')
          else if d_sequence d < rb_sequence r \<or>
                  d_sequence d = rb_sequence r \<and> d_digest d \<noteq> rb_descriptorDigest r
          then (Inl ErrStoreUnavailable, w')
          else (Inr (d_grant d),
                if rb_sequence r < d_sequence d
                then w'\<lparr>rw_backend := r\<lparr>rb_sequence := d_sequence d, rb_descriptorDigest := d_digest d\<rparr>\<rparr>
                else w'))"

subsection \<open>Requests\<close>

text \<open>\<open>post\<close>: the response when one was read and decoded (\<open>err == nil\<close>), and the status.\<close>

definition post :: "'s remote_env \<Rightarrow> string \<Rightarrow> goval \<Rightarrow> 's rworld \<Rightarrow> (remoteResponse option \<times> nat) \<times> 's rworld" where
  "post env op body w =
     (case currentGrant env w of (Inl _, w1) \<Rightarrow> ((None, 0), w1)
      | (Inr grant, w1) \<Rightarrow>
          (case to_json body of None \<Rightarrow> ((None, 0), w1)
           | Some j \<Rightarrow>
               let url = rb_endpoint (rw_backend w1) @ ''/'' @ op; encoded = json_text j in
               if url_parse url = None then ((None, 0), w1)
               else (case deliver env (rw_service w1) url grant encoded of (reply, s') \<Rightarrow>
                 let w2 = w1\<lparr>rw_service := s', rw_sent := rw_sent w1 @
                   [\<lparr>x_URL = url, x_Grant = grant, x_Body = encoded, x_Reply = reply\<rparr>]\<rparr> in
                 (case reply of NoReply \<Rightarrow> ((None, 0), w2)
                  | Reply status None \<Rightarrow> ((None, status), w2)
                  | Reply status (Some data) \<Rightarrow>
                      if maxRemoteWireBytes < length data then ((None, status), w2)
                      else ((decodeStrict response_fields zero_response data, status), w2)))))"

definition snapshotDigest :: "'s remote_env \<Rightarrow> bytes \<Rightarrow> string" where
  "snapshotDigest env data = ''sha256:'' @ hex_encode (sha256 env data)"

definition remote_read :: "'s remote_env \<Rightarrow> ('s, (bytes \<times> nat) option) remote" where
  "remote_read env w =
     (case post env ''read'' (GStruct []) w of
        ((Some r, status), w') \<Rightarrow>
          if status \<noteq> 200 then (Inl ErrStoreUnavailable, w')
          else if rr_Kind r = ''absent'' then
            (if rr_Version r \<noteq> 0 \<or> rr_Digest r \<noteq> [] \<or> rr_BytesBase64 r \<noteq> [] \<or> rr_Receipt r \<noteq> None
             then (Inl ErrStoreUnavailable, w') else (Inr None, w'))
          else if rr_Kind r = ''present'' then
            (if rr_Version r = 0 \<or> maxRemoteVersion < rr_Version r \<or> \<not> remoteDigest (rr_Digest r) \<or>
                rr_Receipt r \<noteq> None
             then (Inl ErrStoreUnavailable, w')
             else case b64_decode True (rr_BytesBase64 r) of None \<Rightarrow> (Inl ErrStoreUnavailable, w')
             | Some data \<Rightarrow>
                 if data = [] \<or> maxSnapshotBytes < length data \<or> snapshotDigest env data \<noteq> rr_Digest r
                 then (Inl ErrStoreUnavailable, w')
                 else (Inr (Some (data, rr_Version r)), w'))
          else (Inl ErrStoreUnavailable, w')
      | ((None, _), w') \<Rightarrow> (Inl ErrStoreUnavailable, w'))"

definition validRemoteReceipt :: "remoteReceipt option \<Rightarrow> nat \<Rightarrow> string \<Rightarrow> string \<Rightarrow> bool" where
  "validRemoteReceipt receipt expectedVersion i digest =
     (case receipt of None \<Rightarrow> False
      | Some r \<Rightarrow> rc_ExpectedVersion r = expectedVersion \<and> rc_Version r = expectedVersion + 1 \<and>
          rc_Version r \<le> maxRemoteVersion \<and> rc_CommitID r = i \<and> rc_Digest r = digest)"

definition resolve_body :: "nat \<Rightarrow> string \<Rightarrow> string \<Rightarrow> goval" where
  "resolve_body expectedVersion i digest = GStruct
     [(''expectedVersion'', False, GInt (int expectedVersion)), (''commitId'', False, GString i),
      (''digest'', False, GString digest)]"

definition resolve :: "'s remote_env \<Rightarrow> nat \<Rightarrow> string \<Rightarrow> string \<Rightarrow> ('s, unit) remote" where
  "resolve env expectedVersion i digest w =
     (case post env ''resolve'' (resolve_body expectedVersion i digest) w of
        ((Some r, status), w') \<Rightarrow>
          if status \<noteq> 200 then (Inl ErrStoreUncertain, w')
          else if rr_Kind r = ''committed'' \<and> validRemoteReceipt (rr_Receipt r) expectedVersion i digest
          then (Inr (), w') else (Inl ErrStoreUncertain, w')
      | ((None, _), w') \<Rightarrow> (Inl ErrStoreUncertain, w'))"

definition commit_body :: "nat \<Rightarrow> string \<Rightarrow> bytes \<Rightarrow> goval" where
  "commit_body expectedVersion i data = GStruct
     [(''expectedVersion'', False, GInt (int expectedVersion)), (''commitId'', False, GString i),
      (''bytesBase64'', False, GString (b64_encode data))]"

definition commit :: "'s remote_env \<Rightarrow> nat \<Rightarrow> bytes \<Rightarrow> ('s, unit) remote" where
  "commit env expectedVersion data w =
     (if maxRemoteVersion \<le> expectedVersion \<or> data = [] \<or> maxSnapshotBytes < length data
      then (Inl ErrStoreUnavailable, w)
      else let w0 = w\<lparr>rw_keys := rw_keys w + 1\<rparr> in
      case newKey (random_at env (rw_keys w)) of None \<Rightarrow> (Inl ErrStoreUnavailable, w0)
      | Some i \<Rightarrow>
          (let digest = snapshotDigest env data in
           case post env ''commit'' (commit_body expectedVersion i data) w0 of ((response, status), w') \<Rightarrow>
             if response = None \<or> 500 \<le> status \<or> 300 \<le> status \<and> status < 400
             then resolve env expectedVersion i digest w'
             else if status \<noteq> 200 then (Inl ErrStoreUnavailable, w')
             else let r = the response in
               if rr_Kind r = ''committed'' \<or> rr_Kind r = ''replayed'' then
                 (if validRemoteReceipt (rr_Receipt r) expectedVersion i digest then (Inr (), w')
                  else (Inl ErrStoreUncertain, w'))
               else if rr_Kind r = ''conflict'' then
                 (if rr_CommitID r \<noteq> i \<or> rr_ExpectedVersion r \<noteq> expectedVersion \<or> rr_Digest r \<noteq> digest
                  then (Inl ErrStoreUncertain, w') else (Inl ErrStoreConflict, w'))
               else if rr_Kind r = ''authority_rejected'' then (Inl ErrStoreUnavailable, w')
               else resolve env expectedVersion i digest w'))"

subsection \<open>The remote store\<close>

definition bound_snapshot :: "bytes \<Rightarrow> string \<Rightarrow> StoreBinding \<Rightarrow> store_error + diskSnapshot" where
  "bound_snapshot data storeID binding =
     (case decodeSnapshot data storeID of Inl _ \<Rightarrow> Inl ErrStoreIdentity
      | Inr s \<Rightarrow> if s_Binding s \<noteq> Some binding then Inl ErrStoreIdentity else Inr s)"

definition remote_withSnapshot :: "'s remote_env \<Rightarrow> string \<Rightarrow> bool \<Rightarrow> 'a tx \<Rightarrow> ('s, 'a) remote" where
  "remote_withSnapshot env storeID write fn =
     andThen (remote_read env) (\<lambda>found.
       (case found of None \<Rightarrow> raise ErrStoreUnavailable
        | Some (data, version) \<Rightarrow> (\<lambda>w.
            (case bound_snapshot data storeID (rb_binding (rw_backend w)) of Inl e \<Rightarrow> (Inl e, w)
             | Inr s \<Rightarrow>
                 andThen (lift_result (fn s)) (\<lambda>(s', x).
                   if \<not> write then ret x
                   else andThen (lift_result (encodeSnapshot s')) (\<lambda>encoded.
                     andThen (commit env version encoded) (\<lambda>_. ret x))) w))))"

definition remoteBackendForSlot :: "'s remote_env \<Rightarrow> string \<Rightarrow> ('s, remoteSnapshotBackend) remote" where
  "remoteBackendForSlot env slot w =
     (let zero = \<lparr>rb_endpoint = [], rb_grant = [], rb_descriptorPath = [], rb_slot = [], rb_endpoints = [],
        rb_sequence = 0, rb_descriptorDigest = replicate 32 nul, rb_binding = \<lparr>b_HostAPI = []\<rparr>\<rparr> in
      case (env_static env, env_file env) of
        (None, Some p) \<Rightarrow>
          if p = [] \<or> \<not> has_prefix p ''/'' \<or> clean_abs p \<noteq> p then (Inl ErrStoreUnavailable, w)
          else (case readRemoteDescriptor env p slot w of (Inl e, w') \<Rightarrow> (Inl e, w')
            | (Inr d, w') \<Rightarrow>
                (Inr (zero\<lparr>rb_endpoint := (case map_of (d_endpoints d) slot of None \<Rightarrow> [] | Some e \<Rightarrow> e),
                   rb_descriptorPath := p, rb_slot := slot, rb_endpoints := d_endpoints d,
                   rb_sequence := d_sequence d, rb_descriptorDigest := d_digest d\<rparr>), w'))
      | (Some raw, None) \<Rightarrow>
          if raw = [] \<or> 2 ^ 20 < length raw then (Inl ErrStoreUnavailable, w)
          else (case decode_grants raw of None \<Rightarrow> (Inl ErrStoreUnavailable, w)
            | Some grants \<Rightarrow>
                (case selectRemoteGrant grants slot of Inl e \<Rightarrow> (Inl e, w)
                 | Inr (g, _) \<Rightarrow> (Inr (zero\<lparr>rb_endpoint := g_Endpoint g, rb_grant := g_Grant g\<rparr>), w)))
      | _ \<Rightarrow> (Inl ErrStoreUnavailable, w))"

text \<open>An absent slot is initialised; the loser of a race adopts what the winner wrote.\<close>

definition initialize_remote :: "'s remote_env \<Rightarrow> string \<Rightarrow> StoreBinding \<Rightarrow> ('s, bytes) remote" where
  "initialize_remote env storeID binding w =
     (case marshal (enc_snapshot (initial_snapshot storeID (Some binding))) of
        Inl _ \<Rightarrow> (Inl ErrStoreUnavailable, w)
      | Inr data \<Rightarrow>
          (case commit env 0 data w of
             (Inr _, w') \<Rightarrow> (Inr data, w')
           | (Inl e, w') \<Rightarrow>
               if e \<noteq> ErrStoreConflict then (Inl e, w')
               else (case remote_read env w' of
                   (Inl e2, w2) \<Rightarrow> (Inl e2, w2)
                 | (Inr None, w2) \<Rightarrow> (Inl ErrStoreUnavailable, w2)
                 | (Inr (Some (data2, _)), w2) \<Rightarrow> (Inr data2, w2))))"

definition OpenRemote :: "'s remote_env \<Rightarrow> string \<Rightarrow> string \<Rightarrow> StoreBinding \<Rightarrow> ('s, unit) remote" where
  "OpenRemote env slot storeID binding =
     (if \<not> remoteSlot slot \<or> \<not> ok (validateStoreID storeID) \<or> \<not> ok (validateStoreBinding binding)
      then raise ErrStoreUnavailable
      else andThen (remoteBackendForSlot env slot) (\<lambda>backend w.
        andThen (remote_read env) (\<lambda>found.
          andThen (case found of Some (data, _) \<Rightarrow> ret data | None \<Rightarrow> initialize_remote env storeID binding) (\<lambda>data.
          andThen (lift_result (bound_snapshot data storeID binding)) (\<lambda>_. ret ())))
        (w\<lparr>rw_backend := backend\<lparr>rb_binding := binding\<rparr>\<rparr>)))"

text \<open>\<open>Begin\<close> on a store whose snapshots are remote.\<close>

definition remote_Begin ::
  "'s remote_env \<Rightarrow> string \<Rightarrow> bytes option \<Rightarrow> go_time \<Rightarrow> BeginRequest \<Rightarrow> ('s, Intent) remote" where
  "remote_Begin env storeID rand now r =
     (case validateBegin r of Inl e \<Rightarrow> raise e
      | Inr r' \<Rightarrow> remote_withSnapshot env storeID True (Begin_fn storeID rand now r'))"

end
