(* ===== verification/RemoteLaws.thy ===== *)
theory RemoteLaws
  imports RemoteSnapshot
begin

text \<open>
  The remote store against an arbitrary service: what requests leave the process, in which
  order, and what an answer has to carry before an operation reports success. Each operation
  is described by the requests it adds to the log and by what it may change in the backend.
\<close>

subsection \<open>The backend\<close>

definition pinned :: "remoteSnapshotBackend \<Rightarrow> remoteSnapshotBackend \<Rightarrow> bool" where
  "pinned r r' \<longleftrightarrow>
     r' = r\<lparr>rb_sequence := rb_sequence r', rb_descriptorDigest := rb_descriptorDigest r'\<rparr> \<and>
     rb_sequence r \<le> rb_sequence r' \<and>
     (rb_sequence r' = rb_sequence r \<longrightarrow> rb_descriptorDigest r' = rb_descriptorDigest r)"

lemma pinned_refl [simp]: "pinned r r"
  by (simp add: pinned_def)

lemma pinned_trans [trans]: "pinned a b \<Longrightarrow> pinned b c \<Longrightarrow> pinned a c"
  by (cases a; cases b; cases c) (auto simp: pinned_def)

lemma pinned_fields:
  "pinned r r' \<Longrightarrow> rb_endpoint r' = rb_endpoint r \<and> rb_binding r' = rb_binding r \<and>
     rb_descriptorPath r' = rb_descriptorPath r \<and> rb_slot r' = rb_slot r \<and> rb_endpoints r' = rb_endpoints r"
  by (cases r; cases r') (auto simp: pinned_def)

text \<open>An operation that adds the requests \<open>xs\<close>, uses up \<open>k\<close> random keys and keeps the pins.\<close>

definition sends :: "'s rworld \<Rightarrow> 's rworld \<Rightarrow> sent list \<Rightarrow> bool" where
  "sends w w' xs \<longleftrightarrow> rw_sent w' = rw_sent w @ xs \<and> pinned (rw_backend w) (rw_backend w')"

lemma sends_trans: "sends w w1 xs \<Longrightarrow> sends w1 w2 ys \<Longrightarrow> sends w w2 (xs @ ys)"
  by (auto simp: sends_def intro: pinned_trans)

lemma sends_refl [simp]: "sends w w []"
  by (simp add: sends_def)

lemma readRemoteDescriptor_world:
  "readRemoteDescriptor env p slot w = (r, w') \<Longrightarrow> w' = w\<lparr>rw_reads := rw_reads w + 1\<rparr>"
  by (auto simp: readRemoteDescriptor_def Let_def split: prod.splits sum.splits option.splits if_splits)

lemma currentGrant_frame:
  assumes "currentGrant env w = (r, w')"
  shows "rw_sent w' = rw_sent w" "pinned (rw_backend w) (rw_backend w')" "rw_keys w' = rw_keys w"
    "rw_service w' = rw_service w"
proof -
  obtain d w1 where d: "readRemoteDescriptor env (rb_descriptorPath (rw_backend w)) (rb_slot (rw_backend w)) w = (d, w1)"
    by fastforce
  have "rw_sent w' = rw_sent w \<and> pinned (rw_backend w) (rw_backend w') \<and> rw_keys w' = rw_keys w \<and> rw_service w' = rw_service w"
    using assms readRemoteDescriptor_world [OF d] d
    by (auto simp: currentGrant_def Let_def pinned_def split: if_splits sum.splits)
  then show "rw_sent w' = rw_sent w" "pinned (rw_backend w) (rw_backend w')" "rw_keys w' = rw_keys w"
    "rw_service w' = rw_service w" by simp_all
qed

subsection \<open>One request\<close>

definition op_url :: "'s rworld \<Rightarrow> string \<Rightarrow> string" where
  "op_url w op = rb_endpoint (rw_backend w) @ ''/'' @ op"

definition request_of :: "'s rworld \<Rightarrow> string \<Rightarrow> goval \<Rightarrow> sent \<Rightarrow> bool" where
  "request_of w op body x \<longleftrightarrow> x_URL x = op_url w op \<and> map_option json_text (to_json body) = Some (x_Body x)"

lemma request_of_keys [simp]: "request_of (w\<lparr>rw_keys := k\<rparr>) = request_of w"
  by (auto simp: request_of_def op_url_def fun_eq_iff)

definition answered :: "sent \<Rightarrow> nat \<Rightarrow> remoteResponse \<Rightarrow> bool" where
  "answered x status r \<longleftrightarrow> (\<exists>data. x_Reply x = Reply status (Some data) \<and> length data \<le> maxRemoteWireBytes \<and>
     decodeStrict response_fields zero_response data = Some r)"

lemma op_url_sends: "sends w w' xs \<Longrightarrow> op_url w' op = op_url w op"
  by (simp add: sends_def op_url_def pinned_fields)

lemma post_cases:
  assumes "post env op body w = ((resp, status), w')"
  obtains (unsent) "resp = None" "sends w w' []" "rw_keys w' = rw_keys w"
    | (sent) x where "sends w w' [x]" "request_of w op body x" "rw_keys w' = rw_keys w"
        "\<And>r. resp = Some r \<Longrightarrow> answered x status r"
proof -
  obtain g w1 where g: "currentGrant env w = (g, w1)" by fastforce
  note fr = currentGrant_frame [OF g]
  have url: "rb_endpoint (rw_backend w1) = rb_endpoint (rw_backend w)" using pinned_fields [OF fr(2)] by simp
  show thesis
  proof (cases "\<exists>grant j. g = Inr grant \<and> to_json body = Some j \<and> url_parse (op_url w op) \<noteq> None")
    case False
    then have "resp = None" "w' = w1" using assms
      by (auto simp: post_def g op_url_def url Let_def split: sum.splits option.splits if_splits)
    with fr show thesis by (intro unsent) (auto simp: sends_def)
  next
    case True
    then obtain grant j where gj: "g = Inr grant" "to_json body = Some j" "url_parse (op_url w op) \<noteq> None" by auto
    obtain rep s' where dl: "deliver env (rw_service w1) (op_url w op) grant (json_text j) = (rep, s')" by fastforce
    let ?x = "\<lparr>x_URL = op_url w op, x_Grant = grant, x_Body = json_text j, x_Reply = rep\<rparr>"
    have eq: "w' = w1\<lparr>rw_service := s', rw_sent := rw_sent w1 @ [?x]\<rparr>"
      using assms dl gj by (auto simp: post_def g op_url_def url Let_def split: reply.splits option.splits if_splits)
    have "answered ?x status r" if "resp = Some r" for r
      using assms dl gj that
      by (auto simp: post_def g op_url_def url Let_def answered_def split: reply.splits option.splits if_splits)
    with eq fr gj show thesis by (intro sent [of ?x]) (auto simp: sends_def request_of_def)
  qed
qed

subsection \<open>Reading\<close>

text \<open>A read that found a snapshot.\<close>

definition found :: "'s remote_env \<Rightarrow> sent \<Rightarrow> bytes \<Rightarrow> nat \<Rightarrow> bool" where
  "found env x data version \<longleftrightarrow> (\<exists>r. answered x 200 r \<and> rr_Kind r = ''present'' \<and> rr_Version r = version \<and>
     0 < version \<and> version \<le> maxRemoteVersion \<and> b64_decode True (rr_BytesBase64 r) = Some data \<and>
     rr_Digest r = snapshotDigest env data \<and> data \<noteq> [] \<and> length data \<le> maxSnapshotBytes)"

lemma remote_read_frame:
  assumes "remote_read env w = (r, w')"
  obtains xs where "sends w w' xs" "xs = [] \<or> (\<exists>x. xs = [x] \<and> request_of w ''read'' (GStruct []) x)"
    "rw_keys w' = rw_keys w"
proof -
  obtain resp status w1 where p: "post env ''read'' (GStruct []) w = ((resp, status), w1)"
    by (metis surj_pair)
  with assms have "w1 = w'" by (auto simp: remote_read_def split: option.splits if_splits)
  with p show thesis by (cases rule: post_cases) (auto intro: that)
qed

lemma remote_read_Inr:
  assumes "remote_read env w = (Inr r, w')"
  obtains x where "sends w w' [x]" "request_of w ''read'' (GStruct []) x" "rw_keys w' = rw_keys w"
    "\<And>data version. r = Some (data, version) \<Longrightarrow> found env x data version"
proof -
  obtain resp status w1 where p: "post env ''read'' (GStruct []) w = ((resp, status), w1)"
    by (metis surj_pair)
  from assms p obtain q where q: "resp = Some q" "status = 200" "w1 = w'"
    by (auto simp: remote_read_def split: option.splits if_splits)
  from p show thesis
  proof (cases rule: post_cases)
    case (sent x)
    from sent(4) [OF q(1)] have a: "answered x 200 q" by (simp add: q)
    have "found env x data version" if "r = Some (data, version)" for data version
      using assms p q that a
      by (auto simp: remote_read_def found_def split: option.splits if_splits intro!: exI [of _ q])
    with sent q show thesis by (intro that [of x]) auto
  qed (simp add: q)
qed

subsection \<open>Committing\<close>

text \<open>An answer that carries the exact receipt of a commit.\<close>

definition acknowledged :: "sent \<Rightarrow> nat \<Rightarrow> string \<Rightarrow> string \<Rightarrow> bool" where
  "acknowledged x version i digest \<longleftrightarrow>
     (\<exists>r rc. answered x 200 r \<and> rr_Receipt r = Some rc \<and> rc_ExpectedVersion rc = version \<and> rc_Version rc = version + 1 \<and>
       rc_CommitID rc = i \<and> rc_Digest rc = digest)"

lemma acknowledgedI: "answered x 200 r \<Longrightarrow> validRemoteReceipt (rr_Receipt r) v i d \<Longrightarrow> acknowledged x v i d"
  by (auto simp: acknowledged_def validRemoteReceipt_def split: option.splits)

lemma resolve_outcome:
  assumes "resolve env v i d w = (r, w')"
  obtains xs where "sends w w' xs" "rw_keys w' = rw_keys w"
    "xs = [] \<or> (\<exists>x. xs = [x] \<and> request_of w ''resolve'' (resolve_body v i d) x)"
    "r = Inr () \<Longrightarrow> xs \<noteq> [] \<and> acknowledged (last xs) v i d"
proof -
  obtain resp status w1 where p: "post env ''resolve'' (resolve_body v i d) w = ((resp, status), w1)"
    by (metis surj_pair)
  have eq: "w1 = w'" and ok: "r = Inr () \<Longrightarrow> \<exists>q. resp = Some q \<and> status = 200 \<and> validRemoteReceipt (rr_Receipt q) v i d"
    using assms p by (auto simp: resolve_def split: option.splits if_splits)
  from p show thesis
  proof (cases rule: post_cases)
    case unsent
    with ok show thesis by (intro that [of "[]"]) (auto simp: eq)
  next
    case (sent x)
    have "acknowledged x v i d" if "r = Inr ()"
      using ok [OF that] sent(4) by (auto intro: acknowledgedI)
    with sent show thesis by (intro that [of "[x]"]) (auto simp: eq)
  qed
qed

text \<open>
  A commit sends at most one commit request, followed by at most one resolve request for the
  same commit, and succeeds only with an exact receipt in the last answer.
\<close>

definition commit_trace :: "'s remote_env \<Rightarrow> 's rworld \<Rightarrow> nat \<Rightarrow> bytes \<Rightarrow> sent list \<Rightarrow> bool" where
  "commit_trace env w v data xs \<longleftrightarrow>
     (\<exists>i cs rs. newKey (random_at env (rw_keys w)) = Some i \<and> xs = cs @ rs \<and>
       (cs = [] \<or> (\<exists>x. cs = [x] \<and> request_of w ''commit'' (commit_body v i data) x)) \<and>
       (rs = [] \<or> (\<exists>x. rs = [x] \<and> request_of w ''resolve'' (resolve_body v i (snapshotDigest env data)) x)))"

definition commit_acknowledged :: "'s remote_env \<Rightarrow> 's rworld \<Rightarrow> nat \<Rightarrow> bytes \<Rightarrow> sent list \<Rightarrow> bool" where
  "commit_acknowledged env w v data xs \<longleftrightarrow>
     (\<exists>i. newKey (random_at env (rw_keys w)) = Some i \<and> xs \<noteq> [] \<and>
       acknowledged (last xs) v i (snapshotDigest env data))"

lemma commit_outcome:
  assumes "commit env v data w = (r, w')"
  obtains xs where "sends w w' xs" "xs = [] \<or> commit_trace env w v data xs"
    "r = Inr () \<Longrightarrow> commit_acknowledged env w v data xs"
proof (cases "maxRemoteVersion \<le> v \<or> data = [] \<or> maxSnapshotBytes < length data \<or> newKey (random_at env (rw_keys w)) = None")
  case True
  with assms have "r = Inl ErrStoreUnavailable" "w' = w \<or> w' = w\<lparr>rw_keys := rw_keys w + 1\<rparr>"
    by (auto simp: commit_def split: if_splits)
  then show thesis by (intro that [of "[]"]) (auto simp: sends_def)
next
  case False
  then obtain i where i: "newKey (random_at env (rw_keys w)) = Some i" by auto
  let ?w0 = "w\<lparr>rw_keys := rw_keys w + 1\<rparr>" and ?d = "snapshotDigest env data"
  obtain resp status w1 where p: "post env ''commit'' (commit_body v i data) ?w0 = ((resp, status), w1)"
    by (metis surj_pair)
  have out: "resolve env v i ?d w1 = (r, w') \<or> w' = w1 \<and> (r = Inr () \<longrightarrow>
      (\<exists>q. resp = Some q \<and> status = 200 \<and> validRemoteReceipt (rr_Receipt q) v i ?d))"
    using assms False i p by (auto simp: commit_def Let_def split: if_splits)
  from p obtain cs where cs: "sends w w1 cs" "cs = [] \<or> (\<exists>x. cs = [x] \<and> request_of w ''commit'' (commit_body v i data) x)"
      "\<And>q. resp = Some q \<Longrightarrow> cs \<noteq> [] \<and> answered (last cs) status q"
  proof (cases rule: post_cases)
    case unsent
    with that [of "[]"] show thesis by (auto simp: sends_def)
  next
    case (sent x)
    with that [of "[x]"] show thesis by (auto simp: sends_def)
  qed
  from out show thesis
  proof
    assume "resolve env v i ?d w1 = (r, w')"
    then obtain rs where rs: "sends w1 w' rs" "rs = [] \<or> (\<exists>x. rs = [x] \<and> request_of w1 ''resolve'' (resolve_body v i ?d) x)"
      "r = Inr () \<Longrightarrow> rs \<noteq> [] \<and> acknowledged (last rs) v i ?d" by (rule resolve_outcome) auto
    from rs(2) have "rs = [] \<or> (\<exists>x. rs = [x] \<and> request_of w ''resolve'' (resolve_body v i ?d) x)"
      by (simp add: request_of_def op_url_sends [OF cs(1)])
    with cs rs(3) show thesis
      by (intro that [of "cs @ rs"] sends_trans [OF cs(1) rs(1)])
         (auto simp: commit_trace_def commit_acknowledged_def i)
  next
    assume "w' = w1 \<and> (r = Inr () \<longrightarrow>
      (\<exists>q. resp = Some q \<and> status = 200 \<and> validRemoteReceipt (rr_Receipt q) v i ?d))"
    moreover from cs(2) have "commit_trace env w v data cs"
      unfolding commit_trace_def i by (intro exI [of _ i] exI [of _ cs] exI [of _ "[]"]) simp
    ultimately show thesis using cs(1,3)
      by (intro that [of cs]) (auto simp: commit_acknowledged_def i intro: acknowledgedI)
  qed
qed

subsection \<open>Transactions\<close>

text \<open>What a transaction does on the way from the snapshot it read to the one it commits.\<close>

definition computes :: "string \<Rightarrow> StoreBinding \<Rightarrow> 'a tx \<Rightarrow> bytes \<Rightarrow> bytes \<Rightarrow> 'a \<Rightarrow> bool" where
  "computes storeID binding fn data encoded x \<longleftrightarrow>
     (\<exists>s s'. bound_snapshot data storeID binding = Inr s \<and> fn s = Inr (s', x) \<and> encodeSnapshot s' = Inr encoded)"

lemma commit_trace_sends:
  "sends w w1 xs \<Longrightarrow> rw_keys w1 = rw_keys w \<Longrightarrow> commit_trace env w1 v data = commit_trace env w v data"
  by (simp add: commit_trace_def request_of_def op_url_sends fun_eq_iff)

lemma commit_acknowledged_keys:
  "rw_keys w1 = rw_keys w \<Longrightarrow> commit_acknowledged env w1 v data = commit_acknowledged env w v data"
  by (simp add: commit_acknowledged_def fun_eq_iff)

lemma withSnapshot_trace:
  assumes "remote_withSnapshot env storeID write fn w = (r, w')"
  obtains rs cs where "sends w w' (rs @ cs)"
    "rs = [] \<or> (\<exists>x. rs = [x] \<and> request_of w ''read'' (GStruct []) x)"
    "cs = [] \<or> write \<and> (\<exists>x data version encoded y. rs = [x] \<and> found env x data version \<and>
       computes storeID (rb_binding (rw_backend w)) fn data encoded y \<and> commit_trace env w version encoded cs \<and>
       (r = Inr y \<or> \<not> ok r))"
    "\<And>y. write \<Longrightarrow> r = Inr y \<Longrightarrow> \<exists>x data version encoded. rs = [x] \<and> found env x data version \<and>
       computes storeID (rb_binding (rw_backend w)) fn data encoded y \<and> commit_acknowledged env w version encoded cs"
proof -
  obtain rd w1 where rd: "remote_read env w = (rd, w1)" by fastforce
  show thesis
  proof (cases "\<exists>data version s s' y encoded. rd = Inr (Some (data, version)) \<and>
      bound_snapshot data storeID (rb_binding (rw_backend w1)) = Inr s \<and> fn s = Inr (s', y) \<and> write \<and>
      encodeSnapshot s' = Inr encoded")
    case False
    then have "w' = w1" "write \<Longrightarrow> \<not> ok r"
      using assms rd
      by (auto simp: remote_withSnapshot_def andThen_def lift_result_def raise_def ret_def ok_iff
          split: sum.splits option.splits prod.splits if_splits)
    moreover obtain xs where "sends w w1 xs" "xs = [] \<or> (\<exists>x. xs = [x] \<and> request_of w ''read'' (GStruct []) x)"
      using remote_read_frame [OF rd] by metis
    ultimately show thesis by (intro that [of xs "[]"]) auto
  next
    case True
    then obtain data version s s' y encoded where t: "rd = Inr (Some (data, version))"
      "bound_snapshot data storeID (rb_binding (rw_backend w1)) = Inr s" "fn s = Inr (s', y)" "write"
      "encodeSnapshot s' = Inr encoded" by auto
    from remote_read_Inr [OF rd [unfolded t(1)]] obtain x where x: "sends w w1 [x]"
      "request_of w ''read'' (GStruct []) x" "rw_keys w1 = rw_keys w" "found env x data version" by metis
    have b: "rb_binding (rw_backend w1) = rb_binding (rw_backend w)"
      using x(1) by (simp add: sends_def pinned_fields)
    with t have c: "computes storeID (rb_binding (rw_backend w)) fn data encoded y" by (auto simp: computes_def)
    obtain cr w2 where cr: "commit env version encoded w1 = (cr, w2)" by fastforce
    have r: "w' = w2" "r = (case cr of Inl e \<Rightarrow> Inl e | Inr _ \<Rightarrow> Inr y)"
      using assms rd t cr
      by (auto simp: remote_withSnapshot_def andThen_def lift_result_def ret_def split: sum.splits)
    from commit_outcome [OF cr] obtain cs where cs: "sends w1 w2 cs" "cs = [] \<or> commit_trace env w1 version encoded cs"
      "cr = Inr () \<Longrightarrow> commit_acknowledged env w1 version encoded cs" by metis
    note keys = commit_trace_sends [OF x(1) x(3)] commit_acknowledged_keys [OF x(3)]
    from sends_trans [OF x(1) cs(1)] cs x c t(4) show thesis
      by (intro that [of "[x]" cs]) (auto simp: r keys split: sum.splits)
  qed
qed

subsection \<open>The grants requests carry\<close>

text \<open>
  What marks a reading of the descriptor: its sequence number and the digest of its bytes. A
  later one has a larger number, or is the same reading again.
\<close>

definition no_older :: "nat \<times> bytes \<Rightarrow> nat \<times> bytes \<Rightarrow> bool" where
  "no_older a b \<longleftrightarrow> fst a < fst b \<or> a = b"

definition backend_mark :: "remoteSnapshotBackend \<Rightarrow> nat \<times> bytes" where
  "backend_mark r = (rb_sequence r, rb_descriptorDigest r)"

definition descriptor_mark :: "remoteDescriptor \<Rightarrow> nat \<times> bytes" where
  "descriptor_mark d = (d_sequence d, d_digest d)"

text \<open>
  A request under the grant of a descriptor: the descriptor was read from the pinned path for the
  pinned slot, and gives every pinned slot its pinned endpoint and no other slot any.
\<close>

definition granted :: "'s remote_env \<Rightarrow> remoteSnapshotBackend \<Rightarrow> sent \<Rightarrow> remoteDescriptor \<Rightarrow> bool" where
  "granted env r x d \<longleftrightarrow> x_Grant x = d_grant d \<and>
     (\<exists>w. fst (readRemoteDescriptor env (rb_descriptorPath r) (rb_slot r) w) = Inr d) \<and>
     length (d_endpoints d) = length (rb_endpoints r) \<and>
     (\<forall>(slot, endpoint)\<in>set (rb_endpoints r). map_of (d_endpoints d) slot = Some endpoint)"

definition authorised :: "'s remote_env \<Rightarrow> remoteSnapshotBackend \<Rightarrow> remoteSnapshotBackend \<Rightarrow> sent list \<Rightarrow> bool" where
  "authorised env r r' xs \<longleftrightarrow>
     (if rb_descriptorPath r = [] then \<forall>x\<in>set xs. x_Grant x = rb_grant r
      else \<exists>ds. list_all2 (granted env r) xs ds \<and>
        sorted_wrt no_older (backend_mark r # map descriptor_mark ds @ [backend_mark r']))"

definition custody :: "'s remote_env \<Rightarrow> 's rworld \<Rightarrow> 's rworld \<Rightarrow> bool" where
  "custody env w w' \<longleftrightarrow> pinned (rw_backend w) (rw_backend w') \<and> (\<exists>xs. rw_sent w' = rw_sent w @ xs \<and>
     (\<forall>x\<in>set xs. \<exists>op. x_URL x = op_url w op) \<and> authorised env (rw_backend w) (rw_backend w') xs)"

lemma transp_no_older: "transp no_older"
  by (auto simp: transp_def no_older_def)

lemma no_older_refl [simp]: "no_older a a"
  by (simp add: no_older_def)

lemma custody_refl [simp]: "custody env w w"
  by (simp add: custody_def authorised_def)

lemma marks_append:
  assumes "sorted_wrt no_older (a # ds @ [b])" "sorted_wrt no_older (b # es @ [c])"
  shows "sorted_wrt no_older (a # (ds @ es) @ [c])"
proof -
  have t: "no_older x y \<Longrightarrow> no_older y z \<Longrightarrow> no_older x z" for x y z using transpD [OF transp_no_older] .
  show ?thesis using assms by (auto simp: sorted_wrt_append intro: t [of _ b])
qed

lemma granted_pinned: "pinned r r' \<Longrightarrow> granted env r' = granted env r"
  by (simp add: granted_def pinned_fields fun_eq_iff)

lemma pinned_grant: "pinned r r' \<Longrightarrow> rb_grant r' = rb_grant r"
  by (cases r; cases r') (auto simp: pinned_def)

lemma authorised_append:
  assumes "pinned r r1" "authorised env r r1 xs" "authorised env r1 r2 ys"
  shows "authorised env r r2 (xs @ ys)"
proof (cases "rb_descriptorPath r = []")
  case True
  with assms pinned_fields [OF assms(1)] pinned_grant [OF assms(1)] show ?thesis by (auto simp: authorised_def)
next
  case False
  with assms pinned_fields [OF assms(1)] obtain ds es where
    ds: "list_all2 (granted env r) xs ds" "list_all2 (granted env r) ys es"
    and m: "sorted_wrt no_older (backend_mark r # map descriptor_mark ds @ [backend_mark r1])"
      "sorted_wrt no_older (backend_mark r1 # map descriptor_mark es @ [backend_mark r2])"
    unfolding authorised_def granted_pinned [OF assms(1)] by auto
  from marks_append [OF m] list_all2_appendI [OF ds] False show ?thesis
    unfolding authorised_def by (auto intro!: exI [of _ "ds @ es"])
qed

lemma custody_trans [trans]:
  assumes "custody env w w1" "custody env w1 w2"
  shows "custody env w w2"
proof -
  from assms(1) obtain xs where x: "pinned (rw_backend w) (rw_backend w1)" "rw_sent w1 = rw_sent w @ xs"
    "\<forall>x\<in>set xs. \<exists>op. x_URL x = op_url w op" "authorised env (rw_backend w) (rw_backend w1) xs" by (auto simp: custody_def)
  from assms(2) obtain ys where y: "pinned (rw_backend w1) (rw_backend w2)" "rw_sent w2 = rw_sent w1 @ ys"
    "\<forall>x\<in>set ys. \<exists>op. x_URL x = op_url w1 op" "authorised env (rw_backend w1) (rw_backend w2) ys" by (auto simp: custody_def)
  have "op_url w1 op = op_url w op" for op using pinned_fields [OF x(1)] by (simp add: op_url_def)
  with x y have "\<forall>x\<in>set (xs @ ys). \<exists>op. x_URL x = op_url w op" by auto
  with authorised_append [OF x(1,4) y(4)] pinned_trans [OF x(1) y(1)] x(2) y(2) show ?thesis
    unfolding custody_def by (intro conjI exI [of _ "xs @ ys"]) auto
qed

lemma custody_keys [simp]: "custody env (w\<lparr>rw_keys := k\<rparr>) = custody env w"
  by (simp add: custody_def op_url_def fun_eq_iff)

lemma currentGrant_custody:
  assumes "currentGrant env w = (r, w1)"
  shows "authorised env (rw_backend w) (rw_backend w1) []"
    "r = Inr g \<Longrightarrow> authorised env (rw_backend w) (rw_backend w1) [\<lparr>x_URL = u, x_Grant = g, x_Body = b, x_Reply = e\<rparr>]"
proof -
  let ?r = "rw_backend w"
  obtain q w' where q: "readRemoteDescriptor env (rb_descriptorPath ?r) (rb_slot ?r) w = (q, w')" by fastforce
  have b: "rw_backend w' = ?r" using readRemoteDescriptor_world [OF q] by simp
  show "authorised env ?r (rw_backend w1) []"
    using assms q b by (auto simp: currentGrant_def authorised_def no_older_def backend_mark_def Let_def split: sum.splits if_splits)
  assume r: "r = Inr g"
  show "authorised env ?r (rw_backend w1) [\<lparr>x_URL = u, x_Grant = g, x_Body = b, x_Reply = e\<rparr>]"
  proof (cases "rb_descriptorPath ?r = []")
    case True
    with assms r show ?thesis by (auto simp: currentGrant_def authorised_def Let_def)
  next
    case False
    with assms r q obtain d where d: "q = Inr d" and c: "g = d_grant d" "endpoints_match (d_endpoints d) (rb_endpoints ?r)"
      "\<not> d_sequence d < rb_sequence ?r" "d_sequence d = rb_sequence ?r \<longrightarrow> d_digest d = rb_descriptorDigest ?r"
      "w1 = (if rb_sequence ?r < d_sequence d then w'\<lparr>rw_backend := ?r\<lparr>rb_sequence := d_sequence d, rb_descriptorDigest := d_digest d\<rparr>\<rparr> else w')"
      by (auto simp: currentGrant_def Let_def split: sum.splits if_splits)
    have "fst (readRemoteDescriptor env (rb_descriptorPath ?r) (rb_slot ?r) w) = Inr d" by (simp add: q d)
    with c(1,2) have "granted env ?r \<lparr>x_URL = u, x_Grant = g, x_Body = b, x_Reply = e\<rparr> d"
      by (auto simp: granted_def endpoints_match_def list_all_iff)
    moreover have "no_older (backend_mark ?r) (descriptor_mark d)" "backend_mark (rw_backend w1) = descriptor_mark d"
      using c(3-5) b by (auto simp: no_older_def backend_mark_def descriptor_mark_def)
    ultimately show ?thesis using False by (auto simp: authorised_def intro!: exI [of _ "[d]"])
  qed
qed

lemma post_custody:
  assumes "post env op body w = (r, w')"
  shows "custody env w w'"
proof -
  obtain g w1 where g: "currentGrant env w = (g, w1)" by fastforce
  note fr = currentGrant_frame [OF g]
  have url: "rb_endpoint (rw_backend w1) = rb_endpoint (rw_backend w)" using pinned_fields [OF fr(2)] by simp
  consider "w' = w1" | grant b e where "g = Inr grant" "rw_backend w' = rw_backend w1"
    "rw_sent w' = rw_sent w1 @ [\<lparr>x_URL = op_url w op, x_Grant = grant, x_Body = b, x_Reply = e\<rparr>]"
    using assms by (auto simp: post_def g op_url_def url Let_def split: sum.splits option.splits if_splits prod.splits reply.splits)
  then show ?thesis
  proof cases
    case 1
    with fr currentGrant_custody(1) [OF g] show ?thesis by (simp add: custody_def)
  next
    case (2 grant b e)
    with fr currentGrant_custody(2) [OF g 2(1)] show ?thesis unfolding custody_def by (auto simp: fr)
  qed
qed

lemma remote_read_custody:
  assumes "remote_read env w = (r, w')"
  shows "custody env w w'"
proof -
  obtain q w1 where p: "post env ''read'' (GStruct []) w = (q, w1)" by fastforce
  with assms have "w1 = w'" by (auto simp: remote_read_def split: prod.splits option.splits if_splits)
  with post_custody [OF p] show ?thesis by simp
qed

lemma resolve_custody:
  assumes "resolve env v i d w = (r, w')"
  shows "custody env w w'"
proof -
  obtain q w1 where p: "post env ''resolve'' (resolve_body v i d) w = (q, w1)" by fastforce
  with assms have "w1 = w'" by (auto simp: resolve_def split: prod.splits option.splits if_splits)
  with post_custody [OF p] show ?thesis by simp
qed

lemma commit_custody:
  assumes "commit env v data w = (r, w')"
  shows "custody env w w'"
proof -
  let ?w0 = "w\<lparr>rw_keys := rw_keys w + 1\<rparr>"
  have "w' = w \<or> w' = ?w0 \<or> (\<exists>i q w1. post env ''commit'' (commit_body v i data) ?w0 = (q, w1) \<and>
      (w' = w1 \<or> resolve env v i (snapshotDigest env data) w1 = (r, w')))"
    using assms by (auto simp: commit_def Let_def split: if_splits option.splits prod.splits)
  then show ?thesis
  proof (elim disjE exE conjE)
    show ?thesis if "w' = w" using that by simp
    show ?thesis if "w' = ?w0" using that by (simp add: custody_def authorised_def)
    fix i q w1
    assume "post env ''commit'' (commit_body v i data) ?w0 = (q, w1)"
    from post_custody [OF this] have c: "custody env w w1" by simp
    show ?thesis if "w' = w1" using c that by simp
    show ?thesis if "resolve env v i (snapshotDigest env data) w1 = (r, w')"
      by (rule custody_trans [OF c resolve_custody [OF that]])
  qed
qed

lemma withSnapshot_custody:
  assumes "remote_withSnapshot env sid write fn w = (r, w')"
  shows "custody env w w'"
proof -
  obtain q w1 where p: "remote_read env w = (q, w1)" by fastforce
  note c = remote_read_custody [OF p]
  have "w' = w1 \<or> (\<exists>v data q2. commit env v data w1 = (q2, w'))"
    using assms by (auto simp: remote_withSnapshot_def andThen_def p raise_def ret_def lift_result_def
        split: sum.splits option.splits prod.splits if_splits)
  then show ?thesis using c commit_custody custody_trans [OF c] by blast
qed

end
