(* ===== verification/StoreContract.thy ===== *)
theory StoreContract
  imports DiskLaws RemoteLaws
begin

text \<open>
  What the journal's operations rely on, whichever backend holds the snapshot: a writing
  transaction that succeeds has read some bytes, computed the new snapshot from what they
  decode to, and seen the encoding of that snapshot installed. The local directory installs it
  by renaming and syncing; the remote service acknowledges a conditional commit.
\<close>

locale snapshot_store =
  fixes run :: "Intent tx \<Rightarrow> ('w, store_error, Intent) st"
    and usable :: "'w \<Rightarrow> bool"
    and installs :: "'w \<Rightarrow> 'w \<Rightarrow> bytes \<Rightarrow> bytes \<Rightarrow> bool"
    and sid :: string
  assumes run_installs:
    "usable w \<Longrightarrow> run fn w = (Inr x, w') \<Longrightarrow> \<exists>old b. installs w w' old b \<and> committed sid fn old b x"
begin

text \<open>
  A claim is installed before its key is returned, and a run that reads the installed bytes and
  repeats the request gets the same claim.
\<close>

lemma begin_installed:
  assumes "usable w" "run (Begin_fn sid rand now r') w = (Inr i, w')" "validateBegin r = Inr r'"
    "clock_ok now"
    and fresh: "\<And>old b s. installs w w' old b \<Longrightarrow> decodeSnapshot old sid = Inr s \<Longrightarrow> fresh_source rand s"
  shows "\<exists>old b s'. installs w w' old b \<and> decodeSnapshot b sid = Inr s' \<and> i \<in> set (s_Records s') \<and>
    Begin sid rand' now' r s' = Inr (s', i)"
proof -
  from run_installs [OF assms(1,2)] obtain old b s s' where b: "installs w w' old b"
    "decodeSnapshot old sid = Inr s" "Begin_fn sid rand now r' s = Inr (s', i)" "encodeSnapshot s' = Inr b"
    by (auto simp: committed_def)
  then have bg: "Begin sid rand now r s = Inr (s', i)" by (simp add: Begin_def assms(3))
  note fr = fresh [OF b(1,2)]
  have "decodeSnapshot b sid = Inr s'"
    by (rule transaction_bytes [OF b(2) Begin_effect [OF bg fr assms(4)] b(4)])
  moreover have "i \<in> set (s_Records s')" using bg
    by (cases rule: Begin_cases) (auto dest: begin_scan_Inr)
  ultimately show ?thesis using Begin_replay [OF bg fr] b(1) by blast
qed

end

subsection \<open>The local store\<close>

text \<open>The new bytes are all the disk may hold.\<close>

definition renamed :: "world \<Rightarrow> world \<Rightarrow> bytes \<Rightarrow> bytes \<Rightarrow> bool" where
  "renamed w w' old b \<longleftrightarrow> state_data w = Some old \<and> disk_in {b} w'"

interpretation local_store: snapshot_store "withSnapshot f st True" "\<lambda>w. state_data w \<noteq> None" renamed "st_storeID st"
  for f st
proof
  fix w w' and fn :: "Intent tx" and x
  assume a: "state_data w \<noteq> None" "withSnapshot f st True fn w = (Inr x, w')"
  then obtain old where old: "state_data w = Some old" by auto
  from hoareD [OF withSnapshot_outcome old a(2)] old
  show "\<exists>old b. renamed w w' old b \<and> committed (st_storeID st) fn old b x"
    by (auto simp: tx_outcome_def renamed_def)
qed

subsection \<open>The remote store\<close>

text \<open>
  The bytes were found in a read, and the exact receipt of a commit of the new bytes on top of
  the version read is in the last answer.
\<close>

definition receipted :: "'s remote_env \<Rightarrow> 's rworld \<Rightarrow> 's rworld \<Rightarrow> bytes \<Rightarrow> bytes \<Rightarrow> bool" where
  "receipted env w w' old b \<longleftrightarrow> (\<exists>x cs version. rw_sent w' = rw_sent w @ x # cs \<and>
     request_of w ''read'' (GStruct []) x \<and> found env x old version \<and> commit_acknowledged env w version b cs)"

lemma computes_committed: "computes sid binding fn data encoded y \<Longrightarrow> committed sid fn data encoded y"
  by (auto simp: computes_def committed_def bound_snapshot_def split: sum.splits if_splits)

interpretation remote_store: snapshot_store "remote_withSnapshot env sid True" "\<lambda>w. True" "receipted env" sid
  for env and sid
proof
  fix w w' and fn :: "Intent tx" and x
  assume "remote_withSnapshot env sid True fn w = (Inr x, w')"
  then show "\<exists>old b. receipted env w w' old b \<and> committed sid fn old b x"
  proof (rule withSnapshot_trace)
    fix rs cs
    assume s: "sends w w' (rs @ cs)" and r: "rs = [] \<or> (\<exists>x. rs = [x] \<and> request_of w ''read'' (GStruct []) x)"
      and ack: "\<And>y. True \<Longrightarrow> Inr x = Inr y \<Longrightarrow> \<exists>x data version encoded. rs = [x] \<and> found env x data version \<and>
         computes sid (rb_binding (rw_backend w)) fn data encoded y \<and> commit_acknowledged env w version encoded cs"
    from ack [OF TrueI refl] obtain z data version encoded where z: "rs = [z]" "found env z data version"
      "computes sid (rb_binding (rw_backend w)) fn data encoded x" "commit_acknowledged env w version encoded cs"
      by blast
    with s r have "receipted env w w' data encoded" by (auto simp: receipted_def sends_def)
    with computes_committed [OF z(3)] show ?thesis by blast
  qed
qed

end
