(* ===== verification/DiskProps.thy ===== *)
theory DiskProps
  imports StoreContract Samples
begin

text \<open>
  Properties of the journal on disk, with a sample directory for the witnesses.
\<close>

definition sample_file :: "nat \<Rightarrow> bytes \<Rightarrow> inode" where
  "sample_file ino data = \<lparr>n_kind = RegularFile, n_uid = 1000, n_perm = 384, n_nlink = 1, n_dev = 7,
     n_ino = ino, n_data = data, n_synced = True\<rparr>"

definition sample_path :: string where
  "sample_path = ''/var/journal''"

definition sample_header :: bytes where
  "sample_header = (case marshal (enc_header \<lparr>h_Format = storeFormat, h_StoreID = sample_store,
     h_Path = sample_path\<rparr>) of Inr d \<Rightarrow> d | Inl _ \<Rightarrow> [])"

definition sample_bytes :: "diskSnapshot \<Rightarrow> bytes" where
  "sample_bytes s = (case to_json (enc_snapshot s) of Some j \<Rightarrow> json_text j | None \<Rightarrow> [])"

definition sample_world :: world where
  "sample_world = \<lparr>w_uid = 1000, w_exists = True,
     w_path = Some \<lparr>n_kind = Directory, n_uid = 1000, n_perm = 448, n_nlink = 2, n_dev = 7, n_ino = 2,
       n_data = [], n_synced = True\<rparr>,
     w_entries = [(''lock'', sample_file 3 []), (''store.json'', sample_file 4 sample_header),
       (''state.json'', sample_file 5 (sample_bytes snap0))],
     w_stale = [], w_calls = 0\<rparr>"

definition sample_dir :: Store where
  "sample_dir = \<lparr>st_dir = \<lparr>dir_path = sample_path, dir_device = 7, dir_inode = 2\<rparr>,
     st_path = sample_path, st_storeID = sample_store, st_closed = False\<rparr>"

definition no_faults :: faults where
  "no_faults = \<lparr>fails = \<lambda>_. False, written = \<lambda>_. 0, flocks = [Busy False False, Acquired]\<rparr>"

text \<open>From the n-th call on everything fails: a crash at that point.\<close>

definition crash_at :: "nat \<Rightarrow> faults" where
  "crash_at n = no_faults\<lparr>fails := \<lambda>k. n \<le> k\<rparr>"

lemma sample_header_decodes:
  "decodeStrict header_fields zero_header sample_header =
     Some \<lparr>h_Format = storeFormat, h_StoreID = sample_store, h_Path = sample_path\<rparr>"
  "length sample_header \<le> 4096"
  by code_simp+

lemma sample_path_ok: "validateCanonicalPath sample_path = Inr ()"
  by code_simp

lemma sample_bytes0: "decodeSnapshot (sample_bytes snap0) sample_store = Inr snap0"
  "length (sample_bytes snap0) \<le> maxSnapshotBytes"
  by code_simp+

lemma sample_bytes1: "encodeSnapshot snap1 = Inr (sample_bytes snap1)"
  "length (sample_bytes snap1) \<le> maxSnapshotBytes"
proof -
  show l: "length (sample_bytes snap1) \<le> maxSnapshotBytes" by code_simp
  have v: "valid_utf8_value (enc_snapshot snap1) 0" by code_simp
  have "sample_bytes snap1 \<noteq> []" by code_simp
  then obtain j where j: "to_json (enc_snapshot snap1) = Some j"
    by (auto simp: sample_bytes_def split: option.splits)
  from marshal_ok [OF v enc_snapshot_wf(1) j] l show "encodeSnapshot snap1 = Inr (sample_bytes snap1)"
    by (simp add: encodeSnapshot_def sample_bytes_def j)
qed

lemma sample_validateBegin: "validateBegin sample_create = Inr sample_sorted"
  by code_simp

lemma sample_begin_fn:
  "Begin_fn sample_store (sample_rand (CHR ''k'')) sample_now sample_sorted snap0 = Inr (snap1, sample_intent1)"
  using sample_begin by (simp add: Begin_def sample_validateBegin)

lemma andThen_first: "m w = n w \<Longrightarrow> andThen m g w = andThen n g w"
  by (simp add: andThen_def)

lemmas run_simps = andThen_def syscall_def fstatat_def private_file_def require_def raise_def ret_def
  privateFileStat_def privateDirectoryStat_def private_perm_def openSecureDirectory_def
  verifyPathIdentity_def validateStoreEntries_def readFile_def lift_result_def create_exclusive_def
  writeAll_def write_file_def sync_file_def sync_directory_def renameat_def set_data_def set_entries_def rename_entry_def

lemma sample_store_begin:
  "\<exists>w. Store_Begin no_faults sample_dir (sample_rand (CHR ''k'')) sample_now sample_create sample_world
     = (Inr sample_intent1, w)"
  using sample_bytes1(2)
  by (simp add: Store_Begin_def withSnapshot_def withLock_def snapshot_action_def verifyPathAndHeader_def
      replaceFile_def run_simps sample_validateBegin sample_begin_fn sample_bytes0 sample_bytes1(1)
      sample_path_ok sample_header_decodes sample_dir_def no_faults_def sample_world_def sample_file_def
      not_less cong: andThen_first)

lemma sample_state: "state_data sample_world = Some (sample_bytes snap0)"
  by (simp add: state_data_def sample_world_def sample_file_def)

subsection \<open>Properties\<close>

text \<open>
  C17: whatever system calls fail, and wherever the process stops, a writing transaction of the
  local store leaves in \<open>state.json\<close> the old bytes or the whole encoding of the snapshot the
  transaction computed from them, never a mixture; when it reports success it is the new one.
\<close>
theorem disk_transaction_atomic:
  assumes "state_data w = Some old" "withSnapshot f st True fn w = (r, w')"
  shows "state_data w' = Some old \<and> \<not> ok r \<or>
    (\<exists>s s' x b. decodeSnapshot old (st_storeID st) = Inr s \<and> fn s = Inr (s', x) \<and>
       encodeSnapshot s' = Inr b \<and> state_data w' = Some b \<and> (ok r \<longrightarrow> r = Inr x))"
  using hoareD [OF withSnapshot_outcome assms(1,2)]
  by (cases r) (auto simp: tx_outcome_def committed_def dest: disk_in_data)

theorem disk_transaction_atomic_witness:
  "\<exists>r w'. withSnapshot (crash_at 30) sample_dir True Open_fn sample_world = (r, w') \<and>
     (state_data w' = Some (sample_bytes snap0) \<and> \<not> ok r \<or>
      (\<exists>s s' x b. decodeSnapshot (sample_bytes snap0) sample_store = Inr s \<and> Open_fn s = Inr (s', x) \<and>
         encodeSnapshot s' = Inr b \<and> state_data w' = Some b \<and> (ok r \<longrightarrow> r = Inr x)))"
proof -
  obtain r w' where rw: "withSnapshot (crash_at 30) sample_dir True Open_fn sample_world = (r, w')" by fastforce
  have "st_storeID sample_dir = sample_store" by (simp add: sample_dir_def)
  with disk_transaction_atomic [OF sample_state rw] rw show ?thesis by auto
qed

text \<open>
  C18: losing power is no worse. Take a store whose disk holds the old snapshot, whatever a loss of
  power leaves. Run a writing transaction, with any system calls failing, and lose power at its
  end or where it stopped: \<open>state.json\<close> then holds the old bytes or the whole encoding of the
  snapshot the transaction computed from them, and the latter if the transaction reported success.
\<close>
theorem power_loss_atomic:
  assumes "\<forall>v. power_loss w v \<longrightarrow> state_data v = Some old" "withSnapshot f st True fn w = (r, w')" "power_loss w' v'"
  shows "state_data v' = Some old \<and> \<not> ok r \<or>
    (\<exists>s s' x b. decodeSnapshot old (st_storeID st) = Inr s \<and> fn s = Inr (s', x) \<and>
       encodeSnapshot s' = Inr b \<and> state_data v' = Some b \<and> (ok r \<longrightarrow> r = Inr x))"
proof -
  have d: "disk_in {old} w" using assms(1) by (intro disk_in_single) blast
  show ?thesis
  proof (cases r)
    case (Inr x)
    with hoareD [OF withSnapshot_outcome disk_in_data [OF d] assms(2)] obtain b where
      b: "committed (st_storeID st) fn old b x" "disk_in {b} w'" by (auto simp: tx_outcome_def)
    from disk_in_survives [OF b(2) assms(3)] b(1) Inr show ?thesis by (auto simp: committed_def)
  next
    case (Inl e)
    from hoareD [OF withSnapshot_disk d assms(2)] disk_in_survives [OF _ assms(3)] Inl show ?thesis
      by (fastforce simp: committed_def)
  qed
qed

lemma some_survivor: "\<exists>v. power_loss w v"
  using survives_scribble [of "w_entries w" "[]"]
  by (intro exI [of _ "w\<lparr>w_entries := scribble [] (w_entries w), w_stale := []\<rparr>"]) (simp add: power_loss_def)

lemma sample_settled: "power_loss sample_world v \<Longrightarrow> state_data v = Some (sample_bytes snap0)"
  using disk_in_survives [of "{sample_bytes snap0}" sample_world v]
  by (simp add: disk_in_def state_in_def sample_world_def sample_file_def)

theorem power_loss_atomic_witness:
  "\<exists>r w' v. withSnapshot (crash_at 30) sample_dir True Open_fn sample_world = (r, w') \<and> power_loss w' v \<and>
     (state_data v = Some (sample_bytes snap0) \<and> \<not> ok r \<or>
      (\<exists>s s' x b. decodeSnapshot (sample_bytes snap0) sample_store = Inr s \<and> Open_fn s = Inr (s', x) \<and>
         encodeSnapshot s' = Inr b \<and> state_data v = Some b \<and> (ok r \<longrightarrow> r = Inr x)))"
proof -
  obtain r w' where rw: "withSnapshot (crash_at 30) sample_dir True Open_fn sample_world = (r, w')" by fastforce
  obtain v where v: "power_loss w' v" using some_survivor by blast
  have "st_storeID sample_dir = sample_store" by (simp add: sample_dir_def)
  with power_loss_atomic [OF _ rw v, of "sample_bytes snap0"] sample_settled rw v show ?thesis by auto
qed

text \<open>
  C19: a claim is durable before its key is returned. When \<open>Begin\<close> on the local store returns an
  intent, \<open>state.json\<close> holds, now and after any loss of power, bytes that decode to a snapshot with
  that intent, and any later run that reads those bytes and repeats the request gets the same
  intent back.
\<close>
theorem begin_durable:
  assumes "state_data w = Some old" "Store_Begin f st rand now r w = (Inr i, w')"
    "\<forall>s. decodeSnapshot old (st_storeID st) = Inr s \<longrightarrow> fresh_source rand s" "clock_ok now"
    "v = w' \<or> power_loss w' v"
  shows "\<exists>b s'. state_data v = Some b \<and> decodeSnapshot b (st_storeID st) = Inr s' \<and>
    i \<in> set (s_Records s') \<and> Begin (st_storeID st) rand' now' r s' = Inr (s', i)"
proof -
  from assms(2) obtain r' where r': "validateBegin r = Inr r'"
    and run: "withSnapshot f st True (Begin_fn (st_storeID st) rand now r') w = (Inr i, w')"
    by (auto simp: Store_Begin_def raise_def split: sum.splits)
  from assms(1,3) have "\<exists>old b s'. renamed w w' old b \<and> decodeSnapshot b (st_storeID st) = Inr s' \<and>
      i \<in> set (s_Records s') \<and> Begin (st_storeID st) rand' now' r s' = Inr (s', i)"
    by (intro local_store.begin_installed [OF _ run r' assms(4)]) (auto simp: renamed_def)
  moreover have "state_data v = Some b" if "disk_in {b} w'" for b
    using assms(5) disk_in_data [OF that] disk_in_survives [OF that] by auto
  ultimately show ?thesis by (auto simp: renamed_def)
qed

theorem begin_durable_witness:
  "\<exists>w' v b s'. Store_Begin no_faults sample_dir (sample_rand (CHR ''k'')) sample_now sample_create sample_world
     = (Inr sample_intent1, w') \<and> power_loss w' v \<and> state_data v = Some b \<and>
     decodeSnapshot b sample_store = Inr s' \<and> sample_intent1 \<in> set (s_Records s')"
proof -
  obtain w' where run: "Store_Begin no_faults sample_dir (sample_rand (CHR ''k'')) sample_now sample_create
      sample_world = (Inr sample_intent1, w')" using sample_store_begin by blast
  obtain v where v: "power_loss w' v" using some_survivor by blast
  have d: "st_storeID sample_dir = sample_store" by (simp add: sample_dir_def)
  have fr: "\<forall>s. decodeSnapshot (sample_bytes snap0) (st_storeID sample_dir) = Inr s \<longrightarrow>
      fresh_source (sample_rand (CHR ''k'')) s"
    using sample_bytes0(1) sample_fresh(1) by (simp add: d)
  from begin_durable [OF sample_state run fr sample_fresh(2) disjI2 [OF v], where rand' = None and now' = sample_now]
    run v show ?thesis unfolding d by blast
qed

text \<open>
  C20: the journal's bytes round trip: what a reachable snapshot is written as, \<open>decodeSnapshot\<close>
  reads back as the same snapshot.
\<close>
theorem journal_roundtrip:
  assumes "reachable sid s" "encodeSnapshot s = Inr data"
  shows "decodeSnapshot data sid = Inr s"
  by (rule decode_encode [OF reachable_ok [OF assms(1)] reachable_times [OF assms(1)] assms(2)])

theorem journal_roundtrip_witness:
  "decodeSnapshot (sample_bytes snap1) sample_store = Inr snap1"
  by (rule journal_roundtrip [OF sample_reachable1 sample_bytes1(1)])

text \<open>
  C21: an interrupted replacement stops the store. While the temporary snapshot file is in the
  directory no transaction, reading or writing, succeeds.
\<close>
theorem stale_temp_refused:
  assumes "temp_data w \<noteq> None"
  shows "\<not> ok (fst (withSnapshot f st wr fn w))"
  using assms by (rule stale_temp_stops)

theorem stale_temp_refused_witness:
  "\<not> ok (fst (withSnapshot no_faults sample_dir False Open_fn
     (sample_world\<lparr>w_entries := w_entries sample_world @ [(temp_name, sample_file 9 ''{'')]\<rparr>)))"
  by (rule stale_temp_refused) (simp add: temp_data_def sample_world_def)

end
