(* ===== verification/RemoteProps.thy ===== *)
theory RemoteProps
  imports DiskProps
begin

text \<open>
  Properties of the remote store, with a sample service for the witnesses.
\<close>

subsection \<open>A sample service\<close>

definition sample_endpoint :: string where
  "sample_endpoint = ''https://run.example/internal/private-run-files/v1''"

definition sample_digest :: string where
  "sample_digest = ''sha256:'' @ replicate 64 (CHR ''0'')"

definition read_tree :: "string \<Rightarrow> json" where
  "read_tree v = JObj [(''kind'', JStr ''present''), (''version'', JNum v),
     (''digest'', JStr sample_digest), (''bytesBase64'', JStr (b64_encode (sample_bytes snap0)))]"

definition read_reply :: "string \<Rightarrow> bytes" where
  "read_reply v = json_text (read_tree v)"

definition commit_id :: "char \<Rightarrow> string" where
  "commit_id c = hex_encode (replicate 32 c)"

definition commit_tree :: "string \<Rightarrow> string \<Rightarrow> char \<Rightarrow> json" where
  "commit_tree v v' c = JObj [(''kind'', JStr ''committed''),
     (''receipt'', JObj [(''version'', JNum v'), (''digest'', JStr sample_digest),
        (''commitId'', JStr (commit_id c)), (''expectedVersion'', JNum v)])]"

definition commit_reply :: "string \<Rightarrow> string \<Rightarrow> char \<Rightarrow> bytes" where
  "commit_reply v v' c = json_text (commit_tree v v' c)"

definition sample_deliver :: "bytes \<Rightarrow> bytes \<Rightarrow> unit \<Rightarrow> string \<Rightarrow> string \<Rightarrow> bytes \<Rightarrow> reply \<times> unit" where
  "sample_deliver rd cm s url grant body =
     (if url = sample_endpoint @ ''/read'' then (Reply 200 (Some rd), ())
      else if url = sample_endpoint @ ''/commit'' then (Reply 200 (Some cm), ())
      else (NoReply, ()))"

definition sample_service :: "bytes \<Rightarrow> bytes \<Rightarrow> char \<Rightarrow> unit remote_env" where
  "sample_service rd cm c = \<lparr>sha256 = \<lambda>_. replicate 32 nul, descriptor_at = \<lambda>_. (no_faults, sample_world),
     random_at = \<lambda>_. Some (replicate 32 c), deliver = sample_deliver rd cm, env_static = None, env_file = None\<rparr>"

text \<open>A client that finds version 2 and commits version 3, and one that goes from 3 to 4.\<close>

definition env2 :: "unit remote_env" where
  "env2 = sample_service (read_reply ''2'') (commit_reply ''2'' ''3'' (CHR ''d'')) (CHR ''d'')"

definition env3 :: "unit remote_env" where
  "env3 = sample_service (read_reply ''3'') (commit_reply ''3'' ''4'' (CHR ''c'')) (CHR ''c'')"

definition sample_backend :: remoteSnapshotBackend where
  "sample_backend = \<lparr>rb_endpoint = sample_endpoint, rb_grant = ''grant'', rb_descriptorPath = [], rb_slot = [],
     rb_endpoints = [], rb_sequence = 0, rb_descriptorDigest = [], rb_binding = sample_binding\<rparr>"

definition sample_rworld :: "unit rworld" where
  "sample_rworld = \<lparr>rw_backend = sample_backend, rw_service = (), rw_reads = 0, rw_keys = 0, rw_sent = []\<rparr>"

definition read_answer :: "nat \<Rightarrow> remoteResponse" where
  "read_answer v = zero_response\<lparr>rr_Kind := ''present'', rr_Version := v, rr_Digest := sample_digest,
     rr_BytesBase64 := b64_encode (sample_bytes snap0)\<rparr>"

definition commit_answer :: "nat \<Rightarrow> char \<Rightarrow> remoteResponse" where
  "commit_answer v c = zero_response\<lparr>rr_Kind := ''committed'', rr_Receipt := Some \<lparr>rc_Version = v + 1,
     rc_Digest = sample_digest, rc_CommitID = commit_id c, rc_ExpectedVersion = v\<rparr>\<rparr>"

definition answers :: "bytes \<Rightarrow> remoteResponse \<Rightarrow> bool" where
  "answers data r \<longleftrightarrow> length data \<le> maxRemoteWireBytes \<and> decodeStrict response_fields zero_response data = Some r"

lemma answers_text:
  assumes "json_wf j" "json_depth j \<le> 10000" "length (json_text j) \<le> maxRemoteWireBytes"
    "dec_struct response_fields zero_response j = Some r"
  shows "answers (json_text j) r"
  using assms by (simp add: answers_def decodeStrict_def decode_json_text)

lemma sample_read_answers:
  "answers (read_reply ''2'') (read_answer 2)" "answers (read_reply ''3'') (read_answer 3)"
  unfolding read_reply_def by (rule answers_text; code_simp)+

lemma sample_commit_answers:
  "answers (commit_reply ''2'' ''3'' (CHR ''d'')) (commit_answer 2 (CHR ''d''))"
  "answers (commit_reply ''3'' ''4'' (CHR ''c'')) (commit_answer 3 (CHR ''c''))"
  unfolding commit_reply_def by (rule answers_text; code_simp)+

lemmas sample_answers = sample_read_answers sample_commit_answers

lemma sample_nonempty: "sample_bytes snap0 \<noteq> []" "sample_bytes snap1 \<noteq> []"
  by code_simp+

lemma sample_urls:
  "url_parse (sample_endpoint @ ''/read'') \<noteq> None" "url_parse (sample_endpoint @ ''/commit'') \<noteq> None"
  "remoteDigest sample_digest" "snapshotDigest (sample_service rd cm c) b = sample_digest"
  "newKey (random_at (sample_service rd cm c) k) = Some (commit_id c)"
proof -
  have "''sha256:'' @ hex_encode (replicate 32 nul) = sample_digest" by code_simp
  then show "snapshotDigest (sample_service rd cm c) b = sample_digest" by (simp add: snapshotDigest_def sample_service_def)
  show "newKey (random_at (sample_service rd cm c) k) = Some (commit_id c)"
    by (simp add: newKey_def sample_service_def commit_id_def)
qed code_simp+

lemma sample_read:
  assumes "to_json body = Some j" "answers rd r"
  shows "post (sample_service rd cm c) ''read'' body sample_rworld = ((Some r, 200),
     sample_rworld\<lparr>rw_sent := [\<lparr>x_URL = sample_endpoint @ ''/read'', x_Grant = ''grant'', x_Body = json_text j,
       x_Reply = Reply 200 (Some rd)\<rparr>]\<rparr>)"
  using assms sample_urls(1)
  by (simp add: post_def currentGrant_def sample_rworld_def sample_backend_def sample_service_def sample_deliver_def
      Let_def not_less answers_def)

lemma sample_committed:
  assumes "to_json body = Some j" "answers cm r"
  shows "post (sample_service rd cm c) ''commit'' body (sample_rworld\<lparr>rw_sent := xs, rw_keys := k\<rparr>) = ((Some r, 200),
     sample_rworld\<lparr>rw_keys := k, rw_sent := xs @ [\<lparr>x_URL = sample_endpoint @ ''/commit'', x_Grant = ''grant'',
       x_Body = json_text j, x_Reply = Reply 200 (Some cm)\<rparr>]\<rparr>)"
  using assms sample_urls(2)
  by (simp add: post_def currentGrant_def sample_rworld_def sample_backend_def sample_service_def sample_deliver_def
      Let_def not_less answers_def)

text \<open>A writing transaction of a client whose read and commit are answered.\<close>

lemma sample_transaction:
  assumes rd: "answers rd (read_answer v)" and cm: "answers cm (commit_answer v c)" and v: "0 < v" "v < 100"
    and fn: "fn snap0 = Inr (s', x)" "encodeSnapshot s' = Inr b" "b \<noteq> []"
  shows "\<exists>w. remote_withSnapshot (sample_service rd cm c) sample_store True fn sample_rworld = (Inr x, w) \<and>
    map x_Reply (rw_sent w) = [Reply 200 (Some rd), Reply 200 (Some cm)]"
proof -
  have "s_Binding snap0 = Some sample_binding" by code_simp
  then have bs: "bound_snapshot (sample_bytes snap0) sample_store sample_binding = Inr snap0"
    by (simp add: bound_snapshot_def sample_bytes0)
  have k: "rb_binding (rw_backend sample_rworld) = sample_binding"
    by (simp add: sample_rworld_def sample_backend_def)
  have l: "length b \<le> maxSnapshotBytes" using fn(2) by (auto simp: encodeSnapshot_def split: sum.splits if_splits)
  show ?thesis
    using sample_urls sample_nonempty l v fn sample_bytes0(2)
    by (simp add: remote_withSnapshot_def andThen_def remote_read_def sample_read [OF _ rd] read_answer_def
        b64_decode_encode lift_result_def ret_def k bs commit_def sample_committed [OF _ cm] commit_answer_def
        commit_body_def maxRemoteVersion_def zero_response_def validRemoteReceipt_def not_less Let_def)
qed

lemma sample_remote_begin:
  "\<exists>w. remote_withSnapshot env3 sample_store True
      (Begin_fn sample_store (sample_rand (CHR ''k'')) sample_now sample_sorted) sample_rworld = (Inr sample_intent1, w) \<and>
    map x_Reply (rw_sent w) = [Reply 200 (Some (read_reply ''3'')), Reply 200 (Some (commit_reply ''3'' ''4'' (CHR ''c'')))]"
  unfolding env3_def
  by (rule sample_transaction [OF sample_answers(2,4), where s' = snap1 and b = "sample_bytes snap1"])
     (simp_all add: sample_begin_fn sample_bytes1 sample_nonempty)

lemma sample_bytes0_encode: "encodeSnapshot snap0 = Inr (sample_bytes snap0)"
  by code_simp

lemma sample_remote_bind:
  "\<exists>w. remote_withSnapshot env2 sample_store True (BindEmpty_fn sample_binding) sample_rworld = (Inr (), w) \<and>
    map x_Reply (rw_sent w) = [Reply 200 (Some (read_reply ''2'')), Reply 200 (Some (commit_reply ''2'' ''3'' (CHR ''d'')))]"
proof -
  have "BindEmpty_fn sample_binding snap0 = Inr (snap0, ())" by code_simp
  then show ?thesis unfolding env2_def
    by (rule sample_transaction [OF sample_answers(1,3), where s' = snap0 and b = "sample_bytes snap0", rotated 2])
       (simp_all add: sample_bytes0_encode sample_nonempty)
qed

subsection \<open>Properties\<close>

text \<open>
  C22: a key leaves the remote store only after an exact receipt. When \<open>Begin\<close> on a remote store
  returns an intent, a read answered the bytes \<open>old\<close>, the last answer carries the receipt of
  this process's own commit of the bytes \<open>b\<close> on top of the version read, those bytes decode to a
  snapshot that holds the intent, and repeating the request on it gives the same intent.
\<close>
theorem remote_begin_receipted:
  assumes "remote_Begin env sid rand now r w = (Inr i, w')" "clock_ok now"
    "\<forall>old b s. receipted env w w' old b \<longrightarrow> decodeSnapshot old sid = Inr s \<longrightarrow> fresh_source rand s"
  shows "\<exists>old b s'. receipted env w w' old b \<and> decodeSnapshot b sid = Inr s' \<and> i \<in> set (s_Records s') \<and>
    Begin sid rand' now' r s' = Inr (s', i)"
proof -
  from assms(1) obtain r' where r': "validateBegin r = Inr r'"
    and run: "remote_withSnapshot env sid True (Begin_fn sid rand now r') w = (Inr i, w')"
    by (auto simp: remote_Begin_def raise_def split: sum.splits)
  show ?thesis
    by (rule remote_store.begin_installed [OF TrueI run r' assms(2)]) (use assms(3) in blast)
qed

lemma found_answer:
  assumes "found env x old v" "x_Reply x = Reply 200 (Some d)" "answers d (read_answer u)"
  shows "old = sample_bytes snap0" "v = u"
  using assms by (auto simp: found_def answered_def answers_def read_answer_def zero_response_def b64_decode_encode)

theorem remote_begin_receipted_witness:
  "\<exists>w' old b s'. receipted env3 sample_rworld w' old b \<and> decodeSnapshot b sample_store = Inr s' \<and>
     sample_intent1 \<in> set (s_Records s')"
proof -
  obtain w' where run: "remote_Begin env3 sample_store (sample_rand (CHR ''k'')) sample_now sample_create
      sample_rworld = (Inr sample_intent1, w')"
    and rep: "map x_Reply (rw_sent w') = [Reply 200 (Some (read_reply ''3'')), Reply 200 (Some (commit_reply ''3'' ''4'' (CHR ''c'')))]"
    using sample_remote_begin by (auto simp: remote_Begin_def sample_validateBegin)
  have old: "old = sample_bytes snap0" if "receipted env3 sample_rworld w' old b" for old b
    using that rep found_answer(1) [OF _ _ sample_answers(2)]
    by (auto simp: receipted_def sample_rworld_def)
  have "\<forall>old b s. receipted env3 sample_rworld w' old b \<longrightarrow> decodeSnapshot old sample_store = Inr s \<longrightarrow>
      fresh_source (sample_rand (CHR ''k'')) s"
    using old sample_bytes0(1) sample_fresh(1) by auto
  from remote_begin_receipted [OF run sample_fresh(2) this, where rand' = None and now' = sample_now]
  show ?thesis by blast
qed

text \<open>
  C24: a transaction never repeats a request. Whatever the service answers and however the
  operation ends, the requests it sent are some of one read, one commit and one resolve, in
  this order; a read-only transaction sends at most the read.
\<close>
theorem remote_never_resends:
  assumes "remote_withSnapshot env sid write fn w = (r, w')"
  shows "\<exists>xs. rw_sent w' = rw_sent w @ xs \<and>
    subseq (map x_URL xs) (map (op_url w) (if write then [''read'', ''commit'', ''resolve''] else [''read'']))"
  using assms
proof (rule withSnapshot_trace)
  fix rs cs
  assume s: "sends w w' (rs @ cs)" and rs: "rs = [] \<or> (\<exists>x. rs = [x] \<and> request_of w ''read'' (GStruct []) x)"
    and cs: "cs = [] \<or> write \<and> (\<exists>x data version encoded y. rs = [x] \<and> found env x data version \<and>
       computes sid (rb_binding (rw_backend w)) fn data encoded y \<and> commit_trace env w version encoded cs \<and>
       (r = Inr y \<or> \<not> ok r))"
  have r: "subseq (map x_URL rs) [op_url w ''read'']" using rs by (auto simp: request_of_def)
  have c: "subseq (map x_URL cs) (if write then [op_url w ''commit'', op_url w ''resolve''] else [])"
    using cs by (auto simp: commit_trace_def request_of_def)
  from list_emb_append_mono [OF r c] s show ?thesis
    by (intro exI [of _ "rs @ cs"]) (simp add: sends_def split: if_splits)
qed

theorem remote_never_resends_witness:
  "\<exists>r w' xs. remote_withSnapshot env3 sample_store True
     (Begin_fn sample_store (sample_rand (CHR ''k'')) sample_now sample_sorted) sample_rworld = (r, w') \<and> rw_sent w' = xs \<and>
     subseq (map x_URL xs) (map (op_url sample_rworld) [''read'', ''commit'', ''resolve''])"
proof -
  obtain r w' where run: "remote_withSnapshot env3 sample_store True
     (Begin_fn sample_store (sample_rand (CHR ''k'')) sample_now sample_sorted) sample_rworld = (r, w')" by fastforce
  moreover have "rw_sent sample_rworld = []" by (simp add: sample_rworld_def)
  ultimately show ?thesis using remote_never_resends [OF run] by auto
qed

text \<open>
  C25: custody stays pinned, and a stale or foreign descriptor is never used. No transaction
  changes the endpoint, slot, descriptor path, endpoint set or Host binding that opening fixed.
  Every request goes to the pinned endpoint. Without a descriptor file it carries the pinned
  grant. With one, each request carries the grant of a descriptor read from the pinned path for
  the pinned slot whose endpoints are the pinned ones, and along the requests, starting from what
  the backend knew and ending in what it knows, the sequence number grows or the very same
  descriptor, by its digest, is used again.
\<close>
theorem remote_custody_pinned:
  assumes "remote_withSnapshot env sid write fn w = (r, w')"
  shows "pinned (rw_backend w) (rw_backend w') \<and> (\<exists>xs. rw_sent w' = rw_sent w @ xs \<and>
    (\<forall>x\<in>set xs. \<exists>op. x_URL x = rb_endpoint (rw_backend w) @ ''/'' @ op) \<and>
    (if rb_descriptorPath (rw_backend w) = [] then \<forall>x\<in>set xs. x_Grant x = rb_grant (rw_backend w)
     else \<exists>ds. list_all2 (granted env (rw_backend w)) xs ds \<and>
       sorted_wrt no_older (backend_mark (rw_backend w) # map descriptor_mark ds @ [backend_mark (rw_backend w')])))"
  using withSnapshot_custody [OF assms] unfolding custody_def authorised_def op_url_def .

text \<open>A descriptor renewed once: the backend knows sequence 4, the file has 5.\<close>

definition renewed_descriptor :: json where
  "renewed_descriptor = JObj [(''version'', JNum ''1''), (''sequence'', JNum ''5''), (''files'', JArr
     [JObj [(''slot'', JStr ''journal''), (''endpoint'', JStr sample_endpoint), (''grant'', JStr ''renewed'')]])]"

definition descriptor_world :: world where
  "descriptor_world = sample_world\<lparr>w_entries := [(''files.json'', sample_file 9 (json_text renewed_descriptor))]\<rparr>"

definition descriptor_env :: "unit remote_env" where
  "descriptor_env = env3\<lparr>descriptor_at := \<lambda>_. (no_faults, descriptor_world), deliver := \<lambda>_ _ _ _. (NoReply, ())\<rparr>"

definition descriptor_rworld :: "unit rworld" where
  "descriptor_rworld = sample_rworld\<lparr>rw_backend := sample_backend\<lparr>rb_descriptorPath := sample_path @ ''/files.json'',
     rb_slot := ''journal'', rb_endpoints := [(''journal'', sample_endpoint)], rb_sequence := 4,
     rb_descriptorDigest := replicate 32 (CHR ''4'')\<rparr>\<rparr>"

theorem remote_custody_pinned_witness:
  "\<exists>r w' x d. remote_withSnapshot descriptor_env sample_store False Open_fn descriptor_rworld = (r, w') \<and>
     rw_sent w' = [x] \<and> x_Grant x = ''renewed'' \<and> granted descriptor_env (rw_backend descriptor_rworld) x d \<and>
     no_older (backend_mark (rw_backend descriptor_rworld)) (descriptor_mark d)"
proof -
  obtain r w' where run: "remote_withSnapshot descriptor_env sample_store False Open_fn descriptor_rworld = (r, w')" by fastforce
  have "map x_Grant (rw_sent (snd (remote_withSnapshot descriptor_env sample_store False Open_fn descriptor_rworld))) = [''renewed'']"
    by code_simp
  then obtain x where x: "rw_sent w' = [x]" "x_Grant x = ''renewed''" by (auto simp: run map_eq_Cons_conv)
  have "rb_descriptorPath (rw_backend descriptor_rworld) \<noteq> []" "rw_sent descriptor_rworld = []"
    by (simp_all add: descriptor_rworld_def sample_rworld_def)
  with remote_custody_pinned [OF run] x run show ?thesis by (auto simp: list_all2_Cons1)
qed

lemma found_version: "found env x old v \<Longrightarrow> found env x old' v' \<Longrightarrow> v' = v"
  by (auto simp: found_def answered_def)

lemma acknowledged_commit:
  assumes "remote_withSnapshot env sid True fn w = (Inr y, w')"
    "found env (rw_sent w' ! length (rw_sent w)) old v"
  obtains i d x where "newKey (random_at env (rw_keys w)) = Some i" "x \<in> set (rw_sent w')" "acknowledged x v i d"
  using assms(1)
proof (rule withSnapshot_trace)
  fix rs cs
  assume s: "sends w w' (rs @ cs)"
    and ack: "\<And>z. True \<Longrightarrow> Inr y = Inr z \<Longrightarrow> \<exists>x data version encoded. rs = [x] \<and> found env x data version \<and>
       computes sid (rb_binding (rw_backend w)) fn data encoded z \<and> commit_acknowledged env w version encoded cs"
  from ack [OF TrueI refl] obtain x data version encoded where x: "rs = [x]" "found env x data version"
    "commit_acknowledged env w version encoded cs" by blast
  with s assms(2) have "version = v" by (auto simp: sends_def dest: found_version)
  with x s show thesis by (auto simp: commit_acknowledged_def sends_def intro!: that [of _ "last cs"])
qed

text \<open>
  What the private-file service promises about the receipts it issues: a version is committed
  once, so all receipts for the same expected version name the same commit.
\<close>

definition one_receipt :: "sent set \<Rightarrow> bool" where
  "one_receipt X \<longleftrightarrow> (\<forall>x\<in>X. \<forall>y\<in>X. \<forall>v i j d e.
     acknowledged x v i d \<longrightarrow> acknowledged y v j e \<longrightarrow> i = j)"

text \<open>
  C23: competing writers have one winner. If two clients draw different commit keys and the
  service commits each version once, two transactions that both succeed did not start from the
  same version: no two claims are made on the strength of one snapshot.
\<close>
theorem remote_one_winner:
  assumes "remote_withSnapshot e1 sid1 True fn1 w1 = (Inr x1, w1')"
    "remote_withSnapshot e2 sid2 True fn2 w2 = (Inr x2, w2')"
    "one_receipt (set (rw_sent w1') \<union> set (rw_sent w2'))"
    "newKey (random_at e1 (rw_keys w1)) \<noteq> newKey (random_at e2 (rw_keys w2))"
    "found e1 (rw_sent w1' ! length (rw_sent w1)) old1 v1" "found e2 (rw_sent w2' ! length (rw_sent w2)) old2 v2"
  shows "v1 \<noteq> v2"
proof -
  from acknowledged_commit [OF assms(1,5)] obtain i d x where i: "newKey (random_at e1 (rw_keys w1)) = Some i"
    "x \<in> set (rw_sent w1')" "acknowledged x v1 i d" by metis
  from acknowledged_commit [OF assms(2,6)] obtain j e y where j: "newKey (random_at e2 (rw_keys w2)) = Some j"
    "y \<in> set (rw_sent w2')" "acknowledged y v2 j e" by metis
  from i j assms(3,4) show ?thesis unfolding one_receipt_def by (metis Un_iff)
qed

lemma acknowledged_answer:
  assumes "acknowledged x v i d" "x_Reply x = Reply 200 (Some b)"
  shows "answers b (commit_answer u c) \<Longrightarrow> v = u \<and> i = commit_id c" "\<not> answers b (read_answer u)"
  using assms
  by (auto simp: acknowledged_def answered_def answers_def commit_answer_def read_answer_def zero_response_def
      validRemoteReceipt_def)

lemma two_replies:
  assumes "map f xs = [p, q]"
  obtains a b where "xs = [a, b]" "f a = p" "f b = q"
  using assms by (auto simp: map_eq_Cons_conv)

theorem remote_one_winner_witness:
  "\<exists>w w' old old' v v'. remote_withSnapshot env2 sample_store True (BindEmpty_fn sample_binding) sample_rworld = (Inr (), w) \<and>
     remote_withSnapshot env3 sample_store True
      (Begin_fn sample_store (sample_rand (CHR ''k'')) sample_now sample_sorted) sample_rworld = (Inr sample_intent1, w') \<and>
     found env2 (rw_sent w ! 0) old v \<and> found env3 (rw_sent w' ! 0) old' v' \<and> v \<noteq> v'"
proof -
  obtain w where w: "remote_withSnapshot env2 sample_store True (BindEmpty_fn sample_binding) sample_rworld = (Inr (), w)"
    "map x_Reply (rw_sent w) = [Reply 200 (Some (read_reply ''2'')), Reply 200 (Some (commit_reply ''2'' ''3'' (CHR ''d'')))]"
    using sample_remote_bind by (elim exE conjE)
  obtain w' where w': "remote_withSnapshot env3 sample_store True
      (Begin_fn sample_store (sample_rand (CHR ''k'')) sample_now sample_sorted) sample_rworld = (Inr sample_intent1, w')"
    "map x_Reply (rw_sent w') = [Reply 200 (Some (read_reply ''3'')), Reply 200 (Some (commit_reply ''3'' ''4'' (CHR ''c'')))]"
    using sample_remote_begin by (elim exE conjE)
  from w(2) obtain a b where ab: "rw_sent w = [a, b]" "x_Reply a = Reply 200 (Some (read_reply ''2''))"
    "x_Reply b = Reply 200 (Some (commit_reply ''2'' ''3'' (CHR ''d'')))" by (elim two_replies)
  from w'(2) obtain c d where cd: "rw_sent w' = [c, d]" "x_Reply c = Reply 200 (Some (read_reply ''3''))"
    "x_Reply d = Reply 200 (Some (commit_reply ''3'' ''4'' (CHR ''c'')))" by (elim two_replies)
  have one: "one_receipt (set (rw_sent w) \<union> set (rw_sent w'))"
  proof -
    have n: "\<not> acknowledged a v i e" "\<not> acknowledged c v i e" for v i e
      using acknowledged_answer(2) [OF _ ab(2), of v i e 2] sample_answers(1)
        acknowledged_answer(2) [OF _ cd(2), of v i e 3] sample_answers(2) by (rule_tac [!] notI) simp_all
    have y: "acknowledged b v i e \<Longrightarrow> v = 2 \<and> i = commit_id (CHR ''d'')"
      "acknowledged d v i e \<Longrightarrow> v = 3 \<and> i = commit_id (CHR ''c'')" for v i e
      by (rule acknowledged_answer(1) [OF _ ab(3) sample_answers(3)], assumption)
         (rule acknowledged_answer(1) [OF _ cd(3) sample_answers(4)])
    show ?thesis unfolding one_receipt_def ab(1) cd(1) by (auto simp: n dest!: y)
  qed
  have "commit_id (CHR ''d'') \<noteq> commit_id (CHR ''c'')" by code_simp
  then have k: "newKey (random_at env2 (rw_keys sample_rworld)) \<noteq> newKey (random_at env3 (rw_keys sample_rworld))"
    by (simp add: env2_def env3_def sample_urls)
  have f: "found env2 a (sample_bytes snap0) 2" "found env3 c (sample_bytes snap0) 3"
    using sample_answers(1,2) ab(2) cd(2) sample_urls sample_nonempty sample_bytes0(2)
    by (auto simp: found_def answered_def answers_def read_answer_def zero_response_def b64_decode_encode env2_def
        env3_def maxRemoteVersion_def)
  have l: "length (rw_sent sample_rworld) = 0" by (simp add: sample_rworld_def)
  have n: "rw_sent w ! length (rw_sent sample_rworld) = a" "rw_sent w' ! length (rw_sent sample_rworld) = c"
    by (simp_all add: ab(1) cd(1) l)
  have "(2::nat) \<noteq> 3" by (rule remote_one_winner [OF w(1) w'(1) one k, unfolded n, OF f])
  with w(1) w'(1) f show ?thesis
    by (intro exI [of _ w] exI [of _ w'] exI [of _ "sample_bytes snap0"] exI [of _ "2::nat"] exI [of _ "3::nat"] conjI)
       (simp_all add: ab(1) cd(1))
qed

end
