(* ===== verification/EdgeSpec.thy ===== *)
theory EdgeSpec
  imports GoStruct GoUrl
begin

text \<open>
  The exact Edge Forms of \<open>edgev2/spec.go\<close>: the roster of Form URLs, the closed validation of a
  desired spec as a JSON tree, and the typed specs it is decoded into and encoded from. An error
  is the source's message without its formatted arguments. A missing member reads as \<open>nil\<close>,
  which is also what \<open>null\<close> decodes to.
\<close>

subsection \<open>The roster\<close>

definition ModuleWorkerURL :: string where "ModuleWorkerURL = ''https://edge.forms.takoform.com/forms/ModuleWorker/0.3.0/''"
definition WorkerBundleURL :: string where "WorkerBundleURL = ''https://edge.forms.takoform.com/forms/WorkerBundle/0.2.0/''"
definition WorkerVersionURL :: string where "WorkerVersionURL = ''https://edge.forms.takoform.com/forms/WorkerVersion/0.5.0/''"
definition WorkerDeploymentURL :: string where "WorkerDeploymentURL = ''https://edge.forms.takoform.com/forms/WorkerDeployment/0.4.0/''"
definition WorkerEndpointURL :: string where "WorkerEndpointURL = ''https://edge.forms.takoform.com/forms/WorkerEndpoint/0.3.0/''"
definition WorkerCronTriggerURL :: string where "WorkerCronTriggerURL = ''https://edge.forms.takoform.com/forms/WorkerCronTrigger/0.3.0/''"
definition EdgeKVNamespaceURL :: string where "EdgeKVNamespaceURL = ''https://edge.forms.takoform.com/forms/EdgeKVNamespace/0.2.0/''"
definition ObjectBucketURL :: string where "ObjectBucketURL = ''https://edge.forms.takoform.com/forms/ObjectBucket/0.2.0/''"
definition SQLiteDatabaseURL :: string where "SQLiteDatabaseURL = ''https://edge.forms.takoform.com/forms/SQLiteDatabase/0.2.0/''"
definition SQLiteMigrationSetURL :: string where "SQLiteMigrationSetURL = ''https://edge.forms.takoform.com/forms/SQLiteMigrationSet/0.2.0/''"
definition SQLiteMigrationApplicationURL :: string where "SQLiteMigrationApplicationURL = ''https://edge.forms.takoform.com/forms/SQLiteMigrationApplication/0.2.0/''"
definition AtLeastOnceQueueURL :: string where "AtLeastOnceQueueURL = ''https://edge.forms.takoform.com/forms/AtLeastOnceQueue/0.2.0/''"
definition QueueConsumerURL :: string where "QueueConsumerURL = ''https://edge.forms.takoform.com/forms/QueueConsumer/0.3.0/''"

definition URLs :: "string list" where
  "URLs = [ModuleWorkerURL, WorkerBundleURL, WorkerVersionURL, WorkerDeploymentURL, WorkerEndpointURL,
     WorkerCronTriggerURL, EdgeKVNamespaceURL, ObjectBucketURL, SQLiteDatabaseURL, SQLiteMigrationSetURL,
     SQLiteMigrationApplicationURL, AtLeastOnceQueueURL, QueueConsumerURL]"

lemmas form_urls = ModuleWorkerURL_def WorkerBundleURL_def WorkerVersionURL_def WorkerDeploymentURL_def
  WorkerEndpointURL_def WorkerCronTriggerURL_def EdgeKVNamespaceURL_def ObjectBucketURL_def
  SQLiteDatabaseURL_def SQLiteMigrationSetURL_def SQLiteMigrationApplicationURL_def
  AtLeastOnceQueueURL_def QueueConsumerURL_def

definition form_kinds :: "(string \<times> string) list" where
  "form_kinds =
     [(''ModuleWorker'', ModuleWorkerURL), (''WorkerBundle'', WorkerBundleURL),
      (''WorkerVersion'', WorkerVersionURL), (''WorkerDeployment'', WorkerDeploymentURL),
      (''WorkerEndpoint'', WorkerEndpointURL), (''WorkerCronTrigger'', WorkerCronTriggerURL),
      (''EdgeKVNamespace'', EdgeKVNamespaceURL), (''ObjectBucket'', ObjectBucketURL),
      (''SQLiteDatabase'', SQLiteDatabaseURL), (''SQLiteMigrationSet'', SQLiteMigrationSetURL),
      (''SQLiteMigrationApplication'', SQLiteMigrationApplicationURL), (''AtLeastOnceQueue'', AtLeastOnceQueueURL),
      (''QueueConsumer'', QueueConsumerURL)]"

definition URLForKind :: "string \<Rightarrow> string option" where
  "URLForKind kind = map_of form_kinds kind"

definition KindForURL :: "string \<Rightarrow> string option" where
  "KindForURL url = List.find (\<lambda>kind. URLForKind kind = Some url)
     [''ModuleWorker'', ''WorkerBundle'', ''WorkerVersion'', ''WorkerDeployment'', ''WorkerEndpoint'',
      ''WorkerCronTrigger'', ''EdgeKVNamespace'', ''ObjectBucket'', ''SQLiteDatabase'', ''SQLiteMigrationSet'',
      ''SQLiteMigrationApplication'', ''AtLeastOnceQueue'', ''QueueConsumer'']"

subsection \<open>Lexical rules\<close>

definition is_letter :: "char \<Rightarrow> bool" where
  "is_letter c \<longleftrightarrow> is_upper c \<or> is_lower c"

definition nameRE :: "string \<Rightarrow> bool" where
  "nameRE s = match_rep (\<lambda>c. is_letter c \<or> c \<in> set ''_$'') (\<lambda>c. is_alnum c \<or> c \<in> set ''_$'') 0 63 s"

definition varRE :: "string \<Rightarrow> bool" where
  "varRE s = match_rep is_letter (\<lambda>c. is_alnum c \<or> c \<in> set ''._-'') 0 63 s"

definition secretNameRE :: "string \<Rightarrow> bool" where
  "secretNameRE s = match_rep is_upper (\<lambda>c. is_upper c \<or> is_digit c \<or> c = CHR ''_'') 0 63 s"

definition digestRE :: "string \<Rightarrow> bool" where
  "digestRE s \<longleftrightarrow> length s = 64 \<and> list_all (\<lambda>c. is_digit c \<or> c \<in> set ''abcdef'') s"

definition uidRE :: "string \<Rightarrow> bool" where
  "uidRE s = match_rep is_alnum (\<lambda>c. is_alnum c \<or> c \<in> set ''._-'') 0 127 s"

subsection \<open>Checks on JSON values\<close>

type_synonym obj = "(string \<times> json) list"

definition at :: "obj \<Rightarrow> string \<Rightarrow> json" where
  "at ob k = (case map_of ob k of None \<Rightarrow> JNull | Some v \<Rightarrow> v)"

definition only :: "obj \<Rightarrow> string list \<Rightarrow> string + unit" where
  "only ob keys = each (\<lambda>(k, _). guard (k \<in> set keys) ''unknown field'') ob"

definition object :: "json \<Rightarrow> string list \<Rightarrow> string + obj" where
  "object v keys =
     (case v of JObj m \<Rightarrow> (case only m keys of Inl e \<Rightarrow> Inl e | Inr _ \<Rightarrow> Inr m)
      | _ \<Rightarrow> Inl ''must be an object (null is not allowed)'')"

definition ref :: "json \<Rightarrow> string + unit" where
  "ref v =
     (case object v [''resourceUid''] of Inl e \<Rightarrow> Inl e
      | Inr m \<Rightarrow>
          (case at m ''resourceUid'' of JStr s \<Rightarrow> guard (uidRE s) ''resourceUid must match''
           | _ \<Rightarrow> Inl ''resourceUid must match''))"

definition integer :: "json \<Rightarrow> int \<Rightarrow> int \<Rightarrow> string + unit" where
  "integer v lo hi =
     (case v of JNum n \<Rightarrow>
          (case parse_int64 n of None \<Rightarrow> Inl ''must be an integer in range''
           | Some i \<Rightarrow> guard (lo \<le> i \<and> i \<le> hi) ''must be an integer in range'')
      | _ \<Rightarrow> Inl ''must be an integer'')"

definition isArtifactURL :: "string \<Rightarrow> bool" where
  "isArtifactURL raw \<longleftrightarrow> ascii_only raw \<and>
     (case url_parse raw of None \<Rightarrow> False
      | Some u \<Rightarrow> CHR ''#'' \<notin> set raw \<and> url_scheme u = ''https'' \<and> hostname u \<noteq> [] \<and> \<not> url_user u \<and>
          url_query u = [] \<and> \<not> url_force_query u \<and> url_fragment u = [])"

definition artifact :: "json \<Rightarrow> string + unit" where
  "artifact v =
     (case object v [''url'', ''sha256''] of Inl e \<Rightarrow> Inl e
      | Inr m \<Rightarrow>
          checks [
            (case at m ''url'' of JStr raw \<Rightarrow> guard (length raw \<le> 8192 \<and> isArtifactURL raw) ''artifact.url''
             | _ \<Rightarrow> Inl ''artifact.url''),
            (case at m ''sha256'' of JStr sha \<Rightarrow> guard (digestRE sha) ''artifact.sha256''
             | _ \<Rightarrow> Inl ''artifact.sha256'')])"

definition oneOf :: "string \<Rightarrow> string list \<Rightarrow> bool" where
  "oneOf v opts = list_ex (\<lambda>x. v = x) opts"

text \<open>\<open>jsonValue\<close> on the tree of a strict document: the depth grows by one per level.\<close>

fun jsonValue :: "json \<Rightarrow> nat \<Rightarrow> string + unit" where
  "jsonValue v depth =
     (if 8 < depth then Inl ''JSON value nesting exceeds 8''
      else case v of
        JStr s \<Rightarrow> guard (rune_count s \<le> 8192) ''string exceeds 8192 Unicode scalar values''
      | JArr xs \<Rightarrow>
          (if 64 < length xs then Inl ''array exceeds 64 items''
           else each (\<lambda>x. jsonValue x (depth + 1)) xs)
      | JObj kvs \<Rightarrow>
          (if 64 < length kvs then Inl ''object exceeds 64 keys''
           else each (\<lambda>(k, x). if \<not> varRE k then Inl ''invalid object key'' else jsonValue x (depth + 1)) kvs)
      | _ \<Rightarrow> Inr ())"

declare jsonValue.simps [simp del]

text \<open>The same by constructor, for evaluation.\<close>

lemma jsonValue_code [code]:
  "jsonValue JNull d = (if 8 < d then Inl ''JSON value nesting exceeds 8'' else Inr ())"
  "jsonValue (JBool b) d = (if 8 < d then Inl ''JSON value nesting exceeds 8'' else Inr ())"
  "jsonValue (JNum n) d = (if 8 < d then Inl ''JSON value nesting exceeds 8'' else Inr ())"
  "jsonValue (JStr s) d = (if 8 < d then Inl ''JSON value nesting exceeds 8''
     else guard (rune_count s \<le> 8192) ''string exceeds 8192 Unicode scalar values'')"
  "jsonValue (JArr xs) d = (if 8 < d then Inl ''JSON value nesting exceeds 8''
     else if 64 < length xs then Inl ''array exceeds 64 items''
     else each (\<lambda>x. jsonValue x (d + 1)) xs)"
  "jsonValue (JObj kvs) d = (if 8 < d then Inl ''JSON value nesting exceeds 8''
     else if 64 < length kvs then Inl ''object exceeds 64 keys''
     else each (\<lambda>(k, x). if \<not> varRE k then Inl ''invalid object key'' else jsonValue x (d + 1)) kvs)"
  by (subst jsonValue.simps; simp)+

subsection \<open>Cron expressions\<close>

definition parseInt :: "string \<Rightarrow> int option" where
  "parseInt s =
     (if s = [] \<or> \<not> list_all is_digit s then None
      else case parse_uint64 s of None \<Rightarrow> None
      | Some n \<Rightarrow> if 2 ^ 63 - 1 < n then None else Some (int n))"

definition cron_step :: "string \<Rightarrow> int \<Rightarrow> int \<Rightarrow> string + (string \<times> int)" where
  "cron_step part lo hi =
     (if CHR ''/'' \<notin> set part then Inr (part, 0)
      else case split_on (CHR ''/'') part of
        [a, b] \<Rightarrow>
          if a = [] \<or> b = [] then Inl ''invalid step''
          else (case parseInt b of None \<Rightarrow> Inl ''step out of range''
            | Some n \<Rightarrow> if n < 1 \<or> hi - lo + 1 < n then Inl ''step out of range'' else Inr (a, n))
      | _ \<Rightarrow> Inl ''invalid step'')"

definition cron_part :: "string \<Rightarrow> int \<Rightarrow> int \<Rightarrow> string + unit" where
  "cron_part part0 lo hi =
     (case cron_step part0 lo hi of Inl e \<Rightarrow> Inl e
      | Inr (part, step) \<Rightarrow>
          if part = ''*'' then Inr ()
          else if CHR ''-'' \<in> set part then
            (case split_on (CHR ''-'') part of
               [a, b] \<Rightarrow>
                 (case parseInt a of None \<Rightarrow> Inl ''expected decimal integer''
                  | Some x \<Rightarrow> (case parseInt b of None \<Rightarrow> Inl ''range out of bounds''
                      | Some y \<Rightarrow> guard (lo \<le> x \<and> y \<le> hi \<and> x \<le> y) ''range out of bounds''))
             | _ \<Rightarrow> Inl ''invalid range'')
          else if step \<noteq> 0 then Inl ''step requires * or a range''
          else (case parseInt part of None \<Rightarrow> Inl ''value out of range''
            | Some n \<Rightarrow> guard (lo \<le> n \<and> n \<le> hi) ''value out of range''))"

fun cron_parts :: "string list \<Rightarrow> string list \<Rightarrow> int \<Rightarrow> int \<Rightarrow> string + unit" where
  "cron_parts seen [] lo hi = Inr ()"
| "cron_parts seen (part # ps) lo hi =
     (if part = [] \<or> part \<in> set seen then Inl ''empty or duplicate element''
      else case cron_part part lo hi of Inl e \<Rightarrow> Inl e | Inr _ \<Rightarrow> cron_parts (part # seen) ps lo hi)"

definition cronField :: "string \<Rightarrow> int \<Rightarrow> int \<Rightarrow> string + unit" where
  "cronField f lo hi = cron_parts [] (split_on (CHR '','') f) lo hi"

definition cron_ranges :: "(int \<times> int) list" where
  "cron_ranges = [(0, 59), (0, 23), (1, 31), (1, 12), (0, 6)]"

definition cron :: "json \<Rightarrow> string + unit" where
  "cron v =
     (case v of JStr s \<Rightarrow>
        if s = [] \<or> 64 < length s \<or> char_of (9::nat) \<in> set s \<or> contains_str s ''  '' \<or> trim_space s \<noteq> s
        then Inl ''cron must be at most 64 characters with single ASCII spaces''
        else let p = split_on (CHR '' '') s in
          if length p \<noteq> 5 then Inl ''cron must have five fields''
          else each (\<lambda>(f, lo, hi). cronField f lo hi) (zip p cron_ranges)
      | _ \<Rightarrow> Inl ''cron must be at most 64 characters with single ASCII spaces'')"

subsection \<open>Deployments\<close>

fun as_int :: "json \<Rightarrow> int" where
  "as_int (JNum n) = (case parse_int64 n of None \<Rightarrow> 0 | Some i \<Rightarrow> i)"
| "as_int _ = 0"

fun members :: "json \<Rightarrow> obj" where
  "members (JObj m) = m"
| "members _ = []"

fun text_of :: "json \<Rightarrow> string" where
  "text_of (JStr s) = s"
| "text_of _ = []"

definition ref_uid :: "json \<Rightarrow> string" where
  "ref_uid v = text_of (at (members v) ''resourceUid'')"

fun versions_loop :: "string list \<Rightarrow> json list \<Rightarrow> string + unit" where
  "versions_loop seen [] = Inr ()"
| "versions_loop seen (v # vs) =
     (case object v [''workerVersion'', ''weight''] of Inl e \<Rightarrow> Inl e
      | Inr m \<Rightarrow>
          (case ref (at m ''workerVersion'') of Inl e \<Rightarrow> Inl e
           | Inr _ \<Rightarrow>
               let uid = ref_uid (at m ''workerVersion'') in
               if uid \<in> set seen then Inl ''duplicate workerVersion UID''
               else (case integer (at m ''weight'') 1 10000 of Inl e \<Rightarrow> Inl e
                 | Inr _ \<Rightarrow> versions_loop (uid # seen) vs)))"

definition validateDeployment :: "obj \<Rightarrow> string + unit" where
  "validateDeployment ob =
     (case checks [only ob [''worker'', ''versions''], ref (at ob ''worker'')] of Inl e \<Rightarrow> Inl e
      | Inr _ \<Rightarrow>
          (case at ob ''versions'' of
             JArr a \<Rightarrow>
               if length a < 1 \<or> 8 < length a then Inl ''versions must contain 1..8 entries''
               else (case versions_loop [] a of Inl e \<Rightarrow> Inl e
                 | Inr _ \<Rightarrow> guard (sum_list (map (\<lambda>v. as_int (at (members v) ''weight'')) a) = 10000)
                     ''versions weights must sum to exactly 10000'')
           | _ \<Rightarrow> Inl ''versions must contain 1..8 entries''))"

subsection \<open>Worker versions\<close>

definition binding_fields_of :: "string list" where
  "binding_fields_of = [''kvBindings'', ''sqliteBindings'', ''bucketBindings'', ''queueProducerBindings'',
     ''serviceBindings'', ''actorBindings'', ''workflowBindings'']"

definition version_keys :: "string list" where
  "version_keys = [''worker'', ''bundle'', ''handlers'', ''vars'', ''requiredSensitiveVars''] @
     binding_fields_of @ [''assets'']"

fun handlers_loop :: "string list \<Rightarrow> json list \<Rightarrow> string + unit" where
  "handlers_loop seen [] = Inr ()"
| "handlers_loop seen (v # vs) =
     (case v of JStr s \<Rightarrow>
        if \<not> oneOf s [''fetch'', ''scheduled'', ''queue''] \<or> s \<in> set seen
        then Inl ''handlers must be unique values from fetch, scheduled, queue''
        else handlers_loop (s # seen) vs
      | _ \<Rightarrow> Inl ''handlers must be unique values from fetch, scheduled, queue'')"

definition check_vars :: "json option \<Rightarrow> string + unit" where
  "check_vars v =
     (case v of None \<Rightarrow> Inr ()
      | Some (JObj m) \<Rightarrow>
          if 64 < length m then Inl ''vars must be an object with at most 64 keys''
          else each (\<lambda>(k, x). if \<not> varRE k then Inl ''invalid vars key'' else jsonValue x 1) m
      | Some _ \<Rightarrow> Inl ''vars must be an object with at most 64 keys'')"

text \<open>The environment names in use, threaded through the three groups of names.\<close>

fun secrets_loop :: "string list \<Rightarrow> json list \<Rightarrow> string + string list" where
  "secrets_loop used [] = Inr used"
| "secrets_loop used (v # vs) =
     (case v of JStr s \<Rightarrow>
        if \<not> secretNameRE s then Inl ''invalid requiredSensitiveVars name''
        else if s \<in> set used then Inl ''duplicate environment name''
        else secrets_loop (s # used) vs
      | _ \<Rightarrow> Inl ''invalid requiredSensitiveVars name'')"

definition check_secrets :: "json option \<Rightarrow> string + string list" where
  "check_secrets v =
     (case v of None \<Rightarrow> Inr []
      | Some (JArr a) \<Rightarrow>
          if 64 < length a then Inl ''requiredSensitiveVars must be an array with at most 64 names''
          else secrets_loop [] a
      | Some _ \<Rightarrow> Inl ''requiredSensitiveVars must be an array with at most 64 names'')"

fun names_loop :: "string list \<Rightarrow> string list \<Rightarrow> string + string list" where
  "names_loop used [] = Inr used"
| "names_loop used (k # ks) =
     (if k \<in> set used then Inl ''duplicate environment name'' else names_loop (k # used) ks)"

fun bindings_loop :: "string list \<Rightarrow> string list \<Rightarrow> json list \<Rightarrow> string + string list" where
  "bindings_loop used seen [] = Inr used"
| "bindings_loop used seen (item # items) =
     (case object item [''name'', ''resource''] of Inl e \<Rightarrow> Inl e
      | Inr m \<Rightarrow>
          (case at m ''name'' of JStr name \<Rightarrow>
             if \<not> nameRE name then Inl ''binding name is invalid''
             else if name \<in> set seen then Inl ''duplicate binding name''
             else if name \<in> set used then Inl ''duplicate environment name''
             else (case ref (at m ''resource'') of Inl e \<Rightarrow> Inl e
               | Inr _ \<Rightarrow> bindings_loop (name # used) (name # seen) items)
           | _ \<Rightarrow> Inl ''binding name is invalid''))"

fun binding_groups :: "obj \<Rightarrow> string list \<Rightarrow> string list \<Rightarrow> string + string list" where
  "binding_groups ob used [] = Inr used"
| "binding_groups ob used (f # fs) =
     (case map_of ob f of None \<Rightarrow> binding_groups ob used fs
      | Some (JArr a) \<Rightarrow>
          if 64 < length a then Inl ''must be an array with at most 64 bindings''
          else (case bindings_loop used [] a of Inl e \<Rightarrow> Inl e | Inr used' \<Rightarrow> binding_groups ob used' fs)
      | Some _ \<Rightarrow> Inl ''must be an array with at most 64 bindings'')"

definition environment_names :: "obj \<Rightarrow> string + string list" where
  "environment_names ob =
     (case check_secrets (map_of ob ''requiredSensitiveVars'') of Inl e \<Rightarrow> Inl e
      | Inr used \<Rightarrow>
          (case names_loop used (map fst (members (at ob ''vars''))) of Inl e \<Rightarrow> Inl e
           | Inr used' \<Rightarrow> binding_groups ob used' binding_fields_of))"

definition check_assets :: "json option \<Rightarrow> string + unit" where
  "check_assets v =
     (case v of None \<Rightarrow> Inr ()
      | Some a \<Rightarrow>
          (case object a [''bundle'', ''runWorkerFirst'', ''notFoundHandling''] of Inl e \<Rightarrow> Inl e
           | Inr m \<Rightarrow>
               checks [ref (at m ''bundle''),
                 (case at m ''runWorkerFirst'' of JBool _ \<Rightarrow> Inr () | _ \<Rightarrow> Inl ''assets.runWorkerFirst must be boolean''),
                 (case at m ''notFoundHandling'' of
                    JStr s \<Rightarrow> guard (oneOf s [''none'', ''single_page_application'']) ''assets.notFoundHandling''
                  | _ \<Rightarrow> Inl ''assets.notFoundHandling'')]))"

definition is_nonempty_array :: "json \<Rightarrow> bool" where
  "is_nonempty_array v = (case v of JArr a \<Rightarrow> a \<noteq> [] | _ \<Rightarrow> False)"

definition check_static :: "obj \<Rightarrow> json list \<Rightarrow> string + unit" where
  "check_static ob handlers =
     (let bundle = map_of ob ''bundle'' \<noteq> None; assets = map_of ob ''assets'' \<noteq> None in
      if \<not> bundle \<and> \<not> assets then Inl ''bundle or assets is required''
      else if \<not> bundle \<and> assets then
        checks [guard (handlers = []) ''static-only WorkerVersion requires empty handlers'',
          guard (members (at ob ''vars'') = []) ''static-only WorkerVersion requires empty vars'',
          guard (\<not> is_nonempty_array (at ob ''requiredSensitiveVars''))
            ''static-only WorkerVersion requires empty requiredSensitiveVars'',
          each (\<lambda>f. guard (\<not> is_nonempty_array (at ob f)) ''static-only WorkerVersion requires empty bindings'')
            binding_fields_of,
          guard (at (members (at ob ''assets'')) ''runWorkerFirst'' \<noteq> JBool True)
            ''static-only WorkerVersion requires assets.runWorkerFirst=false'']
      else Inr ())"

definition validateVersion :: "obj \<Rightarrow> string + unit" where
  "validateVersion ob =
     (case checks [only ob version_keys, ref (at ob ''worker''),
          (case map_of ob ''bundle'' of None \<Rightarrow> Inr () | Some v \<Rightarrow> ref v)] of Inl e \<Rightarrow> Inl e
      | Inr _ \<Rightarrow>
          (case at ob ''handlers'' of
             JArr handlers \<Rightarrow>
               if 3 < length handlers then Inl ''handlers is required and must contain at most 3 entries''
               else (case checks [handlers_loop [] handlers, check_vars (map_of ob ''vars'')] of Inl e \<Rightarrow> Inl e
                 | Inr _ \<Rightarrow>
                     (case environment_names ob of Inl e \<Rightarrow> Inl e
                      | Inr _ \<Rightarrow> checks [check_assets (map_of ob ''assets''), check_static ob handlers]))
           | _ \<Rightarrow> Inl ''handlers is required and must contain at most 3 entries''))"

subsection \<open>Validation by Form\<close>

definition consumer_ranges :: "(string \<times> int \<times> int) list" where
  "consumer_ranges = [(''maxBatchSize'', 1, 100), (''maxBatchTimeoutSeconds'', 0, 60), (''maxConcurrency'', 1, 250),
     (''maxRetries'', 0, 100), (''retryDelaySeconds'', 0, 43200)]"

definition empty_forms :: "string list" where
  "empty_forms = [ModuleWorkerURL, EdgeKVNamespaceURL, ObjectBucketURL, SQLiteDatabaseURL]"

definition validate_spec :: "string \<Rightarrow> obj \<Rightarrow> string + unit" where
  "validate_spec formURL ob =
     (if formURL \<in> set empty_forms then only ob []
      else if formURL = WorkerBundleURL \<or> formURL = SQLiteMigrationSetURL then
        checks [only ob [''artifact''], artifact (at ob ''artifact'')]
      else if formURL = WorkerEndpointURL then checks [only ob [''worker''], ref (at ob ''worker'')]
      else if formURL = WorkerCronTriggerURL then
        checks [only ob [''worker'', ''cron''], ref (at ob ''worker''), cron (at ob ''cron'')]
      else if formURL = AtLeastOnceQueueURL then
        checks [only ob [''deliveryDelaySeconds'', ''messageRetentionSeconds''],
          (case map_of ob ''deliveryDelaySeconds'' of None \<Rightarrow> Inr () | Some v \<Rightarrow> integer v 0 43200),
          integer (at ob ''messageRetentionSeconds'') 60 1209600]
      else if formURL = QueueConsumerURL then
        checks ([only ob ([''queue'', ''worker''] @ map fst consumer_ranges @ [''deadLetterQueue'']),
            ref (at ob ''queue''), ref (at ob ''worker'')] @
          map (\<lambda>(k, lo, hi). integer (at ob k) lo hi) consumer_ranges @
          [case map_of ob ''deadLetterQueue'' of None \<Rightarrow> Inr () | Some v \<Rightarrow> ref v])
      else if formURL = WorkerDeploymentURL then validateDeployment ob
      else if formURL = WorkerVersionURL then validateVersion ob
      else if formURL = SQLiteMigrationApplicationURL then
        checks [only ob [''database'', ''migrationSet''], ref (at ob ''database''), ref (at ob ''migrationSet'')]
      else Inl ''unsupported exact Form URL'')"

subsection \<open>Typed specs\<close>

record ResourceRef = ref_ResourceUID :: string
record Artifact =
  art_URL :: string
  art_SHA256 :: string
record WorkerCronTriggerSpec =
  cr_Worker :: ResourceRef
  cr_Cron :: string
record QueueSpec =
  q_DeliveryDelaySeconds :: "int option"
  q_MessageRetentionSeconds :: int
record QueueConsumerSpec =
  qc_Queue :: ResourceRef
  qc_Worker :: ResourceRef
  qc_MaxBatchSize :: int
  qc_MaxBatchTimeoutSeconds :: int
  qc_MaxConcurrency :: int
  qc_MaxRetries :: int
  qc_RetryDelaySeconds :: int
  qc_DeadLetterQueue :: "ResourceRef option"
record WeightedVersion =
  wv_WorkerVersion :: ResourceRef
  wv_Weight :: int
record WorkerDeploymentSpec =
  wd_Worker :: ResourceRef
  wd_Versions :: "WeightedVersion list"
record NamedBinding =
  nb_Name :: string
  nb_Resource :: ResourceRef
record Assets =
  as_Bundle :: ResourceRef
  as_RunWorkerFirst :: bool
  as_NotFoundHandling :: string
record WorkerVersionSpec =
  ws_Worker :: ResourceRef
  ws_Bundle :: "ResourceRef option"
  ws_Handlers :: "string list"
  ws_Vars :: "obj option"
  ws_RequiredSensitiveVars :: "string list"
  ws_KVBindings :: "NamedBinding list"
  ws_SQLiteBindings :: "NamedBinding list"
  ws_BucketBindings :: "NamedBinding list"
  ws_QueueProducerBindings :: "NamedBinding list"
  ws_ServiceBindings :: "NamedBinding list"
  ws_ActorBindings :: "NamedBinding list"
  ws_WorkflowBindings :: "NamedBinding list"
  ws_Assets :: "Assets option"
record MigrationApplicationSpec =
  ma_Database :: ResourceRef
  ma_MigrationSet :: ResourceRef

datatype spec =
    EmptySpec
  | ArtifactSpec Artifact
  | VersionSpec WorkerVersionSpec
  | DeploymentSpec WorkerDeploymentSpec
  | EndpointSpec ResourceRef
  | CronTriggerSpec WorkerCronTriggerSpec
  | AtLeastOnceSpec QueueSpec
  | ConsumerSpec QueueConsumerSpec
  | MigrationSpec MigrationApplicationSpec

subsection \<open>Decoding into the types\<close>

definition zero_ref :: ResourceRef where "zero_ref = \<lparr>ref_ResourceUID = []\<rparr>"

definition ref_fields :: "ResourceRef fields" where
  "ref_fields = [field ''resourceUid'' ref_ResourceUID ref_ResourceUID_update dec_string]"

abbreviation dec_ref :: "ResourceRef dec" where "dec_ref \<equiv> lax_struct ref_fields"

definition artifact_fields :: "Artifact fields" where
  "artifact_fields = [field ''url'' art_URL art_URL_update dec_string, field ''sha256'' art_SHA256 art_SHA256_update dec_string]"

definition zero_artifact :: Artifact where "zero_artifact = \<lparr>art_URL = [], art_SHA256 = []\<rparr>"

definition artifact_spec_fields :: "Artifact fields" where
  "artifact_spec_fields = [field ''artifact'' id (\<lambda>f. f) (lax_struct artifact_fields)]"

definition endpoint_fields :: "ResourceRef fields" where
  "endpoint_fields = [field ''worker'' id (\<lambda>f. f) dec_ref]"

definition cron_fields :: "WorkerCronTriggerSpec fields" where
  "cron_fields = [field ''worker'' cr_Worker cr_Worker_update dec_ref, field ''cron'' cr_Cron cr_Cron_update dec_string]"

definition queue_fields :: "QueueSpec fields" where
  "queue_fields =
     [field ''deliveryDelaySeconds'' q_DeliveryDelaySeconds q_DeliveryDelaySeconds_update (dec_pointer dec_int64 0),
      field ''messageRetentionSeconds'' q_MessageRetentionSeconds q_MessageRetentionSeconds_update dec_int64]"

definition consumer_fields :: "QueueConsumerSpec fields" where
  "consumer_fields =
     [field ''queue'' qc_Queue qc_Queue_update dec_ref, field ''worker'' qc_Worker qc_Worker_update dec_ref,
      field ''maxBatchSize'' qc_MaxBatchSize qc_MaxBatchSize_update dec_int64,
      field ''maxBatchTimeoutSeconds'' qc_MaxBatchTimeoutSeconds qc_MaxBatchTimeoutSeconds_update dec_int64,
      field ''maxConcurrency'' qc_MaxConcurrency qc_MaxConcurrency_update dec_int64,
      field ''maxRetries'' qc_MaxRetries qc_MaxRetries_update dec_int64,
      field ''retryDelaySeconds'' qc_RetryDelaySeconds qc_RetryDelaySeconds_update dec_int64,
      field ''deadLetterQueue'' qc_DeadLetterQueue qc_DeadLetterQueue_update (dec_pointer dec_ref zero_ref)]"

definition weighted_fields :: "WeightedVersion fields" where
  "weighted_fields = [field ''workerVersion'' wv_WorkerVersion wv_WorkerVersion_update dec_ref,
     field ''weight'' wv_Weight wv_Weight_update dec_int64]"

definition zero_weighted :: WeightedVersion where
  "zero_weighted = \<lparr>wv_WorkerVersion = zero_ref, wv_Weight = 0\<rparr>"

definition deployment_fields :: "WorkerDeploymentSpec fields" where
  "deployment_fields = [field ''worker'' wd_Worker wd_Worker_update dec_ref,
     field ''versions'' wd_Versions wd_Versions_update (dec_list (lax_struct weighted_fields) zero_weighted)]"

definition named_fields :: "NamedBinding fields" where
  "named_fields = [field ''name'' nb_Name nb_Name_update dec_string, field ''resource'' nb_Resource nb_Resource_update dec_ref]"

definition zero_named :: NamedBinding where "zero_named = \<lparr>nb_Name = [], nb_Resource = zero_ref\<rparr>"

abbreviation dec_bindings :: "NamedBinding list dec" where
  "dec_bindings \<equiv> dec_list (lax_struct named_fields) zero_named"

definition assets_fields :: "Assets fields" where
  "assets_fields =
     [field ''bundle'' as_Bundle as_Bundle_update dec_ref,
      field ''runWorkerFirst'' as_RunWorkerFirst as_RunWorkerFirst_update dec_bool,
      field ''notFoundHandling'' as_NotFoundHandling as_NotFoundHandling_update dec_string]"

definition zero_assets :: Assets where
  "zero_assets = \<lparr>as_Bundle = zero_ref, as_RunWorkerFirst = False, as_NotFoundHandling = []\<rparr>"

definition version_fields :: "WorkerVersionSpec fields" where
  "version_fields =
     [field ''worker'' ws_Worker ws_Worker_update dec_ref,
      field ''bundle'' ws_Bundle ws_Bundle_update (dec_pointer dec_ref zero_ref),
      field ''handlers'' ws_Handlers ws_Handlers_update (dec_list dec_string []),
      field ''vars'' ws_Vars ws_Vars_update dec_map,
      field ''requiredSensitiveVars'' ws_RequiredSensitiveVars ws_RequiredSensitiveVars_update (dec_list dec_string []),
      field ''kvBindings'' ws_KVBindings ws_KVBindings_update dec_bindings,
      field ''sqliteBindings'' ws_SQLiteBindings ws_SQLiteBindings_update dec_bindings,
      field ''bucketBindings'' ws_BucketBindings ws_BucketBindings_update dec_bindings,
      field ''queueProducerBindings'' ws_QueueProducerBindings ws_QueueProducerBindings_update dec_bindings,
      field ''serviceBindings'' ws_ServiceBindings ws_ServiceBindings_update dec_bindings,
      field ''actorBindings'' ws_ActorBindings ws_ActorBindings_update dec_bindings,
      field ''workflowBindings'' ws_WorkflowBindings ws_WorkflowBindings_update dec_bindings,
      field ''assets'' ws_Assets ws_Assets_update (dec_pointer (lax_struct assets_fields) zero_assets)]"

definition migration_fields :: "MigrationApplicationSpec fields" where
  "migration_fields = [field ''database'' ma_Database ma_Database_update dec_ref,
     field ''migrationSet'' ma_MigrationSet ma_MigrationSet_update dec_ref]"

definition typed_spec :: "string \<Rightarrow> json \<Rightarrow> spec option" where
  "typed_spec formURL v =
     (if formURL \<in> set empty_forms then map_option (\<lambda>_. EmptySpec) (lax_struct [] () v)
      else if formURL = WorkerBundleURL \<or> formURL = SQLiteMigrationSetURL then
        map_option ArtifactSpec (lax_struct artifact_spec_fields zero_artifact v)
      else if formURL = WorkerVersionURL then
        map_option VersionSpec (lax_struct version_fields
          \<lparr>ws_Worker = zero_ref, ws_Bundle = None, ws_Handlers = [], ws_Vars = None, ws_RequiredSensitiveVars = [],
           ws_KVBindings = [], ws_SQLiteBindings = [], ws_BucketBindings = [], ws_QueueProducerBindings = [],
           ws_ServiceBindings = [], ws_ActorBindings = [], ws_WorkflowBindings = [], ws_Assets = None\<rparr> v)
      else if formURL = WorkerDeploymentURL then
        map_option DeploymentSpec (lax_struct deployment_fields \<lparr>wd_Worker = zero_ref, wd_Versions = []\<rparr> v)
      else if formURL = WorkerEndpointURL then map_option EndpointSpec (lax_struct endpoint_fields zero_ref v)
      else if formURL = WorkerCronTriggerURL then
        map_option CronTriggerSpec (lax_struct cron_fields \<lparr>cr_Worker = zero_ref, cr_Cron = []\<rparr> v)
      else if formURL = AtLeastOnceQueueURL then
        map_option AtLeastOnceSpec (lax_struct queue_fields
          \<lparr>q_DeliveryDelaySeconds = None, q_MessageRetentionSeconds = 0\<rparr> v)
      else if formURL = QueueConsumerURL then
        map_option ConsumerSpec (lax_struct consumer_fields
          \<lparr>qc_Queue = zero_ref, qc_Worker = zero_ref, qc_MaxBatchSize = 0, qc_MaxBatchTimeoutSeconds = 0,
           qc_MaxConcurrency = 0, qc_MaxRetries = 0, qc_RetryDelaySeconds = 0, qc_DeadLetterQueue = None\<rparr> v)
      else if formURL = SQLiteMigrationApplicationURL then
        map_option MigrationSpec (lax_struct migration_fields \<lparr>ma_Database = zero_ref, ma_MigrationSet = zero_ref\<rparr> v)
      else None)"

definition spec_Decode :: "string \<Rightarrow> bytes \<Rightarrow> string + spec" where
  "spec_Decode formURL data =
     (case decode data of Inl _ \<Rightarrow> Inl ''decode spec''
      | Inr (JObj ob) \<Rightarrow>
          (case validate_spec formURL ob of Inl e \<Rightarrow> Inl e
           | Inr _ \<Rightarrow>
               (case typed_spec formURL (JObj ob) of None \<Rightarrow> Inl ''decode typed spec'' | Some t \<Rightarrow> Inr t))
      | Inr _ \<Rightarrow> Inl ''spec must be an object'')"

subsection \<open>Encoding\<close>

fun go_any :: "json \<Rightarrow> goval" where
  "go_any JNull = GIface None"
| "go_any (JBool b) = GIface (Some (GBool b))"
| "go_any (JNum n) = GIface (Some (GNumber n))"
| "go_any (JStr s) = GIface (Some (GString s))"
| "go_any (JArr vs) = GIface (Some (GSlice (Some (map go_any vs))))"
| "go_any (JObj kvs) = GIface (Some (GMap (Some (map (\<lambda>(k, v). (k, go_any v)) kvs))))"

definition go_ref :: "ResourceRef \<Rightarrow> goval" where
  "go_ref r = GStruct [(''resourceUid'', False, GString (ref_ResourceUID r))]"

definition go_named :: "NamedBinding \<Rightarrow> goval" where
  "go_named b = GStruct [(''name'', False, GString (nb_Name b)), (''resource'', False, go_ref (nb_Resource b))]"

definition go_bindings :: "NamedBinding list \<Rightarrow> goval" where
  "go_bindings bs = GSlice (Some (map go_named bs))"

definition go_assets :: "Assets \<Rightarrow> goval" where
  "go_assets a = GStruct [(''bundle'', False, go_ref (as_Bundle a)),
     (''runWorkerFirst'', False, GBool (as_RunWorkerFirst a)),
     (''notFoundHandling'', False, GString (as_NotFoundHandling a))]"

definition go_weighted :: "WeightedVersion \<Rightarrow> goval" where
  "go_weighted v = GStruct [(''workerVersion'', False, go_ref (wv_WorkerVersion v)), (''weight'', False, GInt (wv_Weight v))]"

fun go_spec :: "spec \<Rightarrow> goval" where
  "go_spec EmptySpec = GStruct []"
| "go_spec (ArtifactSpec a) = GStruct [(''artifact'', False, GStruct
     [(''url'', False, GString (art_URL a)), (''sha256'', False, GString (art_SHA256 a))])]"
| "go_spec (VersionSpec v) = GStruct
     [(''worker'', False, go_ref (ws_Worker v)),
      (''bundle'', True, GIface (map_option go_ref (ws_Bundle v))),
      (''handlers'', False, GSlice (Some (map GString (ws_Handlers v)))),
      (''vars'', True, GMap (map_option (map (\<lambda>(k, x). (k, go_any x))) (ws_Vars v))),
      (''requiredSensitiveVars'', True, GSlice (Some (map GString (ws_RequiredSensitiveVars v)))),
      (''kvBindings'', True, go_bindings (ws_KVBindings v)),
      (''sqliteBindings'', True, go_bindings (ws_SQLiteBindings v)),
      (''bucketBindings'', True, go_bindings (ws_BucketBindings v)),
      (''queueProducerBindings'', True, go_bindings (ws_QueueProducerBindings v)),
      (''serviceBindings'', True, go_bindings (ws_ServiceBindings v)),
      (''actorBindings'', True, go_bindings (ws_ActorBindings v)),
      (''workflowBindings'', True, go_bindings (ws_WorkflowBindings v)),
      (''assets'', True, GIface (map_option go_assets (ws_Assets v)))]"
| "go_spec (DeploymentSpec d) = GStruct
     [(''worker'', False, go_ref (wd_Worker d)),
      (''versions'', False, GSlice (Some (map go_weighted (wd_Versions d))))]"
| "go_spec (EndpointSpec r) = GStruct [(''worker'', False, go_ref r)]"
| "go_spec (CronTriggerSpec c) = GStruct [(''worker'', False, go_ref (cr_Worker c)), (''cron'', False, GString (cr_Cron c))]"
| "go_spec (AtLeastOnceSpec q) = GStruct
     [(''deliveryDelaySeconds'', True, GIface (map_option GInt (q_DeliveryDelaySeconds q))),
      (''messageRetentionSeconds'', False, GInt (q_MessageRetentionSeconds q))]"
| "go_spec (ConsumerSpec c) = GStruct
     [(''queue'', False, go_ref (qc_Queue c)), (''worker'', False, go_ref (qc_Worker c)),
      (''maxBatchSize'', False, GInt (qc_MaxBatchSize c)),
      (''maxBatchTimeoutSeconds'', False, GInt (qc_MaxBatchTimeoutSeconds c)),
      (''maxConcurrency'', False, GInt (qc_MaxConcurrency c)), (''maxRetries'', False, GInt (qc_MaxRetries c)),
      (''retryDelaySeconds'', False, GInt (qc_RetryDelaySeconds c)),
      (''deadLetterQueue'', True, GIface (map_option go_ref (qc_DeadLetterQueue c)))]"
| "go_spec (MigrationSpec m) = GStruct
     [(''database'', False, go_ref (ma_Database m)), (''migrationSet'', False, go_ref (ma_MigrationSet m))]"

fun same_type :: "spec \<Rightarrow> spec \<Rightarrow> bool" where
  "same_type EmptySpec EmptySpec = True"
| "same_type (ArtifactSpec _) (ArtifactSpec _) = True"
| "same_type (VersionSpec _) (VersionSpec _) = True"
| "same_type (DeploymentSpec _) (DeploymentSpec _) = True"
| "same_type (EndpointSpec _) (EndpointSpec _) = True"
| "same_type (CronTriggerSpec _) (CronTriggerSpec _) = True"
| "same_type (AtLeastOnceSpec _) (AtLeastOnceSpec _) = True"
| "same_type (ConsumerSpec _) (ConsumerSpec _) = True"
| "same_type (MigrationSpec _) (MigrationSpec _) = True"
| "same_type _ _ = False"

definition spec_Encode :: "string \<Rightarrow> spec \<Rightarrow> string + bytes" where
  "spec_Encode formURL s =
     (case marshal (GIface (Some (go_spec s))) of Inl _ \<Rightarrow> Inl ''encode spec''
      | Inr b \<Rightarrow>
          (case spec_Decode formURL b of Inl e \<Rightarrow> Inl e
           | Inr d \<Rightarrow> if same_type d s then Inr b else Inl ''wrong typed spec''))"

end
