(* ===== verification/EdgeLaws.thy ===== *)
theory EdgeLaws
  imports EdgeSpec
begin

text \<open>
  Facts about the Edge Form specs: inversion of the checks, decoding of what has been checked,
  and the grammar the cron check accepts.
\<close>

subsection \<open>Inversion of the checks\<close>

declare checks.simps(2) [simp del]

lemma only_Inr: "only ob keys = Inr u \<longleftrightarrow> fst ` set ob \<subseteq> set keys"
  by (auto simp: only_def)

lemma object_Inr: "object v keys = Inr m \<longleftrightarrow> v = JObj m \<and> fst ` set m \<subseteq> set keys"
proof (cases v)
  case (JObj x)
  show ?thesis
  proof (cases "only x keys")
    case (Inl e)
    with only_Inr [of x keys] have "\<not> fst ` set x \<subseteq> set keys" by (metis Inl_Inr_False)
    with Inl JObj show ?thesis by (auto simp: object_def)
  next
    case (Inr u)
    then have "fst ` set x \<subseteq> set keys" by (simp add: only_Inr)
    with Inr JObj show ?thesis by (auto simp: object_def)
  qed
qed (simp_all add: object_def)

lemma ref_Inr: "ref v = Inr u \<longleftrightarrow>
  (\<exists>m s. v = JObj m \<and> fst ` set m \<subseteq> {''resourceUid''} \<and> at m ''resourceUid'' = JStr s \<and> uidRE s)"
proof (cases "object v [''resourceUid'']")
  case (Inl e)
  then have "\<not> (\<exists>m. v = JObj m \<and> fst ` set m \<subseteq> {''resourceUid''})"
    using object_Inr [of v "[''resourceUid'']"] by fastforce
  with Inl show ?thesis by (auto simp: ref_def)
next
  case (Inr m)
  with object_Inr [of v "[''resourceUid'']" m] show ?thesis by (auto simp: ref_def split: json.splits)
qed

lemma integer_Inr: "integer v lo hi = Inr u \<longleftrightarrow>
  (\<exists>n i. v = JNum n \<and> parse_int64 n = Some i \<and> lo \<le> i \<and> i \<le> hi)"
  by (auto simp: integer_def split: json.splits option.splits)

lemma at_Some: "at ob k = v \<Longrightarrow> v \<noteq> JNull \<Longrightarrow> map_of ob k = Some v"
  by (auto simp: at_def split: option.splits)

lemma ref_present: "ref (at ob k) = Inr u \<Longrightarrow> map_of ob k = Some (at ob k)"
  by (rule at_Some [OF refl]) (auto simp: ref_Inr)

lemma integer_present: "integer (at ob k) lo hi = Inr u \<Longrightarrow> map_of ob k = Some (at ob k)"
  by (rule at_Some [OF refl]) (auto simp: integer_Inr)

text \<open>An object with two distinct known members, both present.\<close>

lemma two_members:
  assumes "distinct (map fst ob)" "fst ` set ob \<subseteq> {a, b}" "map_of ob a = Some x" "map_of ob b = Some y" "a \<noteq> b"
  shows "ob = [(a, x), (b, y)] \<or> ob = [(b, y), (a, x)]"
proof -
  have "card (set (map fst ob)) \<le> card {a, b}" using assms(2) by (intro card_mono) auto
  with distinct_card [OF assms(1)] assms(5) have "length ob \<le> 2" by simp
  then consider "ob = []" | p where "ob = [p]" | p q where "ob = [p, q]"
    by (cases ob; cases "tl ob") (auto simp: Suc_le_eq)
  then show ?thesis using assms by cases (auto split: if_splits)
qed

lemma one_member:
  assumes "distinct (map fst ob)" "fst ` set ob \<subseteq> {a}" "map_of ob a = Some x"
  shows "ob = [(a, x)]"
proof -
  have "card (set (map fst ob)) \<le> card {a}" using assms(2) by (intro card_mono) auto
  with distinct_card [OF assms(1)] have "length ob \<le> 1" by simp
  with assms show ?thesis by (cases ob) (auto split: if_splits)
qed

subsection \<open>Typed decoding of checked values\<close>

lemma field_exact [simp]: "find_field ((n, d) # fs) n = Some d"
  by (simp add: find_field_def)

lemma lax_obj [simp]: "lax_struct fs cur (JObj kvs) = lax_members fs cur kvs"
  by (simp add: lax_struct_def)

lemma dec_ref_checked:
  assumes "ref v = Inr u" "json_wf v"
  shows "dec_ref cur v = Some \<lparr>ref_ResourceUID = ref_uid v\<rparr>"
proof -
  from assms(1) obtain m s where m: "v = JObj m" "fst ` set m \<subseteq> {''resourceUid''}"
    "at m ''resourceUid'' = JStr s" by (auto simp: ref_Inr)
  have "m = [(''resourceUid'', JStr s)]"
    using m(2) assms(2) at_Some [OF m(3)] by (intro one_member) (auto simp: m(1))
  then show ?thesis
    by (cases cur) (simp add: m(1) lax_struct_def ref_fields_def field_def ref_uid_def at_def dec_string_def)
qed

lemma dec_int_checked: "integer v lo hi = Inr u \<Longrightarrow> dec_int64 cur v = Some (as_int v)"
  by (auto simp: integer_Inr dec_int64_def)

lemma as_int_range: "integer v lo hi = Inr u \<Longrightarrow> lo \<le> as_int v \<and> as_int v \<le> hi"
  by (auto simp: integer_Inr)

lemma at_wf: "json_wf (JObj m) \<Longrightarrow> json_wf (at m k)"
  by (auto simp: at_def list_all_iff split: option.splits dest: map_of_SomeD)

subsection \<open>Deployments\<close>

definition checked_version :: "json \<Rightarrow> bool" where
  "checked_version v \<longleftrightarrow> (\<exists>m. v = JObj m \<and> fst ` set m \<subseteq> {''workerVersion'', ''weight''} \<and>
     ref (at m ''workerVersion'') = Inr () \<and> integer (at m ''weight'') 1 10000 = Inr ())"

definition version_uid :: "json \<Rightarrow> string" where
  "version_uid v = ref_uid (at (members v) ''workerVersion'')"

lemma versions_loop_Inr:
  "versions_loop seen vs = Inr u \<longleftrightarrow>
     list_all checked_version vs \<and> distinct (map version_uid vs) \<and> set (map version_uid vs) \<inter> set seen = {}"
proof (induction seen vs rule: versions_loop.induct)
  case (2 seen v vs)
  show ?case
  proof (cases "object v [''workerVersion'', ''weight'']")
    case (Inl e)
    then have "\<not> checked_version v"
      using object_Inr [of v "[''workerVersion'', ''weight'']"] by (auto simp: checked_version_def) 
    with Inl show ?thesis by simp
  next
    case (Inr m)
    then have v: "v = JObj m" "fst ` set m \<subseteq> {''workerVersion'', ''weight''}"
      by (auto simp: object_Inr)
    show ?thesis
    proof (cases "checked_version v")
      case True
      then have "ref (at m ''workerVersion'') = Inr ()" "integer (at m ''weight'') 1 10000 = Inr ()"
        by (auto simp: checked_version_def v)
      with Inr True 2 show ?thesis by (auto simp: version_uid_def v Let_def)
    next
      case False
      with v have "ref (at m ''workerVersion'') \<noteq> Inr () \<or> integer (at m ''weight'') 1 10000 \<noteq> Inr ()"
        by (auto simp: checked_version_def)
      with Inr False show ?thesis by (auto simp: Let_def split: sum.splits)
    qed
  qed
qed simp

lemma dec_version:
  assumes "checked_version v" "json_wf v"
  shows "lax_struct weighted_fields zero_weighted v =
    Some \<lparr>wv_WorkerVersion = \<lparr>ref_ResourceUID = version_uid v\<rparr>, wv_Weight = as_int (at (members v) ''weight'')\<rparr>"
proof -
  from assms(1) obtain m where m: "v = JObj m" "fst ` set m \<subseteq> {''workerVersion'', ''weight''}"
    "ref (at m ''workerVersion'') = Inr ()" "integer (at m ''weight'') 1 10000 = Inr ()"
    by (auto simp: checked_version_def)
  obtain r w where rw: "at m ''workerVersion'' = r" "at m ''weight'' = w" by blast
  have "m = [(''workerVersion'', r), (''weight'', w)] \<or> m = [(''weight'', w), (''workerVersion'', r)]"
    using m(2) assms(2) ref_present [OF m(3)] integer_present [OF m(4)]
    by (intro two_members) (simp_all add: m(1) rw)
  moreover have "dec_ref cur r = Some \<lparr>ref_ResourceUID = version_uid v\<rparr>" for cur
    using dec_ref_checked [OF m(3) at_wf] assms(2) by (simp add: m(1) version_uid_def rw)
  moreover have "dec_int64 cur w = Some (as_int w)" for cur using dec_int_checked [OF m(4)] by (simp add: rw)
  moreover have "find_field weighted_fields ''workerVersion'' = Some (snd (field ''workerVersion'' wv_WorkerVersion wv_WorkerVersion_update dec_ref))"
    "find_field weighted_fields ''weight'' = Some (snd (field ''weight'' wv_Weight wv_Weight_update dec_int64))"
    by (simp_all add: weighted_fields_def find_field_def field_def)
  ultimately have "lax_members weighted_fields zero_weighted m =
      Some \<lparr>wv_WorkerVersion = \<lparr>ref_ResourceUID = version_uid v\<rparr>, wv_Weight = as_int w\<rparr>"
    by (elim disjE) (simp_all add: zero_weighted_def)
  then show ?thesis by (simp add: m(1) rw)
qed

lemma dec_elems_fresh:
  assumes "\<And>v. v \<in> set vs \<Longrightarrow> d zero v = Some (f v)"
  shows "dec_elems d zero [] vs = Some (map f vs)"
  using assms by (induction vs) auto

lemma validateDeployment_Inr:
  assumes "validateDeployment ob = Inr u"
  obtains a where "fst ` set ob \<subseteq> {''worker'', ''versions''}" "ref (at ob ''worker'') = Inr ()"
    "map_of ob ''versions'' = Some (JArr a)" "a \<noteq> []" "length a \<le> 8" "list_all checked_version a"
    "distinct (map version_uid a)" "sum_list (map (\<lambda>v. as_int (at (members v) ''weight'')) a) = 10000"
proof -
  have c: "fst ` set ob \<subseteq> {''worker'', ''versions''}" "ref (at ob ''worker'') = Inr ()"
    using assms checks_Inr [of "[only ob [''worker'', ''versions''], ref (at ob ''worker'')]" "()"]
    by (auto simp: validateDeployment_def only_Inr split: sum.splits)
  from assms obtain a where a: "at ob ''versions'' = JArr a" "a \<noteq> []" "length a \<le> 8" "versions_loop [] a = Inr ()"
    "sum_list (map (\<lambda>v. as_int (at (members v) ''weight'')) a) = 10000"
    by (auto simp: validateDeployment_def not_less split: sum.splits json.splits if_splits)
  from a(4) have "list_all checked_version a" "distinct (map version_uid a)" by (simp_all add: versions_loop_Inr)
  with a c show thesis by (intro that [of a] at_Some) auto
qed

lemma typed_deployment:
  assumes "validateDeployment ob = Inr u" "json_wf (JObj ob)"
  obtains a where "map_of ob ''versions'' = Some (JArr a)"
    "typed_spec WorkerDeploymentURL (JObj ob) = Some (DeploymentSpec
       \<lparr>wd_Worker = \<lparr>ref_ResourceUID = ref_uid (at ob ''worker'')\<rparr>,
        wd_Versions = map (\<lambda>v. \<lparr>wv_WorkerVersion = \<lparr>ref_ResourceUID = version_uid v\<rparr>,
          wv_Weight = as_int (at (members v) ''weight'')\<rparr>) a\<rparr>)"
  using assms(1)
proof (rule validateDeployment_Inr)
  fix a
  assume a: "fst ` set ob \<subseteq> {''worker'', ''versions''}" "ref (at ob ''worker'') = Inr ()"
    "map_of ob ''versions'' = Some (JArr a)" "list_all checked_version a"
  let ?f = "\<lambda>v. \<lparr>wv_WorkerVersion = \<lparr>ref_ResourceUID = version_uid v\<rparr>, wv_Weight = as_int (at (members v) ''weight'')\<rparr>"
  obtain w where w: "at ob ''worker'' = w" by blast
  have "ob = [(''worker'', w), (''versions'', JArr a)] \<or> ob = [(''versions'', JArr a), (''worker'', w)]"
    using a(1,3) ref_present [OF a(2)] assms(2) by (intro two_members) (simp_all add: w)
  moreover have "dec_ref cur w = Some \<lparr>ref_ResourceUID = ref_uid w\<rparr>" for cur
    using dec_ref_checked [OF a(2) at_wf [OF assms(2)]] by (simp add: w)
  moreover have "json_wf (JArr a)" using assms(2) map_of_SomeD [OF a(3)] by (auto simp: list_all_iff)
  then have "dec_elems (lax_struct weighted_fields) zero_weighted [] a = Some (map ?f a)"
    using a(4) by (intro dec_elems_fresh dec_version) (auto simp: list_all_iff)
  then have "dec_list (lax_struct weighted_fields) zero_weighted [] (JArr a) = Some (map ?f a)"
    by (simp add: dec_list_def)
  moreover have "find_field deployment_fields ''worker'' = Some (snd (field ''worker'' wd_Worker wd_Worker_update dec_ref))"
    "find_field deployment_fields ''versions'' = Some (snd (field ''versions'' wd_Versions wd_Versions_update
       (dec_list (lax_struct weighted_fields) zero_weighted)))"
    by (simp_all add: deployment_fields_def find_field_def field_def)
  ultimately have "lax_members deployment_fields \<lparr>wd_Worker = zero_ref, wd_Versions = []\<rparr> ob =
      Some \<lparr>wd_Worker = \<lparr>ref_ResourceUID = ref_uid w\<rparr>, wd_Versions = map ?f a\<rparr>"
    by (elim disjE) simp_all
  then show thesis
    by (intro that [OF a(3)]) (simp add: typed_spec_def empty_forms_def form_urls w)
qed

subsection \<open>Environment names\<close>

fun elements :: "json \<Rightarrow> json list" where
  "elements (JArr a) = a"
| "elements _ = []"

definition binding_name :: "json \<Rightarrow> string" where
  "binding_name b = text_of (at (members b) ''name'')"

definition secret_names :: "obj \<Rightarrow> string list" where
  "secret_names ob = map text_of (elements (at ob ''requiredSensitiveVars''))"

definition var_names :: "obj \<Rightarrow> string list" where
  "var_names ob = map fst (members (at ob ''vars''))"

definition binding_names :: "obj \<Rightarrow> string list" where
  "binding_names ob = concat (map (\<lambda>f. map binding_name (elements (at ob f))) binding_fields_of)"

lemma secrets_loop_names:
  "secrets_loop used vs = Inr used' \<Longrightarrow> used' = rev (map text_of vs) @ used \<and> (distinct used \<longrightarrow> distinct used')"
  by (induction used vs arbitrary: used' rule: secrets_loop.induct) (auto split: json.splits if_splits)

lemma names_loop_names:
  "names_loop used ks = Inr used' \<Longrightarrow> used' = rev ks @ used \<and> (distinct used \<longrightarrow> distinct used')"
  by (induction used ks arbitrary: used' rule: names_loop.induct) (auto split: if_splits)

lemma bindings_loop_step:
  assumes "bindings_loop used seen (item # items) = Inr used'"
  shows "binding_name item \<notin> set used"
    "bindings_loop (binding_name item # used) (binding_name item # seen) items = Inr used'"
  using assms by (auto simp: binding_name_def object_Inr split: sum.splits json.splits if_splits)

lemma bindings_loop_names:
  "bindings_loop used seen items = Inr used' \<Longrightarrow> used' = rev (map binding_name items) @ used"
  by (induction items arbitrary: used seen) (auto dest: bindings_loop_step(2) simp del: bindings_loop.simps(2))

lemma bindings_loop_distinct:
  "bindings_loop used seen items = Inr used' \<Longrightarrow> distinct used \<Longrightarrow> distinct used'"
proof (induction items arbitrary: used seen)
  case (Cons item items)
  note st = bindings_loop_step [OF Cons(2)]
  show ?case by (rule Cons.IH [OF st(2)]) (simp add: st(1) Cons.prems(2))
qed simp

lemma binding_groups_step:
  assumes "binding_groups ob used (f # fs) = Inr used'"
  obtains u where "u = rev (map binding_name (elements (at ob f))) @ used" "distinct used \<longrightarrow> distinct u"
    "binding_groups ob u fs = Inr used'"
proof (cases "map_of ob f")
  case None
  then have "at ob f = JNull" by (simp add: at_def)
  with assms None show thesis by (intro that [of used]) auto
next
  case (Some v)
  with assms obtain a u where v: "v = JArr a" "bindings_loop used [] a = Inr u" "binding_groups ob u fs = Inr used'"
    by (auto split: json.splits if_splits sum.splits)
  have "at ob f = JArr a" by (simp add: at_def Some v)
  with bindings_loop_names [OF v(2)] bindings_loop_distinct [OF v(2)] v(3) show thesis
    by (intro that [of u]) auto
qed

lemma binding_groups_names:
  "binding_groups ob used fs = Inr used' \<Longrightarrow>
     used' = rev (concat (map (\<lambda>f. map binding_name (elements (at ob f))) fs)) @ used"
  by (induction fs arbitrary: used) (auto elim!: binding_groups_step simp del: binding_groups.simps(2))

lemma binding_groups_distinct:
  "binding_groups ob used fs = Inr used' \<Longrightarrow> distinct used \<Longrightarrow> distinct used'"
  by (induction fs arbitrary: used) (auto elim!: binding_groups_step simp del: binding_groups.simps(2))

lemma environment_names_distinct:
  assumes "environment_names ob = Inr used"
  shows "distinct (secret_names ob @ var_names ob @ binding_names ob)"
proof -
  from assms obtain u1 u2 where u: "check_secrets (map_of ob ''requiredSensitiveVars'') = Inr u1"
    "names_loop u1 (var_names ob) = Inr u2" "binding_groups ob u2 binding_fields_of = Inr used"
    by (auto simp: environment_names_def var_names_def split: sum.splits)
  have "u1 = rev (secret_names ob) \<and> distinct u1"
    using u(1) secrets_loop_names [of "[]"]
    by (auto simp: check_secrets_def secret_names_def at_def split: option.splits json.splits if_splits)
  with names_loop_names [OF u(2)] have "u2 = rev (var_names ob) @ rev (secret_names ob)" "distinct u2" by (metis, metis)
  with binding_groups_names [OF u(3)] binding_groups_distinct [OF u(3)]
  have "distinct used" "used = rev (secret_names ob @ var_names ob @ binding_names ob)"
    by (simp_all add: binding_names_def)
  then show ?thesis by (metis distinct_rev)
qed

lemma validateVersion_names: "validateVersion ob = Inr u \<Longrightarrow> \<exists>used. environment_names ob = Inr used"
  by (auto simp: validateVersion_def split: sum.splits json.splits if_splits)

subsection \<open>Checked specs decode\<close>

definition accepts :: "'a dec \<Rightarrow> json \<Rightarrow> bool" where
  "accepts d v \<longleftrightarrow> (\<forall>cur. d cur v \<noteq> None)"

lemma accepts_members:
  assumes "\<And>k v. (k, v) \<in> set kvs \<Longrightarrow> \<exists>d. map_of fs k = Some d \<and> accepts d v"
  shows "lax_members fs cur kvs \<noteq> None"
  using assms
proof (induction kvs arbitrary: cur)
  case (Cons p kvs)
  obtain k v where p: "p = (k, v)" by (cases p)
  from Cons.prems [of k v] obtain d where d: "map_of fs k = Some d" "accepts d v" by (auto simp: p)
  then obtain c where "d cur v = Some c" by (auto simp: accepts_def)
  with d Cons.IH [of c] Cons.prems show ?case by (simp add: p find_field_exact)
qed simp

text \<open>A checked object: distinct known keys, and each member's value accepted by its field.\<close>

lemma accepts_struct:
  assumes "json_wf (JObj ob)" "fst ` set ob \<subseteq> set keys"
    "\<And>k. k \<in> set keys \<Longrightarrow> map_of ob k = Some (at ob k) \<Longrightarrow> \<exists>d. map_of fs k = Some d \<and> accepts d (at ob k)"
  shows "accepts (lax_struct fs) (JObj ob)"
proof -
  have "\<exists>d. map_of fs k = Some d \<and> accepts d v" if "(k, v) \<in> set ob" for k v
  proof -
    from that assms(1) have m: "map_of ob k = Some v" by (auto intro: map_of_is_SomeI)
    then have "at ob k = v" by (simp add: at_def)
    with assms(2,3) m that show ?thesis by force
  qed
  then show ?thesis by (simp add: accepts_def accepts_members)
qed

lemma accepts_atoms [simp]:
  "accepts dec_string (JStr s)" "accepts dec_bool (JBool b)" "accepts dec_map (JObj kvs)"
  by (simp_all add: accepts_def dec_bool_def dec_map_def)

lemma accepts_int: "integer v lo hi = Inr u \<Longrightarrow> accepts dec_int64 v"
  by (simp add: accepts_def dec_int_checked)

lemma accepts_ref: "ref v = Inr u \<Longrightarrow> json_wf v \<Longrightarrow> accepts dec_ref v"
  by (simp add: accepts_def dec_ref_checked)

lemma accepts_pointer: "accepts d v \<Longrightarrow> accepts (dec_pointer d zero) v"
  by (simp add: accepts_def dec_pointer_def)

lemma accepts_list:
  assumes "\<And>v. v \<in> set vs \<Longrightarrow> accepts d v"
  shows "accepts (dec_list d zero) (JArr vs)"
proof -
  have "dec_elems d zero cur vs \<noteq> None" for cur
    using assms by (induction vs arbitrary: cur) (auto simp: accepts_def split: option.split)
  then show ?thesis by (simp add: accepts_def dec_list_def)
qed

lemma accepts_field: "accepts d v \<Longrightarrow> accepts (snd (field n get upd d)) v"
  by (simp add: accepts_def)

lemma snd_field: "(\<lambda>s v. map_option (\<lambda>x. upd (\<lambda>_. x) s) (d (get s) v)) = snd (field n get upd d)"
  by (simp add: field_def)

lemma accepts_field': "accepts d v \<Longrightarrow> accepts (\<lambda>s v. map_option (\<lambda>x. upd (\<lambda>_. x) s) (d (get s) v)) v"
  by (simp add: accepts_def)

lemmas accepts_rules = accepts_field' accepts_pointer accepts_list accepts_ref accepts_int

lemma accepts_artifact:
  assumes "artifact v = Inr u" "json_wf v"
  shows "accepts (lax_struct artifact_fields) v"
proof -
  obtain m where m: "object v [''url'', ''sha256''] = Inr m"
    "\<exists>s. at m ''url'' = JStr s" "\<exists>s. at m ''sha256'' = JStr s"
    using assms(1) by (auto simp: artifact_def split: sum.splits json.splits)
  then have v: "v = JObj m" "fst ` set m \<subseteq> set [''url'', ''sha256'']" by (simp_all add: object_Inr)
  show ?thesis unfolding v(1)
  proof (rule accepts_struct [OF _ v(2)])
    show "json_wf (JObj m)" using assms(2) v(1) by simp
  qed (use m(2,3) in \<open>auto simp: artifact_fields_def field_def intro!: accepts_field'\<close>)
qed

lemma accepts_binding:
  assumes "bindings_loop used seen items = Inr used'" "item \<in> set items" "json_wf item"
  shows "accepts (lax_struct named_fields) item"
  using assms
proof (induction used seen items rule: bindings_loop.induct)
  case (2 used seen i items)
  show ?case
  proof (cases "item = i")
    case True
    with 2 obtain m where m: "object item [''name'', ''resource''] = Inr m" "\<exists>s. at m ''name'' = JStr s"
      "ref (at m ''resource'') = Inr ()"
      by (auto split: sum.splits json.splits if_splits)
    then have v: "item = JObj m" "fst ` set m \<subseteq> set [''name'', ''resource'']" by (simp_all add: object_Inr)
    have "accepts dec_ref (at m ''resource'')" using 2(4) m(3) v(1) by (intro accepts_ref at_wf) auto
    then show ?thesis unfolding v(1)
    proof (intro accepts_struct [OF _ v(2)])
      show "json_wf (JObj m)" using 2(4) v(1) by simp
    qed (use m(2) in \<open>auto simp: named_fields_def field_def intro!: accepts_field'\<close>)
  next
    case False
    with 2 show ?thesis by (auto split: sum.splits json.splits if_splits)
  qed
qed simp

lemma accepts_bindings:
  assumes "binding_groups ob used fs = Inr used'" "f \<in> set fs" "map_of ob f = Some v" "json_wf v"
  shows "accepts dec_bindings v"
  using assms
proof (induction ob used fs rule: binding_groups.induct)
  case (2 ob used g fs)
  show ?case
  proof (cases "f = g")
    case True
    with 2 obtain a u where a: "v = JArr a" "bindings_loop used [] a = Inr u"
      by (auto split: json.splits if_splits sum.splits)
    with 2(6) accepts_binding [OF a(2)] show ?thesis by (auto simp: list_all_iff intro!: accepts_list)
  next
    case False
    with 2 show ?thesis by (auto split: option.splits json.splits if_splits sum.splits)
  qed
qed simp

lemma accepts_assets:
  assumes "check_assets (Some v) = Inr u" "json_wf v"
  shows "accepts (lax_struct assets_fields) v"
proof -
  obtain m where m: "object v [''bundle'', ''runWorkerFirst'', ''notFoundHandling''] = Inr m"
    "ref (at m ''bundle'') = Inr ()" "\<exists>b. at m ''runWorkerFirst'' = JBool b" "\<exists>s. at m ''notFoundHandling'' = JStr s"
    using assms(1) by (auto simp: check_assets_def split: sum.splits json.splits)
  then have v: "v = JObj m" "fst ` set m \<subseteq> set [''bundle'', ''runWorkerFirst'', ''notFoundHandling'']"
    by (simp_all add: object_Inr)
  have "accepts dec_ref (at m ''bundle'')" using assms(2) m(2) v(1) by (intro accepts_ref at_wf) auto
  then show ?thesis unfolding v(1)
  proof (intro accepts_struct [OF _ v(2)])
    show "json_wf (JObj m)" using assms(2) v(1) by simp
  qed (use m(3,4) in \<open>auto simp: assets_fields_def field_def intro!: accepts_field'\<close>)
qed

lemma handlers_strings: "handlers_loop seen vs = Inr u \<Longrightarrow> v \<in> set vs \<Longrightarrow> \<exists>s. v = JStr s"
  by (induction seen vs rule: handlers_loop.induct) (auto split: json.splits if_splits)

lemma secrets_strings: "secrets_loop used vs = Inr u \<Longrightarrow> v \<in> set vs \<Longrightarrow> \<exists>s. v = JStr s"
  by (induction used vs rule: secrets_loop.induct) (auto split: json.splits if_splits)

lemma accepts_strings: "(\<And>v. v \<in> set vs \<Longrightarrow> \<exists>s. v = JStr s) \<Longrightarrow> accepts (dec_list dec_string []) (JArr vs)"
  by (rule accepts_list) fastforce

lemma validateVersion_Inr:
  assumes "validateVersion ob = Inr u"
  obtains handlers used where "fst ` set ob \<subseteq> set version_keys" "ref (at ob ''worker'') = Inr ()"
    "\<And>v. map_of ob ''bundle'' = Some v \<Longrightarrow> ref v = Inr ()" "at ob ''handlers'' = JArr handlers"
    "handlers_loop [] handlers = Inr ()" "check_vars (map_of ob ''vars'') = Inr ()"
    "environment_names ob = Inr used" "check_assets (map_of ob ''assets'') = Inr ()" "check_static ob handlers = Inr ()"
proof -
  from assms obtain handlers used where h: "at ob ''handlers'' = JArr handlers"
    "checks [only ob version_keys, ref (at ob ''worker''),
      (case map_of ob ''bundle'' of None \<Rightarrow> Inr () | Some v \<Rightarrow> ref v)] = Inr ()"
    "checks [handlers_loop [] handlers, check_vars (map_of ob ''vars'')] = Inr ()"
    "environment_names ob = Inr used" "checks [check_assets (map_of ob ''assets''), check_static ob handlers] = Inr ()"
    unfolding validateVersion_def
    by (simp del: checks_Inr split: sum.splits json.splits if_splits)
  from h(2,3,5) show thesis
    by (intro that [of handlers used, OF _ _ _ h(1) _ _ h(4)]) (simp_all add: only_Inr)
qed

lemma vars_object: "check_vars (Some v) = Inr u \<Longrightarrow> \<exists>m. v = JObj m"
  by (auto simp: check_vars_def split: json.splits)

lemma secrets_array: "check_secrets (Some v) = Inr used \<Longrightarrow> \<exists>a. v = JArr a \<and> secrets_loop [] a = Inr used"
  by (auto simp: check_secrets_def split: json.splits if_splits)

lemma environment_parts:
  assumes "environment_names ob = Inr used"
  obtains u1 u2 where "check_secrets (map_of ob ''requiredSensitiveVars'') = Inr u1"
    "binding_groups ob u2 binding_fields_of = Inr used"
  using assms by (auto simp: environment_names_def split: sum.splits)

lemma accepts_version:
  assumes "validateVersion ob = Inr u" "json_wf (JObj ob)"
  shows "accepts (lax_struct version_fields) (JObj ob)"
  using assms(1)
proof (rule validateVersion_Inr)
  fix handlers used
  assume v: "fst ` set ob \<subseteq> set version_keys" "ref (at ob ''worker'') = Inr ()"
    "\<And>v. map_of ob ''bundle'' = Some v \<Longrightarrow> ref v = Inr ()" "at ob ''handlers'' = JArr handlers"
    "handlers_loop [] handlers = Inr ()" "check_vars (map_of ob ''vars'') = Inr ()"
    "environment_names ob = Inr used" "check_assets (map_of ob ''assets'') = Inr ()"
  from v(7) obtain u1 u2 where e: "check_secrets (map_of ob ''requiredSensitiveVars'') = Inr u1"
    "binding_groups ob u2 binding_fields_of = Inr used" by (rule environment_parts)
  note wf = at_wf [OF assms(2)]
  have strings: "accepts (dec_list dec_string []) (at ob ''handlers'')"
    unfolding v(4) by (rule accepts_strings) (rule handlers_strings [OF v(5)])
  have secrets: "accepts (dec_list dec_string []) x" if "map_of ob ''requiredSensitiveVars'' = Some x" for x
    using secrets_array [of x u1] e(1) that by (auto intro!: accepts_strings dest: secrets_strings)
  have bindings: "accepts dec_bindings (at ob f)" if "f \<in> set binding_fields_of" "map_of ob f = Some (at ob f)" for f
    by (rule accepts_bindings [OF e(2) that wf])
  have assets: "accepts (lax_struct assets_fields) (at ob ''assets'')" if "map_of ob ''assets'' = Some (at ob ''assets'')"
    using v(8) by (intro accepts_assets wf) (simp add: that)
  have vars: "accepts dec_map (at ob ''vars'')" if "map_of ob ''vars'' = Some (at ob ''vars'')"
    using vars_object [of "at ob ''vars''"] v(6) by (auto simp: that)
  show ?thesis
  proof (rule accepts_struct [OF assms(2) v(1)])
    fix k assume k: "k \<in> set version_keys" "map_of ob k = Some (at ob k)"
    have ks: "k \<in> set binding_fields_of \<Longrightarrow> accepts dec_bindings (at ob k)" using k bindings by blast
    show "\<exists>d. map_of version_fields k = Some d \<and> accepts d (at ob k)"
      using k(1) ks k(2) strings secrets assets vars accepts_ref [OF v(2) wf] accepts_ref [OF v(3) wf]
      by (simp only: version_keys_def binding_fields_of_def append.simps set_simps)
         (elim insertE emptyE; simp add: version_fields_def field_def accepts_field' accepts_pointer)
  qed
qed

text \<open>Every spec that passes validation decodes into its Form's type.\<close>

lemma typed_total:
  assumes "validate_spec url ob = Inr u" "json_wf (JObj ob)"
  shows "typed_spec url (JObj ob) \<noteq> None"
proof -
  note wf = at_wf [OF assms(2)]
  have refs: "accepts dec_ref (at ob k)" if "ref (at ob k) = Inr ()" for k by (rule accepts_ref [OF that wf])
  note st = accepts_struct [OF assms(2)]
  consider "url \<in> set empty_forms" | "url \<notin> set empty_forms" "url = WorkerBundleURL \<or> url = SQLiteMigrationSetURL"
    | "url = WorkerEndpointURL" | "url = WorkerCronTriggerURL" | "url = AtLeastOnceQueueURL" | "url = QueueConsumerURL"
    | "url = WorkerDeploymentURL" | "url = WorkerVersionURL" | "url = SQLiteMigrationApplicationURL"
    using assms(1) by (auto simp: validate_spec_def split: if_splits)
  then show ?thesis
  proof cases
    case 1
    then have "ob = []" using assms(1) by (simp add: validate_spec_def only_Inr)
    then show ?thesis using 1 by (simp add: typed_spec_def)
  next
    case 2
    then have c: "fst ` set ob \<subseteq> set [''artifact'']" "artifact (at ob ''artifact'') = Inr ()"
      using assms(1) by (simp_all add: validate_spec_def only_Inr)
    have "accepts (lax_struct artifact_spec_fields) (JObj ob)"
      using accepts_artifact [OF c(2) wf]
      by (intro st [OF c(1)]) (simp add: artifact_spec_fields_def field_def accepts_def)
    then show ?thesis using 2 by (simp add: typed_spec_def accepts_def)
  next
    case 3
    then have c: "fst ` set ob \<subseteq> set [''worker'']" "ref (at ob ''worker'') = Inr ()"
      using assms(1) by (simp_all add: validate_spec_def empty_forms_def form_urls only_Inr)
    have "accepts (lax_struct endpoint_fields) (JObj ob)"
      using refs [OF c(2)] by (intro st [OF c(1)]) (simp add: endpoint_fields_def field_def accepts_def)
    then show ?thesis using 3 by (simp add: typed_spec_def accepts_def empty_forms_def form_urls)
  next
    case 4
    then have c: "fst ` set ob \<subseteq> set [''worker'', ''cron'']" "ref (at ob ''worker'') = Inr ()" "cron (at ob ''cron'') = Inr ()"
      using assms(1) by (simp_all add: validate_spec_def empty_forms_def form_urls only_Inr)
    from c(3) obtain s where "at ob ''cron'' = JStr s" by (auto simp: cron_def split: json.splits)
    then have "accepts (lax_struct cron_fields) (JObj ob)"
      using refs [OF c(2)]
      by (intro st [OF c(1)]) (auto simp: cron_fields_def field_def intro!: accepts_field')
    then show ?thesis using 4 by (simp add: typed_spec_def accepts_def empty_forms_def form_urls)
  next
    case 5
    then have c: "fst ` set ob \<subseteq> set [''deliveryDelaySeconds'', ''messageRetentionSeconds'']"
      "map_of ob ''deliveryDelaySeconds'' = Some v \<Longrightarrow> integer v 0 43200 = Inr ()"
      "integer (at ob ''messageRetentionSeconds'') 60 1209600 = Inr ()" for v
      using assms(1) by (simp_all add: validate_spec_def empty_forms_def form_urls only_Inr)
    have d: "accepts dec_int64 v" if "map_of ob ''deliveryDelaySeconds'' = Some v" for v
      by (rule accepts_int [OF c(2) [OF that]])
    have "accepts (lax_struct queue_fields) (JObj ob)"
    proof (rule st [OF c(1)])
      fix k assume k: "k \<in> set [''deliveryDelaySeconds'', ''messageRetentionSeconds'']" "map_of ob k = Some (at ob k)"
      show "\<exists>d. map_of queue_fields k = Some d \<and> accepts d (at ob k)"
        using k d [of "at ob k"] accepts_int [OF c(3)]
        by (elim set_ConsD [elim_format] disjE) (auto simp: queue_fields_def field_def accepts_field' accepts_pointer)
    qed
    then show ?thesis using 5 by (simp add: typed_spec_def accepts_def empty_forms_def form_urls)
  next
    case 6
    then have c: "fst ` set ob \<subseteq> set ([''queue'', ''worker''] @ map fst consumer_ranges @ [''deadLetterQueue''])"
      "ref (at ob ''queue'') = Inr ()" "ref (at ob ''worker'') = Inr ()"
      "\<forall>(k, lo, hi)\<in>set consumer_ranges. integer (at ob k) lo hi = Inr ()"
      "map_of ob ''deadLetterQueue'' = Some v \<Longrightarrow> ref v = Inr ()" for v
      using assms(1) by (simp_all add: validate_spec_def empty_forms_def form_urls only_Inr split: option.splits) auto
    have "accepts (lax_struct consumer_fields) (JObj ob)"
    proof (rule st [OF c(1)])
      fix k assume k: "k \<in> set ([''queue'', ''worker''] @ map fst consumer_ranges @ [''deadLetterQueue''])"
        "map_of ob k = Some (at ob k)"
      have i: "accepts dec_int64 (at ob k)" if "k \<in> fst ` set consumer_ranges"
        using c(4) that accepts_int by fastforce
      have d: "accepts dec_ref (at ob k)" if "k = ''deadLetterQueue''"
        using c(5) k(2) that by (intro accepts_ref wf) auto
      show "\<exists>d. map_of consumer_fields k = Some d \<and> accepts d (at ob k)"
        using k(1) i d refs [OF c(2)] refs [OF c(3)]
        by (simp add: consumer_ranges_def)
           (elim disjE; simp add: consumer_fields_def field_def accepts_field' accepts_pointer)
    qed
    then show ?thesis using 6 by (simp add: typed_spec_def accepts_def empty_forms_def form_urls)
  next
    case 7
    then have "validateDeployment ob = Inr ()"
      using assms(1) by (simp add: validate_spec_def empty_forms_def form_urls)
    then show ?thesis by (rule typed_deployment [OF _ assms(2)]) (simp add: 7)
  next
    case 8
    then have "validateVersion ob = Inr ()"
      using assms(1) by (simp add: validate_spec_def empty_forms_def form_urls)
    from accepts_version [OF this assms(2)] 8 show ?thesis
      by (simp add: typed_spec_def accepts_def empty_forms_def form_urls)
  next
    case 9
    then have c: "fst ` set ob \<subseteq> set [''database'', ''migrationSet'']" "ref (at ob ''database'') = Inr ()"
      "ref (at ob ''migrationSet'') = Inr ()"
      using assms(1) by (simp_all add: validate_spec_def empty_forms_def form_urls only_Inr)
    have "accepts (lax_struct migration_fields) (JObj ob)"
      using refs [OF c(2)] refs [OF c(3)]
      by (intro st [OF c(1)]) (auto simp: migration_fields_def field_def intro!: accepts_field')
    then show ?thesis using 9 by (simp add: typed_spec_def accepts_def empty_forms_def form_urls)
  qed
qed

end
