(* ===== verification/CronGrammar.thy ===== *)
theory CronGrammar
  imports EdgeLaws
begin

text \<open>
  The cron expressions a \<open>WorkerCronTrigger\<close> may carry, as a grammar, and the equivalence of the
  source's string-splitting check with it.
\<close>

subsection \<open>Splitting and joining\<close>

fun join_on :: "char \<Rightarrow> string list \<Rightarrow> string" where
  "join_on c [] = []"
| "join_on c [p] = p"
| "join_on c (p # q # ps) = p @ c # join_on c (q # ps)"

lemma join_on_Cons: "ps \<noteq> [] \<Longrightarrow> join_on c (p # ps) = p @ c # join_on c ps"
  by (cases ps) simp_all

lemma split_on_parts: "p \<in> set (split_on c s) \<Longrightarrow> c \<notin> set p"
  by (induction s arbitrary: p) (auto split: if_splits list.splits)

lemma join_split: "join_on c (split_on c s) = s"
  by (induction s) (auto simp: join_on_Cons split: list.splits, (metis join_on_Cons join_on.simps(2) append_Cons list.exhaust)+)

lemma split_on_free: "c \<notin> set p \<Longrightarrow> split_on c p = [p]"
  by (induction p) auto

lemma split_on_append: "c \<notin> set p \<Longrightarrow> split_on c (p @ c # s) = p # split_on c s"
  by (induction p) auto

lemma split_join: "ps \<noteq> [] \<Longrightarrow> \<forall>p\<in>set ps. c \<notin> set p \<Longrightarrow> split_on c (join_on c ps) = ps"
  by (induction c ps rule: join_on.induct) (auto simp: split_on_free split_on_append)

lemma split_on_iff: "split_on c s = ps \<longleftrightarrow> ps \<noteq> [] \<and> s = join_on c ps \<and> (\<forall>p\<in>set ps. c \<notin> set p)"
  using split_join [of ps c] join_split [of c s] split_on_parts [of _ c s] by auto

lemma split_on_pair: "split_on c s = [a, b] \<longleftrightarrow> s = a @ c # b \<and> c \<notin> set a \<and> c \<notin> set b"
  by (auto simp: split_on_iff)

subsection \<open>The grammar\<close>

definition number :: "string \<Rightarrow> int \<Rightarrow> bool" where
  "number s n \<longleftrightarrow> s \<noteq> [] \<and> list_all is_digit s \<and> digits_val 0 s = Some (nat n) \<and> 0 \<le> n"

inductive cron_item :: "int \<Rightarrow> int \<Rightarrow> string \<Rightarrow> bool" for lo hi where
  every: "cron_item lo hi ''*''"
| single: "number s n \<Longrightarrow> lo \<le> n \<Longrightarrow> n \<le> hi \<Longrightarrow> cron_item lo hi s"
| span: "number a x \<Longrightarrow> number b y \<Longrightarrow> lo \<le> x \<Longrightarrow> x \<le> y \<Longrightarrow> y \<le> hi \<Longrightarrow> cron_item lo hi (a @ CHR ''-'' # b)"
| every_step: "number t k \<Longrightarrow> 1 \<le> k \<Longrightarrow> k \<le> hi - lo + 1 \<Longrightarrow> cron_item lo hi (CHR ''*'' # CHR ''/'' # t)"
| span_step: "number a x \<Longrightarrow> number b y \<Longrightarrow> lo \<le> x \<Longrightarrow> x \<le> y \<Longrightarrow> y \<le> hi \<Longrightarrow> number t k \<Longrightarrow>
    1 \<le> k \<Longrightarrow> k \<le> hi - lo + 1 \<Longrightarrow> cron_item lo hi (a @ CHR ''-'' # b @ CHR ''/'' # t)"

definition cron_field :: "int \<Rightarrow> int \<Rightarrow> string \<Rightarrow> bool" where
  "cron_field lo hi f \<longleftrightarrow> (\<exists>items. items \<noteq> [] \<and> f = join_on (CHR '','') items \<and> distinct items \<and>
     (\<forall>i\<in>set items. cron_item lo hi i))"

definition cron_expression :: "string \<Rightarrow> bool" where
  "cron_expression s \<longleftrightarrow> length s \<le> 64 \<and> (\<exists>fs. s = join_on (CHR '' '') fs \<and>
     list_all2 (\<lambda>f (lo, hi). cron_field lo hi f) fs cron_ranges)"

subsection \<open>Numbers\<close>

lemma parseInt_number: "parseInt s = Some n \<Longrightarrow> number s n"
  by (auto simp: parseInt_def number_def parse_uint64_def split: if_splits option.splits)

lemma number_parseInt: "number s n \<Longrightarrow> n < 2 ^ 63 \<Longrightarrow> parseInt s = Some n"
  by (auto simp: parseInt_def number_def parse_uint64_def nat_less_iff)

lemma number_digits: "number s n \<Longrightarrow> c \<in> set s \<Longrightarrow> is_digit c"
  by (auto simp: number_def list_all_iff)

lemma number_free [simp]:
  "number s n \<Longrightarrow> CHR ''-'' \<notin> set s" "number s n \<Longrightarrow> CHR ''/'' \<notin> set s"
  "number s n \<Longrightarrow> CHR '','' \<notin> set s" "number s n \<Longrightarrow> s \<noteq> []" "number s n \<Longrightarrow> s \<noteq> ''*''"
  "number s n \<Longrightarrow> CHR ''*'' \<notin> set s"
  by (auto simp: number_def list_all_iff is_digit_def)

subsection \<open>Items\<close>

lemma cron_part_item:
  assumes "cron_part s lo hi = Inr u"
  shows "cron_item lo hi s"
proof -
  from assms obtain part step where p: "cron_step s lo hi = Inr (part, step)" by (auto simp: cron_part_def split: sum.splits)
  have s: "step = 0 \<and> s = part \<or> (\<exists>t. s = part @ CHR ''/'' # t \<and> number t step \<and> 1 \<le> step \<and> step \<le> hi - lo + 1)"
    using p by (auto simp: cron_step_def split_on_pair parseInt_number split: if_splits list.splits option.splits)
  consider "part = ''*''" | a b x y where "part = a @ CHR ''-'' # b" "number a x" "number b y" "lo \<le> x" "x \<le> y" "y \<le> hi"
    | n where "step = 0" "number part n" "lo \<le> n" "n \<le> hi"
    using assms p
    by (auto simp: cron_part_def split_on_pair dest!: parseInt_number split: if_splits list.splits option.splits)
  then show ?thesis
  proof cases
    case 1
    with s show ?thesis by (auto intro: cron_item.intros)
  next
    case 2
    with s show ?thesis using cron_item.span_step [OF 2(2-6)] by (auto intro: cron_item.intros)
  next
    case 3
    with s show ?thesis by (auto intro: cron_item.intros)
  qed
qed

lemma cron_item_part:
  assumes "cron_item lo hi s" "0 \<le> lo" "hi < 2 ^ 62"
  shows "cron_part s lo hi = Inr ()"
  using assms(1)
proof cases
  case every
  then show ?thesis by (simp add: cron_part_def cron_step_def)
next
  case (single n)
  then have "parseInt s = Some n" using assms(3) by (intro number_parseInt) auto
  with single show ?thesis by (simp add: cron_part_def cron_step_def)
next
  case (span a x b y)
  have "parseInt a = Some x" "parseInt b = Some y" using span assms(3) by (auto intro!: number_parseInt)
  moreover have "split_on (CHR ''-'') s = [a, b]" using span by (simp add: split_on_pair)
  ultimately show ?thesis using span by (simp add: cron_part_def cron_step_def)
next
  case (every_step t k)
  have "parseInt t = Some k" using every_step assms(2,3) by (auto intro!: number_parseInt)
  moreover have "split_on (CHR ''/'') s = [''*'', t]" unfolding split_on_pair using every_step by simp
  ultimately show ?thesis using every_step by (simp add: cron_part_def cron_step_def)
next
  case (span_step a x b y t k)
  have "parseInt a = Some x" "parseInt b = Some y" "parseInt t = Some k"
    using span_step assms(2,3) by (auto intro!: number_parseInt)
  moreover have "split_on (CHR ''/'') s = [a @ CHR ''-'' # b, t]" "split_on (CHR ''-'') (a @ CHR ''-'' # b) = [a, b]"
    using span_step by (simp_all add: split_on_pair)
  ultimately show ?thesis using span_step by (simp add: cron_part_def cron_step_def)
qed

lemma item_chars: "cron_item lo hi s \<Longrightarrow> s \<noteq> [] \<and> (\<forall>c\<in>set s. is_digit c \<or> c \<in> set ''*-/'')"
  by (induction rule: cron_item.induct) (auto dest: number_digits)

lemma cron_parts_Inr:
  "cron_parts seen ps lo hi = Inr u \<longleftrightarrow>
     (\<forall>p\<in>set ps. p \<noteq> [] \<and> cron_part p lo hi = Inr ()) \<and> distinct ps \<and> set ps \<inter> set seen = {}"
  by (induction seen ps lo hi rule: cron_parts.induct) (auto split: sum.splits)

lemma cronField_iff:
  assumes "0 \<le> lo" "hi < 2 ^ 62"
  shows "cronField f lo hi = Inr u \<longleftrightarrow> cron_field lo hi f"
proof
  assume "cronField f lo hi = Inr u"
  then show "cron_field lo hi f"
    unfolding cron_field_def cronField_def cron_parts_Inr
    by (intro exI [of _ "split_on (CHR '','') f"]) (auto simp: join_split intro: cron_part_item)
next
  assume "cron_field lo hi f"
  then obtain items where i: "items \<noteq> []" "f = join_on (CHR '','') items" "distinct items" "\<forall>i\<in>set items. cron_item lo hi i"
    by (auto simp: cron_field_def)
  have "CHR '','' \<notin> set p" if "p \<in> set items" for p using i(4) that item_chars by (fastforce simp: is_digit_def)
  with i have "split_on (CHR '','') f = items" by (auto simp: split_on_iff)
  then show "cronField f lo hi = Inr u"
    unfolding cronField_def cron_parts_Inr using i item_chars cron_item_part [OF _ assms] by auto
qed

subsection \<open>Expressions\<close>

lemma runes_ascii: "list_all is_ascii s \<Longrightarrow> runes s = map (\<lambda>c. (byte c, [c])) s"
proof (induction s)
  case (Cons c s)
  then have "decode_rune (c # s) = (byte c, 1)" by (simp add: is_ascii_def)
  with Cons show ?case by (subst runes.simps) simp
qed (simp add: runes.simps)

lemma trim_space_id:
  assumes "list_all is_ascii s" "s \<noteq> []" "\<not> is_space_rune (byte (hd s))" "\<not> is_space_rune (byte (last s))"
  shows "trim_space s = s"
proof -
  let ?f = "\<lambda>c. (byte c, [c])" and ?sp = "\<lambda>(r, _). is_space_rune r"
  have d: "dropWhile P xs = xs" if "xs \<noteq> [] \<Longrightarrow> \<not> P (hd xs)" for P and xs :: "(nat \<times> string) list"
    using that by (cases xs) simp_all
  have "dropWhile ?sp (map ?f s) = map ?f s" using assms(2,3) by (intro d) (simp add: hd_map)
  moreover have "dropWhile ?sp (rev (map ?f s)) = rev (map ?f s)"
    using assms(2,4) by (intro d) (simp add: hd_rev last_map)
  moreover have "concat (map (snd \<circ> ?f) s) = s" by (induction s) simp_all
  ultimately show ?thesis by (simp add: trim_space_def runes_ascii [OF assms(1)])
qed

lemma double_separator: "contains_str s [c, c] \<Longrightarrow> [] \<in> set (tl (split_on c s))"
proof (induction s)
  case (Cons d s)
  show ?case
  proof (cases "contains_str s [c, c]")
    case True
    with Cons.IH show ?thesis by (cases "split_on c s") auto
  next
    case False
    with Cons.prems obtain r where "d = c" "s = c # r" by (auto simp: has_prefix_ex)
    then show ?thesis by simp
  qed
qed simp

lemma join_chars: "c \<in> set (join_on d ps) \<Longrightarrow> c = d \<or> (\<exists>p\<in>set ps. c \<in> set p)"
  by (induction d ps rule: join_on.induct) auto

lemma join_ne: "p \<noteq> [] \<Longrightarrow> join_on d (p # ps) \<noteq> []"
  by (cases ps) simp_all

lemma field_chars:
  assumes "cron_field lo hi f"
  shows "f \<noteq> []" "c \<in> set f \<Longrightarrow> is_digit c \<or> c \<in> set ''*-/,''"
proof -
  from assms obtain p ps where i: "f = join_on (CHR '','') (p # ps)" "\<forall>i\<in>set (p # ps). cron_item lo hi i"
    by (auto simp: cron_field_def neq_Nil_conv)
  from i(2) have it: "i \<noteq> [] \<and> (\<forall>c\<in>set i. is_digit c \<or> c \<in> set ''*-/'')" if "i \<in> set (p # ps)" for i
    using that item_chars by blast
  show "f \<noteq> []" using it [of p] by (simp add: i(1) join_ne)
  show "is_digit c \<or> c \<in> set ''*-/,''" if "c \<in> set f"
    using join_chars [of c "CHR '',''" "p # ps"] that it by (fastforce simp: i(1))
qed

lemma join_hd: "p \<noteq> [] \<Longrightarrow> hd (join_on d (p # ps)) = hd p"
  by (cases ps) simp_all

lemma join_last: "ps \<noteq> [] \<Longrightarrow> last ps \<noteq> [] \<Longrightarrow> join_on d ps \<noteq> [] \<and> last (join_on d ps) = last (last ps)"
  by (induction d ps rule: join_on.induct) auto

lemma fields_each:
  assumes "length p = 5"
  shows "each (\<lambda>(f, lo, hi). cronField f lo hi) (zip p cron_ranges) = Inr u \<longleftrightarrow>
    list_all2 (\<lambda>f (lo, hi). cron_field lo hi f) p cron_ranges"
proof -
  have r: "(lo, hi) \<in> set cron_ranges \<Longrightarrow> 0 \<le> lo \<and> hi < 2 ^ 62" for lo hi by (auto simp: cron_ranges_def)
  have "(f, lo, hi) \<in> set (zip p cron_ranges) \<Longrightarrow> cronField f lo hi = Inr () \<longleftrightarrow> cron_field lo hi f" for f lo hi
    using r [of lo hi] cronField_iff by (meson set_zip_rightD)
  moreover have "length cron_ranges = 5" by (simp add: cron_ranges_def)
  ultimately show ?thesis using assms by (auto simp: list_all2_iff)
qed

text \<open>The check accepts exactly the expressions of the grammar.\<close>

lemma cron_iff: "cron (JStr s) = Inr u \<longleftrightarrow> cron_expression s"
proof
  assume c: "cron (JStr s) = Inr u"
  let ?p = "split_on (CHR '' '') s"
  from c have l: "length s \<le> 64" "length ?p = 5"
    and e: "each (\<lambda>(f, lo, hi). cronField f lo hi) (zip ?p cron_ranges) = Inr ()"
    by (auto simp: cron_def Let_def split: if_splits)
  from e have "list_all2 (\<lambda>f (lo, hi). cron_field lo hi f) ?p cron_ranges" by (simp only: fields_each [OF l(2)])
  with l(1) show "cron_expression s"
    unfolding cron_expression_def by (intro conjI exI [of _ ?p]) (simp_all add: join_split)
next
  assume "cron_expression s"
  then obtain fs where s: "length s \<le> 64" "s = join_on (CHR '' '') fs"
    and f: "list_all2 (\<lambda>f (lo, hi). cron_field lo hi f) fs cron_ranges" by (auto simp: cron_expression_def)
  have n: "length fs = 5" using list_all2_lengthD [OF f] by (simp add: cron_ranges_def)
  have fc: "p \<noteq> [] \<and> (\<forall>c\<in>set p. is_digit c \<or> c \<in> set ''*-/,'')" if "p \<in> set fs" for p
  proof -
    from that f obtain r where "cron_field (fst r) (snd r) p"
      by (auto simp: list_all2_conv_all_nth in_set_conv_nth case_prod_beta)
    then show ?thesis using field_chars by blast
  qed
  have "CHR '' '' \<notin> set p" if "p \<in> set fs" for p using fc [OF that] by (auto simp: is_digit_def)
  then have sp: "split_on (CHR '' '') s = fs" using n by (auto simp: split_on_iff s(2))
  have ch: "is_digit c \<or> c \<in> set ''*-/, ''" if "c \<in> set s" for c
    using join_chars [of c "CHR '' ''" fs] that fc by (auto simp: s(2))
  have "is_ascii c" if "c \<in> set s" for c using ch [OF that] by (auto simp: is_ascii_def is_digit_def)
  then have asc: "list_all is_ascii s" by (simp add: list_all_iff)
  have "byte c \<noteq> 9" if "c \<in> set s" for c using ch [OF that] by (auto simp: is_digit_def)
  from this [of "char_of (9::nat)"] have tab: "char_of (9::nat) \<notin> set s" by auto
  have dbl: "\<not> contains_str s ''  ''"
  proof
    assume "contains_str s ''  ''"
    then have "[] \<in> set (tl fs)" using double_separator [of s "CHR '' ''"] by (simp add: sp)
    then have "[] \<in> set fs" by (cases fs) auto
    with fc show False by blast
  qed
  obtain p ps where fs: "fs = p # ps" using n by (cases fs) auto
  have ends: "\<not> is_space_rune (byte c)" if "p' \<in> set fs" "c \<in> set p'" for p' c
    using fc [OF that(1)] that(2) by (auto simp: is_space_rune_def is_digit_def)
  have ne: "s \<noteq> []" and h: "hd s = hd p" and t: "last s = last (last fs)"
    using fc n join_hd [of p "CHR '' ''" ps] join_last [of fs "CHR '' ''"] by (auto simp: s(2) fs)
  have mem: "p \<in> set fs" "last fs \<in> set fs" by (auto simp: fs)
  have trim: "trim_space s = s"
    using ends [OF mem(1) hd_in_set] ends [OF mem(2) last_in_set] fc [OF mem(1)] fc [OF mem(2)]
    by (intro trim_space_id [OF asc ne, unfolded h t]) simp_all
  have "each (\<lambda>(f, lo, hi). cronField f lo hi) (zip fs cron_ranges) = Inr ()" using f by (simp only: fields_each [OF n])
  then show "cron (JStr s) = Inr u" by (simp add: cron_def Let_def ne tab dbl trim sp n s(1) not_less)
qed

end
