(* ===== verification/PrivateInputs.thy ===== *)
theory PrivateInputs
  imports EdgeSpec
begin

text \<open>
  Caller-supplied private inputs, \<open>privateinputsv2/source.go\<close>: the values a WorkerVersion
  declares are selected from one process-local JSON document, nested by Space, resource name
  and input name. The environment variable is an argument, \<open>None\<close> when it is not set. Every
  failure is the same error, so that nothing of the document leaks into a message.
\<close>

datatype private_error = errInvalidSource

definition MaxDocumentBytes :: nat where "MaxDocumentBytes = 2 ^ 20"
definition MaxValueBytes :: nat where "MaxValueBytes = 32768"

definition validHostIdentifier :: "string \<Rightarrow> bool" where
  "validHostIdentifier v \<longleftrightarrow> v \<noteq> [] \<and> length v \<le> 128 \<and> is_alnum (hd v) \<and>
     list_all (\<lambda>c. is_alnum c \<or> c = CHR ''.'' \<or> c = CHR ''_'' \<or> c = CHR ''-'') (tl v)"

definition validExpectedName :: "string \<Rightarrow> bool" where
  "validExpectedName n \<longleftrightarrow> n \<noteq> [] \<and> length n \<le> 64 \<and> is_upper (hd n) \<and>
     list_all (\<lambda>c. is_upper c \<or> is_digit c \<or> c = CHR ''_'') (tl n)"

fun names_unique :: "string list \<Rightarrow> string list \<Rightarrow> bool" where
  "names_unique seen [] = True"
| "names_unique seen (n # ns) =
     (if \<not> validExpectedName n then False else if n \<in> set seen then False else names_unique (n # seen) ns)"

definition validExpectedNames :: "string list \<Rightarrow> bool" where
  "validExpectedNames ns = names_unique [] ns"

definition validPrivateValue :: "string \<Rightarrow> bool" where
  "validPrivateValue v \<longleftrightarrow> 0 < length v \<and> length v \<le> MaxValueBytes \<and> utf8_valid v \<and> CHR 0x00 \<notin> set v"

definition private_value :: "json \<Rightarrow> bool" where
  "private_value v = (case v of JStr s \<Rightarrow> validPrivateValue s | _ \<Rightarrow> False)"

definition validDocumentShape :: "obj \<Rightarrow> bool" where
  "validDocumentShape root = list_all (\<lambda>(space, rawResources).
     validHostIdentifier space \<and>
     (case rawResources of JObj resources \<Rightarrow>
        list_all (\<lambda>(name, rawInputs).
          validHostIdentifier name \<and>
          (case rawInputs of JObj inputs \<Rightarrow> list_all (\<lambda>(n, v). validExpectedName n \<and> private_value v) inputs
           | _ \<Rightarrow> False)) resources
      | _ \<Rightarrow> False)) root"

fun select_inputs :: "string list \<Rightarrow> obj \<Rightarrow> private_error + (string \<times> string) list" where
  "select_inputs wanted [] = Inr []"
| "select_inputs wanted ((name, raw) # rest) =
     (if name \<notin> set wanted then Inl errInvalidSource
      else case raw of JStr v \<Rightarrow>
          if \<not> validPrivateValue v then Inl errInvalidSource
          else (case select_inputs wanted rest of Inl e \<Rightarrow> Inl e | Inr m \<Rightarrow> Inr ((name, v) # m))
      | _ \<Rightarrow> Inl errInvalidSource)"

text \<open>\<open>Inr None\<close>: nothing was supplied for this Space and resource.\<close>

definition loadSelected ::
  "string option \<Rightarrow> string \<Rightarrow> string \<Rightarrow> string list \<Rightarrow> private_error + (string \<times> string) list option" where
  "loadSelected env space resourceName expectedNames =
     (if \<not> validHostIdentifier space \<or> \<not> validHostIdentifier resourceName \<or> \<not> validExpectedNames expectedNames
      then Inl errInvalidSource
      else case env of None \<Rightarrow> Inr None
      | Some raw \<Rightarrow>
          if MaxDocumentBytes < length raw then Inl errInvalidSource
          else (case decode raw of
              Inr (JObj root) \<Rightarrow>
                if \<not> validDocumentShape root then Inl errInvalidSource
                else (case map_of root space of None \<Rightarrow> Inr None
                  | Some (JObj resources) \<Rightarrow>
                      (case map_of resources resourceName of None \<Rightarrow> Inr None
                       | Some (JObj inputs) \<Rightarrow>
                           if length inputs \<noteq> length expectedNames then Inl errInvalidSource
                           else (case select_inputs expectedNames inputs of Inl e \<Rightarrow> Inl e | Inr m \<Rightarrow> Inr (Some m))
                       | Some _ \<Rightarrow> Inl errInvalidSource)
                  | Some _ \<Rightarrow> Inl errInvalidSource)
            | _ \<Rightarrow> Inl errInvalidSource))"

definition Load :: "string option \<Rightarrow> string \<Rightarrow> string \<Rightarrow> string list \<Rightarrow> private_error + (string \<times> string) list" where
  "Load env space resourceName expectedNames =
     (case loadSelected env space resourceName expectedNames of Inl e \<Rightarrow> Inl e
      | Inr None \<Rightarrow> if expectedNames \<noteq> [] then Inl errInvalidSource else Inr []
      | Inr (Some m) \<Rightarrow> Inr m)"

definition LoadOptional ::
  "string option \<Rightarrow> string \<Rightarrow> string \<Rightarrow> string list \<Rightarrow> private_error + (string \<times> string) list option" where
  "LoadOptional env space resourceName expectedNames = loadSelected env space resourceName expectedNames"

subsection \<open>Selection is exact\<close>

lemma names_unique_iff:
  "names_unique seen ns \<longleftrightarrow> list_all validExpectedName ns \<and> distinct ns \<and> set ns \<inter> set seen = {}"
  by (induction seen ns rule: names_unique.induct) auto

lemma select_inputs_Inr:
  "select_inputs wanted inputs = Inr m \<Longrightarrow>
     map fst m = map fst inputs \<and> fst ` set inputs \<subseteq> set wanted \<and> list_all (\<lambda>(_, v). validPrivateValue v) m"
  by (induction wanted inputs arbitrary: m rule: select_inputs.induct)
     (auto split: if_splits json.splits sum.splits)

text \<open>Same number, no repetition and only declared names: the names are exactly the declared ones.\<close>

lemma exact_names:
  assumes "distinct xs" "set xs \<subseteq> set ns" "length xs = length ns"
  shows "set xs = set ns"
proof (rule card_subset_eq [OF _ assms(2)])
  show "card (set xs) = card (set ns)"
  proof (rule antisym)
    show "card (set xs) \<le> card (set ns)" using assms(2) by (intro card_mono) auto
    show "card (set ns) \<le> card (set xs)" using assms(1,3) card_length [of ns] by (simp add: distinct_card)
  qed
qed simp

lemma member_wf: "json_wf (JObj m) \<Longrightarrow> map_of m k = Some v \<Longrightarrow> json_wf v"
  by (drule map_of_SomeD) (force simp: list_all_iff)

lemma loadSelected_Some:
  assumes "loadSelected env space name expected = Inr (Some m)"
  shows "distinct (map fst m)" "set (map fst m) = set expected" "list_all (\<lambda>(_, v). validPrivateValue v) m"
    "distinct expected" "\<exists>raw. env = Some raw"
proof -
  from assms obtain raw root resources inputs where d: "env = Some raw" "decode raw = Inr (JObj root)"
    "map_of root space = Some (JObj resources)" "map_of resources name = Some (JObj inputs)"
    "length inputs = length expected" "select_inputs expected inputs = Inr m" "validExpectedNames expected"
    by (auto simp: loadSelected_def split: if_splits option.splits sum.splits json.splits)
  have "json_wf (JObj root)" using decode_wf [OF d(2)] by simp
  from member_wf [OF member_wf [OF this d(3)] d(4)] have di: "distinct (map fst inputs)" by simp
  note s = select_inputs_Inr [OF d(6)]
  from s show "list_all (\<lambda>(_, v). validPrivateValue v) m" by simp
  from s di show "distinct (map fst m)" by simp
  from s have "set (map fst inputs) \<subseteq> set expected" by auto
  from exact_names [OF di this] d(5) s show "set (map fst m) = set expected" by simp
  from d(7) show "distinct expected" by (simp add: validExpectedNames_def names_unique_iff)
  from d(1) show "\<exists>raw. env = Some raw" by blast
qed

end
