(* ===== verification/EdgeProps.thy ===== *)
theory EdgeProps
  imports CronGrammar PrivateInputs "HOL-Library.Code_Target_Numeral"
begin

text \<open>
  Properties of the Edge Form specs and of the private inputs.
\<close>

text \<open>
  C26: the cron check is the cron grammar. A string is accepted exactly when it has at most 64
  bytes and is five fields, separated by single spaces, of distinct comma-separated items in
  the field's range: \<open>*\<close>, a number, a range, or one of \<open>*\<close> and a range with a step no larger
  than the range.
\<close>
theorem cron_grammar: "cron (JStr s) = Inr () \<longleftrightarrow> cron_expression s"
  by (rule cron_iff)

text \<open>
  C27: a decoded deployment splits all traffic. Its typed form names between one and eight
  versions, all different, with weights between 1 and 10000 that sum to exactly 10000.
\<close>
theorem deployment_splits:
  assumes "spec_Decode WorkerDeploymentURL data = Inr t"
  shows "\<exists>d. t = DeploymentSpec d \<and> 1 \<le> length (wd_Versions d) \<and> length (wd_Versions d) \<le> 8 \<and>
    distinct (map (ref_ResourceUID \<circ> wv_WorkerVersion) (wd_Versions d)) \<and>
    (\<forall>v\<in>set (wd_Versions d). 1 \<le> wv_Weight v \<and> wv_Weight v \<le> 10000) \<and>
    sum_list (map wv_Weight (wd_Versions d)) = 10000"
proof -
  from assms obtain ob where ob: "decode data = Inr (JObj ob)" "validateDeployment ob = Inr ()"
    "typed_spec WorkerDeploymentURL (JObj ob) = Some t"
    by (auto simp: spec_Decode_def validate_spec_def empty_forms_def form_urls split: sum.splits json.splits option.splits)
  from decode_wf [OF ob(1)] have wf: "json_wf (JObj ob)" by simp
  from ob(2) wf obtain a where a: "map_of ob ''versions'' = Some (JArr a)"
    "typed_spec WorkerDeploymentURL (JObj ob) = Some (DeploymentSpec
       \<lparr>wd_Worker = \<lparr>ref_ResourceUID = ref_uid (at ob ''worker'')\<rparr>,
        wd_Versions = map (\<lambda>v. \<lparr>wv_WorkerVersion = \<lparr>ref_ResourceUID = version_uid v\<rparr>,
          wv_Weight = as_int (at (members v) ''weight'')\<rparr>) a\<rparr>)" by (rule typed_deployment)
  from ob(2) show ?thesis
  proof (rule validateDeployment_Inr)
    fix b
    assume "map_of ob ''versions'' = Some (JArr b)" and b: "b \<noteq> []" "length b \<le> 8" "list_all checked_version b"
      "distinct (map version_uid b)" "sum_list (map (\<lambda>v. as_int (at (members v) ''weight'')) b) = 10000"
    with a(1) have "b = a" by simp
    moreover have "1 \<le> as_int (at (members v) ''weight'') \<and> as_int (at (members v) ''weight'') \<le> 10000"
      if "v \<in> set a" for v
      using b(3) that \<open>b = a\<close> as_int_range by (fastforce simp: list_all_iff checked_version_def)
    ultimately show ?thesis using a(2) ob(3) b by (auto simp: comp_def Suc_le_eq)
  qed
qed

definition sample_deployment :: bytes where
  "sample_deployment = json_text (JObj [(''worker'', JObj [(''resourceUid'', JStr ''w1'')]),
     (''versions'', JArr [JObj [(''workerVersion'', JObj [(''resourceUid'', JStr ''v1'')]), (''weight'', JNum ''9000'')],
        JObj [(''weight'', JNum ''1000''), (''workerVersion'', JObj [(''resourceUid'', JStr ''v2'')])]])])"

theorem deployment_splits_witness:
  "\<exists>d. spec_Decode WorkerDeploymentURL sample_deployment = Inr (DeploymentSpec d) \<and>
     sum_list (map wv_Weight (wd_Versions d)) = 10000"
proof -
  have "ok (spec_Decode WorkerDeploymentURL sample_deployment)" by code_simp
  then obtain t where "spec_Decode WorkerDeploymentURL sample_deployment = Inr t" by (auto simp: ok_iff)
  with deployment_splits [OF this] show ?thesis by auto
qed

text \<open>
  C28: no environment name is used twice. In a WorkerVersion spec that decodes, the declared
  sensitive variables, the plain variables and the names of all seven kinds of bindings are
  pairwise different.
\<close>
theorem environment_unique:
  assumes "spec_Decode WorkerVersionURL data = Inr t"
  shows "\<exists>ob. decode data = Inr (JObj ob) \<and> distinct (secret_names ob @ var_names ob @ binding_names ob)"
proof -
  from assms obtain ob where ob: "decode data = Inr (JObj ob)" "validateVersion ob = Inr ()"
    by (auto simp: spec_Decode_def validate_spec_def empty_forms_def form_urls split: sum.splits json.splits)
  from validateVersion_names [OF ob(2)] environment_names_distinct ob(1) show ?thesis by blast
qed

definition sample_version :: bytes where
  "sample_version = json_text (JObj [(''worker'', JObj [(''resourceUid'', JStr ''w1'')]),
     (''bundle'', JObj [(''resourceUid'', JStr ''b1'')]), (''handlers'', JArr [JStr ''fetch'']),
     (''vars'', JObj [(''region'', JStr ''eu''), (''limits'', JArr [JNum ''1'', JNull])]),
     (''requiredSensitiveVars'', JArr [JStr ''TOKEN'']),
     (''kvBindings'', JArr [JObj [(''name'', JStr ''CACHE''), (''resource'', JObj [(''resourceUid'', JStr ''k1'')])]])])"

lemma sample_version_decodes: "ok (spec_Decode WorkerVersionURL sample_version)"
  by code_simp

theorem environment_unique_witness:
  "\<exists>ob. decode sample_version = Inr (JObj ob) \<and> distinct (secret_names ob @ var_names ob @ binding_names ob)"
  using sample_version_decodes environment_unique by (auto simp: ok_iff)

text \<open>
  C29: validation is the only obstacle. A strict JSON object that passes the validation of its
  Form always decodes into the Form's type: the second, typed decoding never fails.
\<close>
theorem validated_spec_decodes:
  assumes "decode data = Inr (JObj ob)" "validate_spec url ob = Inr ()"
  shows "\<exists>t. spec_Decode url data = Inr t"
proof -
  from decode_wf [OF assms(1)] have "json_wf (JObj ob)" by simp
  from typed_total [OF assms(2) this] obtain t where "typed_spec url (JObj ob) = Some t" by auto
  with assms show ?thesis by (simp add: spec_Decode_def)
qed

theorem validated_spec_decodes_witness: "\<exists>t. spec_Decode ModuleWorkerURL ''{}'' = Inr t"
proof -
  have "decode ''{}'' = Inr (JObj [])" by code_simp
  moreover have "validate_spec ModuleWorkerURL [] = Inr ()" by code_simp
  ultimately show ?thesis by (rule validated_spec_decodes)
qed

lemma find_inverse:
  assumes "distinct (map fst ps)" "distinct (map snd ps)"
  shows "List.find (\<lambda>k. map_of ps k = Some u) (map fst ps) = Some k \<longleftrightarrow> map_of ps k = Some u"
proof
  assume "List.find (\<lambda>k. map_of ps k = Some u) (map fst ps) = Some k"
  then show "map_of ps k = Some u" by (auto simp: find_Some_iff)
next
  assume m: "map_of ps k = Some u"
  then have "k \<in> set (map fst ps)" by (metis domI dom_map_of_conv_image_fst set_map)
  with m obtain k' where k': "List.find (\<lambda>k. map_of ps k = Some u) (map fst ps) = Some k'"
    by (cases "List.find (\<lambda>k. map_of ps k = Some u) (map fst ps)") (auto simp: find_None_iff)
  then have "map_of ps k' = Some u" by (auto simp: find_Some_iff)
  with m have "(k, u) \<in> set ps" "(k', u) \<in> set ps" by (auto dest: map_of_SomeD)
  with assms(2) have "k = k'" by (metis distinct_map inj_onD prod.inject snd_conv)
  with k' show "List.find (\<lambda>k. map_of ps k = Some u) (map fst ps) = Some k" by simp
qed

lemma find_inverse_Some:
  assumes "distinct (map fst ps)"
  shows "(\<exists>k. List.find (\<lambda>k. map_of ps k = Some u) (map fst ps) = Some k) \<longleftrightarrow> u \<in> snd ` set ps"
proof -
  have "(\<exists>k. List.find (\<lambda>k. map_of ps k = Some u) (map fst ps) = Some k) \<longleftrightarrow> (\<exists>k\<in>fst ` set ps. map_of ps k = Some u)"
    using find_None_iff [of "\<lambda>k. map_of ps k = Some u" "map fst ps"]
    by (cases "List.find (\<lambda>k. map_of ps k = Some u) (map fst ps)") (auto simp: find_Some_iff)
  also have "\<dots> \<longleftrightarrow> u \<in> snd ` set ps" using assms by (force dest: map_of_SomeD intro: map_of_is_SomeI)
  finally show ?thesis .
qed

text \<open>
  C30: the roster is exact. Kinds and URLs determine each other, the listed URLs are the ones
  that have a kind, and no spec of an unlisted Form ever decodes.
\<close>
theorem form_roster_exact:
  "(KindForURL url = Some kind \<longleftrightarrow> URLForKind kind = Some url) \<and> (KindForURL url \<noteq> None \<longleftrightarrow> url \<in> set URLs) \<and>
   (url \<notin> set URLs \<longrightarrow> spec_Decode url data \<noteq> Inr t)"
proof (intro conjI impI)
  have d: "distinct (map fst form_kinds)" "distinct (map snd form_kinds)" "map snd form_kinds = URLs" by code_simp+
  have k: "KindForURL u = List.find (\<lambda>k. map_of form_kinds k = Some u) (map fst form_kinds)" for u
    by (simp only: KindForURL_def URLForKind_def form_kinds_def list.map fst_conv)
  show e: "KindForURL url = Some kind \<longleftrightarrow> URLForKind kind = Some url"
    by (simp add: k URLForKind_def find_inverse [OF d(1,2)])
  show "KindForURL url \<noteq> None \<longleftrightarrow> url \<in> set URLs"
    by (simp add: k find_inverse_Some [OF d(1)] flip: d(3))
  assume "url \<notin> set URLs"
  then have "validate_spec url ob = Inl ''unsupported exact Form URL''" for ob
    by (simp add: validate_spec_def URLs_def empty_forms_def)
  then show "spec_Decode url data \<noteq> Inr t" by (simp add: spec_Decode_def split: sum.splits json.splits)
qed

theorem form_roster_exact_witness:
  "KindForURL ''https://example.com/'' = None \<and> spec_Decode ''https://example.com/'' ''{}'' \<noteq> Inr EmptySpec"
proof -
  have "''https://example.com/'' \<notin> set URLs" by code_simp
  with form_roster_exact [of "''https://example.com/''" k "''{}''" EmptySpec] show ?thesis by auto
qed

text \<open>
  C31: private inputs are taken whole or not at all. When \<open>Load\<close> succeeds it returns exactly one
  valid value for each declared name and nothing else; \<open>LoadOptional\<close> either finds no entry for
  this Space and resource, which it reports as absence, or satisfies the same, or fails.
\<close>
theorem private_inputs_exact:
  assumes "Load env space name expected = Inr m \<or> LoadOptional env space name expected = Inr (Some m)"
  shows "distinct (map fst m) \<and> set (map fst m) = set expected \<and> (\<forall>(_, v)\<in>set m. validPrivateValue v)"
  using assms loadSelected_Some [of env space name expected]
  by (auto simp: Load_def LoadOptional_def list_all_iff split: sum.splits option.splits if_splits)

definition sample_private :: bytes where
  "sample_private = json_text (JObj [(''prod'', JObj [(''web'', JObj [(''TOKEN'', JStr ''s3cret'')])])])"

theorem private_inputs_exact_witness:
  "\<exists>m. Load (Some sample_private) ''prod'' ''web'' [''TOKEN''] = Inr m \<and> set (map fst m) = {''TOKEN''}"
proof -
  have "ok (Load (Some sample_private) ''prod'' ''web'' [''TOKEN''])" by code_simp
  then obtain m where "Load (Some sample_private) ''prod'' ''web'' [''TOKEN''] = Inr m" by (auto simp: ok_iff)
  with private_inputs_exact [OF disjI1 [OF this]] show ?thesis by auto
qed

end
