(* ===== verification/HostTypes.thy ===== *)
theory HostTypes
  imports EdgeSpec
begin

text \<open>
  Host API v2 data, \<open>hostv2/types.go\<close> and the decoding half of \<open>hostv2/client.go\<close>: the wire
  structs, the strict reading of responses (required members by exact name, then the lenient
  typed decoding), and the validation of what was read.
\<close>

definition APIVersion :: string where "APIVersion = ''forms.takoform.com/v2''"
definition DiscoveryPath :: string where "DiscoveryPath = ''/.well-known/takoform/v2''"
definition maxResponseBytes :: nat where "maxResponseBytes = 8 * 1024 * 1024"
definition maxSafeInteger :: int where "maxSafeInteger = 9007199254740991"

subsection \<open>Structs\<close>

record Authentication =
  au_Schemes :: "string list"
  au_Documentation :: string
record Capabilities =
  cp_Offerings :: bool
  cp_Previews :: bool
  cp_PrivateInputs :: bool
record Limits =
  lm_MaxRequestBytes :: int
  lm_MaxPageSize :: int
  lm_ReplayWindowSeconds :: int
record Discovery =
  di_API :: string
  di_BaseURL :: string
  di_Documentation :: string
  di_Authentication :: Authentication
  di_Capabilities :: Capabilities
  di_Limits :: Limits
record Support =
  su_Form :: string
  su_Supported :: bool
  su_Operations :: "string list option"
  su_PrivateInputs :: bool
record Offering =
  of_ID :: string
  of_Revision :: string
  of_Form :: string
  of_Label :: string
  of_Description :: string
  of_TermsURL :: string
record OfferingSelection =
  os_ID :: string
  os_Revision :: string
record 'a Page =
  pg_Items :: "'a list option"
  pg_NextCursor :: "string option"
record PageOptions =
  po_Limit :: int
  po_Cursor :: string
record ResourceFilters =
  rf_Space :: string
  rf_Name :: string
  rf_Form :: string
record Resource =
  re_UID :: string
  re_Form :: string
  re_Space :: string
  re_Name :: string
  re_Offering :: "OfferingSelection option"
  re_Generation :: int
  re_ObservedGeneration :: int
  re_ObservedAt :: "string option"
  re_Phase :: string
  re_Spec :: "obj option"
  re_Observed :: "obj option"
  re_Output :: "obj option"
  re_LastOperation :: string
record CreateRequest =
  cq_Form :: string
  cq_Space :: string
  cq_Name :: string
  cq_Offering :: "OfferingSelection option"
  cq_Spec :: "obj option"
  cq_PrivateInputs :: "(string \<times> string) list option option"
record UpdateRequest =
  uq_Spec :: "obj option"
  uq_PrivateInputs :: "(string \<times> string) list option option"
record OperationError =
  oe_Code :: string
  oe_Message :: string
record InputRequired =
  in_Names :: "string list option"
  in_Reason :: string
record Operation =
  op_ID :: string
  op_ResourceUID :: string
  op_Action :: string
  op_Generation :: int
  op_Status :: string
  op_Effect :: string
  op_CreatedAt :: string
  op_UpdatedAt :: string
  op_RetainUntil :: string
  op_Error :: "OperationError option"
  op_InputRequired :: "InputRequired option"
  op_RetryAfterSeconds :: int

text \<open>\<open>APIError\<close> carries status, code, \<open>Retry-After\<close> and Operation ID; other errors a message.\<close>

datatype host_error =
    HostError string
  | HostPanic
  | APIError nat string string string
  | IndeterminateError string

subsection \<open>Fields\<close>

definition zero_discovery :: Discovery where
  "zero_discovery = \<lparr>di_API = [], di_BaseURL = [], di_Documentation = [],
     di_Authentication = \<lparr>au_Schemes = [], au_Documentation = []\<rparr>,
     di_Capabilities = \<lparr>cp_Offerings = False, cp_Previews = False, cp_PrivateInputs = False\<rparr>,
     di_Limits = \<lparr>lm_MaxRequestBytes = 0, lm_MaxPageSize = 0, lm_ReplayWindowSeconds = 0\<rparr>\<rparr>"

definition authentication_fields :: "Authentication fields" where
  "authentication_fields = [field ''schemes'' au_Schemes au_Schemes_update (dec_list dec_string []),
     field ''documentation'' au_Documentation au_Documentation_update dec_string]"

definition capabilities_fields :: "Capabilities fields" where
  "capabilities_fields = [field ''offerings'' cp_Offerings cp_Offerings_update dec_bool,
     field ''previews'' cp_Previews cp_Previews_update dec_bool,
     field ''privateInputs'' cp_PrivateInputs cp_PrivateInputs_update dec_bool]"

definition limits_fields :: "Limits fields" where
  "limits_fields = [field ''maxRequestBytes'' lm_MaxRequestBytes lm_MaxRequestBytes_update dec_int64,
     field ''maxPageSize'' lm_MaxPageSize lm_MaxPageSize_update dec_int64,
     field ''replayWindowSeconds'' lm_ReplayWindowSeconds lm_ReplayWindowSeconds_update dec_int64]"

definition discovery_fields :: "Discovery fields" where
  "discovery_fields =
     [field ''api'' di_API di_API_update dec_string, field ''baseUrl'' di_BaseURL di_BaseURL_update dec_string,
      field ''documentation'' di_Documentation di_Documentation_update dec_string,
      field ''authentication'' di_Authentication di_Authentication_update (lax_struct authentication_fields),
      field ''capabilities'' di_Capabilities di_Capabilities_update (lax_struct capabilities_fields),
      field ''limits'' di_Limits di_Limits_update (lax_struct limits_fields)]"

definition zero_support :: Support where
  "zero_support = \<lparr>su_Form = [], su_Supported = False, su_Operations = None, su_PrivateInputs = False\<rparr>"

definition support_fields :: "Support fields" where
  "support_fields =
     [field ''form'' su_Form su_Form_update dec_string, field ''supported'' su_Supported su_Supported_update dec_bool,
      field ''operations'' su_Operations su_Operations_update (dec_slice dec_string []),
      field ''privateInputs'' su_PrivateInputs su_PrivateInputs_update dec_bool]"

definition zero_offering :: Offering where
  "zero_offering = \<lparr>of_ID = [], of_Revision = [], of_Form = [], of_Label = [], of_Description = [], of_TermsURL = []\<rparr>"

definition offering_fields :: "Offering fields" where
  "offering_fields =
     [field ''id'' of_ID of_ID_update dec_string, field ''revision'' of_Revision of_Revision_update dec_string,
      field ''form'' of_Form of_Form_update dec_string, field ''label'' of_Label of_Label_update dec_string,
      field ''description'' of_Description of_Description_update dec_string,
      field ''termsUrl'' of_TermsURL of_TermsURL_update dec_string]"

definition selection_fields :: "OfferingSelection fields" where
  "selection_fields = [field ''id'' os_ID os_ID_update dec_string, field ''revision'' os_Revision os_Revision_update dec_string]"

definition page_fields :: "'a dec \<Rightarrow> 'a \<Rightarrow> 'a Page fields" where
  "page_fields d zero =
     [field ''items'' pg_Items pg_Items_update (dec_slice d zero),
      field ''nextCursor'' pg_NextCursor pg_NextCursor_update (dec_pointer dec_string [])]"

definition zero_resource :: Resource where
  "zero_resource = \<lparr>re_UID = [], re_Form = [], re_Space = [], re_Name = [], re_Offering = None, re_Generation = 0,
     re_ObservedGeneration = 0, re_ObservedAt = None, re_Phase = [], re_Spec = None, re_Observed = None,
     re_Output = None, re_LastOperation = []\<rparr>"

definition resource_fields :: "Resource fields" where
  "resource_fields =
     [field ''uid'' re_UID re_UID_update dec_string, field ''form'' re_Form re_Form_update dec_string,
      field ''space'' re_Space re_Space_update dec_string, field ''name'' re_Name re_Name_update dec_string,
      field ''offering'' re_Offering re_Offering_update
        (dec_pointer (lax_struct selection_fields) \<lparr>os_ID = [], os_Revision = []\<rparr>),
      field ''generation'' re_Generation re_Generation_update dec_int64,
      field ''observedGeneration'' re_ObservedGeneration re_ObservedGeneration_update dec_int64,
      field ''observedAt'' re_ObservedAt re_ObservedAt_update (dec_pointer dec_string []),
      field ''phase'' re_Phase re_Phase_update dec_string, field ''spec'' re_Spec re_Spec_update dec_map,
      field ''observed'' re_Observed re_Observed_update dec_map, field ''output'' re_Output re_Output_update dec_map,
      field ''lastOperation'' re_LastOperation re_LastOperation_update dec_string]"

definition operation_error_fields :: "OperationError fields" where
  "operation_error_fields = [field ''code'' oe_Code oe_Code_update dec_string,
     field ''message'' oe_Message oe_Message_update dec_string]"

definition input_required_fields :: "InputRequired fields" where
  "input_required_fields = [field ''names'' in_Names in_Names_update (dec_slice dec_string []),
     field ''reason'' in_Reason in_Reason_update dec_string]"

definition zero_operation :: Operation where
  "zero_operation = \<lparr>op_ID = [], op_ResourceUID = [], op_Action = [], op_Generation = 0, op_Status = [], op_Effect = [],
     op_CreatedAt = [], op_UpdatedAt = [], op_RetainUntil = [], op_Error = None, op_InputRequired = None,
     op_RetryAfterSeconds = 0\<rparr>"

definition operation_fields :: "Operation fields" where
  "operation_fields =
     [field ''id'' op_ID op_ID_update dec_string, field ''resourceUid'' op_ResourceUID op_ResourceUID_update dec_string,
      field ''action'' op_Action op_Action_update dec_string,
      field ''generation'' op_Generation op_Generation_update dec_int64,
      field ''status'' op_Status op_Status_update dec_string, field ''effect'' op_Effect op_Effect_update dec_string,
      field ''createdAt'' op_CreatedAt op_CreatedAt_update dec_string,
      field ''updatedAt'' op_UpdatedAt op_UpdatedAt_update dec_string,
      field ''retainUntil'' op_RetainUntil op_RetainUntil_update dec_string,
      field ''error'' op_Error op_Error_update
        (dec_pointer (lax_struct operation_error_fields) \<lparr>oe_Code = [], oe_Message = []\<rparr>),
      field ''inputRequired'' op_InputRequired op_InputRequired_update
        (dec_pointer (lax_struct input_required_fields) \<lparr>in_Names = None, in_Reason = []\<rparr>)]"

subsection \<open>Strict reading\<close>

text \<open>\<open>json.Unmarshal\<close> into a \<open>map[string]json.RawMessage\<close>; a null document leaves the map nil.\<close>

definition raw_members :: "json \<Rightarrow> obj option" where
  "raw_members v = (case v of JObj kvs \<Rightarrow> Some kvs | JNull \<Rightarrow> Some [] | _ \<Rightarrow> None)"

definition required_members :: "string list \<Rightarrow> string list \<Rightarrow> obj \<Rightarrow> bool" where
  "required_members nullable required kvs =
     list_all (\<lambda>k. case map_of kvs k of None \<Rightarrow> False | Some v \<Rightarrow> k \<in> set nullable \<or> v \<noteq> JNull) required"

definition required_tree :: "'s fields \<Rightarrow> 's \<Rightarrow> string list \<Rightarrow> string list \<Rightarrow> json \<Rightarrow> 's option" where
  "required_tree fs cur nullable required v =
     (case v of JObj kvs \<Rightarrow> if required_members nullable required kvs then lax_struct fs cur (JObj kvs) else None
      | _ \<Rightarrow> None)"

definition decodeRequiredNullable :: "'s fields \<Rightarrow> 's \<Rightarrow> string list \<Rightarrow> string list \<Rightarrow> bytes \<Rightarrow> 's option" where
  "decodeRequiredNullable fs zero nullable required data =
     (case decode data of Inl _ \<Rightarrow> None | Inr v \<Rightarrow> required_tree fs zero nullable required v)"

definition decodeRequired :: "'s fields \<Rightarrow> 's \<Rightarrow> string list \<Rightarrow> bytes \<Rightarrow> 's option" where
  "decodeRequired fs zero required data = decodeRequiredNullable fs zero [] required data"

text \<open>A member that is left out may not be written as \<open>null\<close>.\<close>

definition optional_tree :: "string list \<Rightarrow> json \<Rightarrow> bool" where
  "optional_tree names v =
     (case raw_members v of None \<Rightarrow> False | Some kvs \<Rightarrow> list_all (\<lambda>n. map_of kvs n \<noteq> Some JNull) names)"

definition validateOptionalObject :: "string list \<Rightarrow> bytes \<Rightarrow> bool" where
  "validateOptionalObject names data = (case decode data of Inl _ \<Rightarrow> False | Inr v \<Rightarrow> optional_tree names v)"

definition requireNestedObjectKeys :: "string list \<Rightarrow> json option \<Rightarrow> bool" where
  "requireNestedObjectKeys required raw =
     (case raw of Some (JObj kvs) \<Rightarrow> required_members [] required kvs | _ \<Rightarrow> False)"

definition validateInputRequiredNames :: "json option \<Rightarrow> bool" where
  "validateInputRequiredNames raw =
     (case raw of
        Some (JObj kvs) \<Rightarrow>
          (case map_of kvs ''names'' of
             Some (JArr names) \<Rightarrow> names \<noteq> [] \<and> list_all (\<lambda>n. case n of JStr _ \<Rightarrow> True | _ \<Rightarrow> False) names
           | _ \<Rightarrow> False)
      | _ \<Rightarrow> False)"

subsection \<open>Validators\<close>

definition idPattern :: "string \<Rightarrow> bool" where
  "idPattern s = match_rep is_alnum (\<lambda>c. is_alnum c \<or> c \<in> set ''._-'') 0 127 s"

definition idempotencyPattern :: "string \<Rightarrow> bool" where
  "idempotencyPattern s = match_rep is_alnum (\<lambda>c. is_alnum c \<or> c \<in> set ''._:-'') 15 127 s"

definition validTimestamp :: "string \<Rightarrow> bool" where
  "validTimestamp v \<longleftrightarrow> has_suffix v ''Z'' \<and> parse_rfc3339 v \<noteq> None"

definition validateFormURL :: "string \<Rightarrow> bool" where
  "validateFormURL raw =
     (case url_parse raw of None \<Rightarrow> False
      | Some u \<Rightarrow> is_abs u \<and> url_scheme u = ''https'' \<and> hostname u \<noteq> [] \<and> \<not> url_user u \<and> url_query u = [] \<and>
          url_fragment u = [] \<and> \<not> contains_any raw ''?#'' \<and> ascii_only raw)"

definition validHTTPSURL :: "string \<Rightarrow> bool" where
  "validHTTPSURL raw =
     (case url_parse raw of None \<Rightarrow> False
      | Some u \<Rightarrow> is_abs u \<and> url_scheme u = ''https'' \<and> hostname u \<noteq> [] \<and> \<not> url_user u \<and> ascii_only raw)"

definition origin_port :: "go_url \<Rightarrow> string" where
  "origin_port u = (if url_port u \<noteq> [] then url_port u else if url_scheme u = ''https'' then ''443'' else ''80'')"

text \<open>\<open>strings.EqualFold\<close> where one side is ASCII.\<close>

definition equal_fold :: "string \<Rightarrow> string \<Rightarrow> bool" where
  "equal_fold a b \<longleftrightarrow> fold_name a = fold_name b"

definition sameOriginURL :: "go_url \<Rightarrow> go_url \<Rightarrow> bool" where
  "sameOriginURL l r \<longleftrightarrow> equal_fold (url_scheme l) (url_scheme r) \<and> equal_fold (hostname l) (hostname r) \<and>
     origin_port l = origin_port r"

definition positive_limit :: "int \<Rightarrow> bool" where
  "positive_limit n \<longleftrightarrow> 0 < n \<and> n \<le> maxSafeInteger"

definition validateDiscovery :: "Discovery \<Rightarrow> string \<Rightarrow> bool" where
  "validateDiscovery d origin \<longleftrightarrow>
     di_API d = APIVersion \<and> validHTTPSURL (di_Documentation d) \<and>
     validHTTPSURL (au_Documentation (di_Authentication d)) \<and> au_Schemes (di_Authentication d) \<noteq> [] \<and>
     list_all (\<lambda>s. trim_space s \<noteq> []) (au_Schemes (di_Authentication d)) \<and>
     positive_limit (lm_MaxRequestBytes (di_Limits d)) \<and> positive_limit (lm_MaxPageSize (di_Limits d)) \<and>
     positive_limit (lm_ReplayWindowSeconds (di_Limits d)) \<and>
     utf8_valid (di_BaseURL d) \<and> trim_right_byte (CHR ''/'') (di_BaseURL d) = di_BaseURL d \<and>
     (case (url_parse (di_BaseURL d), url_parse origin) of
        (Some base, Some orig) \<Rightarrow> is_abs base \<and> url_scheme base = ''https'' \<and> url_host base \<noteq> [] \<and> \<not> url_user base \<and>
          url_query base = [] \<and> url_fragment base = [] \<and> \<not> contains_any (di_BaseURL d) ''?#'' \<and>
          ascii_only (di_BaseURL d) \<and> sameOriginURL base orig
      | _ \<Rightarrow> False)"

fun operations_loop :: "string list \<Rightarrow> string list \<Rightarrow> bool" where
  "operations_loop seen [] = True"
| "operations_loop seen (x # xs) =
     (if x \<notin> set [''create'', ''read'', ''update'', ''delete''] then False
      else if x \<in> set seen then False else operations_loop (x # seen) xs)"

definition validateSupport :: "Support \<Rightarrow> bool" where
  "validateSupport s =
     (case su_Operations s of None \<Rightarrow> False
      | Some xs \<Rightarrow> operations_loop [] xs \<and> \<not> (\<not> su_Supported s \<and> (xs \<noteq> [] \<or> su_PrivateInputs s)))"

definition valid_selection :: "OfferingSelection option \<Rightarrow> bool" where
  "valid_selection x = (case x of None \<Rightarrow> True | Some s \<Rightarrow> idPattern (os_ID s) \<and> os_Revision s \<noteq> [])"

definition validateCreate :: "CreateRequest \<Rightarrow> bool" where
  "validateCreate c \<longleftrightarrow> validateFormURL (cq_Form c) \<and> idPattern (cq_Space c) \<and> idPattern (cq_Name c) \<and>
     cq_Spec c \<noteq> None \<and> valid_selection (cq_Offering c)"

definition validateResource :: "Resource \<Rightarrow> bool" where
  "validateResource r \<longleftrightarrow>
     idPattern (re_UID r) \<and> idPattern (re_Space r) \<and> idPattern (re_Name r) \<and> validateFormURL (re_Form r) \<and>
     1 \<le> re_Generation r \<and> re_Generation r \<le> maxSafeInteger \<and> 0 \<le> re_ObservedGeneration r \<and>
     re_ObservedGeneration r \<le> maxSafeInteger \<and> re_ObservedGeneration r \<le> re_Generation r \<and>
     re_Spec r \<noteq> None \<and> re_Observed r \<noteq> None \<and> re_Output r \<noteq> None \<and> idPattern (re_LastOperation r) \<and>
     re_Phase r \<in> set [''pending'', ''idle'', ''deleting'', ''error''] \<and>
     (case re_ObservedAt r of None \<Rightarrow> True | Some t \<Rightarrow> validTimestamp t) \<and>
     \<not> (0 < re_ObservedGeneration r \<and> re_ObservedAt r = None) \<and> valid_selection (re_Offering r)"

definition resource_required :: "string list" where
  "resource_required = [''uid'', ''form'', ''space'', ''name'', ''generation'', ''observedGeneration'', ''observedAt'',
     ''phase'', ''spec'', ''observed'', ''output'', ''lastOperation'']"

definition operation_required :: "string list" where
  "operation_required = [''id'', ''resourceUid'', ''action'', ''generation'', ''status'', ''effect'', ''createdAt'',
     ''updatedAt'', ''retainUntil'']"

text \<open>Status, effect, error and \<open>inputRequired\<close> of an Operation agree.\<close>

definition operation_identity :: "Operation \<Rightarrow> bool" where
  "operation_identity op \<longleftrightarrow> idPattern (op_ID op) \<and> idPattern (op_ResourceUID op) \<and> 1 \<le> op_Generation op \<and>
     op_Generation op \<le> maxSafeInteger \<and> validTimestamp (op_CreatedAt op) \<and> validTimestamp (op_UpdatedAt op) \<and>
     validTimestamp (op_RetainUntil op)"

definition operation_states :: "Operation \<Rightarrow> bool" where
  "operation_states op \<longleftrightarrow>
     op_Action op \<in> set [''create'', ''update'', ''delete''] \<and>
     op_Status op \<in> set [''queued'', ''running'', ''waiting_input'', ''reconciling'', ''succeeded'', ''failed''] \<and>
     op_Effect op \<in> set [''none'', ''unknown'', ''partial'', ''complete''] \<and>
     (op_Status op = ''succeeded'' \<longrightarrow> op_Effect op = ''complete'') \<and>
     (op_Status op = ''failed'' \<longrightarrow> op_Effect op = ''none'' \<or> op_Effect op = ''partial'') \<and>
     (op_Status op = ''reconciling'' \<longrightarrow> op_Effect op = ''unknown'')"

definition operation_detail :: "Operation \<Rightarrow> obj \<Rightarrow> bool" where
  "operation_detail op kvs \<longleftrightarrow>
     (case op_Error op of
        None \<Rightarrow> op_Status op \<noteq> ''failed''
      | Some e \<Rightarrow> op_Status op \<in> set [''failed'', ''reconciling''] \<and>
          requireNestedObjectKeys [''code'', ''message''] (map_of kvs ''error'') \<and> oe_Code e \<noteq> [] \<and> oe_Message e \<noteq> []) \<and>
     (if op_Status op = ''waiting_input'' then
        (case op_InputRequired op of None \<Rightarrow> False
         | Some i \<Rightarrow> (case in_Names i of None \<Rightarrow> False | Some ns \<Rightarrow> ns \<noteq> []) \<and>
             in_Reason i \<in> set [''expired'', ''unavailable'']) \<and>
        requireNestedObjectKeys [''names'', ''reason''] (map_of kvs ''inputRequired'') \<and>
        validateInputRequiredNames (map_of kvs ''inputRequired'')
      else op_InputRequired op = None) \<and>
     map_of kvs ''error'' \<noteq> Some JNull \<and> map_of kvs ''inputRequired'' \<noteq> Some JNull"

definition decodeOperation :: "bytes \<Rightarrow> Operation option" where
  "decodeOperation data =
     (case decode data of
        Inr (JObj kvs) \<Rightarrow>
          (case required_tree operation_fields zero_operation [] operation_required (JObj kvs) of None \<Rightarrow> None
           | Some op \<Rightarrow> if operation_identity op \<and> operation_states op \<and> operation_detail op kvs then Some op else None)
      | _ \<Rightarrow> None)"

definition decodeResource :: "bytes \<Rightarrow> Resource option" where
  "decodeResource data =
     (case decodeRequiredNullable resource_fields zero_resource [''observedAt''] resource_required data of None \<Rightarrow> None
      | Some r \<Rightarrow> if validateOptionalObject [''offering''] data then Some r else None)"

definition page_resource :: "json \<Rightarrow> Resource option" where
  "page_resource v =
     (case required_tree resource_fields zero_resource [''observedAt''] resource_required v of None \<Rightarrow> None
      | Some r \<Rightarrow> if validateResource r \<and> optional_tree [''offering''] v then Some r else None)"

definition raw_items :: "json \<Rightarrow> json list option" where
  "raw_items v =
     (case lax_struct [field ''items'' id (\<lambda>f. f) (dec_slice (\<lambda>_ x. Some x) JNull)] None v of
        Some (Some xs) \<Rightarrow> Some xs | Some None \<Rightarrow> Some [] | None \<Rightarrow> None)"

definition decode_page :: "'a dec \<Rightarrow> 'a \<Rightarrow> bytes \<Rightarrow> ('a Page \<times> json list) option" where
  "decode_page d zero data =
     (case decodeRequiredNullable (page_fields d zero) \<lparr>pg_Items = None, pg_NextCursor = None\<rparr> [''nextCursor'']
         [''items'', ''nextCursor''] data of None \<Rightarrow> None
      | Some page \<Rightarrow>
          (case (pg_Items page, decode data) of
             (Some items, Inr v) \<Rightarrow>
               (case raw_items v of None \<Rightarrow> None
                | Some raws \<Rightarrow> if length raws = length items then Some (page, raws) else None)
           | _ \<Rightarrow> None))"

definition decodeResourcePage :: "bytes \<Rightarrow> Resource Page option" where
  "decodeResourcePage data =
     (case decode_page (lax_struct resource_fields) zero_resource data of None \<Rightarrow> None
      | Some (page, raws) \<Rightarrow>
          map_option (\<lambda>rs. page\<lparr>pg_Items := Some rs\<rparr>) (opt_list page_resource raws))"

definition page_offering :: "string \<Rightarrow> Offering \<Rightarrow> json \<Rightarrow> bool" where
  "page_offering form off raw \<longleftrightarrow> idPattern (of_ID off) \<and> of_Revision off \<noteq> [] \<and> of_Form off = form \<and>
     (case required_tree offering_fields off [] [''id'', ''revision'', ''form'', ''label'', ''description''] raw of None \<Rightarrow> False
      | Some o2 \<Rightarrow> optional_tree [''termsUrl''] raw \<and> (of_TermsURL o2 \<noteq> [] \<longrightarrow> validHTTPSURL (of_TermsURL o2)))"

definition decodeOfferingPage :: "string \<Rightarrow> bytes \<Rightarrow> Offering Page option" where
  "decodeOfferingPage form data =
     (case decode_page (lax_struct offering_fields) zero_offering data of None \<Rightarrow> None
      | Some (page, raws) \<Rightarrow>
          if list_all (\<lambda>(off, raw). page_offering form off raw) (zip (the (pg_Items page)) raws) then Some page else None)"

end
