(* ===== verification/GoHttp.thy ===== *)
theory GoHttp
  imports GoStruct GoUrl "HOL-Library.Code_Target_Numeral"
begin

text \<open>
  What the Host API client uses of \<open>net/http\<close>, \<open>net/url\<close> and \<open>mime\<close> beyond parsing a URL:
  printing one, query strings, header lookup and \<open>mime.ParseMediaType\<close>.
\<close>

subsection \<open>Printing URLs\<close>

definition hex_upper :: "nat \<Rightarrow> char" where
  "hex_upper n = (if n < 10 then char_of (48 + n) else char_of (55 + n))"

definition percent :: "char \<Rightarrow> string" where
  "percent c = [CHR ''%'', hex_upper (byte c div 16), hex_upper (byte c mod 16)]"

definition unreserved :: "char \<Rightarrow> bool" where
  "unreserved c \<longleftrightarrow> is_alnum c \<or> c \<in> set ''-_.~''"

text \<open>\<open>escape\<close> in the modes \<open>encodeHost\<close>, \<open>encodePath\<close> and \<open>encodeQueryComponent\<close>.\<close>

definition escape_host :: "string \<Rightarrow> string" where
  "escape_host s = concat (map (\<lambda>c. if host_plain c then [c] else percent c) s)"

definition path_plain :: "char \<Rightarrow> bool" where
  "path_plain c \<longleftrightarrow> unreserved c \<or> c \<in> set ''$&+,/:;=@''"

definition escape_path :: "string \<Rightarrow> string" where
  "escape_path s = concat (map (\<lambda>c. if path_plain c then [c] else percent c) s)"

definition query_escape :: "string \<Rightarrow> string" where
  "query_escape s =
     concat (map (\<lambda>c. if unreserved c then [c] else if c = CHR '' '' then ''+'' else percent c) s)"

definition valid_encoded :: "string \<Rightarrow> bool" where
  "valid_encoded s = list_all (\<lambda>c. path_plain c \<or> c \<in> set ''!()*[]%'' \<or> byte c = 39) s"

definition escaped_path :: "go_url \<Rightarrow> string" where
  "escaped_path u =
     (if url_raw u \<noteq> [] \<and> valid_encoded (url_raw u) then url_raw u
      else if url_path u = ''*'' then ''*'' else escape_path (url_path u))"

text \<open>\<open>URL.String\<close> for a URL with a scheme and without userinfo, opaque part and fragment.\<close>

definition url_string :: "go_url \<Rightarrow> string" where
  "url_string u =
     url_scheme u @ '':'' @ (if url_host u \<noteq> [] \<or> url_path u \<noteq> [] then ''//'' else []) @ escape_host (url_host u) @
     (let p = escaped_path u in if p \<noteq> [] \<and> hd p \<noteq> CHR ''/'' \<and> url_host u \<noteq> [] then CHR ''/'' # p else p) @
     (if url_force_query u \<or> url_query u \<noteq> [] then CHR ''?'' # url_query u else [])"

subsection \<open>Query values\<close>

type_synonym url_values = "(string \<times> string) list"

definition values_set :: "string \<Rightarrow> string \<Rightarrow> url_values \<Rightarrow> url_values" where
  "values_set k v q = filter (\<lambda>(k', _). k' \<noteq> k) q @ [(k, v)]"

fun join_amp :: "string list \<Rightarrow> string" where
  "join_amp [] = []"
| "join_amp [x] = x"
| "join_amp (x # y # xs) = x @ ''&'' @ join_amp (y # xs)"

definition values_encode :: "url_values \<Rightarrow> string" where
  "values_encode q = join_amp (map (\<lambda>(k, v). query_escape k @ ''='' @ query_escape v) (sort_key fst q))"

subsection \<open>Headers\<close>

type_synonym http_header = "(string \<times> string) list"

text \<open>\<open>Header.Get\<close> with a canonical name: the first value, or the empty string.\<close>

definition header_get :: "http_header \<Rightarrow> string \<Rightarrow> string" where
  "header_get h k = (case map_of h k of None \<Rightarrow> [] | Some v \<Rightarrow> v)"

subsection \<open>Media types\<close>

text \<open>
  \<open>strings.ToLower\<close> up to what a token check sees: ASCII letters, and the two other runes whose
  lower case is ASCII, U+0130 and U+212A.
\<close>

definition lower_rune :: "nat \<times> string \<Rightarrow> string" where
  "lower_rune = (\<lambda>(r, bs). if r = 304 then ''i'' else if r = 8490 then ''k'' else map to_lower_byte bs)"

definition lower_text :: "string \<Rightarrow> string" where
  "lower_text s = concat (map lower_rune (runes s))"

definition trim_left_space :: "string \<Rightarrow> string" where
  "trim_left_space s = concat (map snd (dropWhile (\<lambda>(r, _). is_space_rune r) (runes s)))"

definition is_tspecial :: "char \<Rightarrow> bool" where
  "is_tspecial c \<longleftrightarrow> c \<in> set ''()<>@,;:/[]?='' \<or> byte c = 92 \<or> byte c = 34"

definition is_token_char :: "char \<Rightarrow> bool" where
  "is_token_char c \<longleftrightarrow> 32 < byte c \<and> byte c < 127 \<and> \<not> is_tspecial c"

definition consume_token :: "string \<Rightarrow> string \<times> string" where
  "consume_token v = (takeWhile is_token_char v, dropWhile is_token_char v)"

text \<open>The inside of a quoted string: \<open>None\<close> when it does not end.\<close>

fun quoted_value :: "string \<Rightarrow> (string \<times> string) option" where
  "quoted_value [] = None"
| "quoted_value (c # cs) =
     (if byte c = 34 then Some ([], cs)
      else if byte c = 92 \<and> cs \<noteq> [] \<and> is_tspecial (hd cs) then
        map_option (\<lambda>(v, r). (hd cs # v, r)) (quoted_value (tl cs))
      else if byte c = 13 \<or> byte c = 10 then None
      else map_option (\<lambda>(v, r). (c # v, r)) (quoted_value cs))"

definition consume_media_value :: "string \<Rightarrow> string \<times> string" where
  "consume_media_value v =
     (case v of [] \<Rightarrow> ([], [])
      | c # cs \<Rightarrow> if byte c \<noteq> 34 then consume_token v
          else (case quoted_value cs of None \<Rightarrow> ([], v) | Some r \<Rightarrow> r))"

definition consume_media_param :: "string \<Rightarrow> (string \<times> string \<times> string) option" where
  "consume_media_param v =
     (case trim_left_space v of
        c # r1 \<Rightarrow>
          if c \<noteq> CHR '';'' then None
          else let (param, r2) = consume_token (trim_left_space r1) in
            if param = [] then None
            else (case trim_left_space r2 of
                e # r3 \<Rightarrow>
                  if e \<noteq> CHR ''='' then None
                  else let r4 = trim_left_space r3; (val, r5) = consume_media_value r4 in
                    if val = [] \<and> r5 = r4 then None else Some (lower_text param, val, r5)
              | [] \<Rightarrow> None)
      | [] \<Rightarrow> None)"

definition check_media_type :: "string \<Rightarrow> bool" where
  "check_media_type s =
     (let (typ, rest) = consume_token s in
      typ \<noteq> [] \<and>
      (case rest of [] \<Rightarrow> True
       | c # r \<Rightarrow> c = CHR ''/'' \<and> (let (subtype, rest2) = consume_token r in subtype \<noteq> [] \<and> rest2 = [])))"

lemma length_concat_runes: "length (concat (map snd (dropWhile P (runes s)))) \<le> length s"
proof -
  note concat_runes [of s]
  then have "length s = length (concat (map snd (takeWhile P (runes s) @ dropWhile P (runes s))))" by simp
  then show ?thesis by (simp del: takeWhile_dropWhile_id)
qed

lemma length_trim_left_space: "length (trim_left_space s) \<le> length s"
  unfolding trim_left_space_def by (rule length_concat_runes)

lemma quoted_value_length: "quoted_value s = Some (v, r) \<Longrightarrow> length r < length s"
proof (induction s arbitrary: v r rule: quoted_value.induct)
  case (2 c cs)
  then show ?case by (cases cs) (fastforce split: if_splits)+
qed simp

lemma consume_media_value_length: "consume_media_value s = (v, r) \<Longrightarrow> length r \<le> length s"
  by (auto simp: consume_media_value_def consume_token_def length_dropWhile_le le_SucI
      dest: quoted_value_length split: list.splits if_splits option.splits)

lemma consume_media_param_length:
  assumes "consume_media_param v = Some (p, x, r)"
  shows "length r < length v"
proof -
  from assms obtain c r1 e r3 where a: "trim_left_space v = c # r1"
    "trim_left_space (snd (consume_token (trim_left_space r1))) = e # r3"
    "snd (consume_media_value (trim_left_space r3)) = r"
    by (auto simp: consume_media_param_def Let_def split: list.splits if_splits prod.splits)
  have "length r \<le> length (trim_left_space r3)"
    using consume_media_value_length [of "trim_left_space r3" _ r] a(3) by (metis prod.collapse)
  also have "\<dots> \<le> length r3" by (rule length_trim_left_space)
  also have "\<dots> < length (trim_left_space (snd (consume_token (trim_left_space r1))))" using a(2) by simp
  also have "\<dots> \<le> length r1"
    by (rule order.trans [OF length_trim_left_space])
       (simp add: consume_token_def order.trans [OF length_dropWhile_le length_trim_left_space])
  also have "\<dots> \<le> length (trim_left_space v)" using a(1) by simp
  also have "\<dots> \<le> length v" by (rule length_trim_left_space)
  finally show ?thesis .
qed

lemma media_params_step:
  "trim_left_space v = c # w \<Longrightarrow> consume_media_param (c # w) = Some (k, x, r) \<Longrightarrow> length r < length v"
  using consume_media_param_length [of "c # w" k x r] length_trim_left_space [of v] by simp

text \<open>The parameters: \<open>False\<close> for a malformed one or a name with two values.\<close>

function media_params :: "(string \<times> string) list \<Rightarrow> string \<Rightarrow> bool" where
  "media_params seen v =
     (case trim_left_space v of [] \<Rightarrow> True
      | w \<Rightarrow>
          (case consume_media_param w of
             None \<Rightarrow> trim_space w = '';''
           | Some (key, val, rest) \<Rightarrow>
               (case map_of seen key of
                  Some val' \<Rightarrow> if val' \<noteq> val then False else media_params seen rest
                | None \<Rightarrow> media_params ((key, val) # seen) rest)))"
  by pat_completeness auto

termination
  by (relation "measure (length \<circ> snd)") (auto dest: media_params_step)

definition ParseMediaType :: "string \<Rightarrow> string option" where
  "ParseMediaType v =
     (let base = takeWhile (\<lambda>c. c \<noteq> CHR '';'') v; mediatype = trim_space (lower_text base) in
      if \<not> check_media_type mediatype then None
      else if media_params [] (drop (length base) v) then Some mediatype else None)"

lemma media_type_examples:
  "ParseMediaType ''application/problem+json'' = Some ''application/problem+json''"
  "ParseMediaType ''Application/Problem+JSON; charset=utf-8;'' = Some ''application/problem+json''"
  "ParseMediaType ''application/problem+json; charset'' = None"
  "ParseMediaType ''application/problem+json extra'' = None"
  by code_simp+

lemma url_string_example:
  "(case url_parse ''https://h.example/api%2Fv2/support'' of
      Some u \<Rightarrow> url_string (u\<lparr>url_query := values_encode (values_set ''form'' ''https://f/x y'' [])\<rparr>) | None \<Rightarrow> [])
   = ''https://h.example/api%2Fv2/support?form=https%3A%2F%2Ff%2Fx+y''"
  by code_simp

end
