(* ===== verification/HostClient.thy ===== *)
theory HostClient
  imports HostTypes GoHttp
begin

text \<open>
  The Host API client, \<open>hostv2/client.go\<close>. The network is a parameter: \<open>net\<close> takes the state
  of everything outside the process and a request, and gives a response, or none when
  \<open>http.Client.Do\<close> fails, and the state after it; redirects are not followed. Every request
  handed to it is appended to \<open>hw_log\<close>, which other parts of the Provider share for their own
  events. Methods run one after the other, so the mutexes have nothing to do. Error values keep
  the distinction the callers make; the text of a validation error is its summary.
\<close>

subsection \<open>State\<close>

record Client =
  cl_endpoint :: string
  cl_token :: string
  cl_discovery :: Discovery
  cl_baseURL :: string
  cl_discovered :: bool

definition New :: "string \<Rightarrow> string \<Rightarrow> Client" where
  "New endpoint token = \<lparr>cl_endpoint = endpoint, cl_token = token, cl_discovery = zero_discovery,
     cl_baseURL = [], cl_discovered = False\<rparr>"

record http_request =
  rq_method :: string
  rq_url :: string
  rq_header :: http_header
  rq_body :: "bytes option"
  rq_NoBody :: bool
  rq_GetBody :: bool

text \<open>
  \<open>http.NewRequestWithContext\<close>: over a \<open>bytes.Reader\<close> it sets \<open>GetBody\<close>, and an empty one it
  replaces by \<open>http.NoBody\<close>; any other reader it can only read once.
\<close>

datatype body_reader = BytesReader bytes | oneShotEmptyReader

definition NewRequest :: "string \<Rightarrow> string \<Rightarrow> body_reader \<Rightarrow> http_request" where
  "NewRequest method target reader =
     \<lparr>rq_method = method, rq_url = target, rq_header = [],
      rq_body = (case reader of BytesReader b \<Rightarrow> Some b | oneShotEmptyReader \<Rightarrow> None),
      rq_NoBody = (reader = BytesReader []), rq_GetBody = (reader \<noteq> oneShotEmptyReader)\<rparr>"

text \<open>
  When \<open>http.Transport\<close> may send a request again by itself after a failed connection: it can
  produce the body again, and the method or an idempotency key says that repeating is harmless.
\<close>

definition replayable :: "http_request \<Rightarrow> bool" where
  "replayable rq \<longleftrightarrow> (rq_NoBody rq \<or> rq_GetBody rq) \<and>
     (rq_method rq \<in> {''GET'', ''HEAD'', ''OPTIONS'', ''TRACE''} \<or>
      (\<exists>(k, _)\<in>set (rq_header rq). k = ''Idempotency-Key'' \<or> k = ''X-Idempotency-Key''))"

text \<open>What comes back; the body is \<open>None\<close> when reading it fails.\<close>

record http_reply =
  ry_status :: nat
  ry_header :: http_header
  ry_body :: "bytes option"

record httpResponse =
  hr_status :: nat
  hr_header :: http_header
  hr_body :: bytes

type_synonym 'n network = "'n \<Rightarrow> http_request \<Rightarrow> http_reply option \<times> 'n"

datatype 'j event = Sent http_request | Did 'j

record ('n, 'j) hworld =
  hw_client :: Client
  hw_net :: 'n
  hw_log :: "'j event list"

type_synonym ('n, 'j, 'm, 'a) host = "(('n, 'j, 'm) hworld_scheme, host_error, 'a) st"

abbreviation fail :: "string \<Rightarrow> ('w, host_error, 'a) st" where
  "fail msg \<equiv> raise (HostError msg)"

subsection \<open>One exchange\<close>

definition request_headers :: "Client \<Rightarrow> bytes option \<Rightarrow> bool \<Rightarrow> http_header \<Rightarrow> http_header" where
  "request_headers c body authenticated headers =
     [(''Accept'', ''application/json, application/problem+json'')] @
     (if body \<noteq> None then [(''Content-Type'', ''application/json'')] else []) @
     (if authenticated \<and> cl_token c \<noteq> [] then [(''Authorization'', ''Bearer '' @ cl_token c)] else []) @ headers"

definition read_reply :: "nat \<Rightarrow> http_reply option \<Rightarrow> host_error + httpResponse" where
  "read_reply limit r =
     (let limit' = (if limit = 0 \<or> maxResponseBytes < limit then maxResponseBytes else limit) in
      case r of None \<Rightarrow> Inl (HostError ''HTTP request failed'')
      | Some y \<Rightarrow>
          (case ry_body y of None \<Rightarrow> Inl (HostError ''response body unavailable or too large'')
           | Some data \<Rightarrow>
               if limit' < length data then Inl (HostError ''response body unavailable or too large'')
               else Inr \<lparr>hr_status = ry_status y, hr_header = ry_header y, hr_body = data\<rparr>))"

definition doWithHeaders ::
  "'n network \<Rightarrow> string \<Rightarrow> string \<Rightarrow> bytes option \<Rightarrow> bool \<Rightarrow> nat \<Rightarrow> http_header \<Rightarrow> ('n, 'j, 'm, httpResponse) host" where
  "doWithHeaders net method target body authenticated limit headers w =
     (case url_parse target of None \<Rightarrow> fail ''invalid request target'' w
      | Some _ \<Rightarrow>
          let requestBody = (case body of None \<Rightarrow> oneShotEmptyReader | Some b \<Rightarrow> BytesReader b);
              request = (NewRequest method target requestBody)\<lparr>rq_GetBody := False,
                rq_header := request_headers (hw_client w) body authenticated headers\<rparr>;
              (reply, n) = net (hw_net w) request
          in (read_reply limit reply, w\<lparr>hw_net := n, hw_log := hw_log w @ [Sent request]\<rparr>))"

definition do_request ::
  "'n network \<Rightarrow> string \<Rightarrow> string \<Rightarrow> bytes option \<Rightarrow> bool \<Rightarrow> nat \<Rightarrow> ('n, 'j, 'm, httpResponse) host" where
  "do_request net method target body authenticated limit =
     doWithHeaders net method target body authenticated limit []"

subsection \<open>Problem responses\<close>

definition validProblemCode :: "nat \<Rightarrow> string \<Rightarrow> bool" where
  "validProblemCode status code =
     (if status = 400 then code = ''invalid_request''
      else if status = 401 then code = ''unauthenticated''
      else if status = 403 then code = ''forbidden''
      else if status = 404 then code = ''not_found'' \<or> code = ''capability_unavailable''
      else if status = 405 then code = ''method_not_allowed''
      else if status = 409 then code \<in> set [''name_conflict'', ''generation_conflict'', ''resource_busy'',
        ''idempotency_conflict'', ''offering_changed'', ''dependency_conflict'', ''private_inputs_conflict'',
        ''private_inputs_unverifiable'', ''operation_terminal'', ''cursor_expired'']
      else if status = 410 then code = ''gone''
      else if status = 413 then code = ''request_too_large''
      else if status = 415 then code = ''unsupported_media_type''
      else if status = 422 then code = ''unsupported_form'' \<or> code = ''invalid_spec'' \<or> code = ''capability_required''
      else if status = 428 then code = ''expected_generation_required''
      else if status = 429 then code = ''rate_limited''
      else if status = 503 then code = ''temporarily_unavailable''
      else if status = 500 then code = ''internal_error''
      else False)"

record problem =
  pr_Type :: string
  pr_Title :: string
  pr_Status :: int
  pr_Code :: string
  pr_OperationID :: "string option"

definition problem_fields :: "problem fields" where
  "problem_fields =
     [field ''type'' pr_Type pr_Type_update dec_string, field ''title'' pr_Title pr_Title_update dec_string,
      field ''status'' pr_Status pr_Status_update dec_int64, field ''code'' pr_Code pr_Code_update dec_string,
      field ''operationId'' pr_OperationID pr_OperationID_update (dec_pointer dec_string [])]"

definition zero_problem :: problem where
  "zero_problem = \<lparr>pr_Type = [], pr_Title = [], pr_Status = 0, pr_Code = [], pr_OperationID = None\<rparr>"

definition validProblemError :: "httpResponse \<Rightarrow> host_error option" where
  "validProblemError r =
     (if ParseMediaType (header_get (hr_header r) ''Content-Type'') \<noteq> Some ''application/problem+json'' then None
      else case decodeRequired problem_fields zero_problem [''type'', ''title'', ''status'', ''code''] (hr_body r) of
        None \<Rightarrow> None
      | Some p \<Rightarrow>
          if pr_Type p \<noteq> ''about:blank'' \<or> pr_Title p = [] \<or> pr_Status p \<noteq> int (hr_status r) then None
          else if \<not> validateOptionalObject [''operationId''] (hr_body r) then None
          else if (case pr_OperationID p of None \<Rightarrow> False | Some i \<Rightarrow> \<not> idPattern i) then None
          else if \<not> validProblemCode (hr_status r) (pr_Code p) then None
          else Some (APIError (hr_status r) (pr_Code p) (header_get (hr_header r) ''Retry-After'')
                 (case pr_OperationID p of None \<Rightarrow> [] | Some i \<Rightarrow> i)))"

definition apiError :: "httpResponse \<Rightarrow> host_error" where
  "apiError r =
     (case validProblemError r of Some e \<Rightarrow> e
      | None \<Rightarrow> APIError (hr_status r) [] (header_get (hr_header r) ''Retry-After'') [])"

subsection \<open>Discovery\<close>

definition endpointOrigin :: "string \<Rightarrow> string option" where
  "endpointOrigin endpoint =
     (case url_parse endpoint of None \<Rightarrow> None
      | Some u \<Rightarrow>
          if \<not> is_abs u \<or> url_scheme u \<noteq> ''https'' \<or> url_host u = [] \<or> url_user u \<or>
             (url_path u \<noteq> [] \<and> url_path u \<noteq> ''/'') \<or> url_query u \<noteq> [] \<or> url_fragment u \<noteq> []
          then None else Some (''https://'' @ url_host u))"

definition nested_discovery :: "bytes \<Rightarrow> bool" where
  "nested_discovery data =
     (case decode data of Inl _ \<Rightarrow> False
      | Inr v \<Rightarrow>
          (case raw_members v of None \<Rightarrow> False
           | Some kvs \<Rightarrow>
               requireNestedObjectKeys [''schemes'', ''documentation''] (map_of kvs ''authentication'') \<and>
               requireNestedObjectKeys [''offerings'', ''previews'', ''privateInputs''] (map_of kvs ''capabilities'') \<and>
               requireNestedObjectKeys [''maxRequestBytes'', ''maxPageSize'', ''replayWindowSeconds''] (map_of kvs ''limits'')))"

definition decode_discovery :: "string \<Rightarrow> bytes \<Rightarrow> host_error + Discovery" where
  "decode_discovery origin data =
     (case decodeRequired discovery_fields zero_discovery
         [''api'', ''baseUrl'', ''documentation'', ''authentication'', ''capabilities'', ''limits''] data of
        None \<Rightarrow> Inl (HostError ''malformed discovery document'')
      | Some d \<Rightarrow>
          if \<not> nested_discovery data then Inl (HostError ''malformed nested discovery fields'')
          else if \<not> validateDiscovery d origin then Inl (HostError ''invalid discovery'') else Inr d)"

definition set_discovery :: "Discovery \<Rightarrow> string \<Rightarrow> bool \<Rightarrow> ('n, 'j, 'm, unit) host" where
  "set_discovery d base done w =
     (Inr (), w\<lparr>hw_client := (hw_client w)\<lparr>cl_discovery := d, cl_baseURL := base, cl_discovered := done\<rparr>\<rparr>)"

definition Discover :: "'n network \<Rightarrow> ('n, 'j, 'm, Discovery) host" where
  "Discover net = andThen (set_discovery zero_discovery [] False) (\<lambda>_ w.
     (case endpointOrigin (cl_endpoint (hw_client w)) of None \<Rightarrow> fail ''endpoint must be an HTTPS origin''
      | Some origin \<Rightarrow>
          andThen (do_request net ''GET'' (origin @ DiscoveryPath) None False maxResponseBytes) (\<lambda>r.
          if hr_status r \<noteq> 200 then raise (apiError r)
          else andThen (lift_result (decode_discovery origin (hr_body r))) (\<lambda>d.
               andThen (set_discovery d (di_BaseURL d) True) (\<lambda>_. ret d)))) w)"

definition apiBase :: "Client \<Rightarrow> host_error + string \<times> Discovery" where
  "apiBase c =
     (if \<not> cl_discovered c then Inl (HostError ''Discover must succeed before API requests'')
      else if \<not> list_ex (\<lambda>s. equal_fold s ''Bearer'') (au_Schemes (di_Authentication (cl_discovery c))) \<or> cl_token c = []
      then Inl (HostError ''API access requires an advertised Bearer scheme and configured credential'')
      else Inr (cl_baseURL c, cl_discovery c))"

definition api_base :: "('n, 'j, 'm, string \<times> Discovery) host" where
  "api_base w = lift_result (apiBase (hw_client w)) w"

text \<open>
  \<open>u, _ := url.Parse(base + path); u.RawQuery = query; u.String()\<close>. The base was accepted by
  \<open>validateDiscovery\<close>; on one that does not parse the code would dereference nil.
\<close>

definition query_target :: "string \<Rightarrow> string \<Rightarrow> url_values \<Rightarrow> host_error + string" where
  "query_target base path query =
     (case url_parse (base @ path) of None \<Rightarrow> Inl HostPanic
      | Some u \<Rightarrow> Inr (url_string (u\<lparr>url_query := values_encode query\<rparr>)))"

text \<open>An authenticated GET of an API path: the body of a 200 response.\<close>

definition get_body :: "'n network \<Rightarrow> string \<Rightarrow> ('n, 'j, 'm, bytes) host" where
  "get_body net target =
     andThen (do_request net ''GET'' target None True maxResponseBytes) (\<lambda>r.
     if hr_status r \<noteq> 200 then raise (apiError r) else ret (hr_body r))"

definition decode_support :: "string \<Rightarrow> bytes \<Rightarrow> host_error + Support" where
  "decode_support form data =
     (case decodeRequired support_fields zero_support [''form'', ''supported'', ''operations'', ''privateInputs''] data of
        None \<Rightarrow> Inl (HostError ''malformed Form support response'')
      | Some s \<Rightarrow>
          if su_Form s \<noteq> form then Inl (HostError ''malformed Form support response'')
          else if \<not> validateSupport s then Inl (HostError ''invalid Form support'') else Inr s)"

definition GetSupport :: "'n network \<Rightarrow> string \<Rightarrow> ('n, 'j, 'm, Support) host" where
  "GetSupport net form =
     (if \<not> validateFormURL form then fail ''Form identity must be an exact absolute HTTPS URL''
      else andThen api_base (\<lambda>(base, _).
           andThen (lift_result (query_target base ''/support'' (values_set ''form'' form []))) (\<lambda>target.
           andThen (get_body net target) (\<lambda>data. lift_result (decode_support form data)))))"

definition pageQuery :: "PageOptions \<Rightarrow> int \<Rightarrow> host_error + url_values" where
  "pageQuery options maxPageSize =
     (if po_Limit options < 0 \<or> maxPageSize < po_Limit options then Inl (HostError ''page limit exceeds Host limit'')
      else Inr ((if po_Cursor options \<noteq> [] then values_set ''cursor'' (po_Cursor options) else (\<lambda>q. q))
             ((if 0 < po_Limit options then values_set ''limit'' (format_int (po_Limit options)) else (\<lambda>q. q)) [])))"

definition ListOfferings :: "'n network \<Rightarrow> string \<Rightarrow> string \<Rightarrow> PageOptions \<Rightarrow> ('n, 'j, 'm, Offering Page) host" where
  "ListOfferings net form space options =
     (if \<not> validateFormURL form then fail ''Form identity must be an exact absolute HTTPS URL''
      else if \<not> idPattern space then fail ''invalid Space id''
      else andThen api_base (\<lambda>(base, discovery).
           if \<not> cp_Offerings (di_Capabilities discovery) then fail ''Offerings are not advertised''
           else andThen (lift_result (pageQuery options (lm_MaxPageSize (di_Limits discovery)))) (\<lambda>query.
                andThen (lift_result (query_target base ''/offerings''
                   (values_set ''space'' space (values_set ''form'' form query)))) (\<lambda>target.
                andThen (get_body net target) (\<lambda>data.
                  case decodeOfferingPage form data of None \<Rightarrow> fail ''malformed Offering page'' | Some p \<Rightarrow> ret p)))))"

definition set_filter :: "string \<Rightarrow> string \<Rightarrow> url_values \<Rightarrow> url_values" where
  "set_filter k v q = (if v \<noteq> [] then values_set k v q else q)"

definition ListResources :: "'n network \<Rightarrow> ResourceFilters \<Rightarrow> PageOptions \<Rightarrow> ('n, 'j, 'm, Resource Page) host" where
  "ListResources net filters options =
     (if rf_Space filters \<noteq> [] \<and> \<not> idPattern (rf_Space filters) \<or> rf_Name filters \<noteq> [] \<and> \<not> idPattern (rf_Name filters)
      then fail ''invalid Resource list filter''
      else if rf_Form filters \<noteq> [] \<and> \<not> validateFormURL (rf_Form filters)
      then fail ''Form identity must be an exact absolute HTTPS URL''
      else andThen api_base (\<lambda>(base, discovery).
           andThen (lift_result (pageQuery options (lm_MaxPageSize (di_Limits discovery)))) (\<lambda>query.
           andThen (lift_result (query_target base ''/resources''
             (set_filter ''form'' (rf_Form filters) (set_filter ''name'' (rf_Name filters)
               (set_filter ''space'' (rf_Space filters) query))))) (\<lambda>target.
           andThen (get_body net target) (\<lambda>data.
             case decodeResourcePage data of None \<Rightarrow> fail ''malformed Resource page'' | Some p \<Rightarrow> ret p)))))"

definition ReadResource :: "'n network \<Rightarrow> string \<Rightarrow> ('n, 'j, 'm, Resource) host" where
  "ReadResource net uid =
     (if \<not> idPattern uid then fail ''invalid Resource UID''
      else andThen api_base (\<lambda>(base, _).
           andThen (get_body net (base @ ''/resources/'' @ uid)) (\<lambda>data.
             case decodeResource data of None \<Rightarrow> fail ''malformed Resource response''
             | Some r \<Rightarrow>
                 if re_UID r \<noteq> uid then fail ''malformed Resource response''
                 else if \<not> validateResource r then fail ''invalid Resource fields'' else ret r)))"

definition ReadOperation :: "'n network \<Rightarrow> string \<Rightarrow> ('n, 'j, 'm, Operation) host" where
  "ReadOperation net i =
     (if \<not> idPattern i then fail ''invalid Operation id''
      else andThen api_base (\<lambda>(base, _).
           andThen (get_body net (base @ ''/operations/'' @ i)) (\<lambda>data.
             case decodeOperation data of None \<Rightarrow> fail ''malformed Operation response''
             | Some op \<Rightarrow> if op_ID op \<noteq> i then fail ''malformed Operation response'' else ret op)))"

subsection \<open>Mutations\<close>

definition validateIdempotencyKey :: "string \<Rightarrow> bool" where
  "validateIdempotencyKey key = idempotencyPattern key"

definition enc_inputs :: "(string \<times> string) list option \<Rightarrow> goval" where
  "enc_inputs m = GMap (map_option (map (\<lambda>(k, v). (k, GString v))) m)"

definition enc_spec :: "obj option \<Rightarrow> goval" where
  "enc_spec m = GMap (map_option (map (\<lambda>(k, v). (k, go_any v))) m)"

definition enc_selection :: "OfferingSelection \<Rightarrow> goval" where
  "enc_selection s = GStruct [(''id'', False, GString (os_ID s)), (''revision'', False, GString (os_Revision s))]"

definition enc_create :: "CreateRequest \<Rightarrow> goval" where
  "enc_create c = GStruct
     [(''form'', False, GString (cq_Form c)), (''space'', False, GString (cq_Space c)),
      (''name'', False, GString (cq_Name c)), (''offering'', True, GIface (map_option enc_selection (cq_Offering c))),
      (''spec'', False, enc_spec (cq_Spec c)), (''privateInputs'', True, GIface (map_option enc_inputs (cq_PrivateInputs c)))]"

definition enc_update :: "UpdateRequest \<Rightarrow> goval" where
  "enc_update u = GStruct [(''spec'', False, enc_spec (uq_Spec u)),
     (''privateInputs'', True, GIface (map_option enc_inputs (uq_PrivateInputs u)))]"

definition marshalRequest :: "goval \<Rightarrow> host_error + bytes" where
  "marshalRequest v = (case marshal v of Inl _ \<Rightarrow> Inl (HostError ''request is not valid JSON'') | Inr b \<Rightarrow> Inr b)"

text \<open>\<open>jsonv2.ValidateValue\<close> and \<open>marshalRequest\<close>, in this order.\<close>

definition checked_body :: "goval \<Rightarrow> host_error + bytes" where
  "checked_body v = (if \<not> ok (validate_value v) then Inl (HostError ''invalid Unicode'') else marshalRequest v)"

definition validateOperationLocation :: "Client \<Rightarrow> string \<Rightarrow> string \<Rightarrow> host_error + unit" where
  "validateOperationLocation c raw operationID =
     (case apiBase c of Inl e \<Rightarrow> Inl e
      | Inr (base, _) \<Rightarrow>
          (case url_parse raw of None \<Rightarrow> Inl (HostError ''invalid Operation Location'')
           | Some l \<Rightarrow>
               if \<not> is_abs l then Inl (HostError ''invalid Operation Location'')
               else (case url_parse base of None \<Rightarrow> Inl HostPanic
                 | Some b \<Rightarrow>
                     if \<not> sameOriginURL l b \<or> url_user l \<or> url_query l \<noteq> [] \<or> url_fragment l \<noteq> [] \<or>
                        url_path l \<noteq> trim_right_byte (CHR ''/'') (url_path b) @ ''/operations/'' @ operationID
                     then Inl (HostError ''invalid Operation Location'') else Inr ())))"

text \<open>What a mutation's response means.\<close>

definition accept_response ::
  "Client \<Rightarrow> string \<Rightarrow> string \<Rightarrow> int \<Rightarrow> httpResponse \<Rightarrow> host_error + Operation" where
  "accept_response c action expectedUID acceptedGeneration r =
     (if hr_status r \<noteq> 200 \<and> hr_status r \<noteq> 202 then
        (if hr_status r < 400 \<or> 500 \<le> hr_status r then Inl (IndeterminateError action)
         else case validProblemError r of None \<Rightarrow> Inl (IndeterminateError action) | Some e \<Rightarrow> Inl e)
      else case decodeOperation (hr_body r) of None \<Rightarrow> Inl (IndeterminateError action)
      | Some op \<Rightarrow>
          if op_Action op \<noteq> action \<or> op_ResourceUID op = [] \<or> expectedUID \<noteq> [] \<and> op_ResourceUID op \<noteq> expectedUID \<or>
             op_Generation op \<noteq> acceptedGeneration
          then Inl (IndeterminateError action)
          else
            let retry = parse_int64 (header_get (hr_header r) ''Retry-After'') in
            if hr_status r = 202 \<and> (case retry of None \<Rightarrow> True | Some n \<Rightarrow> n \<le> 0) then Inl (IndeterminateError action)
            else case validateOperationLocation c (header_get (hr_header r) ''Location'') (op_ID op) of
              Inl HostPanic \<Rightarrow> Inl HostPanic
            | Inl _ \<Rightarrow> Inl (IndeterminateError action)
            | Inr _ \<Rightarrow> Inr (if hr_status r = 202 then op\<lparr>op_RetryAfterSeconds := the retry\<rparr> else op))"

definition mutation_headers :: "string \<Rightarrow> string \<Rightarrow> http_header" where
  "mutation_headers key generation = (''Idempotency-Key'', key) #
     (if generation \<noteq> [] then [(''Takoform-Expected-Generation'', generation)] else [])"

definition mutate ::
  "'n network \<Rightarrow> string \<Rightarrow> string \<Rightarrow> string \<Rightarrow> string \<Rightarrow> string \<Rightarrow> string \<Rightarrow> int \<Rightarrow> bytes option \<Rightarrow> ('n, 'j, 'm, Operation) host" where
  "mutate net method target action expectedUID key generation acceptedGeneration body w =
     (case doWithHeaders net method target body True maxResponseBytes (mutation_headers key generation) w of
        (Inl _, w') \<Rightarrow> (Inl (IndeterminateError action), w')
      | (Inr r, w') \<Rightarrow> (accept_response (hw_client w') action expectedUID acceptedGeneration r, w'))"

definition CreateResource :: "'n network \<Rightarrow> string \<Rightarrow> CreateRequest \<Rightarrow> ('n, 'j, 'm, Operation) host" where
  "CreateResource net key input =
     (if \<not> validateIdempotencyKey key then fail ''invalid Idempotency-Key''
      else if \<not> validateCreate input then fail ''invalid create request''
      else andThen api_base (\<lambda>(base, _).
           if cq_PrivateInputs input = Some None then fail ''privateInputs must be an object''
           else andThen (lift_result (checked_body (enc_create input))) (\<lambda>body.
                mutate net ''POST'' (base @ ''/resources'') ''create'' [] key [] 1 (Some body))))"

definition UpdateResource ::
  "'n network \<Rightarrow> string \<Rightarrow> string \<Rightarrow> int \<Rightarrow> UpdateRequest \<Rightarrow> ('n, 'j, 'm, Operation) host" where
  "UpdateResource net uid key expectedGeneration input =
     (if \<not> idPattern uid \<or> expectedGeneration \<le> 0 then fail ''invalid Resource UID or generation''
      else if \<not> validateIdempotencyKey key then fail ''invalid Idempotency-Key''
      else if uq_Spec input = None then fail ''update spec is required''
      else andThen api_base (\<lambda>(base, _).
           if uq_PrivateInputs input = Some None then fail ''privateInputs must be an object''
           else if \<not> ok (validate_value (enc_update input)) then fail ''invalid Unicode''
           else if maxSafeInteger \<le> expectedGeneration then fail ''generation cannot advance''
           else andThen (lift_result (marshalRequest (enc_update input))) (\<lambda>body.
                mutate net ''PUT'' (base @ ''/resources/'' @ uid) ''update'' uid key (format_int expectedGeneration)
                  (expectedGeneration + 1) (Some body))))"

definition DeleteResource :: "'n network \<Rightarrow> string \<Rightarrow> string \<Rightarrow> int \<Rightarrow> ('n, 'j, 'm, Operation) host" where
  "DeleteResource net uid key expectedGeneration =
     (if \<not> idPattern uid \<or> expectedGeneration \<le> 0 then fail ''invalid Resource UID or generation''
      else if \<not> validateIdempotencyKey key then fail ''invalid Idempotency-Key''
      else andThen api_base (\<lambda>(base, _).
           if maxSafeInteger \<le> expectedGeneration then fail ''generation cannot advance''
           else mutate net ''DELETE'' (base @ ''/resources/'' @ uid) ''delete'' uid key (format_int expectedGeneration)
                  (expectedGeneration + 1) None))"

subsection \<open>Continuing an Operation\<close>

definition open_status :: "string \<Rightarrow> bool" where
  "open_status s \<longleftrightarrow> s \<in> set [''queued'', ''running'', ''waiting_input'', ''reconciling'']"

definition continued :: "Operation \<Rightarrow> httpResponse \<Rightarrow> host_error + Operation" where
  "continued original r =
     (let indeterminate = Inl (IndeterminateError ''private-input continuation'') in
      if hr_status r \<noteq> 200 then
        (if 400 \<le> hr_status r \<and> hr_status r < 500 then
           (case validProblemError r of
              Some (APIError st code retry operationID) \<Rightarrow>
                if operationID \<noteq> [] \<and> operationID \<noteq> op_ID original then indeterminate
                else Inl (APIError st code retry operationID)
            | _ \<Rightarrow> indeterminate)
         else indeterminate)
      else case decodeOperation (hr_body r) of None \<Rightarrow> indeterminate
      | Some op \<Rightarrow>
          if op_ID op \<noteq> op_ID original \<or> op_ResourceUID op \<noteq> op_ResourceUID original \<or>
             op_Action op \<noteq> op_Action original \<or> op_Generation op \<noteq> op_Generation original
          then indeterminate
          else if open_status (op_Status op) then Inr op else indeterminate)"

definition ContinuePrivateInputs ::
  "'n network \<Rightarrow> Operation \<Rightarrow> (string \<times> string) list option \<Rightarrow> ('n, 'j, 'm, Operation) host" where
  "ContinuePrivateInputs net original privateInputs =
     (if \<not> idPattern (op_ID original) \<or> \<not> idPattern (op_ResourceUID original) \<or> op_Generation original < 1 \<or>
         maxSafeInteger < op_Generation original
      then fail ''invalid Operation identity for private-input continuation''
      else if op_Action original \<notin> set [''create'', ''update'', ''delete'']
      then fail ''invalid Operation action for private-input continuation''
      else if \<not> open_status (op_Status original)
      then fail ''private inputs cannot continue a terminal or unknown Operation''
      else if privateInputs = None then fail ''original privateInputs map is required''
      else andThen (lift_result (checked_body (GStruct [(''privateInputs'', False, enc_inputs privateInputs)]))) (\<lambda>body.
           andThen api_base (\<lambda>(base, _) w.
             (case do_request net ''PUT'' (base @ ''/operations/'' @ op_ID original @ ''/private-inputs'') (Some body)
                 True maxResponseBytes w of
                (Inl _, w') \<Rightarrow> (Inl (IndeterminateError ''private-input continuation''), w')
              | (Inr r, w') \<Rightarrow> (continued original r, w')))))"

end
