(* ===== verification/UrlLaws.thy ===== *)
theory UrlLaws
  imports GoUrl
begin

text \<open>
  Appending a path to a URL that has a host and neither query nor fragment: the result parses,
  with the same scheme, userinfo and host, and the path is appended to the path.
\<close>

lemma unescape_append:
  "unescape m s = Some u \<Longrightarrow> unescape m t = Some v \<Longrightarrow> unescape m (s @ t) = Some (u @ v)"
proof (induction m s arbitrary: u rule: unescape.induct)
  case (2 m c cs)
  show ?case
  proof (cases "c = CHR ''%''")
    case True
    with 2(3) obtain a b r where "cs = a # b # r" by (auto split: list.splits)
    with 2 True show ?thesis by (auto split: if_splits)
  next
    case False
    with 2 show ?thesis by (auto split: if_splits)
  qed
qed simp

lemma scheme_prefix_append:
  "scheme_prefix acc s = Some (sch, rest) \<Longrightarrow> sch \<noteq> [] \<Longrightarrow> scheme_prefix acc (s @ t) = Some (sch, rest @ t)"
  by (induction acc s rule: scheme_prefix.induct) (auto split: if_splits)

lemma scheme_prefix_suffix: "scheme_prefix acc s = Some (sch, rest) \<Longrightarrow> sch \<noteq> [] \<Longrightarrow> set rest \<subseteq> set s"
  by (induction acc s rule: scheme_prefix.induct) (auto split: if_splits)

lemma cut_at_plain: "c \<notin> set s \<Longrightarrow> cut_at c s = (s, [], False)"
proof -
  assume "c \<notin> set s"
  then have "dropWhile (\<lambda>d. d \<noteq> c) s = []" by auto
  then show ?thesis unfolding cut_at_def by (simp only: list.case)
qed

lemma split_query_plain: "CHR ''?'' \<notin> set rest \<Longrightarrow> split_query rest = (rest, [], False)"
proof -
  assume q: "CHR ''?'' \<notin> set rest"
  then have "filter (\<lambda>c. c = CHR ''?'') rest = []" by (auto simp: filter_empty_conv)
  with q show ?thesis by (simp add: split_query_def cut_at_plain)
qed

lemma take_authority:
  "takeWhile (\<lambda>c. c \<noteq> CHR ''/'') (xs @ CHR ''/'' # ys) = takeWhile (\<lambda>c. c \<noteq> CHR ''/'') xs"
  "dropWhile (\<lambda>c. c \<noteq> CHR ''/'') (xs @ CHR ''/'' # ys) = dropWhile (\<lambda>c. c \<noteq> CHR ''/'') xs @ CHR ''/'' # ys"
  by (induction xs) auto

text \<open>A URL with a host was written as scheme, authority and path.\<close>

lemma parse_nofrag_host:
  assumes "parse_nofrag raw = Some u" "url_host u \<noteq> []" "url_scheme u \<noteq> []" "CHR ''?'' \<notin> set raw"
  obtains sch rest user host where "scheme_prefix [] raw = Some (sch, rest)" "sch \<noteq> []" "has_prefix rest ''//''"
    "parse_authority (takeWhile (\<lambda>c. c \<noteq> CHR ''/'') (drop 2 rest)) = Some (user, host)" "host \<noteq> []"
    "with_path (empty_url\<lparr>url_scheme := to_lower sch, url_user := user, url_host := host\<rparr>)
       (dropWhile (\<lambda>c. c \<noteq> CHR ''/'') (drop 2 rest)) = Some u"
proof -
  from assms(1,2) obtain sch rest where sp: "scheme_prefix [] raw = Some (sch, rest)"
    by (auto simp: parse_nofrag_def empty_url_def split: if_splits option.splits)
  have sch: "sch \<noteq> []"
  proof
    assume "sch = []"
    with sp assms(1,3) show False
      by (auto simp: parse_nofrag_def empty_url_def with_path_def to_lower_def Let_def
          split: if_splits option.splits prod.splits)
  qed
  from scheme_prefix_suffix [OF sp sch] assms(4) have "split_query rest = (rest, [], False)"
    by (intro split_query_plain) auto
  with sp sch assms(1,2) that [OF sp sch] show ?thesis
    by (auto simp: parse_nofrag_def empty_url_def with_path_def Let_def split: if_splits option.splits prod.splits)
qed

text \<open>The whole URL, with a path that has no escapes and no special bytes.\<close>

definition plain_path :: "string \<Rightarrow> bool" where
  "plain_path p \<longleftrightarrow> p \<noteq> [] \<and> hd p = CHR ''/'' \<and> list_all (\<lambda>c. is_alnum c \<or> c \<in> set ''/._-'') p"

lemma plain_bytes:
  assumes "is_alnum c \<or> c \<in> set ''/._-''"
  shows "c \<noteq> CHR ''%'' \<and> c \<noteq> CHR ''?'' \<and> c \<noteq> CHR ''#'' \<and> 32 \<le> byte c \<and> byte c \<noteq> 127"
  using assms by (auto simp: is_alnum_def is_digit_def is_upper_def is_lower_def)

lemma plain_path_bytes:
  assumes "plain_path p" "c \<in> set p"
  shows "c \<noteq> CHR ''%'' \<and> c \<noteq> CHR ''?'' \<and> c \<noteq> CHR ''#'' \<and> 32 \<le> byte c \<and> byte c \<noteq> 127"
  using assms by (intro plain_bytes) (simp add: plain_path_def list_all_iff)

lemma unescape_plain: "CHR ''%'' \<notin> set p \<Longrightarrow> unescape Path_mode p = Some p"
  by (induction p) auto

lemma parse_nofrag_append:
  assumes "parse_nofrag raw = Some u" "url_host u \<noteq> []" "url_scheme u \<noteq> []" "CHR ''?'' \<notin> set raw" "plain_path p"
  shows "\<exists>v. parse_nofrag (raw @ p) = Some v \<and> url_scheme v = url_scheme u \<and> url_user v = url_user u \<and>
    url_host v = url_host u \<and> url_path v = url_path u @ p \<and> url_query v = []"
proof -
  from parse_nofrag_host [OF assms(1-4)] obtain sch rest user host where
    sp: "scheme_prefix [] raw = Some (sch, rest)" "sch \<noteq> []" and pre: "has_prefix rest ''//''"
    and auth: "parse_authority (takeWhile (\<lambda>c. c \<noteq> CHR ''/'') (drop 2 rest)) = Some (user, host)" "host \<noteq> []"
    and path: "with_path (empty_url\<lparr>url_scheme := to_lower sch, url_user := user, url_host := host\<rparr>)
       (dropWhile (\<lambda>c. c \<noteq> CHR ''/'') (drop 2 rest)) = Some u" .
  from assms(5) obtain q where p: "p = CHR ''/'' # q" by (cases p) (auto simp: plain_path_def)
  from assms(5) have special: "CHR ''%'' \<notin> set p" "CHR ''?'' \<notin> set p" "\<not> has_ctl_byte p"
    using plain_path_bytes [OF assms(5)] by (auto simp: has_ctl_byte_def list_ex_iff not_less [symmetric])
  have ctl: "\<not> has_ctl_byte (raw @ p)" using assms(1) special(3)
    by (auto simp: parse_nofrag_def has_ctl_byte_def split: if_splits)
  from pre obtain r where rest: "rest = CHR ''/'' # CHR ''/'' # r"
    by (cases rest; cases "tl rest") (auto simp: has_prefix_def)
  have "set rest \<subseteq> set raw" using scheme_prefix_suffix [OF sp] .
  then have "split_query (rest @ p) = (rest @ p, [], False)" using assms(4) special(2)
    by (intro split_query_plain) auto
  moreover have "raw @ p \<noteq> ''*''"
    using assms(5) by (cases raw) (auto simp: plain_path_def)
  moreover have "unescape Path_mode (dropWhile (\<lambda>c. c \<noteq> CHR ''/'') r @ CHR ''/'' # q) = Some (url_path u @ CHR ''/'' # q)"
    using path rest p unescape_append [OF _ unescape_plain [OF special(1)]] by (auto simp: with_path_def)
  ultimately show ?thesis
    using ctl scheme_prefix_append [OF sp, of p] sp rest auth path p
    by (auto simp: parse_nofrag_def has_prefix_def take_authority with_path_def Let_def empty_url_def)
qed

lemma url_parse_append:
  assumes "url_parse raw = Some u" "url_host u \<noteq> []" "url_scheme u \<noteq> []" "\<not> contains_any raw ''?#''" "plain_path p"
  shows "\<exists>v. url_parse (raw @ p) = Some v \<and> url_scheme v = url_scheme u \<and> url_user v = url_user u \<and>
    url_host v = url_host u \<and> url_path v = url_path u @ p \<and> url_query v = []"
proof -
  from assms(4) have raw: "CHR ''?'' \<notin> set raw" "CHR ''#'' \<notin> set raw"
    by (auto simp: contains_any_def list_ex_iff)
  from assms(5) have "CHR ''#'' \<notin> set p"
    using plain_path_bytes by blast
  with raw have cut: "cut_at (CHR ''#'') raw = (raw, [], False)" "cut_at (CHR ''#'') (raw @ p) = (raw @ p, [], False)"
    by (auto intro!: cut_at_plain)
  with assms(1) have "parse_nofrag raw = Some u" by (simp add: url_parse_def split: option.splits)
  from parse_nofrag_append [OF this assms(2,3) raw(1) assms(5)] cut show ?thesis by (auto simp: url_parse_def)
qed

end
