(* ===== verification/Trace.thy ===== *)
theory Trace
  imports Prelude
begin

text \<open>
  Reasoning about stateful operations that append to a log. \<open>emits log m w Q\<close> says that running
  \<open>m\<close> in \<open>w\<close> extends the log by some events, and that the events, the outcome and the final
  state satisfy \<open>Q\<close>; operations are total, so it is a weakest precondition. The rules follow
  the structure of an operation.
\<close>

named_theorems emits_rules \<open>introduction rules for the parts of an operation\<close>

definition emits ::
  "('w \<Rightarrow> 'v list) \<Rightarrow> ('w, 'e, 'a) st \<Rightarrow> 'w \<Rightarrow> ('v list \<Rightarrow> 'e + 'a \<Rightarrow> 'w \<Rightarrow> bool) \<Rightarrow> bool" where
  "emits log m w Q \<longleftrightarrow> (\<exists>es r w'. m w = (r, w') \<and> log w' = log w @ es \<and> Q es r w')"

lemma emitsD:
  assumes "emits log m w Q" "m w = (r, w')"
  obtains es where "log w' = log w @ es" "Q es r w'"
  using assms by (auto simp: emits_def)

lemma emits_weaken: "emits log m w P \<Longrightarrow> (\<And>es r w'. P es r w' \<Longrightarrow> Q es r w') \<Longrightarrow> emits log m w Q"
  unfolding emits_def by blast

lemma emits_ret [emits_rules]: "Q [] (Inr x) w \<Longrightarrow> emits log (ret x) w Q"
  by (auto simp: emits_def ret_def)

lemma emits_raise [emits_rules]: "Q [] (Inl e) w \<Longrightarrow> emits log (raise e) w Q"
  by (auto simp: emits_def raise_def)

lemma emits_lift [emits_rules]: "Q [] r w \<Longrightarrow> emits log (lift_result r) w Q"
  by (cases r) (auto simp: emits_def lift_result_def ret_def raise_def)

lemma emits_if [emits_rules]:
  "(b \<Longrightarrow> emits log m w Q) \<Longrightarrow> (\<not> b \<Longrightarrow> emits log n w Q) \<Longrightarrow> emits log (if b then m else n) w Q"
  by simp

lemma emits_andThen:
  assumes "emits log m w (\<lambda>es r w'. case r of Inl e \<Rightarrow> Q es (Inl e) w'
      | Inr x \<Rightarrow> emits log (f x) w' (\<lambda>fs. Q (es @ fs)))"
  shows "emits log (andThen m f) w Q"
  using assms unfolding emits_def andThen_def
  by (fastforce split: sum.splits prod.splits)

text \<open>The usual composition: what the first part promises is what the second may use.\<close>

lemma emits_seq:
  assumes "emits log m w P"
    and "\<And>es e w'. P es (Inl e) w' \<Longrightarrow> Q es (Inl e) w'"
    and "\<And>es x w'. P es (Inr x) w' \<Longrightarrow> emits log (f x) w' (\<lambda>fs. Q (es @ fs))"
  shows "emits log (andThen m f) w Q"
  by (rule emits_andThen, rule emits_weaken [OF assms(1)]) (auto split: sum.splits intro: assms(2,3))

text \<open>A part that leaves the log alone.\<close>

definition silent :: "('w \<Rightarrow> 'v list) \<Rightarrow> ('w, 'e, 'a) st \<Rightarrow> bool" where
  "silent log m \<longleftrightarrow> (\<forall>w. log (snd (m w)) = log w)"

lemma emits_silent:
  assumes "silent log m" "\<And>r w'. m w = (r, w') \<Longrightarrow> Q [] r w'"
  shows "emits log m w Q"
  using assms by (cases "m w") (auto simp: emits_def silent_def dest: spec [of _ w])

lemma emits_and: "emits log m w P \<Longrightarrow> emits log m w Q \<Longrightarrow> emits log m w (\<lambda>es r w'. P es r w' \<and> Q es r w')"
  unfolding emits_def by auto

end
