(* ===== verification/HostLaws.thy ===== *)
theory HostLaws
  imports HostClient UrlLaws Trace
begin

text \<open>
  What the Host API client does to the outside: which requests each method sends, and what its
  outcome tells about them.
\<close>

subsection \<open>Exchanges\<close>

definition host_request :: "Client \<Rightarrow> string \<Rightarrow> string \<Rightarrow> bytes option \<Rightarrow> bool \<Rightarrow> http_header \<Rightarrow> http_request" where
  "host_request c method target body authenticated headers =
     \<lparr>rq_method = method, rq_url = target, rq_header = request_headers c body authenticated headers, rq_body = body,
      rq_NoBody = (body = Some []), rq_GetBody = False\<rparr>"

lemma host_request_new:
  "(NewRequest method target (case body of None \<Rightarrow> oneShotEmptyReader | Some b \<Rightarrow> BytesReader b))
     \<lparr>rq_GetBody := False, rq_header := request_headers c body authenticated headers\<rparr> =
   host_request c method target body authenticated headers"
  by (cases body) (simp_all add: NewRequest_def host_request_def)

lemma doWithHeaders_eq:
  "doWithHeaders net method target body authenticated limit headers w =
     (case url_parse target of None \<Rightarrow> fail ''invalid request target'' w
      | Some _ \<Rightarrow>
          case net (hw_net w) (host_request (hw_client w) method target body authenticated headers) of (reply, n) \<Rightarrow>
            (read_reply limit reply, w\<lparr>hw_net := n,
               hw_log := hw_log w @ [Sent (host_request (hw_client w) method target body authenticated headers)]\<rparr>))"
  unfolding doWithHeaders_def Let_def host_request_new ..

text \<open>One request at most: none when the target is no URL, and then the outcome is an error.\<close>

definition exchanged :: "http_request \<Rightarrow> 'j event list \<Rightarrow> host_error + 'a \<Rightarrow> bool" where
  "exchanged rq es r \<longleftrightarrow> es = [Sent rq] \<or> es = [] \<and> \<not> ok r"

lemma doWithHeaders_emits:
  "emits hw_log (doWithHeaders net method target body authenticated limit headers) w (\<lambda>es r w'.
     hw_client w' = hw_client w \<and>
     exchanged (host_request (hw_client w) method target body authenticated headers) es r)"
  by (simp add: emits_def doWithHeaders_eq exchanged_def raise_def split: option.splits prod.splits)

lemma exchange_bounded:
  assumes "doWithHeaders net method target body authenticated limit headers w = (Inr r, w')"
  shows "length (hr_body r) \<le> maxResponseBytes"
  using assms by (auto simp: doWithHeaders_def read_reply_def raise_def Let_def
      split: option.splits prod.splits if_splits)

lemma get_body_emits [emits_rules]:
  assumes "\<And>es r w'. hw_client w' = hw_client w \<Longrightarrow>
      exchanged (host_request (hw_client w) ''GET'' target None True []) es r \<Longrightarrow> Q es r w'"
  shows "emits hw_log (get_body net target) w Q"
  unfolding get_body_def do_request_def
  by (rule emits_seq [OF doWithHeaders_emits])
     (auto simp: exchanged_def intro!: assms emits_rules)

lemma api_base_emits [emits_rules]:
  assumes "\<And>e. apiBase (hw_client w) = Inl e \<Longrightarrow> Q [] (Inl e) w"
    and "\<And>base d. apiBase (hw_client w) = Inr (base, d) \<Longrightarrow> emits hw_log (f (base, d)) w Q"
  shows "emits hw_log (andThen api_base f) w Q"
proof (rule emits_andThen)
  show "emits hw_log api_base w (\<lambda>es r w'. case r of Inl e \<Rightarrow> Q es (Inl e) w' | Inr x \<Rightarrow> emits hw_log (f x) w' (\<lambda>fs. Q (es @ fs)))"
    using assms by (cases "apiBase (hw_client w)") (auto simp: emits_def api_base_def lift_result_def raise_def ret_def)
qed

lemma lift_then_emits [emits_rules]:
  assumes "\<And>e. r = Inl e \<Longrightarrow> Q [] (Inl e) w" "\<And>x. r = Inr x \<Longrightarrow> emits log (f x) w Q"
  shows "emits log (andThen (lift_result r) f) w Q"
  using assms by (cases r) (auto simp: lift_result_def intro: emits_rules)

subsection \<open>Reading methods\<close>

text \<open>
  A request under the API base: the base with a path appended, or the URL they spell with a
  query. It is a GET without body and carries the credential and no idempotency key.
\<close>

definition under_base :: "string \<Rightarrow> string \<Rightarrow> bool" where
  "under_base base target \<longleftrightarrow> (\<exists>path. plain_path path \<and>
     (target = base @ path \<or> (\<exists>u q. url_parse (base @ path) = Some u \<and> target = url_string (u\<lparr>url_query := q\<rparr>))))"

lemma idPattern_plain [simp]: "idPattern s \<Longrightarrow> list_all (\<lambda>c. is_alnum c \<or> c \<in> set ''/._-'') s"
  by (cases s) (auto simp: idPattern_def match_rep_def list_all_iff)

lemma plain_paths:
  "plain_path ''/support''" "plain_path ''/offerings''" "plain_path ''/resources''"
  "idPattern i \<Longrightarrow> plain_path (''/resources/'' @ i)"
  "idPattern i \<Longrightarrow> plain_path (''/operations/'' @ i)"
  "idPattern i \<Longrightarrow> plain_path (''/operations/'' @ i @ ''/private-inputs'')"
  using idPattern_plain [of i] by (simp_all add: plain_path_def is_alnum_def is_lower_def)

lemma under_base_path: "plain_path path \<Longrightarrow> under_base base (base @ path)"
  by (auto simp: under_base_def)

lemma query_target_under: "query_target base path q = Inr target \<Longrightarrow> plain_path path \<Longrightarrow> under_base base target"
  by (auto simp: query_target_def under_base_def split: option.splits)

lemmas targets [simp] = under_base_path [OF plain_paths(1), simplified] under_base_path [OF plain_paths(2), simplified]
  under_base_path [OF plain_paths(3), simplified] under_base_path [OF plain_paths(4), simplified]
  under_base_path [OF plain_paths(5), simplified] under_base_path [OF plain_paths(6), simplified]
  plain_paths [simplified]

definition only_reads :: "Client \<Rightarrow> 'j event list \<Rightarrow> bool" where
  "only_reads c es \<longleftrightarrow> es = [] \<or> (\<exists>base d target. apiBase c = Inr (base, d) \<and> under_base base target \<and>
     es = [Sent (host_request c ''GET'' target None True [])])"

lemma only_reads_Nil [simp]: "only_reads c []"
  by (simp add: only_reads_def)

lemma exchanged_reads:
  "apiBase c = Inr (base, d) \<Longrightarrow> under_base base target \<Longrightarrow>
     exchanged (host_request c ''GET'' target None True []) es r \<Longrightarrow> only_reads c es"
  by (auto simp: exchanged_def only_reads_def)

definition keeps_world :: "('w, 'e, 'a) st \<Rightarrow> bool" where
  "keeps_world m \<longleftrightarrow> (\<forall>w. snd (m w) = w)"

lemma keeps_world_simps [simp]: "keeps_world (ret x)" "keeps_world (raise e)" "keeps_world (lift_result r)"
  by (cases r; simp add: keeps_world_def ret_def raise_def lift_result_def)+

lemma emits_keeps_world:
  assumes "keeps_world m" "\<And>r. Q [] r w"
  shows "emits log m w Q"
  using assms by (cases "m w") (auto simp: emits_def keeps_world_def dest: spec [of _ w])

abbreviation (input) reading ::
  "(('n, 'j, 'm) hworld_scheme, host_error, 'a) st \<Rightarrow> ('n, 'j, 'm) hworld_scheme \<Rightarrow> bool" where
  "reading m w \<equiv> emits hw_log m w (\<lambda>es r w'. hw_client w' = hw_client w \<and> only_reads (hw_client w) es)"

lemma reading_get [emits_rules]:
  assumes "apiBase (hw_client w) = Inr (base, d)" "under_base base target" "\<And>data. keeps_world (f data)"
  shows "reading (andThen (get_body net target) f) w"
proof (rule emits_seq)
  show "emits hw_log (get_body net target) w (\<lambda>es r w'. hw_client w' = hw_client w \<and> only_reads (hw_client w) es)"
    by (rule get_body_emits) (auto intro: exchanged_reads [OF assms(1,2)])
qed (auto intro!: emits_keeps_world assms(3))

lemma GetSupport_reads: "reading (GetSupport net form) w"
  unfolding GetSupport_def
  by (auto intro!: emits_rules query_target_under)

lemma ReadResource_reads: "reading (ReadResource net uid) w"
  unfolding ReadResource_def
  by (auto intro!: emits_rules split: option.splits)

lemma ReadOperation_reads: "reading (ReadOperation net i) w"
  unfolding ReadOperation_def
  by (auto intro!: emits_rules split: option.splits)

lemma ListOfferings_reads: "reading (ListOfferings net form space options) w"
  unfolding ListOfferings_def
  by (auto intro!: emits_rules query_target_under split: option.splits)

lemma ListResources_reads: "reading (ListResources net filters options) w"
  unfolding ListResources_def
  by (auto intro!: emits_rules query_target_under split: option.splits)

subsection \<open>Discovery\<close>

text \<open>A discovered client holds a document that was validated against its own endpoint.\<close>

definition client_ok :: "Client \<Rightarrow> bool" where
  "client_ok c \<longleftrightarrow> (cl_discovered c \<longrightarrow> cl_baseURL c = di_BaseURL (cl_discovery c) \<and>
     (\<exists>origin. endpointOrigin (cl_endpoint c) = Some origin \<and> validateDiscovery (cl_discovery c) origin))"

lemma New_ok: "client_ok (New endpoint token)"
  by (simp add: client_ok_def New_def)

definition discovers :: "Client \<Rightarrow> 'j event list \<Rightarrow> host_error + Discovery \<Rightarrow> Client \<Rightarrow> bool" where
  "discovers c es r c' \<longleftrightarrow>
     cl_endpoint c' = cl_endpoint c \<and> cl_token c' = cl_token c \<and> client_ok c' \<and> (cl_discovered c' \<longleftrightarrow> ok r) \<and>
     (\<forall>d. r = Inr d \<longrightarrow> cl_discovery c' = d \<and> cl_baseURL c' = di_BaseURL d) \<and>
     (es = [] \<or> (\<exists>origin. endpointOrigin (cl_endpoint c) = Some origin \<and>
        es = [Sent (host_request c ''GET'' (origin @ DiscoveryPath) None False [])]))"

lemma host_request_unauthenticated [simp]:
  "host_request c' method target body False hs = host_request c method target body False hs"
  by (simp add: host_request_def request_headers_def)

lemma decode_discovery_valid: "decode_discovery origin data = Inr d \<Longrightarrow> validateDiscovery d origin"
  by (auto simp: decode_discovery_def split: option.splits if_splits)

lemma Discover_emits:
  "emits hw_log (Discover net) w (\<lambda>es r w'. discovers (hw_client w) es r (hw_client w'))"
proof -
  let ?c = "(hw_client w)\<lparr>cl_discovery := zero_discovery, cl_baseURL := [], cl_discovered := False\<rparr>"
  show ?thesis
  proof (cases "endpointOrigin (cl_endpoint (hw_client w))")
    case None
    then show ?thesis
      by (simp add: Discover_def set_discovery_def andThen_def emits_def raise_def discovers_def client_ok_def)
  next
    case (Some origin)
    let ?m = "do_request net ''GET'' (origin @ DiscoveryPath) None False maxResponseBytes"
    let ?w = "w\<lparr>hw_client := ?c\<rparr>"
    obtain r w1 where m: "?m ?w = (r, w1)" by (cases "?m ?w")
    from emitsD [OF doWithHeaders_emits m [unfolded do_request_def]] obtain es where
      es: "hw_log w1 = hw_log w @ es" "hw_client w1 = ?c"
        "exchanged (host_request ?c ''GET'' (origin @ DiscoveryPath) None False []) es r" by auto
    then have sent: "es = [] \<or> es = [Sent (host_request (hw_client w) ''GET'' (origin @ DiscoveryPath) None False [])]"
      by (auto simp: exchanged_def host_request_def request_headers_def)
    show ?thesis
      using Some sent es m decode_discovery_valid
      by (auto simp: Discover_def set_discovery_def andThen_def emits_def raise_def ret_def lift_result_def
          discovers_def client_ok_def split: sum.splits)
  qed
qed

subsection \<open>Mutating methods\<close>

text \<open>The three mutating methods as one call.\<close>

datatype mutation = MCreate CreateRequest | MUpdate string int UpdateRequest | MDelete string int

fun perform :: "'n network \<Rightarrow> string \<Rightarrow> mutation \<Rightarrow> ('n, 'j, 'm, Operation) host" where
  "perform net key (MCreate input) = CreateResource net key input"
| "perform net key (MUpdate uid gen input) = UpdateResource net uid key gen input"
| "perform net key (MDelete uid gen) = DeleteResource net uid key gen"

fun mutation_action :: "mutation \<Rightarrow> string" where
  "mutation_action (MCreate _) = ''create''"
| "mutation_action (MUpdate _ _ _) = ''update''"
| "mutation_action (MDelete _ _) = ''delete''"

fun mutation_method :: "mutation \<Rightarrow> string" where
  "mutation_method (MCreate _) = ''POST''"
| "mutation_method (MUpdate _ _ _) = ''PUT''"
| "mutation_method (MDelete _ _) = ''DELETE''"

fun mutation_path :: "mutation \<Rightarrow> string" where
  "mutation_path (MCreate _) = ''/resources''"
| "mutation_path (MUpdate uid _ _) = ''/resources/'' @ uid"
| "mutation_path (MDelete uid _) = ''/resources/'' @ uid"

fun mutation_uid :: "mutation \<Rightarrow> string" where
  "mutation_uid (MCreate _) = []"
| "mutation_uid (MUpdate uid _ _) = uid"
| "mutation_uid (MDelete uid _) = uid"

fun mutation_fence :: "mutation \<Rightarrow> int" where
  "mutation_fence (MCreate _) = 0"
| "mutation_fence (MUpdate _ gen _) = gen"
| "mutation_fence (MDelete _ gen) = gen"

definition fence_header :: "mutation \<Rightarrow> string" where
  "fence_header m = (case m of MCreate _ \<Rightarrow> [] | _ \<Rightarrow> format_int (mutation_fence m))"

fun mutation_value :: "mutation \<Rightarrow> goval option" where
  "mutation_value (MCreate input) = Some (enc_create input)"
| "mutation_value (MUpdate _ _ input) = Some (enc_update input)"
| "mutation_value (MDelete _ _) = None"

definition mutation_body :: "mutation \<Rightarrow> bytes option" where
  "mutation_body m = (case mutation_value m of None \<Rightarrow> None
     | Some v \<Rightarrow> (case marshal v of Inl _ \<Rightarrow> None | Inr b \<Rightarrow> Some b))"

lemma mutation_body_ne: "mutation_body m \<noteq> Some []"
proof -
  have "json_text j \<noteq> []" if "to_json v = Some j" "mutation_value m = Some v" for v j
    using that by (cases m) (auto simp: enc_create_def enc_update_def split: if_splits option.splits)
  then show ?thesis by (auto simp: mutation_body_def marshal_def split: option.splits sum.splits)
qed

lemma mutation_not_replayed: "\<not> replayable (host_request c method target (mutation_body m) authenticated hs)"
  by (simp add: replayable_def host_request_def mutation_body_ne)

text \<open>An Operation that answers the mutation.\<close>

definition answers :: "mutation \<Rightarrow> Operation \<Rightarrow> bool" where
  "answers m op \<longleftrightarrow> op_Action op = mutation_action m \<and> op_Generation op = mutation_fence m + 1 \<and>
     (mutation_uid m \<noteq> [] \<longrightarrow> op_ResourceUID op = mutation_uid m) \<and> operation_identity op \<and> operation_states op"

definition refusal :: "host_error \<Rightarrow> bool" where
  "refusal e \<longleftrightarrow> (\<exists>st code retry i. e = APIError st code retry i \<and> 400 \<le> st \<and> st < 500 \<and> validProblemCode st code)"

definition mutated :: "Client \<Rightarrow> string \<Rightarrow> mutation \<Rightarrow> 'j event list \<Rightarrow> host_error + Operation \<Rightarrow> bool" where
  "mutated c key m es r \<longleftrightarrow>
     es = [] \<and> (r = Inl (IndeterminateError (mutation_action m)) \<or> (\<exists>msg. r = Inl (HostError msg))) \<or>
     (\<exists>base d. apiBase c = Inr (base, d) \<and> plain_path (mutation_path m) \<and>
        es = [Sent (host_request c (mutation_method m) (base @ mutation_path m) (mutation_body m) True
                (mutation_headers key (fence_header m)))] \<and>
        (case r of Inr op \<Rightarrow> answers m op
         | Inl e \<Rightarrow> e = IndeterminateError (mutation_action m) \<or> refusal e \<or> e = HostPanic \<and> url_parse base = None))"

lemma validProblemError_APIError:
  "validProblemError r = Some e \<Longrightarrow> \<exists>code retry i. e = APIError (hr_status r) code retry i \<and> validProblemCode (hr_status r) code"
  by (auto simp: validProblemError_def split: if_splits option.splits)

lemma decodeOperation_states:
  "decodeOperation data = Some op \<Longrightarrow> operation_identity op \<and> operation_states op"
  by (auto simp: decodeOperation_def split: sum.splits json.splits option.splits if_splits)

lemma validateOperationLocation_panic:
  "validateOperationLocation c raw i = Inl HostPanic \<Longrightarrow> \<exists>base d. apiBase c = Inr (base, d) \<and> url_parse base = None"
  by (auto simp: validateOperationLocation_def apiBase_def split: if_splits option.splits)

lemma operation_retry [simp]:
  "operation_identity (op\<lparr>op_RetryAfterSeconds := n\<rparr>) = operation_identity op"
  "operation_states (op\<lparr>op_RetryAfterSeconds := n\<rparr>) = operation_states op"
  by (simp_all add: operation_identity_def operation_states_def)

lemma accept_response_cases:
  assumes "accept_response c (mutation_action m) (mutation_uid m) (mutation_fence m + 1) rsp = r" "apiBase c = Inr (base, d)"
  shows "case r of Inr op \<Rightarrow> answers m op
    | Inl e \<Rightarrow> e = IndeterminateError (mutation_action m) \<or> refusal e \<or> e = HostPanic \<and> url_parse base = None"
  using assms
  by (auto simp: accept_response_def answers_def refusal_def Let_def
      dest!: validProblemError_APIError decodeOperation_states validateOperationLocation_panic
      split: if_splits option.splits sum.splits host_error.splits)

lemma mutate_emits:
  assumes "apiBase (hw_client w) = Inr (base, d)" "plain_path (mutation_path m)" "mutation_body m = body"
  shows "emits hw_log (mutate net (mutation_method m) (base @ mutation_path m) (mutation_action m) (mutation_uid m)
     key (fence_header m) (mutation_fence m + 1) body) w
     (\<lambda>es r w'. hw_client w' = hw_client w \<and> mutated (hw_client w) key m es r)"
proof -
  let ?h = "mutation_headers key (fence_header m)"
  let ?do = "doWithHeaders net (mutation_method m) (base @ mutation_path m) body True maxResponseBytes ?h"
  obtain r w1 where d: "?do w = (r, w1)" by (cases "?do w")
  from emitsD [OF doWithHeaders_emits d] obtain es where
    es: "hw_log w1 = hw_log w @ es" "hw_client w1 = hw_client w"
      "exchanged (host_request (hw_client w) (mutation_method m) (base @ mutation_path m) body True ?h) es r" by auto
  show ?thesis
  proof (cases r)
    case (Inl e)
    with es d assms show ?thesis
      by (auto simp: mutate_def emits_def mutated_def exchanged_def refusal_def)
  next
    case (Inr rsp)
    with es d assms accept_response_cases [OF refl assms(1), of m rsp] show ?thesis
      by (auto simp: mutate_def emits_def mutated_def exchanged_def)
  qed
qed

lemma mutated_refused [simp]: "mutated c key m [] (Inl (HostError msg))"
  by (simp add: mutated_def refusal_def)

lemma local_refusals:
  "apiBase c = Inl e \<Longrightarrow> \<exists>msg. e = HostError msg"
  "checked_body v = Inl e \<Longrightarrow> \<exists>msg. e = HostError msg"
  "marshalRequest v = Inl e \<Longrightarrow> \<exists>msg. e = HostError msg"
  by (auto simp: apiBase_def checked_body_def marshalRequest_def split: if_splits sum.splits)

lemma encoded_body:
  "marshalRequest v = Inr b \<Longrightarrow> marshal v = Inr b" "checked_body v = Inr b \<Longrightarrow> marshal v = Inr b"
  by (auto simp: marshalRequest_def checked_body_def split: if_splits sum.splits)

lemma perform_emits:
  "emits hw_log (perform net key m) w (\<lambda>es r w'. hw_client w' = hw_client w \<and> mutated (hw_client w) key m es r)"
proof (cases m)
  case (MCreate input)
  with mutate_emits [of w _ _ m _ net key] show ?thesis
    by (auto simp: CreateResource_def fence_header_def mutation_body_def intro!: emits_rules dest!: local_refusals encoded_body)
next
  case (MUpdate uid gen input)
  with mutate_emits [of w _ _ m _ net key] show ?thesis
    by (auto simp: UpdateResource_def fence_header_def mutation_body_def intro!: emits_rules dest!: local_refusals encoded_body)
next
  case (MDelete uid gen)
  with mutate_emits [of w _ _ m _ net key] show ?thesis
    by (auto simp: DeleteResource_def fence_header_def mutation_body_def intro!: emits_rules dest!: local_refusals encoded_body)
qed

subsection \<open>Continuation\<close>

definition continues :: "Client \<Rightarrow> string \<Rightarrow> 'j event list \<Rightarrow> bool" where
  "continues c i es \<longleftrightarrow> es = [] \<or> (\<exists>base d body. apiBase c = Inr (base, d) \<and> idPattern i \<and>
     es = [Sent (host_request c ''PUT'' (base @ ''/operations/'' @ i @ ''/private-inputs'') (Some body) True [])])"

lemma continues_Nil [simp]: "continues c i []"
  by (simp add: continues_def)

lemma ContinuePrivateInputs_emits:
  "emits hw_log (ContinuePrivateInputs net original inputs) w
     (\<lambda>es r w'. hw_client w' = hw_client w \<and> continues (hw_client w) (op_ID original) es)"
proof -
  have put: "emits hw_log (\<lambda>w. case do_request net ''PUT'' (base @ ''/operations/'' @ op_ID original @ ''/private-inputs'')
        (Some body) True maxResponseBytes w of
      (Inl _, w') \<Rightarrow> (Inl (IndeterminateError ''private-input continuation''), w')
    | (Inr r, w') \<Rightarrow> (continued original r, w')) w
    (\<lambda>es r w'. hw_client w' = hw_client w \<and> continues (hw_client w) (op_ID original) es)"
    if "apiBase (hw_client w) = Inr (base, d)" "idPattern (op_ID original)" for base d body
    using that doWithHeaders_emits [of net "''PUT''" "base @ ''/operations/'' @ op_ID original @ ''/private-inputs''"
        "Some body" True maxResponseBytes "[]" w]
    by (auto simp: do_request_def emits_def continues_def exchanged_def split: sum.splits prod.splits)
  show ?thesis
    unfolding ContinuePrivateInputs_def
    by (auto intro!: emits_rules put [simplified])
qed

subsection \<open>Sequences of calls\<close>

datatype call = CDiscover | CSupport string | COfferings string string PageOptions | CRead string
  | CList ResourceFilters PageOptions | COperation string | CMutate string mutation
  | CContinue Operation "(string \<times> string) list option"

fun run_call :: "'n network \<Rightarrow> call \<Rightarrow> ('n, 'j, 'm) hworld_scheme \<Rightarrow> ('n, 'j, 'm) hworld_scheme" where
  "run_call net CDiscover w = snd (Discover net w)"
| "run_call net (CSupport form) w = snd (GetSupport net form w)"
| "run_call net (COfferings form space options) w = snd (ListOfferings net form space options w)"
| "run_call net (CRead uid) w = snd (ReadResource net uid w)"
| "run_call net (CList filters options) w = snd (ListResources net filters options w)"
| "run_call net (COperation i) w = snd (ReadOperation net i w)"
| "run_call net (CMutate key m) w = snd (perform net key m w)"
| "run_call net (CContinue original inputs) w = snd (ContinuePrivateInputs net original inputs w)"

text \<open>A request with the credential goes under the API base of a client that has discovered it.\<close>

definition credentialed :: "http_request \<Rightarrow> bool" where
  "credentialed rq \<longleftrightarrow> ''Authorization'' \<in> fst ` set (rq_header rq)"

definition within :: "Client \<Rightarrow> http_request \<Rightarrow> bool" where
  "within c rq \<longleftrightarrow> credentialed rq \<longrightarrow> cl_discovered c \<and> under_base (cl_baseURL c) (rq_url rq)"

lemma apiBase_Inr:
  "apiBase c = Inr (base, d) \<Longrightarrow> cl_discovered c \<and> base = cl_baseURL c \<and> d = cl_discovery c \<and> cl_token c \<noteq> []"
  by (auto simp: apiBase_def split: if_splits)

definition sends_only :: "('n, 'j, 'm) hworld_scheme \<Rightarrow> ('n, 'j, 'm) hworld_scheme \<Rightarrow> bool" where
  "sends_only w w' \<longleftrightarrow> (\<exists>es. hw_log w' = hw_log w @ es \<and> length es \<le> 1 \<and>
     (\<forall>e\<in>set es. \<exists>rq. e = Sent rq \<and> within (hw_client w) rq))"

lemma emits_snd:
  assumes "emits log m w Q"
  obtains es r where "log (snd (m w)) = log w @ es" "Q es r (snd (m w))"
  using assms by (auto simp: emits_def)

lemma within_api:
  "apiBase c = Inr (base, d) \<Longrightarrow> under_base base target \<Longrightarrow> within c (host_request c method target body a hs)"
  by (auto simp: within_def host_request_def dest!: apiBase_Inr)

lemma within_discovery: "within c (host_request c' method target body False [])"
  by (auto simp: within_def credentialed_def host_request_def request_headers_def)

lemma sends_onlyI:
  assumes "emits hw_log m w Q"
    and "\<And>es r w'. Q es r w' \<Longrightarrow> es = [] \<or> (\<exists>rq. es = [Sent rq] \<and> within (hw_client w) rq)"
  shows "sends_only w (snd (m w))"
  by (rule emits_snd [OF assms(1)]) (use assms(2) in \<open>fastforce simp: sends_only_def\<close>)

lemma only_reads_within: "only_reads c es \<Longrightarrow> es = [] \<or> (\<exists>rq. es = [Sent rq] \<and> within c rq)"
  by (auto simp: only_reads_def intro: within_api)

lemma mutated_within: "mutated c key m es r \<Longrightarrow> es = [] \<or> (\<exists>rq. es = [Sent rq] \<and> within c rq)"
  by (auto simp: mutated_def intro!: within_api under_base_path)

lemma continues_within: "continues c i es \<Longrightarrow> es = [] \<or> (\<exists>rq. es = [Sent rq] \<and> within c rq)"
  using within_api [OF _ under_base_path [OF plain_paths(6)]] by (auto simp: continues_def)

lemma discovers_within: "discovers c es r c' \<Longrightarrow> es = [] \<or> (\<exists>rq. es = [Sent rq] \<and> within c rq)"
  by (auto simp: discovers_def within_discovery)

lemma run_call_sends: "sends_only w (run_call net c w)"
  by (cases c)
     (auto intro!: sends_onlyI [OF Discover_emits] sends_onlyI [OF GetSupport_reads] sends_onlyI [OF ListOfferings_reads]
        sends_onlyI [OF ReadResource_reads] sends_onlyI [OF ListResources_reads] sends_onlyI [OF ReadOperation_reads]
        sends_onlyI [OF perform_emits] sends_onlyI [OF ContinuePrivateInputs_emits]
      dest: discovers_within only_reads_within mutated_within continues_within)

lemma run_call_discovers:
  fixes w :: "('n, 'j, 'm) hworld_scheme"
  shows "\<exists>(es :: 'j event list) r. discovers (hw_client w) es r (hw_client (run_call net CDiscover w))"
  by (rule emits_snd [OF Discover_emits [of net w]]) auto

lemma emits_client:
  "emits hw_log m w (\<lambda>es r w'. hw_client w' = hw_client w \<and> R es r) \<Longrightarrow> hw_client (snd (m w)) = hw_client w"
  by (auto simp: emits_def)

lemma run_call_client:
  assumes "c \<noteq> CDiscover"
  shows "hw_client (run_call net c w) = hw_client w"
  using assms
  by (cases c) (auto intro!: emits_client [OF GetSupport_reads] emits_client [OF ListOfferings_reads]
    emits_client [OF ReadResource_reads] emits_client [OF ListResources_reads] emits_client [OF ReadOperation_reads]
    emits_client [OF perform_emits] emits_client [OF ContinuePrivateInputs_emits])

subsection \<open>No panics\<close>

text \<open>The base of a discovered client parses, with a host, and paths can be appended to it.\<close>

lemma client_ok_base:
  assumes "client_ok c" "cl_discovered c"
  shows "\<exists>b origin ob. url_parse (cl_baseURL c) = Some b \<and> endpointOrigin (cl_endpoint c) = Some origin \<and>
    url_parse origin = Some ob \<and> url_scheme b = ''https'' \<and> url_host b \<noteq> [] \<and> \<not> url_user b \<and>
    \<not> contains_any (cl_baseURL c) ''?#'' \<and> sameOriginURL b ob"
  using assms by (auto simp: client_ok_def validateDiscovery_def split: option.splits)

lemma client_ok_append:
  assumes "client_ok c" "cl_discovered c" "plain_path p"
  shows "\<exists>u origin ob. url_parse (cl_baseURL c @ p) = Some u \<and> url_scheme u = ''https'' \<and> \<not> url_user u \<and>
    endpointOrigin (cl_endpoint c) = Some origin \<and> url_parse origin = Some ob \<and> sameOriginURL u ob"
proof -
  from client_ok_base [OF assms(1,2)] obtain b origin ob where b: "url_parse (cl_baseURL c) = Some b"
    "endpointOrigin (cl_endpoint c) = Some origin" "url_parse origin = Some ob" "url_scheme b = ''https''" "url_host b \<noteq> []"
    "\<not> url_user b" "\<not> contains_any (cl_baseURL c) ''?#''" "sameOriginURL b ob" by (elim exE conjE)
  from b(4) have "url_scheme b \<noteq> []" by simp
  from url_parse_append [OF b(1,5) this b(7) assms(3)] obtain u where u: "url_parse (cl_baseURL c @ p) = Some u"
    "url_scheme u = url_scheme b" "url_user u = url_user b" "url_host u = url_host b"
    by (elim exE conjE)
  have "sameOriginURL u ob = sameOriginURL b ob"
    by (simp add: sameOriginURL_def hostname_def url_port_def origin_port_def u)
  with b u show ?thesis by simp
qed

lemma query_target_ok:
  assumes "client_ok c" "apiBase c = Inr (base, d)" "plain_path p"
  shows "query_target base p q \<noteq> Inl HostPanic"
  using client_ok_append [OF assms(1) _ assms(3)] apiBase_Inr [OF assms(2)] by (auto simp: query_target_def)

end
