(* ===== verification/HostProps.thy ===== *)
theory HostProps
  imports HostLaws "HOL-Library.Word"
begin

text \<open>The properties of the Host API client.\<close>

subsection \<open>A sample client\<close>

definition sample_discovery :: Discovery where
  "sample_discovery = zero_discovery\<lparr>di_API := APIVersion, di_BaseURL := ''https://h.example/api'',
     di_Documentation := ''https://h.example/docs'',
     di_Authentication := \<lparr>au_Schemes = [''bearer''], au_Documentation = ''https://h.example/auth''\<rparr>,
     di_Limits := \<lparr>lm_MaxRequestBytes = 1, lm_MaxPageSize = 1, lm_ReplayWindowSeconds = 1\<rparr>\<rparr>"

definition sample_client :: Client where
  "sample_client = (New ''https://h.example'' ''secret'')\<lparr>cl_discovery := sample_discovery,
     cl_baseURL := ''https://h.example/api'', cl_discovered := True\<rparr>"

definition dead_net :: "unit network" where
  "dead_net n rq = (None, ())"

definition sample_world :: "(unit, unit) hworld" where
  "sample_world = \<lparr>hw_client = sample_client, hw_net = (), hw_log = []\<rparr>"

lemma sample_client_ok: "client_ok sample_client"
proof -
  have "endpointOrigin ''https://h.example'' = Some ''https://h.example''" by code_simp
  moreover have "validateDiscovery sample_discovery ''https://h.example''" by code_simp
  ultimately show ?thesis
    by (simp add: client_ok_def sample_client_def New_def sample_discovery_def)
qed

text \<open>A delete through a network that loses everything.\<close>

lemma sample_run:
  "fst (perform dead_net ''0123456789abcdef'' (MDelete ''r1'' 3) sample_world) = Inl (IndeterminateError ''delete'')"
  "length (hw_log (snd (perform dead_net ''0123456789abcdef'' (MDelete ''r1'' 3) sample_world))) = 1"
proof -
  have p: "url_parse ''https://h.example/api/resources/r1'' \<noteq> None" "idPattern ''r1''"
    "idempotencyPattern ''0123456789abcdef''" "equal_fold ''bearer'' ''Bearer''" by code_simp+
  show "fst (perform dead_net ''0123456789abcdef'' (MDelete ''r1'' 3) sample_world) = Inl (IndeterminateError ''delete'')"
    "length (hw_log (snd (perform dead_net ''0123456789abcdef'' (MDelete ''r1'' 3) sample_world))) = 1"
    using p by (auto simp: DeleteResource_def andThen_def api_base_def apiBase_def sample_world_def sample_client_def
        New_def sample_discovery_def validateIdempotencyKey_def maxSafeInteger_def mutate_def doWithHeaders_eq host_request_def
        dead_net_def read_reply_def raise_def ret_def lift_result_def Let_def)
qed

subsection \<open>Mutations\<close>

lemma mutation_request:
  fixes c m key target
  defines "rq \<equiv> host_request c (mutation_method m) target (mutation_body m) True (mutation_headers key (fence_header m))"
  shows "rq_method rq = mutation_method m" "rq_url rq = target"
    "filter (\<lambda>(k, _). k = ''Idempotency-Key'') (rq_header rq) = [(''Idempotency-Key'', key)]"
    "map_of (rq_header rq) ''Takoform-Expected-Generation'' = (if fence_header m = [] then None else Some (fence_header m))"
    "\<not> replayable rq"
  unfolding rq_def by (rule mutation_not_replayed | simp add: host_request_def request_headers_def mutation_headers_def)+

text \<open>
  C35: Sending a create, update or delete hands at most one request to the network. If one is
  sent, it has the mutation's method, goes to the discovered API base followed by the mutation's
  path, carries exactly one idempotency key, the caller's, and carries the expected generation
  exactly for update and delete. The client never retries and never makes up a key, and the
  request is one that the HTTP transport may not send again by itself either.
\<close>

theorem mutation_sent_once:
  "\<exists>es. hw_log (snd (perform net key m w)) = hw_log w @ es \<and>
     (es = [] \<or> (\<exists>rq. es = [Sent rq] \<and> rq_method rq = mutation_method m \<and>
        rq_url rq = cl_baseURL (hw_client w) @ mutation_path m \<and>
        filter (\<lambda>(k, _). k = ''Idempotency-Key'') (rq_header rq) = [(''Idempotency-Key'', key)] \<and>
        map_of (rq_header rq) ''Takoform-Expected-Generation'' =
          (if fence_header m = [] then None else Some (fence_header m)) \<and>
        \<not> replayable rq))"
proof (rule emits_snd [OF perform_emits [of net key m w]])
  fix es r
  assume log: "hw_log (snd (perform net key m w)) = hw_log w @ es"
    and "hw_client (snd (perform net key m w)) = hw_client w \<and> mutated (hw_client w) key m es r"
  then consider "es = []" | base d where "apiBase (hw_client w) = Inr (base, d)"
    "es = [Sent (host_request (hw_client w) (mutation_method m) (base @ mutation_path m) (mutation_body m) True
       (mutation_headers key (fence_header m)))]" by (auto simp: mutated_def)
  then show ?thesis
  proof cases
    case (2 base d)
    from apiBase_Inr [OF 2(1)] have "base = cl_baseURL (hw_client w)" by simp
    with log 2(2) mutation_request [of "hw_client w" m "base @ mutation_path m" key] show ?thesis by blast
  qed (use log in simp)
qed

text \<open>
  C36: What the outcome of a mutation tells, for a client whose discovery was validated. Success:
  the one request was sent and the Operation returned has the mutation's action, its UID and the
  generation after the fence, with consistent status and effect. A local refusal: nothing was
  sent. An API error: the one request was answered by a well-formed problem with a client-error
  status and a code that belongs to it. Everything else is the indeterminate error of this
  action; in particular the method does not panic.
\<close>

theorem mutation_outcomes:
  assumes "client_ok (hw_client w)" "perform net key m w = (r, w')"
  shows "case r of
      Inr op \<Rightarrow> answers m op \<and> length (hw_log w') = length (hw_log w) + 1
    | Inl (HostError _) \<Rightarrow> hw_log w' = hw_log w
    | Inl (APIError st code _ _) \<Rightarrow> length (hw_log w') = length (hw_log w) + 1 \<and> 400 \<le> st \<and> st < 500 \<and> validProblemCode st code
    | Inl (IndeterminateError a) \<Rightarrow> a = mutation_action m
    | Inl HostPanic \<Rightarrow> False"
proof -
  from emitsD [OF perform_emits assms(2)] obtain es where log: "hw_log w' = hw_log w @ es"
    and m: "mutated (hw_client w) key m es r" by blast
  have "url_parse base \<noteq> None" if "apiBase (hw_client w) = Inr (base, d)" for base d
    using client_ok_base [OF assms(1)] apiBase_Inr [OF that] by auto
  with m log show ?thesis
    by (cases r; cases "projl r") (auto simp: mutated_def refusal_def)
qed

theorem mutation_outcomes_witness:
  "client_ok (hw_client sample_world) \<and>
   fst (perform dead_net ''0123456789abcdef'' (MDelete ''r1'' 3) sample_world) = Inl (IndeterminateError ''delete'') \<and>
   (''delete'' = mutation_action (MDelete ''r1'' 3))"
proof -
  let ?p = "perform dead_net ''0123456789abcdef'' (MDelete ''r1'' 3) sample_world"
  have ok: "client_ok (hw_client sample_world)" by (simp add: sample_world_def sample_client_ok)
  have "?p = (Inl (IndeterminateError ''delete''), snd ?p)" using sample_run by (simp add: prod_eq_iff)
  from mutation_outcomes [OF ok this] ok sample_run show ?thesis by simp
qed

subsection \<open>Generations\<close>

text \<open>
  C37: The generation arithmetic does not wrap: whenever an update or a delete reaches the
  network, adding one to the expected generation in 64 bits gives the mathematical successor,
  and the successor is at most the largest integer that JSON numbers represent exactly.
\<close>

theorem fence_does_not_wrap:
  assumes "hw_log (snd (perform net key m w)) \<noteq> hw_log w"
  shows "sint (word_of_int (mutation_fence m) + 1 :: 64 word) = mutation_fence m + 1 \<and>
    0 \<le> mutation_fence m \<and> mutation_fence m + 1 \<le> maxSafeInteger"
proof -
  have g: "0 \<le> mutation_fence m \<and> mutation_fence m + 1 \<le> maxSafeInteger"
  proof (rule ccontr)
    assume "\<not> ?thesis"
    then have "snd (perform net key m w) = w"
      by (cases m) (auto simp: UpdateResource_def DeleteResource_def raise_def andThen_def api_base_def lift_result_def
          ret_def maxSafeInteger_def split: sum.splits)
    with assms show False by simp
  qed
  then have "mutation_fence m + 1 < 2 ^ 63" by (simp add: maxSafeInteger_def)
  with g have "sint (word_of_int (mutation_fence m + 1) :: 64 word) = mutation_fence m + 1"
    by (subst sint_sbintrunc') (simp add: signed_take_bit_int_eq_self)
  with g show ?thesis by simp
qed


theorem fence_does_not_wrap_witness:
  "sint (word_of_int 3 + 1 :: 64 word) = 4 \<and> hw_log (snd (perform dead_net ''0123456789abcdef'' (MDelete ''r1'' 3) sample_world)) \<noteq> []"
proof -
  have ne: "hw_log (snd (perform dead_net ''0123456789abcdef'' (MDelete ''r1'' 3) sample_world)) \<noteq> hw_log sample_world"
    using sample_run(2) by (auto simp: sample_world_def)
  have "hw_log sample_world = []" by (simp add: sample_world_def)
  with fence_does_not_wrap [OF ne] ne show ?thesis by simp
qed

subsection \<open>Sequences of calls\<close>

lemma run_call_ok: "client_ok (hw_client w) \<Longrightarrow> client_ok (hw_client (run_call net c w))"
  using run_call_discovers [of w net] run_call_client [of c net w]
  by (cases "c = CDiscover") (auto simp: discovers_def)

lemma run_call_endpoint: "cl_endpoint (hw_client (run_call net c w)) = cl_endpoint (hw_client w)"
  using run_call_discovers [of w net] run_call_client [of c net w]
  by (cases "c = CDiscover") (auto simp: discovers_def)

text \<open>Same origin as the endpoint, for a request whose URL is under an API base.\<close>

definition at_endpoint :: "string \<Rightarrow> http_request \<Rightarrow> bool" where
  "at_endpoint endpoint rq \<longleftrightarrow> (\<exists>u q origin ob. (url_parse (rq_url rq) = Some u \<or> rq_url rq = url_string (u\<lparr>url_query := q\<rparr>)) \<and>
     url_scheme u = ''https'' \<and> \<not> url_user u \<and> endpointOrigin endpoint = Some origin \<and> url_parse origin = Some ob \<and> sameOriginURL u ob)"

lemma discovered_apiBase:
  assumes "client_ok c" "cl_discovered c" "under_base (cl_baseURL c) (rq_url rq)"
  shows "at_endpoint (cl_endpoint c) rq"
proof -
  from assms(3) obtain p where p: "plain_path p" "rq_url rq = cl_baseURL c @ p \<or>
    (\<exists>u q. url_parse (cl_baseURL c @ p) = Some u \<and> rq_url rq = url_string (u\<lparr>url_query := q\<rparr>))"
    by (auto simp: under_base_def)
  from client_ok_append [OF assms(1,2) p(1)] obtain u origin ob where u: "url_parse (cl_baseURL c @ p) = Some u"
    "url_scheme u = ''https''" "\<not> url_user u" "endpointOrigin (cl_endpoint c) = Some origin" "url_parse origin = Some ob"
    "sameOriginURL u ob" by (elim exE conjE)
  from p(2) u(1) have "\<exists>q. url_parse (rq_url rq) = Some u \<or> rq_url rq = url_string (u\<lparr>url_query := q\<rparr>)" by auto
  with u show ?thesis unfolding at_endpoint_def by blast
qed

lemma run_call_requests:
  assumes "client_ok (hw_client w)" "\<forall>rq. Sent rq \<in> set (hw_log w) \<longrightarrow> credentialed rq \<longrightarrow> at_endpoint (cl_endpoint (hw_client w)) rq"
  shows "\<forall>rq. Sent rq \<in> set (hw_log (run_call net c w)) \<longrightarrow> credentialed rq \<longrightarrow> at_endpoint (cl_endpoint (hw_client w)) rq"
  using run_call_sends [of w net c] assms discovered_apiBase [OF assms(1)]
  by (fastforce simp: sends_only_def within_def)

lemma run_calls_requests:
  assumes "client_ok (hw_client w)" "\<forall>rq. Sent rq \<in> set (hw_log w) \<longrightarrow> credentialed rq \<longrightarrow> at_endpoint (cl_endpoint (hw_client w)) rq"
  shows "\<forall>rq. Sent rq \<in> set (hw_log (fold (run_call net) calls w)) \<longrightarrow> credentialed rq \<longrightarrow> at_endpoint (cl_endpoint (hw_client w)) rq"
  using assms
proof (induction calls arbitrary: w)
  case (Cons c cs)
  from Cons.IH [OF run_call_ok [OF Cons.prems(1)], of net c] run_call_requests [OF Cons.prems, of net c]
  show ?case by (simp add: run_call_endpoint)
qed simp

text \<open>
  C38: The credential stays with the Host. A client made by \<open>New\<close> runs any sequence of calls
  against any network: every request that carries an \<open>Authorization\<close> header goes to an HTTPS URL
  without userinfo whose scheme, host and port are those of the configured endpoint. Neither the
  discovery document nor any other answer can send it elsewhere.
\<close>

theorem credential_stays_at_endpoint:
  assumes "hw_client w = New endpoint token" "hw_log w = []"
    "Sent rq \<in> set (hw_log (fold (run_call net) calls w))" "credentialed rq"
  shows "at_endpoint endpoint rq"
  using run_calls_requests [of w net calls] assms by (simp add: New_ok) (simp add: New_def)

text \<open>A Host that answers discovery and nothing else, a client that discovers and reads.\<close>

definition sample_document :: json where
  "sample_document = JObj
     [(''api'', JStr APIVersion), (''baseUrl'', JStr ''https://h.example/api''),
      (''documentation'', JStr ''https://h.example/docs''),
      (''authentication'', JObj [(''schemes'', JArr [JStr ''bearer'']), (''documentation'', JStr ''https://h.example/auth'')]),
      (''capabilities'', JObj [(''offerings'', JBool False), (''previews'', JBool False), (''privateInputs'', JBool False)]),
      (''limits'', JObj [(''maxRequestBytes'', JNum ''1''), (''maxPageSize'', JNum ''1''), (''replayWindowSeconds'', JNum ''1'')])]"

definition discovery_net :: "unit network" where
  "discovery_net n rq = (if credentialed rq then None
     else Some \<lparr>ry_status = 200, ry_header = [], ry_body = Some (json_text sample_document)\<rparr>, ())"

definition fresh_world :: "(unit, unit) hworld" where
  "fresh_world = \<lparr>hw_client = New ''https://h.example'' ''secret'', hw_net = (), hw_log = []\<rparr>"

lemma decode_sample: "decode (json_text sample_document) = Inr sample_document"
proof (rule decode_json_text)
  show "json_wf sample_document" by code_simp
  show "json_depth sample_document \<le> 10000" by code_simp
qed

lemma sample_document_decodes:
  "decode_discovery ''https://h.example'' (json_text sample_document) = Inr sample_discovery"
proof -
  have "required_tree discovery_fields zero_discovery []
      [''api'', ''baseUrl'', ''documentation'', ''authentication'', ''capabilities'', ''limits''] sample_document = Some sample_discovery"
    by code_simp
  moreover have "validateDiscovery sample_discovery ''https://h.example''" by code_simp
  moreover have "nested_discovery (json_text sample_document)"
    unfolding nested_discovery_def decode_sample sum.case by code_simp
  ultimately show ?thesis
    by (simp add: decode_discovery_def decodeRequired_def decodeRequiredNullable_def decode_sample)
qed

lemma sample_discover:
  "Discover discovery_net fresh_world = (Inr sample_discovery, snd (Discover discovery_net fresh_world))"
  "hw_client (snd (Discover discovery_net fresh_world)) = sample_client"
proof -
  have o1: "endpointOrigin ''https://h.example'' = Some ''https://h.example''"
    and u: "url_parse (''https://h.example'' @ DiscoveryPath) \<noteq> None" by code_simp+
  have l: "\<not> maxResponseBytes < length (json_text sample_document)" by code_simp
  have r: "read_reply maxResponseBytes (Some \<lparr>ry_status = 200, ry_header = [], ry_body = Some (json_text sample_document)\<rparr>)
      = Inr \<lparr>hr_status = 200, hr_header = [], hr_body = json_text sample_document\<rparr>"
    using l by (simp add: read_reply_def maxResponseBytes_def)
  show "Discover discovery_net fresh_world = (Inr sample_discovery, snd (Discover discovery_net fresh_world))"
    "hw_client (snd (Discover discovery_net fresh_world)) = sample_client"
    using o1 u r sample_document_decodes
    by (auto simp: Discover_def set_discovery_def andThen_def fresh_world_def New_def do_request_def doWithHeaders_eq host_request_def
        discovery_net_def credentialed_def request_headers_def Let_def lift_result_def ret_def sample_client_def
        sample_discovery_def)
qed

definition sample_read :: http_request where
  "sample_read = host_request sample_client ''GET'' ''https://h.example/api/resources/r1'' None True []"

lemma sample_read_sent:
  "Sent sample_read \<in> set (hw_log (fold (run_call discovery_net) [CDiscover, CRead ''r1''] fresh_world))"
proof -
  have u: "url_parse ''https://h.example/api/resources/r1'' \<noteq> None" "idPattern ''r1''" "equal_fold ''bearer'' ''Bearer''"
    by code_simp+
  then have base: "apiBase sample_client = Inr (''https://h.example/api'', sample_discovery)"
    by (simp add: apiBase_def sample_client_def New_def sample_discovery_def)
  have net: "discovery_net n (host_request sample_client ''GET'' t None True []) = (None, ())" for n t
    by (simp add: discovery_net_def credentialed_def host_request_def request_headers_def sample_client_def New_def)
  have "Sent sample_read \<in> set (hw_log (snd (ReadResource discovery_net ''r1'' w)))" if "hw_client w = sample_client" for w :: "(unit, unit) hworld"
    using u that base net [unfolded host_request_def]
    by (auto simp: ReadResource_def andThen_def api_base_def lift_result_def ret_def raise_def get_body_def do_request_def
        doWithHeaders_eq sample_read_def host_request_def read_reply_def Let_def)
  from this [OF sample_discover(2)] show ?thesis by simp
qed

theorem credential_stays_at_endpoint_witness:
  "credentialed sample_read \<and> at_endpoint ''https://h.example'' sample_read \<and>
   Sent sample_read \<in> set (hw_log (fold (run_call discovery_net) [CDiscover, CRead ''r1''] fresh_world))"
proof -
  have c: "credentialed sample_read"
    by (simp add: credentialed_def sample_read_def host_request_def request_headers_def sample_client_def New_def)
  have w: "hw_client fresh_world = New ''https://h.example'' ''secret''" "hw_log fresh_world = []"
    by (simp_all add: fresh_world_def)
  from credential_stays_at_endpoint [OF w sample_read_sent c] c sample_read_sent show ?thesis by blast
qed

lemma emits_quiet:
  assumes "emits hw_log m w (\<lambda>es r w'. hw_client w' = hw_client w \<and> R es r)" "\<And>es r. R es r \<Longrightarrow> es = []"
  shows "hw_log (snd (m w)) = hw_log w"
  using assms by (auto simp: emits_def)

lemma undiscovered_silent:
  assumes "\<not> cl_discovered (hw_client w)" "c \<noteq> CDiscover"
  shows "hw_log (run_call net c w) = hw_log w"
proof -
  have "apiBase (hw_client w) \<noteq> Inr x" for x using assms(1) by (simp add: apiBase_def)
  then have "only_reads (hw_client w) es \<Longrightarrow> es = []" "mutated (hw_client w) key m es r \<Longrightarrow> es = []"
    "continues (hw_client w) i es \<Longrightarrow> es = []" for es key m r i
    by (auto simp: only_reads_def mutated_def continues_def)
  then show ?thesis using assms(2)
    by (cases c) (auto intro!: emits_quiet [OF GetSupport_reads] emits_quiet [OF ListOfferings_reads]
      emits_quiet [OF ReadResource_reads] emits_quiet [OF ListResources_reads] emits_quiet [OF ReadOperation_reads]
      emits_quiet [OF perform_emits] emits_quiet [OF ContinuePrivateInputs_emits])
qed

text \<open>
  C39: A failed discovery silences the client: after it, no call except another discovery sends
  anything, whatever had been discovered before.
\<close>

theorem failed_discovery_silences:
  assumes "Discover net w = (Inl e, w1)" "CDiscover \<notin> set calls"
  shows "hw_log (fold (run_call net') calls w1) = hw_log w1"
proof -
  from emitsD [OF Discover_emits assms(1)] have "\<not> cl_discovered (hw_client w1)" by (auto simp: discovers_def)
  then show ?thesis using assms(2)
  proof (induction calls arbitrary: w1)
    case (Cons c cs)
    then show ?case using undiscovered_silent [of w1 c net'] run_call_client [of c net' w1] by auto
  qed simp
qed

theorem failed_discovery_silences_witness:
  "hw_log (fold (run_call discovery_net) [CRead ''r1''] (snd (Discover dead_net sample_world))) =
     hw_log (snd (Discover dead_net sample_world)) \<and> cl_discovered (hw_client sample_world)"
proof -
  have "endpointOrigin ''https://h.example'' = Some ''https://h.example''" by code_simp
  then have "fst (Discover dead_net sample_world) = Inl (HostError ''HTTP request failed'') \<or>
      fst (Discover dead_net sample_world) = Inl (HostError ''invalid request target'')"
    by (auto simp: Discover_def set_discovery_def andThen_def sample_world_def sample_client_def New_def do_request_def
        doWithHeaders_eq host_request_def dead_net_def read_reply_def raise_def Let_def split: option.splits)
  then obtain e where "Discover dead_net sample_world = (Inl e, snd (Discover dead_net sample_world))"
    by (auto simp: prod_eq_iff)
  from failed_discovery_silences [OF this, of "[CRead ''r1'']" discovery_net]
  show ?thesis by (simp add: sample_world_def sample_client_def)
qed

subsection \<open>Member names\<close>

text \<open>
  The required members of a response are looked up by their exact names, while its typed decoding
  matches names without regard to case and lets the last member win. Here the check sees
  \<open>supported\<close> as false and the client goes on with true.
\<close>

lemma required_names_fold:
  "map_option su_Supported (required_tree support_fields zero_support [] [''form'', ''supported'', ''operations'', ''privateInputs'']
     (JObj [(''form'', JStr ModuleWorkerURL), (''supported'', JBool False), (''operations'', JArr []),
        (''privateInputs'', JBool False), (''Supported'', JBool True)])) = Some True"
  by code_simp

end
