(* ===== verification/JsonSemantic.thy ===== *)
theory JsonSemantic
  imports JsonV2Laws Complex_Main
begin

text \<open>
  \<open>provider/v2_json_semantic.go\<close>: the comparison Terraform asks of \<open>vars_json\<close>, an authored
  JSON object string compared by what it says. Numbers are compared by a canonical spelling of
  their exact decimal value. \<open>big.Int\<close> is \<^typ>\<open>int\<close>.
\<close>

subsection \<open>Terraform values\<close>

datatype 'a tf = TNull | TUnknown | TVal 'a

definition tf_unknown :: "'a tf \<Rightarrow> bool" where "tf_unknown v = (case v of TUnknown \<Rightarrow> True | _ \<Rightarrow> False)"
definition tf_null :: "'a tf \<Rightarrow> bool" where "tf_null v = (case v of TNull \<Rightarrow> True | _ \<Rightarrow> False)"

text \<open>\<open>ValueString\<close>: the empty string unless known.\<close>

definition tf_string :: "string tf \<Rightarrow> string" where "tf_string v = (case v of TVal s \<Rightarrow> s | _ \<Rightarrow> [])"

lemma tf_simps [simp]:
  "\<not> tf_unknown TNull" "tf_unknown TUnknown" "\<not> tf_unknown (TVal x)" "tf_null TNull" "\<not> tf_null TUnknown" "\<not> tf_null (TVal x)"
  "tf_string TNull = []" "tf_string TUnknown = []" "tf_string (TVal s) = s"
  by (simp_all add: tf_unknown_def tf_null_def tf_string_def)

subsection \<open>Numbers\<close>

text \<open>\<open>big.Int.SetString(s, 10)\<close>.\<close>

definition big_int :: "string \<Rightarrow> int option" where
  "big_int s =
     (case s of [] \<Rightarrow> None
      | c # cs \<Rightarrow>
          let body = (if c = CHR ''-'' \<or> c = CHR ''+'' then cs else s) in
          if body = [] then None
          else map_option (\<lambda>n. if c = CHR ''-'' then - int n else int n) (digits_val 0 body))"

definition canonicalV2JSONNumber :: "string \<Rightarrow> string option" where
  "canonicalV2JSONNumber raw =
     (let negative = has_prefix raw ''-'';
          unsigned = (if negative then tl raw else raw);
          (mantissa, exponentText, hasExponent) = cut_at (CHR ''e'') (to_lower unsigned)
      in case (if hasExponent then big_int exponentText else Some 0) of None \<Rightarrow> None
         | Some exponent \<Rightarrow>
             let (integerPart, fractionalPart, hasFraction) = cut_at (CHR ''.'') mantissa;
                 exponent1 = (if hasFraction then exponent - int (length fractionalPart) else exponent);
                 digits = trim_left_byte (CHR ''0'') (integerPart @ fractionalPart)
             in if digits = [] then Some ''0''
                else let trimmed = trim_right_byte (CHR ''0'') digits;
                         exponent2 = exponent1 + int (length digits - length trimmed)
                     in Some ((if negative then ''-'' else []) @ trimmed @ ''e'' @ format_int exponent2))"

definition equalV2JSONNumbers :: "string \<Rightarrow> string \<Rightarrow> bool" where
  "equalV2JSONNumbers left right =
     (case (canonicalV2JSONNumber left, canonicalV2JSONNumber right) of
        (Some l, Some r) \<Rightarrow> l = r | _ \<Rightarrow> False)"

subsection \<open>Values\<close>

lemma size_zip_fst: "(x, y) \<in> set (zip ls rs) \<Longrightarrow> size x < Suc (size_list size ls)"
  by (metis in_set_zipE le_imp_less_Suc size_list_estimation' order_refl)

lemma size_member: "(k, x) \<in> set ls \<Longrightarrow> size x < Suc (size_list (size_prod (\<lambda>_. 0) size) ls)"
  by (induction ls) auto

function equalV2JSON :: "json \<Rightarrow> json \<Rightarrow> bool" where
  "equalV2JSON JNull r = (r = JNull)"
| "equalV2JSON (JBool b) r = (r = JBool b)"
| "equalV2JSON (JStr s) r = (r = JStr s)"
| "equalV2JSON (JNum n) r = (case r of JNum m \<Rightarrow> equalV2JSONNumbers n m | _ \<Rightarrow> False)"
| "equalV2JSON (JArr ls) r =
     (case r of JArr rs \<Rightarrow> length ls = length rs \<and> list_all (\<lambda>(x, y). equalV2JSON x y) (zip ls rs) | _ \<Rightarrow> False)"
| "equalV2JSON (JObj ls) r =
     (case r of JObj rs \<Rightarrow> length ls = length rs \<and>
          list_all (\<lambda>(k, x). case map_of rs k of None \<Rightarrow> False | Some y \<Rightarrow> equalV2JSON x y) ls
      | _ \<Rightarrow> False)"
  by pat_completeness auto

termination
  by (relation "measure (size \<circ> fst)") (auto simp: size_zip_fst dest: size_member)

definition decodeV2VarsJSON :: "string \<Rightarrow> json option" where
  "decodeV2VarsJSON raw = (case decode raw of Inr (JObj kvs) \<Rightarrow> Some (JObj kvs) | _ \<Rightarrow> None)"

text \<open>
  \<open>other\<close> is \<open>None\<close> when Terraform supplies a value of another type; \<open>None\<close> as the result is a
  diagnostic.
\<close>

definition StringSemanticEquals :: "string tf \<Rightarrow> string tf option \<Rightarrow> bool option" where
  "StringSemanticEquals v other =
     (case other of None \<Rightarrow> None
      | Some other' \<Rightarrow>
          if tf_null v \<or> tf_unknown v \<or> tf_null other' \<or> tf_unknown other'
          then Some (tf_null v \<and> tf_null other' \<or> tf_unknown v \<and> tf_unknown other')
          else (case decodeV2VarsJSON (tf_string v) of None \<Rightarrow> None
            | Some left \<Rightarrow>
                (case decodeV2VarsJSON (tf_string other') of None \<Rightarrow> None
                 | Some right \<Rightarrow> Some (equalV2JSON left right))))"

end
