(* ===== verification/SemanticLaws.thy ===== *)
theory SemanticLaws
  imports JsonSemantic UrlLaws
begin

text \<open>
  The canonical spelling of a number is determined by its rational value and determines it, and
  so the comparison of JSON trees is equality of what they denote.
\<close>

subsection \<open>Digit strings\<close>

definition dval :: "string \<Rightarrow> nat" where
  "dval ds = foldl (\<lambda>a c. a * 10 + (byte c - 48)) 0 ds"

lemma digits_val_foldl: "list_all is_digit ds \<Longrightarrow> digits_val a ds = Some (foldl (\<lambda>a c. a * 10 + (byte c - 48)) a ds)"
  by (induction ds arbitrary: a) auto

lemma digits_val_dval: "list_all is_digit ds \<Longrightarrow> digits_val 0 ds = Some (dval ds)"
  by (simp add: digits_val_foldl dval_def)

lemma dval_simps [simp]: "dval [] = 0" "dval (ds @ [d]) = dval ds * 10 + (byte d - 48)" "dval [d] = byte d - 48"
  by (simp_all add: dval_def)

lemma dval_append: "dval (xs @ ys) = dval xs * 10 ^ length ys + dval ys"
proof (induction ys rule: rev_induct)
  case (snoc y ys)
  then show ?case unfolding append_assoc [symmetric] dval_simps by (simp add: algebra_simps)
qed simp

lemma digits_trim:
  "list_all is_digit ds \<Longrightarrow> list_all is_digit (trim_left_byte c ds)"
  "list_all is_digit ds \<Longrightarrow> list_all is_digit (trim_right_byte c ds)"
  by (auto simp: trim_left_byte_def trim_right_byte_def list_all_iff dest: set_dropWhileD)

lemma dval_trim_left: "list_all is_digit ds \<Longrightarrow> dval (trim_left_byte (CHR ''0'') ds) = dval ds"
proof (induction ds)
  case (Cons d ds)
  have "dval (d # ds) = dval [d] * 10 ^ length ds + dval ds" using dval_append [of "[d]" ds] by simp
  with Cons show ?case by (auto simp: trim_left_byte_def)
qed (simp add: trim_left_byte_def)

lemma trim_right_snoc:
  "trim_right_byte c (ds @ [d]) = (if d = c then trim_right_byte c ds else ds @ [d])"
  by (simp add: trim_right_byte_def)

lemma trim_right_Nil [simp]: "trim_right_byte c [] = []"
  by (simp add: trim_right_byte_def)

lemma trim_right_length: "length (trim_right_byte c ds) \<le> length ds"
  by (induction ds rule: rev_induct) (auto simp: trim_right_snoc)

lemma dval_trim_right:
  "list_all is_digit ds \<Longrightarrow>
     dval ds = dval (trim_right_byte (CHR ''0'') ds) * 10 ^ (length ds - length (trim_right_byte (CHR ''0'') ds))"
proof (induction ds rule: rev_induct)
  case (snoc d ds)
  then show ?case using trim_right_length [of "CHR ''0''" ds]
    by (auto simp: trim_right_snoc Suc_diff_le)
qed simp

lemma digit_zero: "is_digit d \<Longrightarrow> byte d - 48 = 0 \<longleftrightarrow> d = CHR ''0''"
proof
  assume "is_digit d" "byte d - 48 = 0"
  then have "byte d = byte (CHR ''0'')" by (simp add: is_digit_def)
  then show "d = CHR ''0''" by (simp only: of_char_eq_iff)
qed simp

lemma trim_right_last:
  assumes "list_all is_digit ds" "trim_right_byte (CHR ''0'') ds \<noteq> []"
  shows "\<not> 10 dvd dval (trim_right_byte (CHR ''0'') ds)"
  using assms
proof (induction ds rule: rev_induct)
  case (snoc d ds)
  show ?case
  proof (cases "d = CHR ''0''")
    case False
    from snoc.prems have d: "is_digit d" by simp
    then have "byte d - 48 < 10" "byte d - 48 \<noteq> 0" using digit_zero [OF d] False by (auto simp: is_digit_def)
    then have "\<not> 10 dvd dval ds * 10 + (byte d - 48)" by presburger
    then have "\<not> 10 dvd dval (ds @ [d])" by simp
    with False show ?thesis by (simp add: trim_right_snoc del: dval_simps)
  qed (use snoc in \<open>simp add: trim_right_snoc\<close>)
qed simp

lemma trim_left_hd: "trim_left_byte c ds \<noteq> [] \<Longrightarrow> hd (trim_left_byte c ds) \<noteq> c"
  using hd_dropWhile [of "\<lambda>d. d = c" ds] by (simp add: trim_left_byte_def)

lemma trim_right_hd: "ds \<noteq> [] \<Longrightarrow> hd ds \<noteq> c \<Longrightarrow> trim_right_byte c ds \<noteq> [] \<and> hd (trim_right_byte c ds) = hd ds"
proof (induction ds rule: rev_induct)
  case (snoc d ds)
  then show ?case by (cases "ds = []") (simp_all add: trim_right_snoc trim_right_snoc [of c "[]", simplified])
qed simp

text \<open>A digit string without leading zeros is the decimal numeral of its value.\<close>

lemma format_dval:
  "list_all is_digit ds \<Longrightarrow> ds \<noteq> [] \<Longrightarrow> hd ds \<noteq> CHR ''0'' \<Longrightarrow> format_nat (dval ds) = ds"
proof (induction ds rule: rev_induct)
  case (snoc d ds)
  then have d: "is_digit d" by simp
  then have small: "byte d - 48 < 10" and c: "char_of (48 + (byte d - 48)) = d"
    by (auto simp: is_digit_def)
  show ?case
  proof (cases "ds = []")
    case True
    with small c d show ?thesis by (simp add: format_nat.simps [of "byte d - 48"])
  next
    case False
    with snoc have ih: "format_nat (dval ds) = ds" by simp
    have "dval ds \<noteq> 0"
    proof
      assume "dval ds = 0"
      with ih have "ds = [char_of (48::nat)]" by (simp add: format_nat.simps [of 0])
      moreover have "char_of (48::nat) = CHR ''0''" by code_simp
      ultimately have "ds = ''0''" by simp
      with snoc.prems False show False by simp
    qed
    moreover have "dval (ds @ [d]) = dval ds * 10 + (byte d - 48)" by simp
    ultimately show ?thesis using small c ih
      by (subst format_nat.simps) (simp add: div_mult_self3 add.commute)
  qed
qed simp

subsection \<open>The shape of a number\<close>

definition exponent_shape :: "string \<Rightarrow> bool" where
  "exponent_shape ep \<longleftrightarrow> ep = [] \<or> (\<exists>c q x. ep = c # q \<and> (c = CHR ''e'' \<or> c = CHR ''E'') \<and> big_int q = Some x \<and>
     list_all (\<lambda>d. is_digit d \<or> d = CHR ''+'' \<or> d = CHR ''-'') q)"

definition number_shape :: "string \<Rightarrow> bool \<Rightarrow> string \<Rightarrow> bool \<Rightarrow> string \<Rightarrow> string \<Rightarrow> bool" where
  "number_shape s neg ip dot fp ep \<longleftrightarrow>
     s = (if neg then ''-'' else []) @ ip @ (if dot then CHR ''.'' # fp else []) @ ep \<and>
     list_all is_digit ip \<and> ip \<noteq> [] \<and> list_all is_digit fp \<and> (\<not> dot \<longrightarrow> fp = []) \<and> exponent_shape ep"

lemma big_int_digits:
  assumes "list_all is_digit ds" "ds \<noteq> []"
  shows "big_int ds = Some (int (dval ds))" "big_int (CHR ''+'' # ds) = Some (int (dval ds))"
    "big_int (CHR ''-'' # ds) = Some (- int (dval ds))"
  using assms digits_not_sign [of "hd ds"] digits_val_dval [OF assms(1)]
  by (cases ds; simp add: big_int_def del: digits_val.simps)+

lemma takeWhile_digits: "list_all is_digit (takeWhile is_digit x)"
  by (induction x) auto

lemma exponent_shapeI:
  assumes "c = CHR ''e'' \<or> c = CHR ''E''" "list_all is_digit ds" "ds \<noteq> []"
  shows "exponent_shape (c # ds)" "exponent_shape (c # CHR ''+'' # ds)" "exponent_shape (c # CHR ''-'' # ds)"
  using assms big_int_digits [OF assms(2,3)] by (auto simp: exponent_shape_def list_all_iff)

lemma pexponent_shape:
  assumes "pexponent s = Some (ep, r)"
  shows "exponent_shape ep"
proof (cases s)
  case Nil
  with assms show ?thesis by (simp add: pexponent_def exponent_shape_def)
next
  case (Cons c s1)
  show ?thesis
  proof (cases "c = CHR ''e'' \<or> c = CHR ''E''")
    case True
    with assms Cons obtain d s2 where s1: "s1 = d # s2" by (cases s1) (auto simp: pexponent_def)
    show ?thesis
    proof (cases "d = CHR ''+'' \<or> d = CHR ''-''")
      case sign: True
      with assms Cons True s1 have "ep = c # d # takeWhile is_digit s2" "takeWhile is_digit s2 \<noteq> []"
        by (auto simp: pexponent_def split: if_splits)
      with sign exponent_shapeI [OF True takeWhile_digits, of s2] show ?thesis by auto
    next
      case False
      with assms Cons True s1 have "ep = c # takeWhile is_digit s1" "takeWhile is_digit s1 \<noteq> []"
        by (auto simp: pexponent_def simp del: takeWhile.simps split: if_splits)
      with exponent_shapeI [OF True takeWhile_digits, of s1] show ?thesis by simp
    qed
  next
    case False
    with assms Cons show ?thesis by (auto simp: pexponent_def exponent_shape_def)
  qed
qed

lemma punsigned_shape:
  assumes "punsigned s = Some (l, r)"
  shows "\<exists>ip dot fp ep. number_shape l False ip dot fp ep"
proof -
  from assms obtain ip r1 fpart r2 ep where p: "pinteger s = Some (ip, r1)" "pfraction r1 = Some (fpart, r2)"
    "pexponent r2 = Some (ep, r)" "l = ip @ fpart @ ep"
    by (auto simp: punsigned_def split: option.splits prod.splits)
  from p(1) have ip: "list_all is_digit ip" "ip \<noteq> []" using takeWhile_digits [of s]
    by (auto simp: pinteger_def is_digit_def split: list.splits if_splits)
  from p(2) have "\<exists>dot fp. fpart = (if dot then CHR ''.'' # fp else []) \<and> list_all is_digit fp \<and> (\<not> dot \<longrightarrow> fp = [])"
    using takeWhile_digits by (auto simp: pfraction_def split: list.splits if_splits)
  then obtain dot fp where "fpart = (if dot then CHR ''.'' # fp else [])" "list_all is_digit fp" "\<not> dot \<longrightarrow> fp = []" by blast
  with ip p(4) pexponent_shape [OF p(3)] have "number_shape l False ip dot fp ep" by (simp add: number_shape_def)
  then show ?thesis by blast
qed

lemma valid_number_shape:
  assumes "valid_number s"
  shows "\<exists>neg ip dot fp ep. number_shape s neg ip dot fp ep"
proof (cases s)
  case Nil
  with assms show ?thesis by (simp add: valid_number_def pnumber_def)
next
  case (Cons c r)
  show ?thesis
  proof (cases "c = CHR ''-''")
    case True
    with assms Cons have "punsigned r = Some (r, [])"
      by (auto simp: valid_number_def pnumber_def prepend_def split: option.splits prod.splits)
    from punsigned_shape [OF this] obtain ip dot fp ep where "number_shape r False ip dot fp ep" by blast
    then have "number_shape s True ip dot fp ep" using True Cons by (simp add: number_shape_def)
    then show ?thesis by blast
  next
    case False
    with assms Cons have "punsigned s = Some (s, [])" by (simp add: valid_number_def pnumber_def)
    from punsigned_shape [OF this] show ?thesis by blast
  qed
qed

subsection \<open>The value of a number\<close>

definition exponent_value :: "string \<Rightarrow> int" where
  "exponent_value ep = (case ep of [] \<Rightarrow> 0 | _ # q \<Rightarrow> the (big_int q))"

text \<open>
  The exact rational value: sign, integer digits, the digits after a point, and the power of ten.
\<close>

definition num_value :: "string \<Rightarrow> rat" where
  "num_value s =
     (let neg = has_prefix s ''-''; t = (if neg then tl s else s);
          ip = takeWhile is_digit t; r = dropWhile is_digit t;
          fp = (if has_prefix r ''.'' then takeWhile is_digit (tl r) else []);
          ep = (if has_prefix r ''.'' then dropWhile is_digit (tl r) else r)
      in (if neg then - 1 else 1) * (of_nat (dval ip) + of_nat (dval fp) / 10 ^ length fp) * 10 powi exponent_value ep)"

text \<open>Neither function sees more of a number than its shape.\<close>

lemma shape_prefix: "number_shape s neg ip dot fp ep \<Longrightarrow> has_prefix s ''-'' = neg"
  using digits_not_sign [of "hd ip"] by (cases ip) (auto simp: number_shape_def has_prefix_def)

lemma exponent_shape_hd: "exponent_shape ep \<Longrightarrow> ep = [] \<or> (\<not> is_digit (hd ep) \<and> hd ep \<noteq> CHR ''.'')"
  by (auto simp: exponent_shape_def is_digit_def)

lemma takeWhile_stop:
  assumes "list_all P xs" "ys = [] \<or> \<not> P (hd ys)"
  shows "takeWhile P (xs @ ys) = xs" "dropWhile P (xs @ ys) = ys"
  using assms by (induction xs; cases ys; auto)+

lemma num_value_shape:
  assumes "number_shape s neg ip dot fp ep"
  shows "num_value s = (if neg then - 1 else 1) * of_nat (dval (ip @ fp)) * 10 powi (exponent_value ep - int (length fp))"
proof -
  let ?r = "(if dot then CHR ''.'' # fp else []) @ ep"
  from assms have sh: "s = (if neg then ''-'' else []) @ ip @ ?r" "list_all is_digit ip" "list_all is_digit fp"
    "\<not> dot \<longrightarrow> fp = []" "exponent_shape ep" by (auto simp: number_shape_def)
  note hd = exponent_shape_hd [OF sh(5)]
  have t: "(if neg then tl s else s) = ip @ ?r" using sh(1) by simp
  have "?r = [] \<or> \<not> is_digit (hd ?r)" using hd by (auto simp: is_digit_def)
  note tw = takeWhile_stop [OF sh(2) this]
  have dot: "has_prefix ?r ''.'' = dot" using hd by (cases ep) (auto simp: has_prefix_def)
  have "takeWhile is_digit (fp @ ep) = fp" "dropWhile is_digit (fp @ ep) = ep"
    using takeWhile_stop [OF sh(3), of ep] hd by auto
  with dot sh(4) have "(if has_prefix ?r ''.'' then takeWhile is_digit (tl ?r) else []) = fp"
    "(if has_prefix ?r ''.'' then dropWhile is_digit (tl ?r) else ?r) = ep" by auto
  then have "num_value s = (if neg then - 1 else 1) * (of_nat (dval ip) + of_nat (dval fp) / 10 ^ length fp) * 10 powi exponent_value ep"
    unfolding num_value_def Let_def shape_prefix [OF assms] t tw by simp
  moreover have "of_nat (dval ip) + of_nat (dval fp) / 10 ^ length fp = (of_nat (dval (ip @ fp)) / 10 ^ length fp :: rat)"
    by (simp add: dval_append field_simps)
  ultimately show ?thesis by (simp add: power_int_diff)
qed

lemma lower_plain: "list_all (\<lambda>c. is_digit c \<or> c = CHR ''+'' \<or> c = CHR ''-'' \<or> c = CHR ''.'') s \<Longrightarrow> to_lower s = s"
  by (induction s) (auto simp: to_lower_def to_lower_byte_def is_upper_def is_digit_def)

lemma cut_at_first: "c \<notin> set xs \<Longrightarrow> cut_at c (xs @ c # ys) = (xs, ys, True)"
proof -
  assume "c \<notin> set xs"
  then have "takeWhile (\<lambda>d. d \<noteq> c) (xs @ c # ys) = xs" "dropWhile (\<lambda>d. d \<noteq> c) (xs @ c # ys) = c # ys"
    by (induction xs) auto
  then show ?thesis unfolding cut_at_def by simp
qed

lemma canonical_shape:
  assumes "number_shape s neg ip dot fp ep"
  shows "canonicalV2JSONNumber s =
    (let d = trim_left_byte (CHR ''0'') (ip @ fp); t = trim_right_byte (CHR ''0'') d in
     if d = [] then Some ''0''
     else Some ((if neg then ''-'' else []) @ t @ ''e'' @
       format_int (exponent_value ep - int (length fp) + int (length d - length t))))"
proof -
  let ?m = "ip @ (if dot then CHR ''.'' # fp else [])"
  from assms have sh: "s = (if neg then ''-'' else []) @ ?m @ ep" "list_all is_digit ip" "list_all is_digit fp"
    "\<not> dot \<longrightarrow> fp = []" "exponent_shape ep" by (auto simp: number_shape_def)
  have dig: "list_all is_digit xs \<Longrightarrow> \<not> is_digit c \<Longrightarrow> c \<notin> set xs" for xs c by (auto simp: list_all_iff)
  have nd: "\<not> is_digit (CHR ''e'')" "\<not> is_digit (CHR ''.'')" by (simp_all add: is_digit_def)
  have m: "to_lower ?m = ?m" by (rule lower_plain) (use sh(2,3) in \<open>auto simp: list_all_iff\<close>)
  have e_free: "CHR ''e'' \<notin> set ?m" using dig [OF sh(2) nd(1)] dig [OF sh(3) nd(1)] by simp
  have "\<exists>x h. cut_at (CHR ''e'') (to_lower (?m @ ep)) = (?m, x, h) \<and> (if h then big_int x else Some 0) = Some (exponent_value ep)"
  proof (cases "ep = []")
    case True
    then show ?thesis using m cut_at_plain [OF e_free] by (simp add: exponent_value_def) blast
  next
    case False
    with sh(5) obtain c q x where ep: "ep = c # q" "c = CHR ''e'' \<or> c = CHR ''E''" "big_int q = Some x"
      "list_all (\<lambda>d. is_digit d \<or> d = CHR ''+'' \<or> d = CHR ''-'') q" by (auto simp: exponent_shape_def)
    have "to_lower q = q" by (rule lower_plain) (use ep(4) in \<open>auto simp: list_all_iff\<close>)
    moreover have "to_lower_byte (CHR ''e'') = CHR ''e''" "to_lower_byte (CHR ''E'') = CHR ''e''" by code_simp+
    ultimately have "to_lower (?m @ ep) = ?m @ CHR ''e'' # q" using ep(1,2) m by (auto simp: to_lower_def)
    with cut_at_first [OF e_free] ep show ?thesis by (auto simp: exponent_value_def)
  qed
  then obtain x h where e: "cut_at (CHR ''e'') (to_lower (?m @ ep)) = (?m, x, h)"
    "(if h then big_int x else Some 0) = Some (exponent_value ep)" by blast
  have dot: "cut_at (CHR ''.'') ?m = (ip, fp, dot)"
  proof (cases dot)
    case True
    then show ?thesis using cut_at_first [OF dig [OF sh(2) nd(2)], of fp] by simp
  next
    case False
    then show ?thesis using cut_at_plain [OF dig [OF sh(2) nd(2)]] sh(4) by simp
  qed
  have u: "(if neg then tl s else s) = ?m @ ep" using sh(1) by simp
  show ?thesis
    unfolding canonicalV2JSONNumber_def Let_def shape_prefix [OF assms] u e dot prod.case option.case
    using sh(4) by (cases dot) simp_all
qed

subsection \<open>Canonical spellings and values determine each other\<close>

text \<open>The canonical triple: sign, digits without zeros at either end, exponent; \<open>None\<close> is zero.\<close>

definition triple :: "bool \<Rightarrow> string \<Rightarrow> string \<Rightarrow> string \<Rightarrow> (bool \<times> string \<times> int) option" where
  "triple neg ip fp ep =
     (let d = trim_left_byte (CHR ''0'') (ip @ fp); t = trim_right_byte (CHR ''0'') d in
      if d = [] then None else Some (neg, t, exponent_value ep - int (length fp) + int (length d - length t)))"

definition triple_text :: "(bool \<times> string \<times> int) option \<Rightarrow> string" where
  "triple_text x = (case x of None \<Rightarrow> ''0'' | Some (neg, t, e) \<Rightarrow> (if neg then ''-'' else []) @ t @ ''e'' @ format_int e)"

definition triple_value :: "(bool \<times> string \<times> int) option \<Rightarrow> rat" where
  "triple_value x = (case x of None \<Rightarrow> 0 | Some (neg, t, e) \<Rightarrow> (if neg then - 1 else 1) * of_nat (dval t) * 10 powi e)"

definition triple_ok :: "(bool \<times> string \<times> int) option \<Rightarrow> bool" where
  "triple_ok x = (case x of None \<Rightarrow> True | Some (neg, t, e) \<Rightarrow>
     list_all is_digit t \<and> t \<noteq> [] \<and> hd t \<noteq> CHR ''0'' \<and> \<not> 10 dvd dval t)"

lemma triple_canonical:
  "number_shape s neg ip dot fp ep \<Longrightarrow> canonicalV2JSONNumber s = Some (triple_text (triple neg ip fp ep))"
  by (simp add: canonical_shape triple_def triple_text_def Let_def)

lemma triple_is_ok:
  assumes "number_shape s neg ip dot fp ep"
  shows "triple_ok (triple neg ip fp ep)"
proof -
  have d: "list_all is_digit (trim_left_byte (CHR ''0'') (ip @ fp))"
    using assms by (intro digits_trim) (simp add: number_shape_def)
  let ?d = "trim_left_byte (CHR ''0'') (ip @ fp)"
  show ?thesis
  proof (cases "?d = []")
    case False
    from trim_right_hd [OF False trim_left_hd [OF False]] trim_left_hd [OF False] digits_trim(2) [OF d] trim_right_last [OF d]
    show ?thesis using False by (simp add: triple_def triple_ok_def Let_def)
  qed (simp add: triple_def triple_ok_def)
qed

lemma triple_num_value:
  assumes "number_shape s neg ip dot fp ep"
  shows "num_value s = triple_value (triple neg ip fp ep)"
proof -
  let ?d = "trim_left_byte (CHR ''0'') (ip @ fp)" and ?t = "trim_right_byte (CHR ''0'') (trim_left_byte (CHR ''0'') (ip @ fp))"
  have dig: "list_all is_digit (ip @ fp)" using assms by (simp add: number_shape_def)
  have "dval (ip @ fp) = dval ?d" using dval_trim_left [OF dig] by simp
  also have "\<dots> = dval ?t * 10 ^ (length ?d - length ?t)" by (rule dval_trim_right [OF digits_trim(1) [OF dig]])
  finally have v: "dval (ip @ fp) = dval ?t * 10 ^ (length ?d - length ?t)" .
  show ?thesis
  proof (cases "?d = []")
    case True
    with v show ?thesis by (simp add: num_value_shape [OF assms] triple_def triple_value_def)
  next
    case False
    let ?e = "exponent_value ep - int (length fp)" and ?k = "length ?d - length ?t"
    have "(10 powi (?e + int ?k) :: rat) = 10 powi ?e * 10 ^ ?k" by (simp add: power_int_add)
    with False show ?thesis
      unfolding num_value_shape [OF assms] triple_def triple_value_def v Let_def by (simp add: mult.assoc mult.commute)
  qed
qed

text \<open>A nonzero decimal has one representation without trailing zeros.\<close>

lemma decimal_unique:
  assumes "\<not> 10 dvd m" "\<not> 10 dvd m'" "of_nat m * 10 powi e = (of_nat m' * 10 powi e' :: rat)"
  shows "m = m' \<and> e = e'"
proof -
  have le: "e \<le> e' \<Longrightarrow> m = m' \<and> e = e'"
    if "\<not> 10 dvd m" "\<not> 10 dvd m'" "of_nat m * 10 powi e = (of_nat m' * 10 powi e' :: rat)" for m m' e e'
  proof -
    assume "e \<le> e'"
    then obtain k where k: "e' = e + int k" by (metis zle_iff_zadd)
    have "of_nat m * 10 powi e = (of_nat m' * 10 ^ k) * (10 powi e :: rat)"
      using that(3) k by (simp add: power_int_add algebra_simps)
    then have "of_nat m = (of_nat (m' * 10 ^ k) :: rat)" by simp
    then have "m = m' * 10 ^ k" by (simp only: of_nat_eq_iff)
    with that(1,2) k show ?thesis by (cases k) auto
  qed
  show ?thesis
  proof (cases "e \<le> e'")
    case True
    then show ?thesis using le [OF assms] by blast
  next
    case False
    then have "e' \<le> e" by simp
    from le [OF assms(2,1) assms(3) [symmetric] this] show ?thesis by simp
  qed
qed

lemma triple_value_zero:
  assumes "triple_ok (Some (neg, t, e))"
  shows "triple_value (Some (neg, t, e)) \<noteq> 0"
proof -
  from assms have "dval t \<noteq> 0" by (auto simp: triple_ok_def intro: ccontr)
  then show ?thesis by (simp add: triple_value_def)
qed

lemma triple_value_inject:
  assumes "triple_ok x" "triple_ok y" "triple_value x = triple_value y"
  shows "x = y"
proof (cases x)
  case None
  then show ?thesis using assms triple_value_zero by (cases y) (fastforce simp: triple_value_def)+
next
  case (Some a)
  obtain n t e where a: "x = Some (n, t, e)" using Some by (cases a) auto
  have "y \<noteq> None"
  proof
    assume "y = None"
    with assms a triple_value_zero [of n t e] show False by (simp add: triple_value_def)
  qed
  then obtain n' t' e' where b: "y = Some (n', t', e')" by auto
  from assms a b have ok: "list_all is_digit t" "t \<noteq> []" "hd t \<noteq> CHR ''0''" "\<not> 10 dvd dval t"
    "list_all is_digit t'" "t' \<noteq> []" "hd t' \<noteq> CHR ''0''" "\<not> 10 dvd dval t'" by (auto simp: triple_ok_def)
  have pos: "0 < (of_nat (dval u) * 10 powi k :: rat)" if "\<not> 10 dvd dval u" for u k
    using that by (cases "dval u") (auto simp: zero_less_power_int)
  from assms(3) a b have eq: "(if n then - 1 else 1) * (of_nat (dval t) * 10 powi e) = (if n' then - 1 else 1) * (of_nat (dval t') * 10 powi e' :: rat)"
    by (simp add: triple_value_def mult.assoc)
  have "n = n'"
  proof (rule ccontr)
    assume "n \<noteq> n'"
    with eq have "of_nat (dval t) * 10 powi e = - (of_nat (dval t') * 10 powi e' :: rat)" by (cases n) auto
    with pos [OF ok(4), of e] pos [OF ok(8), of e'] show False by linarith
  qed
  with eq have "of_nat (dval t) * 10 powi e = (of_nat (dval t') * 10 powi e' :: rat)" by (cases n) auto
  from decimal_unique [OF ok(4,8) this] have "dval t = dval t'" "e = e'" by auto
  moreover from this(1) format_dval [OF ok(1-3)] format_dval [OF ok(5-7)] have "t = t'" by metis
  ultimately show ?thesis using a b \<open>n = n'\<close> by simp
qed

lemma format_int_eq: "format_int i = format_int j \<Longrightarrow> i = j"
proof -
  have neg: "hd (format_nat n) \<noteq> CHR ''-''" for n
    using format_nat_digits [of "hd (format_nat n)" n] digits_not_sign by simp
  have inj: "format_nat m = format_nat n \<Longrightarrow> m = n" for m n
    by (metis digits_val_format_nat option.inject)
  assume "format_int i = format_int j"
  then show ?thesis
    using neg [of "nat i"] neg [of "nat j"] by (auto simp: format_int_def dest!: inj split: if_splits) (metis list.sel(1))+
qed

lemma digits_e_split:
  assumes "list_all is_digit t" "list_all is_digit t'" "t @ CHR ''e'' # r = t' @ CHR ''e'' # r'"
  shows "t = t' \<and> r = r'"
proof -
  have "\<not> is_digit (CHR ''e'')" by (simp add: is_digit_def)
  with takeWhile_stop [OF assms(1), of "CHR ''e'' # r"] takeWhile_stop [OF assms(2), of "CHR ''e'' # r'"] assms(3)
  show ?thesis by auto
qed

lemma triple_text_inject:
  assumes "triple_ok x" "triple_ok y" "triple_text x = triple_text y"
  shows "x = y"
proof -
  have e: "CHR ''e'' \<in> set (triple_text (Some p))" for p by (cases p) (simp add: triple_text_def)
  have z: "CHR ''e'' \<notin> set (triple_text None)" by (simp add: triple_text_def)
  show ?thesis
  proof (cases x)
    case None
    then show ?thesis using assms(3) e z by (cases y) metis+
  next
    case (Some p)
    with assms(3) e z obtain q where y: "y = Some q" by (cases y) metis+
    obtain n t k n' t' k' where pq: "p = (n, t, k)" "q = (n', t', k')" by (cases p, cases q) auto
    from assms Some y pq have ok: "list_all is_digit t" "t \<noteq> []" "list_all is_digit t'" "t' \<noteq> []" by (auto simp: triple_ok_def)
    have "hd t \<noteq> CHR ''-''" "hd t' \<noteq> CHR ''-''" using ok digits_not_sign by (cases t; cases t'; auto)+
    moreover from assms(3) Some y pq have eq: "(if n then ''-'' else []) @ t @ CHR ''e'' # format_int k = (if n' then ''-'' else []) @ t' @ CHR ''e'' # format_int k'"
      by (simp add: triple_text_def)
    ultimately have "n = n'" using ok by (cases t; cases t'; auto split: if_splits)
    with eq have "t @ CHR ''e'' # format_int k = t' @ CHR ''e'' # format_int k'" by simp
    from digits_e_split [OF ok(1,3) this] format_int_eq have "t = t'" "k = k'" by auto
    with Some y pq \<open>n = n'\<close> show ?thesis by simp
  qed
qed

lemma equal_numbers:
  assumes "valid_number l" "valid_number r"
  shows "equalV2JSONNumbers l r \<longleftrightarrow> num_value l = num_value r"
proof -
  from valid_number_shape [OF assms(1)] obtain n ip dot fp ep where l: "number_shape l n ip dot fp ep" by blast
  from valid_number_shape [OF assms(2)] obtain n' ip' dot' fp' ep' where r: "number_shape r n' ip' dot' fp' ep'" by blast
  let ?x = "triple n ip fp ep" and ?y = "triple n' ip' fp' ep'"
  note ok = triple_is_ok [OF l] triple_is_ok [OF r]
  have "equalV2JSONNumbers l r \<longleftrightarrow> triple_text ?x = triple_text ?y"
    by (simp add: equalV2JSONNumbers_def triple_canonical [OF l] triple_canonical [OF r])
  also have "\<dots> \<longleftrightarrow> ?x = ?y" using triple_text_inject [OF ok] by auto
  also have "\<dots> \<longleftrightarrow> triple_value ?x = triple_value ?y" using triple_value_inject [OF ok] by auto
  finally show ?thesis by (simp add: triple_num_value [OF l] triple_num_value [OF r])
qed

subsection \<open>What a JSON tree denotes\<close>

datatype denotation = MNull | MBool bool | MStr string | MNum rat | MArr "denotation list" | MObj "string \<Rightarrow> denotation option"

fun meaning :: "json \<Rightarrow> denotation" where
  "meaning JNull = MNull"
| "meaning (JBool b) = MBool b"
| "meaning (JStr s) = MStr s"
| "meaning (JNum n) = MNum (num_value n)"
| "meaning (JArr vs) = MArr (map meaning vs)"
| "meaning (JObj kvs) = MObj (map_of (map (\<lambda>(k, v). (k, meaning v)) kvs))"

lemma map_of_meaning: "map_of (map (\<lambda>(k, v). (k, f v)) kvs) = map_option f \<circ> map_of kvs"
  by (induction kvs) auto

text \<open>With distinct keys and equally many members, inclusion of members is equality.\<close>

lemma members_equal:
  assumes "distinct (map fst ls)" "distinct (map fst rs)"
  shows "(length ls = length rs \<and> (\<forall>(k, x)\<in>set ls. \<exists>y. map_of rs k = Some y \<and> f x = f y)) \<longleftrightarrow>
    map_option f \<circ> map_of ls = map_option f \<circ> map_of rs"
proof
  assume h: "length ls = length rs \<and> (\<forall>(k, x)\<in>set ls. \<exists>y. map_of rs k = Some y \<and> f x = f y)"
  then have sub: "set (map fst ls) \<subseteq> set (map fst rs)" by (force dest: map_of_SomeD)
  have "set (map fst ls) = set (map fst rs)"
    by (rule card_subset_eq [OF _ sub]) (use assms h in \<open>simp_all only: distinct_card length_map finite_set\<close>)
  then have dom: "dom (map_of ls) = dom (map_of rs)" by (simp add: dom_map_of_conv_image_fst)
  show "map_option f \<circ> map_of ls = map_option f \<circ> map_of rs"
  proof
    fix k
    show "(map_option f \<circ> map_of ls) k = (map_option f \<circ> map_of rs) k"
    proof (cases "map_of ls k")
      case None
      then show ?thesis using dom by (metis comp_apply domIff)
    next
      case (Some x)
      then show ?thesis using h map_of_SomeD [OF Some] by force
    qed
  qed
next
  assume h: "map_option f \<circ> map_of ls = map_option f \<circ> map_of rs"
  then have k: "map_option f (map_of ls k) = map_option f (map_of rs k)" for k by (metis comp_apply)
  have "k \<in> dom (map_of ls) \<longleftrightarrow> k \<in> dom (map_of rs)" for k
    using k [of k] by (cases "map_of ls k"; cases "map_of rs k") auto
  then have "dom (map_of ls) = dom (map_of rs)" by blast
  then have "set (map fst ls) = set (map fst rs)" by (simp add: dom_map_of_conv_image_fst)
  with assms have "length ls = length rs" by (metis distinct_card length_map)
  moreover have "\<exists>y. map_of rs a = Some y \<and> f x = f y" if "(a, x) \<in> set ls" for a x
    using k [of a] that assms(1) by (cases "map_of rs a") auto
  ultimately show "length ls = length rs \<and> (\<forall>(k, x)\<in>set ls. \<exists>y. map_of rs k = Some y \<and> f x = f y)" by auto
qed

lemma zip_map_eq: "length ls = length rs \<and> list_all (\<lambda>(x, y). f x = f y) (zip ls rs) \<longleftrightarrow> map f ls = map f rs"
proof (induction ls arbitrary: rs)
  case (Cons x xs)
  then show ?case by (cases rs) auto
qed auto

lemma equal_meaning: "json_wf l \<Longrightarrow> json_wf r \<Longrightarrow> equalV2JSON l r \<longleftrightarrow> meaning l = meaning r"
proof (induction l r rule: equalV2JSON.induct)
  case (4 n r)
  then show ?case by (cases r) (auto simp: equal_numbers)
next
  case (5 ls r)
  then show ?case
  proof (cases r)
    case (JArr rs)
    have "equalV2JSON x y \<longleftrightarrow> meaning x = meaning y" if "(x, y) \<in> set (zip ls rs)" for x y
      using 5 JArr that set_zip_leftD [OF that] set_zip_rightD [OF that] by (auto simp: list_all_iff)
    then have "list_all (\<lambda>(x, y). equalV2JSON x y) (zip ls rs) \<longleftrightarrow> list_all (\<lambda>(x, y). meaning x = meaning y) (zip ls rs)"
      unfolding list_all_iff by blast
    then show ?thesis using JArr zip_map_eq [of ls rs meaning] by simp
  qed auto
next
  case (6 ls r)
  then show ?case
  proof (cases r)
    case (JObj rs)
    have "list_all (\<lambda>(k, x). case map_of rs k of None \<Rightarrow> False | Some y \<Rightarrow> equalV2JSON x y) ls \<longleftrightarrow>
      (\<forall>(k, x)\<in>set ls. \<exists>y. map_of rs k = Some y \<and> meaning x = meaning y)"
    proof -
      have "(case map_of rs k of None \<Rightarrow> False | Some y \<Rightarrow> equalV2JSON x y) \<longleftrightarrow> (\<exists>y. map_of rs k = Some y \<and> meaning x = meaning y)"
        if m: "(k, x) \<in> set ls" for k x
      proof (cases "map_of rs k")
        case (Some y)
        with 6(1) [OF JObj m refl Some] 6(2,3) m JObj map_of_SomeD [OF Some] show ?thesis by (auto simp: list_all_iff)
      qed simp
      then show ?thesis unfolding list_all_iff by blast
    qed
    then show ?thesis using JObj 6(2,3) members_equal [of ls rs meaning] by (simp add: map_of_meaning)
  qed auto
qed (auto; case_tac r; simp)+

end
