(* ===== verification/SemanticProps.thy ===== *)
theory SemanticProps
  imports SemanticLaws "HOL-Library.Code_Target_Numeral"
begin

text \<open>The property of the comparison of \<open>vars_json\<close>, with two spellings of one document as witness.\<close>

text \<open>
  C40: Two authored \<open>vars_json\<close> strings that are strict JSON objects are semantically equal
  exactly when they denote the same: objects as finite maps, numbers as exact rationals, whatever
  the order of members, the white space, the escapes and the spelling of numbers. In particular
  the comparison is an equivalence relation on them, so a plan that only respells the document
  shows no difference, and one that changes it always does.
\<close>

theorem vars_comparison_exact:
  assumes "decodeV2VarsJSON a = Some l" "decodeV2VarsJSON b = Some r"
  shows "StringSemanticEquals (TVal a) (Some (TVal b)) = Some (meaning l = meaning r)"
proof -
  have wf: "json_wf v" if "decodeV2VarsJSON s = Some v" for s v
    using that by (auto simp: decodeV2VarsJSON_def dest: decode_wf split: sum.splits json.splits)
  from equal_meaning [OF wf [OF assms(1)] wf [OF assms(2)]] assms show ?thesis
    by (simp add: StringSemanticEquals_def)
qed

definition vars_one :: json where "vars_one = JObj [(''a'', JNum ''1.50''), (''b'', JNull)]"
definition vars_two :: json where "vars_two = JObj [(''b'', JNull), (''a'', JNum ''15e-1'')]"

lemma vars_decode:
  "decodeV2VarsJSON (json_text vars_one) = Some vars_one" "decodeV2VarsJSON (json_text vars_two) = Some vars_two"
proof -
  have "json_wf vars_one" "json_depth vars_one \<le> 10000" "json_wf vars_two" "json_depth vars_two \<le> 10000"
    by code_simp+
  then have "decode (json_text vars_one) = Inr vars_one" "decode (json_text vars_two) = Inr vars_two"
    by (auto intro: decode_json_text)
  then show "decodeV2VarsJSON (json_text vars_one) = Some vars_one" "decodeV2VarsJSON (json_text vars_two) = Some vars_two"
    by (simp_all add: decodeV2VarsJSON_def vars_one_def vars_two_def)
qed

lemma vars_numbers: "num_value ''1.50'' = num_value ''15e-1''"
proof -
  have "canonicalV2JSONNumber ''1.50'' = canonicalV2JSONNumber ''15e-1''" "canonicalV2JSONNumber ''1.50'' \<noteq> None"
    and v: "valid_number ''1.50''" "valid_number ''15e-1''" by code_simp+
  then have "equalV2JSONNumbers ''1.50'' ''15e-1''" by (auto simp: equalV2JSONNumbers_def)
  then show ?thesis using equal_numbers [OF v] by simp
qed

theorem vars_comparison_exact_witness:
  "StringSemanticEquals (TVal (json_text vars_one)) (Some (TVal (json_text vars_two))) = Some True"
proof -
  have "meaning vars_one = meaning vars_two"
    using vars_numbers by (simp add: vars_one_def vars_two_def fun_upd_twist)
  with vars_comparison_exact [OF vars_decode] show ?thesis by simp
qed

end
