(* ===== verification/SpecWire.thy ===== *)
theory SpecWire
  imports JsonSemantic EdgeSpec
begin

text \<open>
  \<open>provider/v2_schema.go\<close> and \<open>provider/v2_spec_state.go\<close>: the typed Terraform schema of the
  thirteen Forms and the conversion of a typed spec to and from its JSON. An attribute keeps of
  the framework's schema what the conversions look at, with whether it is required, optional or
  has a default. Go maps are walked in any order; here in
  the order of the schema, which fixes the error reported when several attributes are wrong.
\<close>

subsection \<open>Typed values\<close>

datatype attr =
    AString "string tf"
  | AJson "string tf"
  | AInt64 "int tf"
  | ABool "bool tf"
  | AObject "(string \<times> attr) list tf"
  | AList "attr list tf"
  | ASet "attr list tf"

fun attr_unknown :: "attr \<Rightarrow> bool" where
  "attr_unknown (AString v) = tf_unknown v"
| "attr_unknown (AJson v) = tf_unknown v"
| "attr_unknown (AInt64 v) = tf_unknown v"
| "attr_unknown (ABool v) = tf_unknown v"
| "attr_unknown (AObject v) = tf_unknown v"
| "attr_unknown (AList v) = tf_unknown v"
| "attr_unknown (ASet v) = tf_unknown v"

fun attr_null :: "attr \<Rightarrow> bool" where
  "attr_null (AString v) = tf_null v"
| "attr_null (AJson v) = tf_null v"
| "attr_null (AInt64 v) = tf_null v"
| "attr_null (ABool v) = tf_null v"
| "attr_null (AObject v) = tf_null v"
| "attr_null (AList v) = tf_null v"
| "attr_null (ASet v) = tf_null v"

subsection \<open>Schema\<close>

text \<open>
  Whether an attribute must be given: \<open>Required: true\<close>, \<open>Optional: true\<close>, or optional and computed
  with a static \<open>Default\<close>, which the framework puts in place of a null in the plan.
\<close>

datatype presence = Required | Optional | Default attr

datatype attribute =
    StringAttribute | JSONAttribute | Int64Attribute | BoolAttribute
  | SingleNestedAttribute "(string \<times> presence \<times> attribute) list"
  | ListAttribute | SetAttribute
  | ListNestedAttribute "(string \<times> presence \<times> attribute) list"
  | SetNestedAttribute "(string \<times> presence \<times> attribute) list"

type_synonym attributes = "(string \<times> presence \<times> attribute) list"

record v2FormDef =
  fd_typeName :: string
  fd_form :: string
  fd_spec :: "attributes option"

definition given :: "bool \<Rightarrow> presence" where
  "given required = (if required then Required else Optional)"

definition v2String :: "bool \<Rightarrow> presence \<times> attribute" where "v2String required = (given required, StringAttribute)"
definition v2Int :: "bool \<Rightarrow> presence \<times> attribute" where "v2Int required = (given required, Int64Attribute)"
definition v2Bool :: "bool \<Rightarrow> presence \<times> attribute" where "v2Bool required = (given required, BoolAttribute)"

definition v2Ref :: "presence \<times> attribute" where
  "v2Ref = (Required, SingleNestedAttribute [(''resource_uid'', v2String True)])"

definition v2OptionalRef :: "presence \<times> attribute" where
  "v2OptionalRef = (Optional, SingleNestedAttribute [(''resource_uid'', v2String True)])"

definition v2Artifact :: "presence \<times> attribute" where
  "v2Artifact = (Required, SingleNestedAttribute [(''url'', v2String True), (''sha256'', v2String True)])"

definition v2JSONString :: "presence \<times> attribute" where
  "v2JSONString = (Default (AJson (TVal ''{}'')), JSONAttribute)"

definition v2EmptySetDefault :: presence where
  "v2EmptySetDefault = Default (ASet (TVal []))"

definition v2SetString :: "bool \<Rightarrow> bool \<Rightarrow> presence \<times> attribute" where
  "v2SetString required defaultEmpty = (if defaultEmpty then v2EmptySetDefault else given required, SetAttribute)"

definition v2Binding :: "presence \<times> attribute" where
  "v2Binding = (v2EmptySetDefault, SetNestedAttribute [(''name'', v2String True), (''resource'', v2Ref)])"

definition v2Forms :: "v2FormDef list" where
  "v2Forms =
     [\<lparr>fd_typeName = ''takoform_module_worker'', fd_form = ModuleWorkerURL, fd_spec = None\<rparr>,
      \<lparr>fd_typeName = ''takoform_worker_bundle'', fd_form = WorkerBundleURL, fd_spec = Some [(''artifact'', v2Artifact)]\<rparr>,
      \<lparr>fd_typeName = ''takoform_worker_version'', fd_form = WorkerVersionURL, fd_spec = Some
        [(''worker'', v2Ref), (''bundle'', v2OptionalRef), (''handlers'', v2SetString True False), (''vars_json'', v2JSONString),
         (''required_sensitive_vars'', v2SetString False True), (''kv_bindings'', v2Binding), (''sqlite_bindings'', v2Binding),
         (''bucket_bindings'', v2Binding), (''queue_producer_bindings'', v2Binding), (''service_bindings'', v2Binding),
         (''actor_bindings'', v2Binding), (''workflow_bindings'', v2Binding),
         (''assets'', Optional, SingleNestedAttribute [(''bundle'', v2Ref), (''run_worker_first'', v2Bool True),
            (''not_found_handling'', v2String True)])]\<rparr>,
      \<lparr>fd_typeName = ''takoform_worker_deployment'', fd_form = WorkerDeploymentURL, fd_spec = Some
        [(''worker'', v2Ref), (''versions'', Required, SetNestedAttribute [(''worker_version'', v2Ref), (''weight'', v2Int True)])]\<rparr>,
      \<lparr>fd_typeName = ''takoform_worker_endpoint'', fd_form = WorkerEndpointURL, fd_spec = Some [(''worker'', v2Ref)]\<rparr>,
      \<lparr>fd_typeName = ''takoform_worker_cron_trigger'', fd_form = WorkerCronTriggerURL, fd_spec = Some
        [(''worker'', v2Ref), (''cron'', v2String True)]\<rparr>,
      \<lparr>fd_typeName = ''takoform_edge_kv_namespace'', fd_form = EdgeKVNamespaceURL, fd_spec = None\<rparr>,
      \<lparr>fd_typeName = ''takoform_edge_object_bucket'', fd_form = ObjectBucketURL, fd_spec = None\<rparr>,
      \<lparr>fd_typeName = ''takoform_sqlite_database'', fd_form = SQLiteDatabaseURL, fd_spec = None\<rparr>,
      \<lparr>fd_typeName = ''takoform_sqlite_migration_set'', fd_form = SQLiteMigrationSetURL, fd_spec = Some [(''artifact'', v2Artifact)]\<rparr>,
      \<lparr>fd_typeName = ''takoform_sqlite_migration_application'', fd_form = SQLiteMigrationApplicationURL, fd_spec = Some
        [(''database'', v2Ref), (''migration_set'', v2Ref)]\<rparr>,
      \<lparr>fd_typeName = ''takoform_at_least_once_queue'', fd_form = AtLeastOnceQueueURL, fd_spec = Some
        [(''delivery_delay_seconds'', Default (AInt64 (TVal 0)), Int64Attribute), (''message_retention_seconds'', v2Int True)]\<rparr>,
      \<lparr>fd_typeName = ''takoform_queue_consumer'', fd_form = QueueConsumerURL, fd_spec = Some
        [(''queue'', v2Ref), (''worker'', v2Ref), (''max_batch_size'', v2Int True),
         (''max_batch_timeout_seconds'', v2Int True), (''max_concurrency'', v2Int True),
         (''max_retries'', v2Int True), (''retry_delay_seconds'', v2Int True), (''dead_letter_queue'', v2OptionalRef)]\<rparr>]"

text \<open>Attribute names have no empty part between underscores.\<close>

definition upper_first :: "string \<Rightarrow> string" where
  "upper_first p = (case p of [] \<Rightarrow> [] | c # cs \<Rightarrow> (if is_lower c then char_of (byte c - 32) else c) # cs)"

definition v2WireName :: "string \<Rightarrow> string" where
  "v2WireName hcl =
     (if hcl = ''vars_json'' then ''vars''
      else let parts = split_on (CHR ''_'') hcl in hd parts @ concat (map upper_first (tl parts)))"

subsection \<open>To JSON\<close>

definition item_attribute :: "attribute \<Rightarrow> attribute" where
  "item_attribute a = (case a of ListNestedAttribute as \<Rightarrow> SingleNestedAttribute as
     | SetNestedAttribute as \<Rightarrow> SingleNestedAttribute as | _ \<Rightarrow> StringAttribute)"

text \<open>A value handed to \<open>Marshal\<close>: reflection sees what the interface holds.\<close>

definition go_arg :: "json \<Rightarrow> goval" where
  "go_arg v = (case go_any v of GIface (Some x) \<Rightarrow> x | _ \<Rightarrow> GInvalid)"

text \<open>
  Sorting by the marshalled text; it is asked for only when there are two elements to compare,
  and then for every element.
\<close>

definition wire_text :: "json \<Rightarrow> string" where
  "wire_text v = (case marshal (go_arg v) of Inl _ \<Rightarrow> [] | Inr s \<Rightarrow> s)"

definition sort_wire :: "json list \<Rightarrow> string + json list" where
  "sort_wire out =
     (if 2 \<le> length out \<and> \<not> list_all (\<lambda>v. ok (marshal (go_arg v))) out
      then Inl ''unordered collection cannot be encoded as strict JSON''
      else Inr (sort_key wire_text out))"

definition vars_to_wire :: "attr \<Rightarrow> string + json" where
  "vars_to_wire item =
     (case item of
        AString v \<Rightarrow> (case decode (tf_string v) of Inl _ \<Rightarrow> Inl ''vars_json must be strict JSON''
          | Inr (JObj kvs) \<Rightarrow> Inr (JObj kvs) | Inr _ \<Rightarrow> Inl ''vars_json must be a JSON object'')
      | AJson v \<Rightarrow> (case decode (tf_string v) of Inl _ \<Rightarrow> Inl ''vars_json must be strict JSON''
          | Inr (JObj kvs) \<Rightarrow> Inr (JObj kvs) | Inr _ \<Rightarrow> Inl ''vars_json must be a JSON object'')
      | _ \<Rightarrow> Inl ''vars_json must be a string'')"

text \<open>One attribute of an object: \<open>Inr None\<close> when it is null and left out.\<close>

definition member_to_wire ::
  "(attr \<Rightarrow> attribute \<Rightarrow> string + json) \<Rightarrow> (string \<times> attr) list \<Rightarrow> string \<times> presence \<times> attribute \<Rightarrow> string + (string \<times> json) option" where
  "member_to_wire conv values = (\<lambda>(key, _, attribute).
     (case map_of values key of None \<Rightarrow> Inl ''must be wholly known''
      | Some item \<Rightarrow>
          if attr_unknown item then Inl ''must be wholly known''
          else if attr_null item then Inr None
          else (case (if key = ''vars_json'' then vars_to_wire item else conv item attribute) of Inl e \<Rightarrow> Inl e
            | Inr wire \<Rightarrow> Inr (Some (v2WireName key, wire)))))"

definition members_to_wire ::
  "(attr \<Rightarrow> attribute \<Rightarrow> string + json) \<Rightarrow> (string \<times> attr) list \<Rightarrow> attributes \<Rightarrow> string + obj" where
  "members_to_wire conv values attrs =
     (case map_result (member_to_wire conv values) attrs of Inl e \<Rightarrow> Inl e
      | Inr ms \<Rightarrow> Inr (List.map_filter id ms))"

lemma members_to_wire_cong [fundef_cong]:
  assumes "values = values'" "attrs = attrs'"
    "\<And>key item a. (key, item) \<in> set values' \<Longrightarrow> conv item a = conv' item a"
  shows "members_to_wire conv values attrs = members_to_wire conv' values' attrs'"
proof -
  have "member_to_wire conv values' x = member_to_wire conv' values' x" for x
  proof (cases x rule: prod_cases3)
    case (fields key p a)
    show ?thesis
    proof (cases "map_of values' key")
      case (Some item)
      with assms(3) [OF map_of_SomeD [OF Some]] fields show ?thesis by (simp add: member_to_wire_def)
    qed (simp add: fields member_to_wire_def)
  qed
  then show ?thesis by (simp add: members_to_wire_def assms(1,2) cong: map_result_cong)
qed

fun v2ValueToWire :: "attr \<Rightarrow> attribute \<Rightarrow> string + json" where
  "v2ValueToWire (AString (TVal s)) a = Inr (JStr s)"
| "v2ValueToWire (AJson (TVal s)) a = Inr (JStr s)"
| "v2ValueToWire (AInt64 (TVal i)) a = Inr (JNum (format_int i))"
| "v2ValueToWire (ABool (TVal b)) a = Inr (JBool b)"
| "v2ValueToWire (AObject (TVal values)) a =
     (case a of SingleNestedAttribute attrs \<Rightarrow>
          (case members_to_wire v2ValueToWire values attrs of Inl e \<Rightarrow> Inl e | Inr kvs \<Rightarrow> Inr (JObj kvs))
      | _ \<Rightarrow> Inl ''unexpected nested object'')"
| "v2ValueToWire (AList (TVal es)) a =
     (case map_result (\<lambda>e. v2ValueToWire e (item_attribute a)) es of Inl e \<Rightarrow> Inl e | Inr out \<Rightarrow> Inr (JArr out))"
| "v2ValueToWire (ASet (TVal es)) a =
     (case map_result (\<lambda>e. v2ValueToWire e (item_attribute a)) es of Inl e \<Rightarrow> Inl e
      | Inr out \<Rightarrow> (case sort_wire out of Inl e \<Rightarrow> Inl e | Inr s \<Rightarrow> Inr (JArr s)))"
| "v2ValueToWire _ a = Inl ''required value is unknown or null''"

definition v2ObjectToWire :: "(string \<times> attr) list \<Rightarrow> attributes \<Rightarrow> string + obj" where
  "v2ObjectToWire values attrs = members_to_wire v2ValueToWire values attrs"

text \<open>The typed spec of a plan: what the object converts to, if the exact Form accepts it.\<close>

definition spec_map :: "obj \<Rightarrow> goval" where
  "spec_map kvs = GMap (Some (map (\<lambda>(k, v). (k, go_any v)) kvs))"

definition v2SpecFromPlan :: "v2FormDef \<Rightarrow> attr \<Rightarrow> string + obj" where
  "v2SpecFromPlan def planned =
     (case fd_spec def of None \<Rightarrow> Inr []
      | Some attrs \<Rightarrow>
          (case planned of
             AObject (TVal values) \<Rightarrow>
               (case v2ObjectToWire values attrs of Inl e \<Rightarrow> Inl e
                | Inr result \<Rightarrow>
                    (case marshal (spec_map result) of Inl _ \<Rightarrow> Inl ''typed spec cannot be encoded as strict JSON''
                     | Inr encoded \<Rightarrow>
                         (case spec_Decode (fd_form def) encoded of
                            Inl _ \<Rightarrow> Inl ''typed public spec does not match the exact Form'' | Inr _ \<Rightarrow> Inr result)))
           | AObject _ \<Rightarrow> Inl ''typed spec must be known''
           | _ \<Rightarrow> Inl ''typed spec could not be decoded''))"

subsection \<open>From JSON\<close>

fun v2Null :: "attribute \<Rightarrow> attr" where
  "v2Null StringAttribute = AString TNull"
| "v2Null JSONAttribute = AJson TNull"
| "v2Null Int64Attribute = AInt64 TNull"
| "v2Null BoolAttribute = ABool TNull"
| "v2Null (SingleNestedAttribute _) = AObject TNull"
| "v2Null ListAttribute = AList TNull"
| "v2Null (ListNestedAttribute _) = AList TNull"
| "v2Null SetAttribute = ASet TNull"
| "v2Null (SetNestedAttribute _) = ASet TNull"

definition missing_value :: "string \<Rightarrow> attribute \<Rightarrow> attr" where
  "missing_value key a =
     (if key = ''vars_json'' then AJson (TVal ''{}'')
      else case a of SetAttribute \<Rightarrow> ASet (TVal []) | SetNestedAttribute _ \<Rightarrow> ASet (TVal [])
      | _ \<Rightarrow> if key = ''delivery_delay_seconds'' then AInt64 (TVal 0) else v2Null a)"

definition strings_from_wire :: "json \<Rightarrow> string + attr list" where
  "strings_from_wire w =
     (case w of JArr vs \<Rightarrow> map_result (\<lambda>v. case v of JStr s \<Rightarrow> Inr (AString (TVal s)) | _ \<Rightarrow> Inl ''expected string list'') vs
      | _ \<Rightarrow> Inl ''expected list'')"

definition vars_from_wire :: "json \<Rightarrow> string + attr" where
  "vars_from_wire item = (case marshal (go_arg item) of Inl _ \<Rightarrow> Inl ''value cannot be encoded'' | Inr s \<Rightarrow> Inr (AJson (TVal s)))"

definition objects_of :: "json \<Rightarrow> string + obj list" where
  "objects_of w =
     (case w of JArr vs \<Rightarrow> map_result (\<lambda>v. case v of JObj kvs \<Rightarrow> Inr kvs | _ \<Rightarrow> Inl ''expected object in collection'') vs
      | _ \<Rightarrow> Inl ''expected collection'')"

definition member_from_wire ::
  "(attribute \<Rightarrow> json \<Rightarrow> string + attr) \<Rightarrow> obj \<Rightarrow> string \<times> presence \<times> attribute \<Rightarrow> string + (string \<times> attr)" where
  "member_from_wire conv wire = (\<lambda>(key, _, a).
     (case map_of wire (v2WireName key) of None \<Rightarrow> Inr (key, missing_value key a)
      | Some item \<Rightarrow>
          (case (if key = ''vars_json'' then vars_from_wire item else conv a item) of Inl e \<Rightarrow> Inl e
           | Inr v \<Rightarrow> Inr (key, v))))"

lemma member_from_wire_cong [fundef_cong]:
  assumes "wire = wire'" "x = x'" "\<And>item. conv (snd (snd x')) item = conv' (snd (snd x')) item"
  shows "member_from_wire conv wire x = member_from_wire conv' wire' x'"
  using assms by (cases x') (auto simp: member_from_wire_def split: option.splits)

fun v2ValueFromWire :: "attribute \<Rightarrow> json \<Rightarrow> string + attr" where
  "v2ValueFromWire StringAttribute w = (case w of JStr s \<Rightarrow> Inr (AString (TVal s)) | _ \<Rightarrow> Inl ''expected string'')"
| "v2ValueFromWire JSONAttribute w = (case w of JStr s \<Rightarrow> Inr (AJson (TVal s)) | _ \<Rightarrow> Inl ''expected string'')"
| "v2ValueFromWire Int64Attribute w =
     (case w of JNum n \<Rightarrow> (case parse_int64 n of None \<Rightarrow> Inl ''not an int64'' | Some i \<Rightarrow> Inr (AInt64 (TVal i)))
      | _ \<Rightarrow> Inl ''expected integer'')"
| "v2ValueFromWire BoolAttribute w = (case w of JBool b \<Rightarrow> Inr (ABool (TVal b)) | _ \<Rightarrow> Inl ''expected boolean'')"
| "v2ValueFromWire (SingleNestedAttribute attrs) w =
     (case w of JObj wire \<Rightarrow>
          (case map_result (member_from_wire v2ValueFromWire wire) attrs of Inl e \<Rightarrow> Inl e
           | Inr vs \<Rightarrow> Inr (AObject (TVal vs)))
      | _ \<Rightarrow> Inl ''expected object'')"
| "v2ValueFromWire ListAttribute w = (case strings_from_wire w of Inl e \<Rightarrow> Inl e | Inr vs \<Rightarrow> Inr (AList (TVal vs)))"
| "v2ValueFromWire SetAttribute w = (case strings_from_wire w of Inl e \<Rightarrow> Inl e | Inr vs \<Rightarrow> Inr (ASet (TVal vs)))"
| "v2ValueFromWire (ListNestedAttribute attrs) w =
     (case objects_of w of Inl e \<Rightarrow> Inl e
      | Inr obs \<Rightarrow>
          (case map_result (\<lambda>wire. case map_result (member_from_wire v2ValueFromWire wire) attrs of Inl e \<Rightarrow> Inl e
              | Inr vs \<Rightarrow> Inr (AObject (TVal vs))) obs of Inl e \<Rightarrow> Inl e | Inr vs \<Rightarrow> Inr (AList (TVal vs))))"
| "v2ValueFromWire (SetNestedAttribute attrs) w =
     (case objects_of w of Inl e \<Rightarrow> Inl e
      | Inr obs \<Rightarrow>
          (case map_result (\<lambda>wire. case map_result (member_from_wire v2ValueFromWire wire) attrs of Inl e \<Rightarrow> Inl e
              | Inr vs \<Rightarrow> Inr (AObject (TVal vs))) obs of Inl e \<Rightarrow> Inl e | Inr vs \<Rightarrow> Inr (ASet (TVal vs))))"

definition v2ObjectFromWire :: "attributes \<Rightarrow> obj \<Rightarrow> string + attr" where
  "v2ObjectFromWire attrs wire =
     (case map_result (member_from_wire v2ValueFromWire wire) attrs of Inl e \<Rightarrow> Inl e | Inr vs \<Rightarrow> Inr (AObject (TVal vs)))"

text \<open>\<open>Inr None\<close>: the Form has no typed spec.\<close>

definition v2StateSpec :: "v2FormDef \<Rightarrow> obj \<Rightarrow> string + attr option" where
  "v2StateSpec def spec =
     (case marshal (spec_map spec) of Inl _ \<Rightarrow> Inl ''Host spec is not strict JSON''
      | Inr encoded \<Rightarrow>
          (case spec_Decode (fd_form def) encoded of Inl _ \<Rightarrow> Inl ''Host spec does not match the exact Form''
           | Inr _ \<Rightarrow>
               (case fd_spec def of None \<Rightarrow> Inr None
                | Some attrs \<Rightarrow> (case v2ObjectFromWire attrs spec of Inl e \<Rightarrow> Inl e | Inr v \<Rightarrow> Inr (Some v)))))"

end
