(* ===== verification/SpecLaws.thy ===== *)
theory SpecLaws
  imports SpecWire SemanticLaws "HOL-Library.Multiset"
begin

text \<open>
  A typed spec and its JSON: what a plan converts to converts back to the planned value, up to
  what Terraform does not tell apart, the order of a set and the spelling of \<open>vars_json\<close>.
\<close>

subsection \<open>Typed values and sameness\<close>

text \<open>
  The values a plan has for an attribute: known, of the attribute's type, an object with exactly
  the attributes of its schema. As the framework plans them, a null stands only for an attribute
  that is optional and has no default; a required one is given, a default is filled in.
\<close>

fun typed :: "attribute \<Rightarrow> attr \<Rightarrow> bool" where
  "typed a (AString (TVal s)) \<longleftrightarrow> a = StringAttribute"
| "typed a (AJson (TVal s)) \<longleftrightarrow> a = JSONAttribute"
| "typed a (AInt64 (TVal i)) \<longleftrightarrow> a = Int64Attribute \<and> - (2 ^ 63) \<le> i \<and> i < 2 ^ 63"
| "typed a (ABool (TVal b)) \<longleftrightarrow> a = BoolAttribute"
| "typed a (AObject (TVal values)) \<longleftrightarrow>
     (case a of SingleNestedAttribute attrs \<Rightarrow> map fst values = map fst attrs \<and>
        list_all (\<lambda>(key, v). \<forall>p b. map_of attrs key = Some (p, b) \<longrightarrow> v = v2Null b \<and> p = Optional \<or> typed b v) values
      | _ \<Rightarrow> False)"
| "typed a (AList (TVal es)) \<longleftrightarrow>
     (a = ListAttribute \<or> (\<exists>as. a = ListNestedAttribute as)) \<and> list_all (typed (item_attribute a)) es"
| "typed a (ASet (TVal es)) \<longleftrightarrow>
     (a = SetAttribute \<or> (\<exists>as. a = SetNestedAttribute as)) \<and> list_all (typed (item_attribute a)) es"
| "typed a _ \<longleftrightarrow> False"

inductive same :: "attr \<Rightarrow> attr \<Rightarrow> bool" where
  same_refl: "same v v"
| same_json: "StringSemanticEquals (TVal s) (Some (TVal t)) = Some True \<Longrightarrow> same (AJson (TVal s)) (AJson (TVal t))"
| same_object: "list_all2 (\<lambda>x y. fst x = fst y \<and> same (snd x) (snd y)) xs ys \<Longrightarrow> same (AObject (TVal xs)) (AObject (TVal ys))"
| same_list: "list_all2 same xs ys \<Longrightarrow> same (AList (TVal xs)) (AList (TVal ys))"
| same_set: "list_all2 same xs zs \<Longrightarrow> mset zs = mset ys \<Longrightarrow> same (ASet (TVal xs)) (ASet (TVal ys))"
  monos list_all2_mono

text \<open>
  What state gets for an attribute that a Host leaves out, by its schema: the default, or null.
\<close>

fun left_out :: "presence \<Rightarrow> attribute \<Rightarrow> attr option" where
  "left_out Required a = None"
| "left_out Optional a = Some (v2Null a)"
| "left_out (Default d) a = Some d"

text \<open>
  Wire names do not clash, \<open>vars_json\<close> is the one JSON attribute, and the conversion from JSON fills
  in what the schema says.
\<close>

definition names_clear :: "attributes \<Rightarrow> bool" where
  "names_clear attrs \<longleftrightarrow> distinct (map (\<lambda>x. v2WireName (fst x)) attrs) \<and>
     list_all (\<lambda>(key, p, a). (key = ''vars_json'') = (a = JSONAttribute) \<and> left_out p a \<in> {None, Some (missing_value key a)}) attrs"

fun clear :: "attribute \<Rightarrow> bool" where
  "clear (SingleNestedAttribute attrs) \<longleftrightarrow> names_clear attrs \<and> list_all (\<lambda>(_, _, a). clear a) attrs"
| "clear (ListNestedAttribute attrs) \<longleftrightarrow> names_clear attrs \<and> list_all (\<lambda>(_, _, a). clear a) attrs"
| "clear (SetNestedAttribute attrs) \<longleftrightarrow> names_clear attrs \<and> list_all (\<lambda>(_, _, a). clear a) attrs"
| "clear _ \<longleftrightarrow> True"

lemma forms_clear: "list_all (\<lambda>def. case fd_spec def of None \<Rightarrow> True | Some attrs \<Rightarrow> clear (SingleNestedAttribute attrs)) v2Forms"
  by code_simp

lemma form_clear: "def \<in> set v2Forms \<Longrightarrow> fd_spec def = Some attrs \<Longrightarrow> clear (SingleNestedAttribute attrs)"
  using forms_clear by (auto simp: list_all_iff split: option.splits)

subsection \<open>Re-encoding a decoded document\<close>

lemma valid_utf8_mono: "valid_utf8_value v d \<Longrightarrow> d' \<le> d \<Longrightarrow> valid_utf8_value v d'"
proof (induction v d arbitrary: d' rule: valid_utf8_value.induct)
  case (1 v depth)
  have d: "\<not> 1024 < depth" using valid_utf8_depth [OF 1(5)] by simp
  note IH = 1(1-4) [OF d]
  show ?case
  proof (cases v)
    case (GIface x)
    show ?thesis
    proof (cases x)
      case (Some y)
      have "valid_utf8_value y (Suc d')" if "valid_utf8_value y (Suc depth)"
        using IH(1) [OF GIface Some that] 1(6) by simp
      with 1(5,6) show ?thesis by (simp add: GIface Some valid_utf8_value_code)
    qed (use 1(5,6) in \<open>simp add: GIface valid_utf8_value_code\<close>)
  next
    case (GMap x)
    show ?thesis
    proof (cases x)
      case (Some kvs)
      have "valid_utf8_value y (Suc d')" if "(k, y) \<in> set kvs" "valid_utf8_value y (Suc depth)" for k y
        using IH(3) [OF GMap Some that(1) refl that(2)] 1(6) by simp
      with 1(5,6) show ?thesis by (force simp: GMap Some valid_utf8_value_code list_all_iff)
    qed (use 1(5,6) in \<open>simp add: GMap valid_utf8_value_code\<close>)
  next
    case (GSlice x)
    show ?thesis
    proof (cases x)
      case (Some vs)
      have "valid_utf8_value y (Suc d')" if "y \<in> set vs" "valid_utf8_value y (Suc depth)" for y
        using IH(2) [OF GSlice Some that] 1(6) by simp
      with 1(5,6) show ?thesis by (simp add: GSlice Some valid_utf8_value_code list_all_iff)
    qed (use 1(5,6) in \<open>simp add: GSlice valid_utf8_value_code\<close>)
  next
    case (GStruct fs)
    have "valid_utf8_value y (Suc d')" if "(k, b, y) \<in> set fs" "valid_utf8_value y (Suc depth)" for k b y
      using IH(4) [OF GStruct that(1) refl refl that(2)] 1(6) by simp
    with 1(5,6) show ?thesis by (force simp: GStruct valid_utf8_value_code list_all_iff)
  next
    case (GRaw x)
    with 1(5,6) d show ?thesis by (cases x) (auto simp: valid_utf8_value_code)
  next
    case (GBytes x)
    with 1(5,6) d show ?thesis by (cases x) (auto simp: valid_utf8_value_code)
  qed (use 1(5,6) in \<open>auto simp: valid_utf8_value_code\<close>)
qed

definition reencodes :: "json \<Rightarrow> json \<Rightarrow> bool" where
  "reencodes j k \<longleftrightarrow> to_json (go_any j) = Some k \<and> meaning k = meaning j \<and> go_wf (go_any j) \<and> raw_free (go_any j)"

lemma no_empty_number: "\<not> valid_number []"
  by code_simp

lemma go_any_tree: "json_wf j \<Longrightarrow> \<exists>k. reencodes j k"
proof (induction j rule: json_wf.induct)
  case (3 vs)
  then have "\<forall>v\<in>set vs. \<exists>k. reencodes v k" by (simp add: list_all_iff)
  from bchoice [OF this] obtain f where f: "\<forall>v\<in>set vs. reencodes v (f v)" by blast
  then have "opt_list to_json (map go_any vs) = Some (map f vs)"
    by (simp add: opt_list_Some list_all2_map1 list_all2_map2 list_all2_same reencodes_def)
  with f have "reencodes (JArr vs) (JArr (map f vs))" by (simp add: reencodes_def list_all_iff)
  then show ?case by blast
next
  case (4 kvs)
  then have "\<forall>x\<in>set kvs. \<exists>k. reencodes (snd x) k" by (fastforce simp: list_all_iff)
  from bchoice [OF this] obtain f where f: "\<forall>x\<in>set kvs. reencodes (snd x) (f x)" by blast
  let ?ks = "map (\<lambda>x. (fst x, f x)) kvs"
  have o: "opt_list (\<lambda>(k, v). map_option (Pair k) (to_json v)) (map (\<lambda>(k, v). (k, go_any v)) kvs) = Some ?ks"
    using f by (simp add: opt_list_Some list_all2_map1 list_all2_map2 list_all2_same reencodes_def case_prod_unfold)
  have d: "distinct (map fst ?ks)" using 4(2) by (simp add: comp_def)
  have m: "map_of (sort_key fst ?ks) = map_of ?ks"
    using d by (subst map_of_inject_set) (simp_all only: sort_key_distinct set_sort)
  have "map (\<lambda>(k, v). (k, meaning v)) ?ks = map (\<lambda>(k, v). (k, meaning v)) kvs"
    using f by (auto simp: reencodes_def)
  then have "meaning (JObj (sort_key fst ?ks)) = meaning (JObj kvs)"
    unfolding meaning.simps by (simp only: map_of_meaning m) (simp only: map_of_meaning [symmetric])
  moreover have "go_wf (go_any (JObj kvs))" "raw_free (go_any (JObj kvs))"
    using f 4(2) by (force simp: reencodes_def list_all_iff comp_def case_prod_unfold)+
  ultimately have "reencodes (JObj kvs) (JObj (sort_key fst ?ks))" using o by (simp add: reencodes_def)
  then show ?case by blast
qed (auto simp: reencodes_def [abs_def] no_empty_number)

text \<open>A value whose nesting some enclosing document was allowed to have.\<close>

definition encodable :: "json \<Rightarrow> bool" where
  "encodable j \<longleftrightarrow> (\<exists>d. valid_utf8_value (go_arg j) d)"

lemma encodable_any: "valid_utf8_value (go_any x) d \<Longrightarrow> encodable x"
  unfolding encodable_def by (intro exI [of _ "case x of JNull \<Rightarrow> d | _ \<Rightarrow> Suc d"], cases x) (auto simp: go_arg_def valid_utf8_value_code)

lemma encodable_parts:
  "encodable (JObj kvs) \<Longrightarrow> (k, x) \<in> set kvs \<Longrightarrow> encodable x" "encodable (JArr vs) \<Longrightarrow> x \<in> set vs \<Longrightarrow> encodable x"
  by (fastforce simp: encodable_def [of "JObj _"] encodable_def [of "JArr _"] go_arg_def valid_utf8_value_code list_all_iff
      intro: encodable_any)+

text \<open>What \<open>vars_json\<close> is read back as, from a document that was sent.\<close>

lemma vars_roundtrip:
  assumes "decode s = Inr (JObj kvs)" "encodable (JObj kvs)"
  shows "\<exists>t. vars_from_wire (JObj kvs) = Inr (AJson (TVal t)) \<and> same (AJson (TVal s)) (AJson (TVal t))"
proof -
  have wf: "json_wf (JObj kvs)" using decode_wf [OF assms(1)] by blast
  then obtain k where k: "reencodes (JObj kvs) k" using go_any_tree by blast
  let ?v = "go_arg (JObj kvs)"
  have g: "go_wf ?v" "raw_free ?v" "to_json ?v = Some k" "meaning k = meaning (JObj kvs)"
    using k by (simp_all add: reencodes_def go_arg_def)
  have u: "valid_utf8_value ?v 0" using assms(2) by (auto simp: encodable_def intro: valid_utf8_mono)
  have m: "marshal ?v = Inr (json_text k)" by (rule marshal_ok [OF u g(1,3)])
  then have dec: "decode (json_text k) = Inr k" using g by (auto elim: marshal_decode_tree)
  obtain ks where ks: "k = JObj ks" using g(3) by (auto simp: go_arg_def)
  have "equalV2JSON (JObj kvs) k \<longleftrightarrow> True"
    using equal_meaning [OF wf conjunct1 [OF decode_wf [OF dec]]] g(4) by simp
  then have "StringSemanticEquals (TVal s) (Some (TVal (json_text k))) = Some True"
    using assms(1) dec by (simp add: StringSemanticEquals_def decodeV2VarsJSON_def ks)
  with m show ?thesis by (auto simp: vars_from_wire_def intro: same_json)
qed

subsection \<open>Objects\<close>

lemma map_of_kept:
  assumes "map_result g attrs = Inr ms" "distinct (map n attrs)" "x \<in> set attrs"
    "\<And>y m. y \<in> set attrs \<Longrightarrow> g y = Inr (Some m) \<Longrightarrow> fst m = n y"
  shows "\<exists>r. g x = Inr r \<and> map_of (List.map_filter id ms) (n x) = map_option snd r"
  using assms
proof (induction attrs arbitrary: ms)
  case (Cons y ys)
  from Cons.prems(1) obtain r rs where r: "g y = Inr r" and rs: "map_result g ys = Inr rs" and ms: "ms = r # rs"
    by (auto split: sum.splits)
  have keys: "k \<in> n ` set ys" if "(k, v) \<in> set (List.map_filter id rs)" for k v
  proof -
    from that have "Some (k, v) \<in> set rs" by (auto simp: List.map_filter_def)
    then obtain z where "z \<in> set ys" "g z = Inr (Some (k, v))"
      using rs list_all2_conv_all_nth [of _ ys rs] by (auto simp: map_result_Inr_iff in_set_conv_nth) metis
    with Cons.prems(4) [of z "(k, v)"] show ?thesis by force
  qed
  show ?case
  proof (cases "x = y")
    case True
    have "map_of (List.map_filter id rs) (n y) = None"
      using keys Cons.prems(2) by (fastforce simp: map_of_eq_None_iff)
    with True r ms Cons.prems(4) [of y] show ?thesis
      by (cases r) (auto simp: List.map_filter_simps id_def)
  next
    case False
    with Cons.prems(2,3) have x: "x \<in> set ys" "n x \<noteq> n y" by (auto simp: image_iff)
    have "distinct (map n ys)" "\<And>z m. z \<in> set ys \<Longrightarrow> g z = Inr (Some m) \<Longrightarrow> fst m = n z"
      using Cons.prems(2,4) by auto
    from Cons.IH [OF rs this(1) x(1) this(2)] obtain q where
      q: "g x = Inr q" "map_of (List.map_filter id rs) (n x) = map_option snd q" by blast
    have "map_of (List.map_filter id ms) (n x) = map_of (List.map_filter id rs) (n x)"
      using x(2) Cons.prems(4) [of y] r by (cases r) (auto simp: ms List.map_filter_simps id_def)
    with q(2) have "map_of (List.map_filter id ms) (n x) = map_option snd q" by (rule trans [rotated])
    with q(1) show ?thesis by blast
  qed
qed simp

lemma typed_known: "typed a v \<Longrightarrow> \<not> attr_unknown v \<and> \<not> attr_null v"
  by (induction a v rule: typed.induct) auto

lemma null_known: "attr_null (v2Null a) \<and> \<not> attr_unknown (v2Null a)"
  by (cases a) auto

definition returns :: "attribute \<Rightarrow> bool" where
  "returns a \<longleftrightarrow> (\<forall>v j. typed a v \<longrightarrow> v2ValueToWire v a = Inr j \<longrightarrow> encodable j \<longrightarrow>
     (\<exists>v'. v2ValueFromWire a j = Inr v' \<and> same v v'))"

lemma member_roundtrip:
  assumes clear: "names_clear attrs" and x: "(key, p, a) \<in> set attrs" and ret: "returns a"
    and v: "map_of values key = Some v" "v = v2Null a \<and> p = Optional \<or> typed a v"
    and kvs: "members_to_wire v2ValueToWire values attrs = Inr kvs" "\<And>k j. (k, j) \<in> set kvs \<Longrightarrow> encodable j"
  shows "\<exists>v'. member_from_wire v2ValueFromWire kvs (key, p, a) = Inr (key, v') \<and> same v v'"
proof -
  let ?g = "member_to_wire v2ValueToWire values" and ?n = "\<lambda>x. v2WireName (fst x)"
  from kvs(1) obtain ms where ms: "map_result ?g attrs = Inr ms" "kvs = List.map_filter id ms"
    by (auto simp: members_to_wire_def split: sum.splits)
  have "fst m = ?n y" if "?g y = Inr (Some m)" for y m
    using that by (cases y rule: prod_cases3) (auto simp: member_to_wire_def split: option.splits if_splits sum.splits)
  then obtain r where r: "?g (key, p, a) = Inr r" "map_of kvs (v2WireName key) = map_option snd r"
    using map_of_kept [OF ms(1) _ x, of ?n] clear ms(2) by (auto simp: names_clear_def)
  show ?thesis
  proof (cases "attr_null v")
    case True
    with v(2) typed_known have n: "v = v2Null a" "p = Optional" by blast+
    with v(1) r(1) null_known [of a] have "r = None" by (simp add: member_to_wire_def)
    moreover have "missing_value key a = v2Null a" using clear x n(2) by (auto simp: names_clear_def list_all_iff)
    ultimately show ?thesis using r(2) n by (simp add: member_from_wire_def same_refl)
  next
    case False
    with v(2) null_known have t: "typed a v" by blast
    let ?w = "if key = ''vars_json'' then vars_to_wire v else v2ValueToWire v a"
    from r(1) v(1) t typed_known obtain j where j: "?w = Inr j" "r = Some (v2WireName key, j)"
      by (force simp: member_to_wire_def split: sum.splits if_splits)
    with r(2) have m: "map_of kvs (v2WireName key) = Some j" by simp
    have d: "encodable j" by (rule kvs(2) [OF map_of_SomeD [OF m]])
    have ja: "(key = ''vars_json'') = (a = JSONAttribute)" using clear x by (auto simp: names_clear_def list_all_iff)
    show ?thesis
    proof (cases "key = ''vars_json''")
      case True
      with ja t obtain s where s: "v = AJson (TVal s)" by (cases "(a, v)" rule: typed.cases) auto
      with j(1) True obtain os where os: "j = JObj os" "decode s = Inr (JObj os)"
        by (auto simp: vars_to_wire_def split: sum.splits json.splits)
      from vars_roundtrip [OF os(2) d [unfolded os(1)]] True m os(1) s show ?thesis
        by (auto simp: member_from_wire_def)
    next
      case False
      with j(1) t d ret obtain v' where "v2ValueFromWire a j = Inr v'" "same v v'" by (auto simp: returns_def)
      with m False show ?thesis by (simp add: member_from_wire_def)
    qed
  qed
qed

lemma object_roundtrip:
  assumes "clear (SingleNestedAttribute attrs)" "\<And>key p a. (key, p, a) \<in> set attrs \<Longrightarrow> returns a"
  shows "returns (SingleNestedAttribute attrs)"
  unfolding returns_def
proof (intro allI impI)
  fix v j
  assume t: "typed (SingleNestedAttribute attrs) v" and w: "v2ValueToWire v (SingleNestedAttribute attrs) = Inr j"
    and u: "encodable j"
  from t obtain vals where v: "v = AObject (TVal vals)"
    by (cases "(SingleNestedAttribute attrs, v)" rule: typed.cases) auto
  with w obtain kvs where kvs: "members_to_wire v2ValueToWire vals attrs = Inr kvs" "j = JObj kvs"
    by (auto split: sum.splits)
  have names: "map fst vals = map fst attrs" and fit: "\<And>key x p b. (key, x) \<in> set vals \<Longrightarrow> map_of attrs key = Some (p, b) \<Longrightarrow>
      x = v2Null b \<and> p = Optional \<or> typed b x" using t by (auto simp: v list_all_iff)
  have clear: "names_clear attrs" using assms(1) by simp
  have "map (\<lambda>x. v2WireName (fst x)) attrs = map v2WireName (map fst attrs)" by simp
  then have dist: "distinct (map fst attrs)" using clear by (metis names_clear_def distinct_map)
  have deep: "encodable x" if "(k, x) \<in> set kvs" for k x
    using u that encodable_parts(1) by (simp add: kvs(2))
  have "\<forall>i<length attrs. \<exists>v'. member_from_wire v2ValueFromWire kvs (attrs ! i) = Inr (fst (vals ! i), v') \<and> same (snd (vals ! i)) v'"
  proof (intro allI impI)
    fix i
    assume i: "i < length attrs"
    have l: "length vals = length attrs" using names by (metis length_map)
    have key: "fst (vals ! i) = fst (attrs ! i)" using names i l by (metis nth_map)
    obtain key p a where a: "attrs ! i = (key, p, a)" by (cases "attrs ! i" rule: prod_cases3)
    obtain x where x: "vals ! i = (key, x)" using key a by (cases "vals ! i") auto
    have in_a: "(key, p, a) \<in> set attrs" and in_v: "(key, x) \<in> set vals" using i l a x by (metis nth_mem)+
    have m: "map_of attrs key = Some (p, a)" "map_of vals key = Some x"
      using dist in_a in_v by (auto simp: names)
    from member_roundtrip [OF clear in_a assms(2) [OF in_a] m(2) fit [OF in_v m(1)] kvs(1) deep]
    show "\<exists>v'. member_from_wire v2ValueFromWire kvs (attrs ! i) = Inr (fst (vals ! i), v') \<and> same (snd (vals ! i)) v'"
      by (simp add: a x)
  qed
  then obtain f where f: "\<And>i. i < length attrs \<Longrightarrow>
      member_from_wire v2ValueFromWire kvs (attrs ! i) = Inr (fst (vals ! i), f i) \<and> same (snd (vals ! i)) (f i)" by metis
  have len: "length vals = length attrs" using names by (metis length_map)
  let ?vs = "map (\<lambda>i. (fst (vals ! i), f i)) [0..<length attrs]"
  have "map_result (member_from_wire v2ValueFromWire kvs) attrs = Inr ?vs"
    using f by (simp add: map_result_Inr_iff list_all2_conv_all_nth)
  moreover have "same v (AObject (TVal ?vs))"
    unfolding v by (rule same_object) (simp add: list_all2_conv_all_nth len f)
  ultimately show "\<exists>v'. v2ValueFromWire (SingleNestedAttribute attrs) j = Inr v' \<and> same v v'" by (auto simp: kvs(2))
qed

subsection \<open>Collections\<close>

lemma elements_roundtrip:
  assumes "returns item" "list_all (typed item) es" "map_result (\<lambda>e. v2ValueToWire e item) es = Inr out"
    "\<And>j. j \<in> set out \<Longrightarrow> encodable j"
  obtains f where "\<And>j. j \<in> set out \<Longrightarrow> v2ValueFromWire item j = Inr (f j)" "list_all2 same es (map f out)"
proof -
  have l: "list_all2 (\<lambda>e j. v2ValueToWire e item = Inr j) es out" using assms(3) by (simp add: map_result_Inr_iff)
  have again: "\<exists>v'. v2ValueFromWire item j = Inr v' \<and> same e v'" if "e \<in> set es" "j \<in> set out" "v2ValueToWire e item = Inr j" for e j
    using assms(1,2,4) that by (fastforce simp: returns_def list_all_iff)
  let ?f = "\<lambda>j. projr (v2ValueFromWire item j)"
  have s: "list_all2 same es (map ?f out)"
    unfolding list_all2_map2 using l
    by (rule list.rel_mono_strong) (use again in fastforce)
  have "v2ValueFromWire item j = Inr (?f j)" if j: "j \<in> set out" for j
  proof -
    from l j obtain e where "e \<in> set es" "v2ValueToWire e item = Inr j"
      by (auto simp: list_all2_conv_all_nth in_set_conv_nth) (metis nth_mem)
    with again j show ?thesis by force
  qed
  with s show thesis by (rule that [rotated])
qed

lemma sort_wire_mset: "sort_wire out = Inr s \<Longrightarrow> mset s = mset out"
  by (auto simp: sort_wire_def split: if_splits)

lemma strings_back:
  assumes "\<And>j. j \<in> set js \<Longrightarrow> v2ValueFromWire StringAttribute j = Inr (f j)"
  shows "strings_from_wire (JArr js) = Inr (map f js)"
proof -
  have "\<exists>s. j = JStr s \<and> f j = AString (TVal s)" if "j \<in> set js" for j
    using assms [OF that] by (cases j) auto
  then show ?thesis
    by (fastforce simp: strings_from_wire_def map_result_Inr_iff list_all2_map2 list_all2_same)
qed

lemma objects_back:
  assumes "\<And>j. j \<in> set js \<Longrightarrow> v2ValueFromWire (SingleNestedAttribute attrs) j = Inr (f j)"
  shows "v2ValueFromWire (ListNestedAttribute attrs) (JArr js) = Inr (AList (TVal (map f js)))"
    "v2ValueFromWire (SetNestedAttribute attrs) (JArr js) = Inr (ASet (TVal (map f js)))"
proof -
  let ?kvs = "\<lambda>j. case j of JObj kvs \<Rightarrow> kvs | _ \<Rightarrow> []"
  have o: "\<exists>kvs. j = JObj kvs" if "j \<in> set js" for j using assms [OF that] by (cases j) auto
  have "objects_of (JArr js) = Inr (map ?kvs js)"
    using o by (fastforce simp: objects_of_def map_result_Inr_iff list_all2_map2 list_all2_same)
  moreover have "map_result (\<lambda>wire. case map_result (member_from_wire v2ValueFromWire wire) attrs of Inl e \<Rightarrow> Inl e
      | Inr vs \<Rightarrow> Inr (AObject (TVal vs))) (map ?kvs js) = Inr (map f js)"
    using o assms by (fastforce simp: map_result_Inr_iff list_all2_map1 list_all2_map2 list_all2_same)
  ultimately show "v2ValueFromWire (ListNestedAttribute attrs) (JArr js) = Inr (AList (TVal (map f js)))"
    "v2ValueFromWire (SetNestedAttribute attrs) (JArr js) = Inr (ASet (TVal (map f js)))" by simp_all
qed

lemma collection_roundtrip:
  assumes "returns (item_attribute a)" "a = ListAttribute \<or> a = SetAttribute \<or> (\<exists>as. a = ListNestedAttribute as \<or> a = SetNestedAttribute as)"
  shows "returns a"
  unfolding returns_def
proof (intro allI impI)
  fix v j
  assume t: "typed a v" and w: "v2ValueToWire v a = Inr j" and u: "encodable j"
  obtain es out s where es: "v = AList (TVal es) \<and> s = out \<or> v = ASet (TVal es) \<and> sort_wire out = Inr s"
    "list_all (typed (item_attribute a)) es" "map_result (\<lambda>e. v2ValueToWire e (item_attribute a)) es = Inr out" "j = JArr s"
    using t w assms(2) by (cases "(a, v)" rule: typed.cases) (auto split: sum.splits)
  have set: "mset s = mset out" using es(1) sort_wire_mset by auto
  then have "set s = set out" by (metis set_mset_mset)
  have "encodable x" if "x \<in> set out" for x
    using u that \<open>set s = set out\<close> by (auto simp: es(4) intro: encodable_parts(2))
  from elements_roundtrip [OF assms(1) es(2,3) this] obtain f where
    f: "\<And>x. x \<in> set out \<Longrightarrow> v2ValueFromWire (item_attribute a) x = Inr (f x)" "list_all2 same es (map f out)" by blast
  have fs: "\<And>x. x \<in> set s \<Longrightarrow> v2ValueFromWire (item_attribute a) x = Inr (f x)" using f(1) \<open>set s = set out\<close> by blast
  have "mset (map f out) = mset (map f s)" using set by (metis mset_map)
  with f(2) have same: "same (ASet (TVal es)) (ASet (TVal (map f s)))" "s = out \<Longrightarrow> same (AList (TVal es)) (AList (TVal (map f s)))"
    by (auto intro: same_set same_list)
  consider "a = ListAttribute" | "a = SetAttribute" | as where "a = ListNestedAttribute as" | as where "a = SetNestedAttribute as"
    using assms(2) by blast
  then show "\<exists>v'. v2ValueFromWire a j = Inr v' \<and> same v v'"
  proof cases
    case 1
    with t es(1) fs strings_back [of s f] same show ?thesis by (auto simp: es(4) item_attribute_def)
  next
    case 2
    with t es(1) fs strings_back [of s f] same show ?thesis by (auto simp: es(4) item_attribute_def)
  next
    case 3
    with t es(1) fs objects_back [of s as f] same show ?thesis by (auto simp: es(4) item_attribute_def)
  next
    case 4
    with t es(1) fs objects_back [of s as f] same show ?thesis by (auto simp: es(4) item_attribute_def)
  qed
qed

lemma scalar_roundtrip: "returns StringAttribute" "returns JSONAttribute" "returns Int64Attribute" "returns BoolAttribute"
proof -
  have "\<exists>v'. v2ValueFromWire a j = Inr v' \<and> same v v'"
    if "typed a v" "v2ValueToWire v a = Inr j" "a \<in> {StringAttribute, JSONAttribute, Int64Attribute, BoolAttribute}" for a v j
    using that by (cases "(a, v)" rule: typed.cases) (auto intro: same_refl)
  then show "returns StringAttribute" "returns JSONAttribute" "returns Int64Attribute" "returns BoolAttribute"
    unfolding returns_def by blast+
qed

lemma nested_roundtrip:
  assumes "\<And>x y a. x \<in> set attrs \<Longrightarrow> y \<in> Basic_BNFs.snds x \<Longrightarrow> a \<in> Basic_BNFs.snds y \<Longrightarrow> clear a \<Longrightarrow> returns a" "clear (SingleNestedAttribute attrs)"
  shows "returns (SingleNestedAttribute attrs)"
proof (rule object_roundtrip [OF assms(2)])
  fix key p a
  assume x: "(key, p, a) \<in> set attrs"
  with assms(2) have "clear a" by (auto simp: list_all_iff)
  with assms(1) [OF x] show "returns a" by simp
qed

lemma value_roundtrip: "clear a \<Longrightarrow> returns a"
proof (induction a)
  case (SingleNestedAttribute attrs)
  then show ?case by (rule nested_roundtrip)
next
  case (ListNestedAttribute attrs)
  from ListNestedAttribute.prems have "clear (SingleNestedAttribute attrs)" by simp
  with ListNestedAttribute.IH have "returns (SingleNestedAttribute attrs)" by (rule nested_roundtrip)
  then show ?case by - (rule collection_roundtrip, simp_all add: item_attribute_def)
next
  case (SetNestedAttribute attrs)
  from SetNestedAttribute.prems have "clear (SingleNestedAttribute attrs)" by simp
  with SetNestedAttribute.IH have "returns (SingleNestedAttribute attrs)" by (rule nested_roundtrip)
  then show ?case by - (rule collection_roundtrip, simp_all add: item_attribute_def)
next
  case ListAttribute
  show ?case by (rule collection_roundtrip) (simp_all add: item_attribute_def scalar_roundtrip)
next
  case SetAttribute
  show ?case by (rule collection_roundtrip) (simp_all add: item_attribute_def scalar_roundtrip)
qed (rule scalar_roundtrip)+

end
