(* ===== verification/SpecProps.thy ===== *)
theory SpecProps
  imports SpecLaws "HOL-Library.Code_Target_Numeral"
begin

text \<open>The property of the typed spec conversion, with a queue as witness.\<close>

text \<open>
  C4: What a plan sends, state gets back. For every Form with a typed spec, take a planned value
  of the Form's schema, known throughout, with the schema's defaults filled in and null only where
  the schema has an attribute as optional. If it converts to a JSON spec the Form accepts, then that spec, when a Host returns it, is accepted and
  converts to the planned value, up to the order of the elements of a set and the spelling of
  \<open>vars_json\<close>, neither of which Terraform tells apart.
\<close>

theorem planned_spec_returns:
  assumes "def \<in> set v2Forms" "fd_spec def = Some attrs" "typed (SingleNestedAttribute attrs) planned"
    and "v2SpecFromPlan def planned = Inr spec"
  shows "\<exists>v. v2StateSpec def spec = Inr (Some v) \<and> same planned v"
proof -
  have clear: "clear (SingleNestedAttribute attrs)" by (rule form_clear [OF assms(1,2)])
  from assms(3) obtain vals where v: "planned = AObject (TVal vals)"
    by (cases "(SingleNestedAttribute attrs, planned)" rule: typed.cases) auto
  from assms(2,4) obtain encoded x where w: "members_to_wire v2ValueToWire vals attrs = Inr spec"
    and m: "marshal (spec_map spec) = Inr encoded" and d: "spec_Decode (fd_form def) encoded = Inr x"
    by (auto simp: v v2SpecFromPlan_def v2ObjectToWire_def split: sum.splits)
  have e: "encodable (JObj spec)"
    using m by (auto simp: marshal_def validate_value_def encodable_def go_arg_def spec_map_def split: sum.splits if_splits)
  have "v2ValueToWire planned (SingleNestedAttribute attrs) = Inr (JObj spec)" by (simp add: v w)
  with value_roundtrip [OF clear] assms(3) e obtain v' where
    "v2ValueFromWire (SingleNestedAttribute attrs) (JObj spec) = Inr v'" "same planned v'" unfolding returns_def by blast
  with m d assms(2) show ?thesis by (auto simp: v2StateSpec_def v2ObjectFromWire_def split: sum.splits)
qed

definition sample_ref :: "string \<Rightarrow> attr" where
  "sample_ref uid = AObject (TVal [(''resource_uid'', AString (TVal uid))])"

text \<open>A queue consumer without a dead-letter queue.\<close>

definition sample_consumer :: attr where
  "sample_consumer = AObject (TVal [(''queue'', sample_ref ''q1''), (''worker'', sample_ref ''w1''),
     (''max_batch_size'', AInt64 (TVal 10)), (''max_batch_timeout_seconds'', AInt64 (TVal 5)),
     (''max_concurrency'', AInt64 (TVal 2)), (''max_retries'', AInt64 (TVal 3)),
     (''retry_delay_seconds'', AInt64 (TVal 0)), (''dead_letter_queue'', AObject TNull)])"

definition sample_consumer_spec :: obj where
  "sample_consumer_spec = [(''queue'', JObj [(''resourceUid'', JStr ''q1'')]), (''worker'', JObj [(''resourceUid'', JStr ''w1'')]),
     (''maxBatchSize'', JNum ''10''), (''maxBatchTimeoutSeconds'', JNum ''5''), (''maxConcurrency'', JNum ''2''),
     (''maxRetries'', JNum ''3''), (''retryDelaySeconds'', JNum ''0'')]"

theorem planned_spec_returns_witness:
  "\<exists>v. v2StateSpec (v2Forms ! 12) sample_consumer_spec = Inr (Some v) \<and> same sample_consumer v"
proof -
  obtain attrs where a: "fd_spec (v2Forms ! 12) = Some attrs" by (simp add: v2Forms_def)
  show ?thesis
  proof (rule planned_spec_returns [OF _ a])
    show "v2Forms ! 12 \<in> set v2Forms" by (simp add: v2Forms_def)
    show "typed (SingleNestedAttribute attrs) sample_consumer"
      using a by (auto simp: v2Forms_def sample_consumer_def sample_ref_def v2Ref_def v2OptionalRef_def v2Int_def v2String_def
          given_def)
    show "v2SpecFromPlan (v2Forms ! 12) sample_consumer = Inr sample_consumer_spec" by code_simp
  qed
qed

text \<open>
  C5: What a Host leaves out, state has as the schema says. Of a spec that is accepted for a Form
  and converted to state, an attribute without its member has the schema's default, if there is
  one, and is null if it is optional. This is the value the plan has for an attribute that is not
  configured, so leaving it out shows no difference.
\<close>

theorem left_out_as_planned:
  assumes "def \<in> set v2Forms" "fd_spec def = Some attrs" "(key, p, a) \<in> set attrs" "p \<noteq> Required"
    and "v2StateSpec def spec = Inr (Some (AObject (TVal vals)))" "map_of spec (v2WireName key) = None"
  shows "map_of vals key = Some (case p of Default d \<Rightarrow> d | _ \<Rightarrow> v2Null a)"
proof -
  have n: "names_clear attrs" using form_clear [OF assms(1,2)] by simp
  from assms(2,5) have m: "map_result (member_from_wire v2ValueFromWire spec) attrs = Inr vals"
    by (auto simp: v2StateSpec_def v2ObjectFromWire_def split: sum.splits)
  from assms(3) obtain i where i: "i < length attrs" "attrs ! i = (key, p, a)" by (auto simp: in_set_conv_nth)
  have l: "length vals = length attrs" and f: "\<And>j. j < length attrs \<Longrightarrow> member_from_wire v2ValueFromWire spec (attrs ! j) = Inr (vals ! j)"
    using m by (auto simp: map_result_Inr_iff list_all2_conv_all_nth)
  have "fst (vals ! j) = fst (attrs ! j)" if "j < length attrs" for j
    using f [OF that] by (cases "attrs ! j" rule: prod_cases3; cases "vals ! j") (auto simp: member_from_wire_def split: option.splits sum.splits if_splits)
  then have "map fst vals = map fst attrs" using l by (intro nth_equalityI) simp_all
  moreover have "map (\<lambda>x. v2WireName (fst x)) attrs = map v2WireName (map fst attrs)" by simp
  then have "distinct (map fst attrs)" using n by (metis names_clear_def distinct_map)
  moreover have "vals ! i = (key, missing_value key a)" using f [OF i(1)] i(2) assms(6) by (simp add: member_from_wire_def)
  ultimately have "map_of vals key = Some (missing_value key a)" using i(1) l by (metis map_of_eq_Some_iff nth_mem)
  moreover have "left_out p a = Some (missing_value key a)"
    using n assms(3,4) by (cases p) (auto simp: names_clear_def list_all_iff)
  ultimately show ?thesis using assms(4) by (cases p) auto
qed

theorem left_out_as_planned_witness:
  "\<exists>vals. v2StateSpec (v2Forms ! 11) [(''messageRetentionSeconds'', JNum ''60'')] = Inr (Some (AObject (TVal vals))) \<and>
     map_of vals ''delivery_delay_seconds'' = Some (AInt64 (TVal 0))"
proof -
  have f: "v2Forms ! 11 \<in> set v2Forms" "fd_spec (v2Forms ! 11) = Some [(''delivery_delay_seconds'', Default (AInt64 (TVal 0)), Int64Attribute),
      (''message_retention_seconds'', v2Int True)]" by (simp_all add: v2Forms_def)
  have "v2StateSpec (v2Forms ! 11) [(''messageRetentionSeconds'', JNum ''60'')] = Inr (Some (AObject (TVal
      [(''delivery_delay_seconds'', AInt64 (TVal 0)), (''message_retention_seconds'', AInt64 (TVal 60))])))" by code_simp
  moreover have "map_of [(''messageRetentionSeconds'', JNum ''60'')] (v2WireName ''delivery_delay_seconds'') = None" by code_simp
  ultimately show ?thesis
    using left_out_as_planned [OF f, of "''delivery_delay_seconds''" "Default (AInt64 (TVal 0))" Int64Attribute] by simp
qed

end
