(* ===== verification/Lifecycle.thy ===== *)
theory Lifecycle
  imports HostClient SpecWire PrivateInputs IntentStore
begin

text \<open>
  The resource lifecycle, \<open>provider/v2_resource.go\<close> and \<open>provider/v2_lifecycle_existing.go\<close>:
  Create, Read, Update, Delete and import of one Form's resource, over the Host API client and
  the intent store. The store is the record of its methods, so that both backends fit; waiting
  and the network share a state. What the journal and the client do is one log: requests, and
  the journal's successful claims, acknowledgements, completions and imports. The state
  Terraform keeps is part of the world, because it survives an error. A diagnostic is its
  summary, and an operation stops at its first error, as the code does.
\<close>

subsection \<open>Terraform state\<close>

record tf_state =
  ts_name :: "string tf"
  ts_space :: "string tf"
  ts_uid :: "string tf"
  ts_form_url :: "string tf"
  ts_host_api_root :: "string tf"
  ts_store_id :: "string tf"
  ts_generation :: "int tf"
  ts_intent_id :: "string tf"
  ts_operation_id :: "string tf"
  ts_phase :: "string tf"
  ts_offering_id :: "string tf"
  ts_offering_revision :: "string tf"
  ts_spec :: attr

definition null_state :: tf_state where
  "null_state = \<lparr>ts_name = TNull, ts_space = TNull, ts_uid = TNull, ts_form_url = TNull, ts_host_api_root = TNull,
     ts_store_id = TNull, ts_generation = TNull, ts_intent_id = TNull, ts_operation_id = TNull, ts_phase = TNull,
     ts_offering_id = TNull, ts_offering_revision = TNull, ts_spec = AObject TNull\<rparr>"

subsection \<open>The world\<close>

record 's journal =
  jn_Read :: "Target \<Rightarrow> ('s, store_error, Intent list) st"
  jn_ReadImportBinding :: "Target \<Rightarrow> ('s, store_error, ImportBinding option) st"
  jn_BindImportedResource :: "ImportRequest \<Rightarrow> ('s, store_error, ImportBinding) st"
  jn_Begin :: "BeginRequest \<Rightarrow> ('s, store_error, Intent) st"
  jn_RecordAccepted :: "string \<Rightarrow> OperationAck \<Rightarrow> ('s, store_error, Intent) st"
  jn_Complete :: "string \<Rightarrow> CompletionEvidence \<Rightarrow> ('s, store_error, Intent) st"

datatype jevent = Began Intent | Accepted Intent | Completed Intent | Imported ImportBinding

record ('n, 's) pworld = "('n, jevent) hworld" +
  pw_store :: 's
  pw_state :: "tf_state option"
  pw_warnings :: "string list"

text \<open>\<open>pe_wait\<close> tells whether the timer fired before the context ended.\<close>

record ('n, 's) penv =
  pe_net :: "'n network"
  pe_wait :: "'n \<Rightarrow> int \<Rightarrow> bool \<times> 'n"
  pe_private :: "string option"
  pe_store :: "'s journal"

type_synonym ('n, 's, 'a) prov = "(('n, 's) pworld, string, 'a) st"

text \<open>A step whose error becomes this diagnostic, and a step whose error is looked at.\<close>

definition refuse :: "string \<Rightarrow> ('w, 'e, 'a) st \<Rightarrow> ('w, string, 'a) st" where
  "refuse msg m w = (case m w of (Inl _, w') \<Rightarrow> (Inl msg, w') | (Inr x, w') \<Rightarrow> (Inr x, w'))"

definition attempt :: "('w, 'e, 'a) st \<Rightarrow> ('w, string, 'e + 'a) st" where
  "attempt m w = (case m w of (r, w') \<Rightarrow> (Inr r, w'))"

definition refuse_value :: "string \<Rightarrow> 'e + 'a \<Rightarrow> ('w, string, 'a) st" where
  "refuse_value msg r = (case r of Inl _ \<Rightarrow> raise msg | Inr x \<Rightarrow> ret x)"

definition on_store :: "('s, store_error, 'a) st \<Rightarrow> ('a \<Rightarrow> jevent list) \<Rightarrow> (('n, 's) pworld, store_error, 'a) st" where
  "on_store m ev w =
     (case m (pw_store w) of (r, s) \<Rightarrow>
        (r, w\<lparr>pw_store := s, hw_log := hw_log w @ (case r of Inl _ \<Rightarrow> [] | Inr x \<Rightarrow> map Did (ev x))\<rparr>))"

definition set_state :: "tf_state option \<Rightarrow> ('n, 's, unit) prov" where
  "set_state s w = (Inr (), w\<lparr>pw_state := s\<rparr>)"

definition edit_state :: "(tf_state \<Rightarrow> tf_state) \<Rightarrow> ('n, 's, unit) prov" where
  "edit_state f w = (Inr (), w\<lparr>pw_state := Some (f (case pw_state w of None \<Rightarrow> null_state | Some s \<Rightarrow> s))\<rparr>)"

definition warn :: "string \<Rightarrow> ('n, 's, unit) prov" where
  "warn msg w = (Inr (), w\<lparr>pw_warnings := pw_warnings w @ [msg]\<rparr>)"

subsection \<open>The resource\<close>

record v2ProviderData =
  vd_store :: bool
  vd_hostAPIRoot :: string
  vd_storeID :: string
  vd_space :: string

record v2Resource =
  rs_def :: v2FormDef
  rs_data :: "v2ProviderData option"

abbreviation rs_form :: "v2Resource \<Rightarrow> string" where "rs_form r \<equiv> fd_form (rs_def r)"

definition v2IDPattern :: "string \<Rightarrow> bool" where
  "v2IDPattern s = match_rep is_alnum (\<lambda>c. is_alnum c \<or> c \<in> set ''._-'') 0 127 s"

definition v2KeyPattern :: "string \<Rightarrow> bool" where
  "v2KeyPattern s = match_rep is_alnum (\<lambda>c. is_alnum c \<or> c \<in> set ''._:-'') 15 127 s"

record v2Identity =
  id_name :: string
  id_space :: string
  id_uid :: string
  id_form :: string
  id_root :: string
  id_storeID :: string
  id_intentID :: string
  id_operationID :: string
  id_phase :: string
  id_generation :: int
  id_importing :: bool

definition read_identity :: "bool \<Rightarrow> tf_state \<Rightarrow> v2Identity" where
  "read_identity allowImport s =
     (let uid = tf_string (ts_uid s); name = tf_string (ts_name s);
          gen = (case ts_generation s of TVal n \<Rightarrow> n | _ \<Rightarrow> 0) in
      \<lparr>id_name = name, id_space = tf_string (ts_space s), id_uid = uid, id_form = tf_string (ts_form_url s),
       id_root = tf_string (ts_host_api_root s), id_storeID = tf_string (ts_store_id s),
       id_intentID = tf_string (ts_intent_id s), id_operationID = tf_string (ts_operation_id s),
       id_phase = tf_string (ts_phase s), id_generation = gen,
       id_importing = (allowImport \<and> uid \<noteq> [] \<and> name = [] \<and> gen = 0)\<rparr>)"

definition identity :: "v2Resource \<Rightarrow> tf_state \<Rightarrow> bool \<Rightarrow> string + v2Identity" where
  "identity r s allowImport =
     (case rs_data r of None \<Rightarrow> Inl ''v2 provider not configured''
      | Some d \<Rightarrow>
          if \<not> vd_store d then Inl ''v2 provider not configured''
          else if list_ex tf_unknown [ts_name s, ts_space s, ts_uid s, ts_form_url s, ts_host_api_root s, ts_store_id s,
                    ts_intent_id s, ts_operation_id s, ts_phase s] then Inl ''v2 state is malformed''
          else if tf_unknown (ts_generation s) then Inl ''v2 state generation is malformed''
          else
            let i = read_identity allowImport s in
            if id_form i \<noteq> rs_form r \<or> id_root i \<noteq> vd_hostAPIRoot d \<or> id_storeID i \<noteq> vd_storeID d \<or>
               \<not> v2IDPattern (id_uid i) \<or> \<not> v2IDPattern (id_space i) \<or>
               (id_name i \<noteq> [] \<and> \<not> v2IDPattern (id_name i)) \<or>
               (\<not> id_importing i \<and> (\<not> v2IDPattern (id_name i) \<or> id_generation i < 1 \<or> 9007199254740991 < id_generation i)) \<or>
               (id_intentID i = []) \<noteq> (id_operationID i = []) \<or> id_importing i \<and> id_intentID i \<noteq> []
            then Inl ''v2 state identity, generation, or linkage does not match''
            else if id_intentID i \<noteq> [] \<and> \<not> v2KeyPattern (id_intentID i) then Inl ''v2 state intent linkage is malformed''
            else if id_operationID i \<noteq> [] \<and> \<not> v2IDPattern (id_operationID i) then Inl ''v2 state Operation linkage is malformed''
            else Inr i)"

definition target_of :: "v2ProviderData \<Rightarrow> string \<Rightarrow> string \<Rightarrow> Target" where
  "target_of d space name = \<lparr>t_HostAPI = vd_hostAPIRoot d, t_PrincipalScope = vd_storeID d, t_Space = space, t_Name = name\<rparr>"

definition planNameSpace :: "v2ProviderData \<Rightarrow> tf_state \<Rightarrow> string + string \<times> string" where
  "planNameSpace d plan =
     (if \<not> (case ts_name plan of TVal n \<Rightarrow> v2IDPattern n | _ \<Rightarrow> False) then Inl ''name must be a known Host API v2 ID''
      else if tf_unknown (ts_space plan) then Inl ''space must be known''
      else
        let space = (if tf_string (ts_space plan) \<noteq> [] then tf_string (ts_space plan) else vd_space d) in
        if \<not> v2IDPattern space then Inl ''space must be a known Host API v2 ID''
        else Inr (tf_string (ts_name plan), space))"

definition configuredOffering :: "tf_state \<Rightarrow> string + OfferingSelection option" where
  "configuredOffering plan =
     (case (ts_offering_id plan, ts_offering_revision plan) of
        (TNull, TNull) \<Rightarrow> Inr None
      | (TVal i, TVal revision) \<Rightarrow>
          if \<not> v2IDPattern i \<or> revision = [] then Inl ''both exact offering_id and offering_revision are required''
          else Inr (Some \<lparr>os_ID = i, os_Revision = revision\<rparr>)
      | (a, b) \<Rightarrow> if tf_unknown a \<or> tf_unknown b then Inl ''Offering selection must be known''
          else Inl ''both exact offering_id and offering_revision are required'')"

definition offering_of :: "tf_state \<Rightarrow> Discovery \<Rightarrow> string + OfferingSelection option" where
  "offering_of plan discovery =
     (case configuredOffering plan of Inl e \<Rightarrow> Inl e
      | Inr selection \<Rightarrow>
          if \<not> cp_Offerings (di_Capabilities discovery) then
            (if selection \<noteq> None then Inl ''Host does not advertise Offerings'' else Inr None)
          else if selection = None then Inl ''Host advertises Offerings'' else Inr selection)"

definition v2HasCRUD :: "string list \<Rightarrow> bool" where
  "v2HasCRUD operations \<longleftrightarrow> ''create'' \<in> set operations \<and> ''read'' \<in> set operations \<and>
     ''update'' \<in> set operations \<and> ''delete'' \<in> set operations"

definition sensitive_names :: "obj \<Rightarrow> string + string list" where
  "sensitive_names spec =
     (case map_of spec ''requiredSensitiveVars'' of None \<Rightarrow> Inr []
      | Some (JArr items) \<Rightarrow>
          map_result (\<lambda>i. case i of JStr n \<Rightarrow> Inr n | _ \<Rightarrow> Inl ''required sensitive input names are invalid'') items
      | Some _ \<Rightarrow> Inl ''required sensitive input names are invalid'')"

text \<open>The map to send, a pointer that may be nil, and the declared names.\<close>

definition privateInputs ::
  "('n, 's) penv \<Rightarrow> string \<Rightarrow> string \<Rightarrow> string \<Rightarrow> obj \<Rightarrow> Discovery \<Rightarrow> Support \<Rightarrow>
     string + (string \<times> string) list option option \<times> string list" where
  "privateInputs env form space name spec discovery support =
     (if form \<noteq> WorkerVersionURL then Inr (None, [])
      else case sensitive_names spec of Inl e \<Rightarrow> Inl e
      | Inr names \<Rightarrow>
          if names \<noteq> [] \<and> (\<not> cp_PrivateInputs (di_Capabilities discovery) \<or> \<not> su_PrivateInputs support)
          then Inl ''Host and exact Form must both advertise private-input support''
          else (case Load (pe_private env) space name names of
              Inl _ \<Rightarrow> Inl ''the exact apply-time private-input map is unavailable''
            | Inr values \<Rightarrow> if names = [] then Inr (None, []) else Inr (Some (Some values), names)))"

definition privateInputsForUpdate ::
  "('n, 's) penv \<Rightarrow> string \<Rightarrow> string \<Rightarrow> obj \<Rightarrow> string + (string \<times> string) list option option \<times> string list" where
  "privateInputsForUpdate env space name spec =
     (case sensitive_names spec of Inl e \<Rightarrow> Inl e
      | Inr names \<Rightarrow>
          (case LoadOptional (pe_private env) space name names of Inl _ \<Rightarrow> Inl ''invalid selected apply-time private-input map''
           | Inr None \<Rightarrow> Inr (None, [])
           | Inr (Some values) \<Rightarrow> if names = [] then Inr (None, []) else Inr (Some (Some values), names)))"

definition v2Ack :: "Operation \<Rightarrow> OperationAck" where
  "v2Ack op = \<lparr>a_ID = op_ID op, a_ResourceUID = op_ResourceUID op, a_Action = op_Action op, a_Generation = op_Generation op,
     a_Status = op_Status op, a_Effect = op_Effect op, a_RetainUntil = op_RetainUntil op\<rparr>"

definition v2DeletedResourceStatus :: "host_error + Resource \<Rightarrow> nat option" where
  "v2DeletedResourceStatus r =
     (case r of Inl (APIError st code _ _) \<Rightarrow> if st = 404 \<or> st = 410 \<and> code = ''gone'' then Some st else None
      | _ \<Rightarrow> None)"

subsection \<open>Writing state\<close>

definition linkage :: "string \<Rightarrow> string tf" where
  "linkage s = (if s = [] then TNull else TVal s)"

definition writePending :: "v2Resource \<Rightarrow> v2ProviderData \<Rightarrow> string \<Rightarrow> string \<Rightarrow> Operation \<Rightarrow> string \<Rightarrow> ('n, 's, unit) prov" where
  "writePending r d space name op intentID = edit_state (\<lambda>s. s\<lparr>ts_name := TVal name, ts_space := TVal space,
     ts_uid := TVal (op_ResourceUID op), ts_form_url := TVal (rs_form r), ts_host_api_root := TVal (vd_hostAPIRoot d),
     ts_store_id := TVal (vd_storeID d), ts_intent_id := TVal intentID, ts_operation_id := TVal (op_ID op),
     ts_phase := TVal ''pending'', ts_generation := TVal (op_Generation op)\<rparr>)"

definition written ::
  "v2Resource \<Rightarrow> v2ProviderData \<Rightarrow> Resource \<Rightarrow> attr option \<Rightarrow> string \<Rightarrow> string \<Rightarrow> tf_state \<Rightarrow> tf_state" where
  "written r d rec specValue intentID operationID s = s\<lparr>ts_name := TVal (re_Name rec), ts_space := TVal (re_Space rec),
     ts_uid := TVal (re_UID rec), ts_form_url := TVal (rs_form r), ts_host_api_root := TVal (vd_hostAPIRoot d),
     ts_store_id := TVal (vd_storeID d), ts_intent_id := linkage intentID, ts_operation_id := linkage operationID,
     ts_phase := TVal (re_Phase rec), ts_generation := TVal (re_Generation rec),
     ts_spec := (case specValue of None \<Rightarrow> ts_spec s | Some v \<Rightarrow> v),
     ts_offering_id := (case re_Offering rec of None \<Rightarrow> TNull | Some sel \<Rightarrow> TVal (os_ID sel)),
     ts_offering_revision := (case re_Offering rec of None \<Rightarrow> TNull | Some sel \<Rightarrow> TVal (os_Revision sel))\<rparr>"

definition writeResource ::
  "v2Resource \<Rightarrow> v2ProviderData \<Rightarrow> Resource \<Rightarrow> string \<Rightarrow> string \<Rightarrow> ('n, 's, unit) prov" where
  "writeResource r d rec intentID operationID =
     (if re_Form rec \<noteq> rs_form r \<or> re_Space rec = [] \<or> re_Name rec = [] then raise ''Wrong Host Resource identity''
      else case re_Spec rec of None \<Rightarrow> raise ''Invalid Host Resource spec''
      | Some spec \<Rightarrow>
          (case v2StateSpec (rs_def r) spec of Inl _ \<Rightarrow> raise ''Invalid Host Resource spec''
           | Inr specValue \<Rightarrow> edit_state (written r d rec specValue intentID operationID)))"

subsection \<open>Waiting for an Operation\<close>

text \<open>
  The two loops, \<open>readOperation\<close> and the loop of \<open>finish\<close>, go on as long as the Host says so and
  the context allows. \<open>fuel\<close> bounds their rounds; running out of it is \<open>unfinished\<close>, which
  stands for a run that has not returned yet.
\<close>

definition unfinished :: string where "unfinished = ''(still waiting)''"

definition maxWaitSeconds :: int where "maxWaitSeconds = (2 ^ 63 - 1) div 10 ^ 9"

definition v2Wait :: "('n, 's) penv \<Rightarrow> int \<Rightarrow> (('n, 's) pworld, unit, unit) st" where
  "v2Wait env seconds w =
     (let s1 = (if seconds < 1 then 1 else seconds);
          s2 = (if maxWaitSeconds < s1 then maxWaitSeconds else s1);
          (fired, n) = pe_wait env (hw_net w) s2
      in (if fired then Inr () else Inl (), w\<lparr>hw_net := n\<rparr>))"

definition same_operation :: "Intent \<Rightarrow> Operation \<Rightarrow> bool" where
  "same_operation intent op \<longleftrightarrow> op_ID op = i_OperationID intent \<and> op_ResourceUID op = i_OperationUID intent \<and>
     op_Action op = i_Action intent \<and> op_Generation op = i_OperationGeneration intent"

definition retry_delay :: "host_error \<Rightarrow> int option" where
  "retry_delay e =
     (case e of APIError st _ retry _ \<Rightarrow>
          if st \<noteq> 429 then None
          else (case parse_int64 retry of None \<Rightarrow> None | Some n \<Rightarrow> if n < 1 then None else Some n)
      | _ \<Rightarrow> None)"

abbreviation unavailable :: string where "unavailable \<equiv> ''Accepted v2 Operation unavailable or inconsistent''"

fun readOperation :: "('n, 's) penv \<Rightarrow> nat \<Rightarrow> Intent \<Rightarrow> ('n, 's, Operation) prov" where
  "readOperation env fuel intent w =
     (case ReadOperation (pe_net env) (i_OperationID intent) w of
        (Inr op, w1) \<Rightarrow> if same_operation intent op then (Inr op, w1) else (Inl unavailable, w1)
      | (Inl e, w1) \<Rightarrow>
          (case retry_delay e of None \<Rightarrow> (Inl unavailable, w1)
           | Some seconds \<Rightarrow>
               (case v2Wait env seconds w1 of (Inl _, w2) \<Rightarrow> (Inl unavailable, w2)
                | (Inr _, w2) \<Rightarrow>
                    (case fuel of 0 \<Rightarrow> (Inl unfinished, w2) | Suc n \<Rightarrow> readOperation env n intent w2))))"

declare readOperation.simps [simp del]

definition supply_inputs :: "('n, 's) penv \<Rightarrow> Intent \<Rightarrow> Operation \<Rightarrow> ('n, 's, unit) prov" where
  "supply_inputs env intent op =
     (if op_Status op \<noteq> ''waiting_input'' then ret ()
      else if i_Action intent = ActionDelete \<or> i_PrivateInputNames intent = [] then raise ''v2 Operation waits for private inputs''
      else case Load (pe_private env) (t_Space (i_Target intent)) (t_Name (i_Target intent)) (i_PrivateInputNames intent) of
        Inl _ \<Rightarrow> raise ''v2 original private inputs unavailable''
      | Inr values \<Rightarrow>
          andThen (refuse ''v2 private-input continuation uncertain'' (ContinuePrivateInputs (pe_net env) op (Some values)))
            (\<lambda>_. ret ()))"

definition settled_status :: "string \<Rightarrow> bool" where
  "settled_status s \<longleftrightarrow> s = ''succeeded'' \<or> s = ''failed''"

text \<open>The body of the polling loop, with the rest of the loop as its continuation.\<close>

definition settle_round ::
  "('n, 's) penv \<Rightarrow> nat \<Rightarrow> Intent \<Rightarrow> (Operation \<Rightarrow> ('n, 's, Operation) prov) \<Rightarrow> Operation \<Rightarrow> ('n, 's, Operation) prov" where
  "settle_round env fuel intent again op =
     (if settled_status (op_Status op) then ret op
      else andThen (supply_inputs env intent op) (\<lambda>_.
           andThen (refuse ''v2 Operation still pending'' (v2Wait env (op_RetryAfterSeconds op))) (\<lambda>_.
           andThen (readOperation env fuel intent) again)))"

fun settle :: "('n, 's) penv \<Rightarrow> nat \<Rightarrow> Intent \<Rightarrow> Operation \<Rightarrow> ('n, 's, Operation) prov" where
  "settle env 0 intent op = settle_round env 0 intent (\<lambda>op'. if settled_status (op_Status op') then ret op' else raise unfinished) op"
| "settle env (Suc n) intent op = settle_round env (Suc n) intent (settle env n intent) op"

definition initial_wait :: "('n, 's) penv \<Rightarrow> int \<Rightarrow> ('n, 's, unit) prov" where
  "initial_wait env delay = (if 0 < delay then refuse ''v2 Operation still pending'' (v2Wait env delay) else ret ())"

subsection \<open>Completing\<close>

text \<open>The evidence a settled Operation needs: what a read of the exact UID shows.\<close>

definition absence_of :: "string \<Rightarrow> nat \<Rightarrow> ResourceObservation" where
  "absence_of uid status = \<lparr>o_Present = False, o_Path = ''/resources/'' @ uid, o_StatusCode = int status, o_UID = [], o_Form = [],
     o_Space = [], o_Name = [], o_Generation = 0, o_Phase = []\<rparr>"

definition presence_of :: "Resource \<Rightarrow> ResourceObservation" where
  "presence_of rec = \<lparr>o_Present = True, o_Path = ''/resources/'' @ re_UID rec, o_StatusCode = 200, o_UID = re_UID rec,
     o_Form = re_Form rec, o_Space = re_Space rec, o_Name = re_Name rec, o_Generation = re_Generation rec, o_Phase = re_Phase rec\<rparr>"

definition observe ::
  "('n, 's) penv \<Rightarrow> v2Resource \<Rightarrow> Intent \<Rightarrow> Operation \<Rightarrow> ('n, 's, Resource option \<times> ResourceObservation) prov" where
  "observe env r intent op =
     andThen (attempt (ReadResource (pe_net env) (op_ResourceUID op))) (\<lambda>res.
     if i_Action intent = ActionDelete \<and> op_Status op = ''succeeded'' then
       (case v2DeletedResourceStatus res of None \<Rightarrow> raise ''v2 Delete absence unproven''
        | Some status \<Rightarrow> ret (None, absence_of (op_ResourceUID op) status))
     else
       (case res of Inl _ \<Rightarrow> raise ''v2 Resource evidence mismatch''
        | Inr rec \<Rightarrow>
            if re_Form rec \<noteq> rs_form r \<or> re_Space rec \<noteq> t_Space (i_Target intent) \<or> re_Name rec \<noteq> t_Name (i_Target intent) \<or>
               re_Generation rec \<noteq> op_Generation op \<or> re_LastOperation rec \<noteq> op_ID op
            then raise ''v2 Resource evidence mismatch'' else ret (Some rec, presence_of rec)))"

definition journal_complete :: "('n, 's) penv \<Rightarrow> string \<Rightarrow> CompletionEvidence \<Rightarrow> ('n, 's, Intent) prov" where
  "journal_complete env i ev =
     refuse ''v2 completion custody refused'' (on_store (jn_Complete (pe_store env) i ev) (\<lambda>x. [Completed x]))"

abbreviation retained_failure :: string where "retained_failure \<equiv> ''v2 Operation failed with retained UID''"

definition conclude ::
  "v2Resource \<Rightarrow> v2ProviderData \<Rightarrow> Intent \<Rightarrow> bool \<Rightarrow> Operation \<Rightarrow> Resource option \<Rightarrow> ('n, 's, unit) prov" where
  "conclude r d intent reportFailure op rec =
     (case rec of None \<Rightarrow> set_state None
      | Some rec \<Rightarrow>
          if op_Status op = ''failed'' then
            andThen (attempt (writeResource r d rec (i_ID intent) (op_ID op))) (\<lambda>wrote.
            andThen (if reportFailure then ret () else warn retained_failure) (\<lambda>_.
              case wrote of Inl e \<Rightarrow> raise e
              | Inr _ \<Rightarrow> if reportFailure then raise retained_failure else ret ()))
          else writeResource r d rec [] [])"

definition finish ::
  "('n, 's) penv \<Rightarrow> nat \<Rightarrow> v2Resource \<Rightarrow> v2ProviderData \<Rightarrow> Intent \<Rightarrow> int \<Rightarrow> bool \<Rightarrow> ('n, 's, unit) prov" where
  "finish env fuel r d intent initialDelay reportFailure =
     andThen (initial_wait env initialDelay) (\<lambda>_.
     andThen (readOperation env fuel intent) (\<lambda>op0.
     andThen (settle env fuel intent op0) (\<lambda>op.
     andThen (observe env r intent op) (\<lambda>(rec, obs).
     andThen (journal_complete env (i_ID intent) \<lparr>e_Operation = v2Ack op, e_Resource = obs\<rparr>) (\<lambda>_.
     conclude r d intent reportFailure op rec)))))"

subsection \<open>Planning, importing and upgrading\<close>

text \<open>The provider's data a resource receives: nothing yet, this lane's, or another lane's.\<close>

definition Resource_Configure :: "v2Resource \<Rightarrow> v2ProviderData option option \<Rightarrow> string + v2Resource" where
  "Resource_Configure r req =
     (case req of None \<Rightarrow> Inr r
      | Some None \<Rightarrow> Inl ''Invalid v2 provider data''
      | Some (Some d) \<Rightarrow> Inr (r\<lparr>rs_data := Some d\<rparr>))"

definition ModifyPlan :: "v2Resource \<Rightarrow> string tf \<Rightarrow> tf_state option \<Rightarrow> tf_state option" where
  "ModifyPlan r configured plan =
     (case (rs_data r, plan) of
        (Some d, Some p) \<Rightarrow> if vd_space d = [] \<or> configured \<noteq> TNull then plan else Some (p\<lparr>ts_space := TVal (vd_space d)\<rparr>)
      | _ \<Rightarrow> plan)"

definition UpgradeState :: "int \<Rightarrow> ('n, 's, unit) prov option" where
  "UpgradeState version =
     (if version = 0 \<or> version = 1 then Some (raise ''Historical state cannot enter Host API v2'') else None)"

definition ImportState :: "v2Resource \<Rightarrow> string \<Rightarrow> ('n, 's, unit) prov" where
  "ImportState r i =
     (case rs_data r of None \<Rightarrow> raise ''v2 provider not configured''
      | Some d \<Rightarrow>
          if \<not> vd_store d then raise ''v2 provider not configured''
          else if \<not> v2IDPattern i then raise ''Invalid import UID''
          else if vd_space d = [] then raise ''Import requires Space''
          else edit_state (\<lambda>s. s\<lparr>ts_uid := TVal i, ts_space := TVal (vd_space d), ts_form_url := TVal (rs_form r),
                 ts_host_api_root := TVal (vd_hostAPIRoot d), ts_store_id := TVal (vd_storeID d)\<rparr>))"

subsection \<open>Access to the Host and the journal\<close>

definition discover :: "('n, 's) penv \<Rightarrow> v2ProviderData \<Rightarrow> ('n, 's, Discovery) prov" where
  "discover env d =
     andThen (refuse ''v2 discovery refused'' (Discover (pe_net env))) (\<lambda>discovery.
       if di_BaseURL discovery \<noteq> vd_hostAPIRoot d then raise ''v2 discovery refused'' else ret discovery)"

definition read_history :: "('n, 's) penv \<Rightarrow> Target \<Rightarrow> ('n, 's, Intent list) prov" where
  "read_history env target =
     refuse ''v2 intent store unavailable'' (on_store (jn_Read (pe_store env) target) (\<lambda>_. []))"

definition read_import :: "('n, 's) penv \<Rightarrow> string \<Rightarrow> Target \<Rightarrow> ('n, 's, ImportBinding option) prov" where
  "read_import env msg target = refuse msg (on_store (jn_ReadImportBinding (pe_store env) target) (\<lambda>_. []))"

definition journal_begin :: "('n, 's) penv \<Rightarrow> string \<Rightarrow> BeginRequest \<Rightarrow> ('n, 's, Intent) prov" where
  "journal_begin env msg req = refuse msg (on_store (jn_Begin (pe_store env) req) (\<lambda>x. [Began x]))"

definition journal_accept :: "('n, 's) penv \<Rightarrow> string \<Rightarrow> string \<Rightarrow> Operation \<Rightarrow> ('n, 's, Intent) prov" where
  "journal_accept env msg i op =
     refuse msg (on_store (jn_RecordAccepted (pe_store env) i (v2Ack op)) (\<lambda>x. [Accepted x]))"

text \<open>An exact read that must show this resource; every other answer is the diagnostic.\<close>

definition read_exact ::
  "('n, 's) penv \<Rightarrow> string \<Rightarrow> string \<Rightarrow> (Resource \<Rightarrow> bool) \<Rightarrow> ('n, 's, Resource) prov" where
  "read_exact env msg uid expected =
     andThen (refuse msg (ReadResource (pe_net env) uid)) (\<lambda>rec. if expected rec then ret rec else raise msg)"

subsection \<open>Create\<close>

definition create_request :: "v2Resource \<Rightarrow> string \<Rightarrow> string \<Rightarrow> OfferingSelection option \<Rightarrow> obj \<Rightarrow> CreateRequest" where
  "create_request r space name offering spec = \<lparr>cq_Form = rs_form r, cq_Space = space, cq_Name = name, cq_Offering = offering,
     cq_Spec = Some spec, cq_PrivateInputs = None\<rparr>"

text \<open>The name's latest intent is not a confirmed deletion: only that Create may be finished.\<close>

definition existing_create ::
  "('n, 's) penv \<Rightarrow> nat \<Rightarrow> v2Resource \<Rightarrow> v2ProviderData \<Rightarrow> tf_state \<Rightarrow> string \<Rightarrow> string \<Rightarrow> obj \<Rightarrow> Intent \<Rightarrow> ('n, 's, unit) prov" where
  "existing_create env fuel r d plan space name spec latest =
     (if i_OperationID latest = [] then raise ''Unknown pre-ACK v2 outcome''
      else if i_Form latest \<noteq> rs_form r \<or> i_Action latest \<noteq> ActionCreate then raise ''v2 name slot is occupied''
      else if i_Status latest = StatusFailedReserved then raise ''v2 failed Create retains UID''
      else andThen (refuse_value ''Invalid Offering selection'' (configuredOffering plan)) (\<lambda>selection.
           if marshal (enc_create (create_request r space name selection spec)) \<noteq> Inr (i_PublicJSON latest)
           then raise ''v2 Create differs from retained intent''
           else andThen (discover env d) (\<lambda>_. finish env fuel r d latest 0 True)))"

text \<open>What follows a durable claim: send, record the acknowledgement, wait for the outcome.\<close>

definition send_claimed ::
  "('n, 's) penv \<Rightarrow> nat \<Rightarrow> v2Resource \<Rightarrow> v2ProviderData \<Rightarrow> string \<times> string \<Rightarrow> string \<Rightarrow> string \<Rightarrow> tf_state \<Rightarrow>
     (string \<Rightarrow> (('n, 's) pworld, host_error, Operation) st) \<Rightarrow> Intent \<Rightarrow> ('n, 's, unit) prov" where
  "send_claimed env fuel r d msgs space name pending send intent =
     andThen (refuse (fst msgs) (send (i_Key intent))) (\<lambda>op.
     andThen (journal_accept env (snd msgs) (i_ID intent) op) (\<lambda>accepted.
     andThen (set_state (Some pending)) (\<lambda>_.
     andThen (writePending r d space name op (i_ID accepted)) (\<lambda>_.
     finish env fuel r d accepted (op_RetryAfterSeconds op) True))))"

definition create_claim ::
  "v2Resource \<Rightarrow> Target \<Rightarrow> bytes \<Rightarrow> string list \<Rightarrow> Discovery \<Rightarrow> BeginRequest" where
  "create_claim r target publicJSON names discovery = \<lparr>r_Target = target, r_Action = ActionCreate, r_Form = rs_form r,
     r_Method = ''POST'', r_Path = ''/resources'', r_UID = [], r_Generation = [], r_SupersedesIntentID = [],
     r_PublicJSON = publicJSON, r_PrivateInputNames = names,
     r_AdvertisedReplayWindowSecs = lm_ReplayWindowSeconds (di_Limits discovery)\<rparr>"

definition crud_support :: "Support \<Rightarrow> bool" where
  "crud_support support \<longleftrightarrow> su_Supported support \<and>
     v2HasCRUD (case su_Operations support of None \<Rightarrow> [] | Some ops \<Rightarrow> ops)"

definition fresh_create ::
  "('n, 's) penv \<Rightarrow> nat \<Rightarrow> v2Resource \<Rightarrow> v2ProviderData \<Rightarrow> tf_state \<Rightarrow> string \<Rightarrow> string \<Rightarrow> obj \<Rightarrow> ('n, 's, unit) prov" where
  "fresh_create env fuel r d plan space name spec =
     andThen (discover env d) (\<lambda>discovery.
     andThen (refuse ''v2 Form support unavailable'' (GetSupport (pe_net env) (rs_form r))) (\<lambda>support.
     if \<not> crud_support support then raise ''Exact Form is not supported''
     else andThen (refuse_value ''Invalid Offering selection'' (offering_of plan discovery)) (\<lambda>offering.
     andThen (refuse_value ''Private inputs unavailable''
       (privateInputs env (rs_form r) space name spec discovery support)) (\<lambda>(private, names).
     let public = create_request r space name offering spec in
     andThen (refuse_value ''Invalid public request'' (marshal (enc_create public))) (\<lambda>publicJSON.
     andThen (journal_begin env ''v2 name slot or intent conflict''
       (create_claim r (target_of d space name) publicJSON names discovery)) (\<lambda>intent.
     send_claimed env fuel r d (''Unknown v2 Create outcome'', ''Accepted v2 Create could not be journaled'')
       space name plan
       (\<lambda>key. CreateResource (pe_net env) key (public\<lparr>cq_PrivateInputs := private\<rparr>)) intent))))))"

definition Resource_Create :: "('n, 's) penv \<Rightarrow> nat \<Rightarrow> v2Resource \<Rightarrow> tf_state \<Rightarrow> ('n, 's, unit) prov" where
  "Resource_Create env fuel r plan =
     (case rs_data r of None \<Rightarrow> raise ''v2 provider not configured''
      | Some d \<Rightarrow>
          andThen (refuse_value ''Invalid v2 plan'' (planNameSpace d plan)) (\<lambda>(name, space).
          andThen (refuse_value ''Invalid exact Form spec'' (v2SpecFromPlan (rs_def r) (ts_spec plan))) (\<lambda>spec.
          andThen (read_history env (target_of d space name)) (\<lambda>history.
          if history \<noteq> [] \<and> i_Status (last history) \<noteq> StatusDeleteConfirmed
          then existing_create env fuel r d plan space name spec (last history)
          else fresh_create env fuel r d plan space name spec))))"

subsection \<open>Read\<close>

definition v2StaleStateMatchesLatest :: "v2Identity \<Rightarrow> Intent list \<Rightarrow> bool" where
  "v2StaleStateMatchesLatest i history =
     (if history = [] then False
      else
        let latest = last history in
        if i_Action latest \<noteq> ActionUpdate \<and> i_Action latest \<noteq> ActionDelete \<or>
           i_Form latest \<noteq> id_form i \<or> i_UID latest \<noteq> id_uid i \<or> i_OperationUID latest \<noteq> id_uid i \<or>
           i_OperationID latest = [] \<or> i_Generation latest \<noteq> format_int (id_generation i) \<or>
           i_OperationGeneration latest \<noteq> id_generation i + 1
        then False
        else if id_intentID i = [] then i_SupersedesIntentID latest = []
        else if length history < 2 \<or> i_SupersedesIntentID latest \<noteq> id_intentID i then False
        else
          let prior = history ! (length history - 2) in
          i_ID prior = id_intentID i \<and> i_OperationID prior = id_operationID i \<and>
          i_Status prior = StatusFailedReserved \<and> i_OperationUID prior = id_uid i \<and>
          i_ObservedGeneration prior = i_Generation latest \<and> i_Form prior = i_Form latest \<and> i_Target prior = i_Target latest)"

definition completed_matches :: "Intent \<Rightarrow> Resource \<Rightarrow> bool" where
  "completed_matches latest rec \<longleftrightarrow>
     re_UID rec = i_OperationUID latest \<and> re_Form rec = i_Form latest \<and> re_Space rec = t_Space (i_Target latest) \<and>
     re_Name rec = t_Name (i_Target latest) \<and> re_Generation rec = i_OperationGeneration latest \<and>
     re_LastOperation rec = i_OperationID latest \<and>
     re_Phase rec = (if i_Status latest = StatusFailedReserved then ''error'' else ''idle'')"

definition readCompletedOperation :: "('n, 's) penv \<Rightarrow> v2Resource \<Rightarrow> v2ProviderData \<Rightarrow> Intent \<Rightarrow> ('n, 's, unit) prov" where
  "readCompletedOperation env r d latest =
     andThen (attempt (ReadResource (pe_net env) (i_OperationUID latest))) (\<lambda>res.
     if i_Status latest = StatusDeleteConfirmed then
       (case v2DeletedResourceStatus res of None \<Rightarrow> raise ''v2 Delete absence unproven'' | Some _ \<Rightarrow> set_state None)
     else
       (case res of Inl _ \<Rightarrow> raise ''v2 completed Resource evidence mismatch''
        | Inr rec \<Rightarrow>
            if \<not> completed_matches latest rec then raise ''v2 completed Resource evidence mismatch''
            else if i_Status latest = StatusFailedReserved then
              andThen (attempt (writeResource r d rec (i_ID latest) (i_OperationID latest))) (\<lambda>wrote.
              andThen (warn retained_failure) (\<lambda>_. lift_result wrote))
            else writeResource r d rec [] []))"

definition import_evidence :: "v2ProviderData \<Rightarrow> string \<Rightarrow> Resource \<Rightarrow> ImportEvidence" where
  "import_evidence d uid rec = \<lparr>ie_HostAPI = vd_hostAPIRoot d, ie_Path = ''/resources/'' @ uid, ie_StatusCode = 200,
     ie_UID = re_UID rec, ie_Form = re_Form rec, ie_Space = re_Space rec, ie_Name = re_Name rec, ie_Generation = re_Generation rec\<rparr>"

definition read_importing ::
  "('n, 's) penv \<Rightarrow> v2Resource \<Rightarrow> v2ProviderData \<Rightarrow> tf_state \<Rightarrow> v2Identity \<Rightarrow> ('n, 's, unit) prov" where
  "read_importing env r d old i =
     andThen (discover env d) (\<lambda>_.
     andThen (read_exact env ''v2 import evidence refused'' (id_uid i) (\<lambda>rec.
        re_UID rec = id_uid i \<and> re_Form rec = rs_form r \<and> re_Space rec = id_space i \<and> \<not> re_Generation rec < 1)) (\<lambda>rec.
     andThen (refuse ''v2 import custody refused'' (on_store (jn_BindImportedResource (pe_store env)
        \<lparr>ir_Target = target_of d (re_Space rec) (re_Name rec), ir_UID = id_uid i, ir_Form = rs_form r,
         ir_Evidence = import_evidence d (id_uid i) rec\<rparr>) (\<lambda>b. [Imported b]))) (\<lambda>_.
     andThen (set_state (Some old)) (\<lambda>_. writeResource r d rec [] []))))"

definition lacks_custody :: "v2Resource \<Rightarrow> v2Identity \<Rightarrow> Intent list \<Rightarrow> ImportBinding option \<Rightarrow> bool" where
  "lacks_custody r i history imported \<longleftrightarrow> history = [] \<and>
     (case imported of None \<Rightarrow> True | Some b \<Rightarrow> ib_UID b \<noteq> id_uid i \<or> ib_Form b \<noteq> rs_form r)"

definition identity_conflict :: "v2Resource \<Rightarrow> v2Identity \<Rightarrow> Intent \<Rightarrow> bool" where
  "identity_conflict r i latest \<longleftrightarrow> i_Form latest \<noteq> rs_form r \<or> i_Status latest = StatusDeleteConfirmed \<or>
     i_OperationUID latest \<noteq> [] \<and> i_OperationUID latest \<noteq> id_uid i"

definition generation_conflict :: "v2Identity \<Rightarrow> Intent \<Rightarrow> bool" where
  "generation_conflict i latest \<longleftrightarrow>
     i_Status latest = StatusApplied \<and> i_ResultGeneration latest \<noteq> format_int (id_generation i) \<or>
     i_Status latest = StatusFailedReserved \<and> i_ObservedGeneration latest \<noteq> format_int (id_generation i)"

definition accepted_status :: "Intent \<Rightarrow> bool" where
  "accepted_status latest \<longleftrightarrow> i_Status latest = StatusAccepted \<or> i_Status latest = StatusAcceptedFailed"

definition completed_status :: "Intent \<Rightarrow> bool" where
  "completed_status latest \<longleftrightarrow> i_Status latest = StatusApplied \<or> i_Status latest = StatusFailedReserved \<or>
     i_Status latest = StatusDeleteConfirmed"

definition linked_completed :: "v2Identity \<Rightarrow> Intent \<Rightarrow> bool" where
  "linked_completed i latest \<longleftrightarrow> completed_status latest \<and> i_Form latest = id_form i \<and> i_OperationUID latest = id_uid i \<and>
     i_ID latest = id_intentID i \<and> i_OperationID latest = id_operationID i \<and> i_OperationGeneration latest = id_generation i"

text \<open>
  What the name's history says before the Host is asked: a refusal, a recovery of the latest
  intent, or nothing to say.
\<close>

datatype read_plan = ReadRefused string | ReadFinish Intent | ReadCompleted Intent | ReadOn

definition plan_read :: "v2Resource \<Rightarrow> v2Identity \<Rightarrow> Intent list \<Rightarrow> read_plan" where
  "plan_read r i history =
     (if history = [] then ReadOn
      else
        let latest = last history in
        if i_Status latest = StatusClaimed \<and> i_OperationID latest = [] then ReadRefused ''Unknown pre-ACK v2 outcome''
        else if (v2StaleStateMatchesLatest i history \<or> linked_completed i latest) \<and> accepted_status latest then ReadFinish latest
        else if (v2StaleStateMatchesLatest i history \<or> linked_completed i latest) \<and> completed_status latest then ReadCompleted latest
        else if accepted_status latest \<and> i_ID latest \<noteq> id_intentID i then ReadRefused ''v2 state/journal Operation mismatch''
        else if identity_conflict r i latest then ReadRefused ''v2 state/journal identity mismatch''
        else if generation_conflict i latest then ReadRefused ''v2 state/journal generation mismatch''
        else if i_Status latest = StatusFailedReserved then ReadRefused ''v2 failed Resource linkage mismatch''
        else ReadOn)"

definition pending_linked :: "v2Identity \<Rightarrow> Intent list \<Rightarrow> Intent option" where
  "pending_linked i history =
     (case find (\<lambda>x. i_ID x = id_intentID i) history of None \<Rightarrow> None
      | Some pending \<Rightarrow>
          if i_ID pending \<noteq> i_ID (last history) \<or> i_OperationID pending \<noteq> id_operationID i \<or>
             i_OperationUID pending \<noteq> id_uid i \<or> i_OperationGeneration pending \<noteq> id_generation i
          then None else Some pending)"

definition exact_identity :: "v2Resource \<Rightarrow> v2Identity \<Rightarrow> Resource \<Rightarrow> bool" where
  "exact_identity r i rec \<longleftrightarrow> re_UID rec = id_uid i \<and> re_Form rec = rs_form r \<and> re_Space rec = id_space i \<and>
     re_Name rec = id_name i \<and> re_Generation rec = id_generation i"

definition read_existing ::
  "('n, 's) penv \<Rightarrow> nat \<Rightarrow> v2Resource \<Rightarrow> v2ProviderData \<Rightarrow> tf_state \<Rightarrow> v2Identity \<Rightarrow> Intent list \<Rightarrow> ('n, 's, unit) prov" where
  "read_existing env fuel r d old i history =
     (case plan_read r i history of
        ReadRefused msg \<Rightarrow> raise msg
      | ReadFinish latest \<Rightarrow>
          andThen (discover env d) (\<lambda>_. andThen (set_state (Some old)) (\<lambda>_. finish env fuel r d latest 0 False))
      | ReadCompleted latest \<Rightarrow>
          andThen (discover env d) (\<lambda>_. andThen (set_state (Some old)) (\<lambda>_. readCompletedOperation env r d latest))
      | ReadOn \<Rightarrow>
          if id_intentID i \<noteq> [] then
            (case pending_linked i history of None \<Rightarrow> raise ''v2 state Operation linkage mismatch''
             | Some pending \<Rightarrow>
                 andThen (discover env d) (\<lambda>_. andThen (set_state (Some old)) (\<lambda>_. finish env fuel r d pending 0 False)))
          else
            andThen (discover env d) (\<lambda>_.
            andThen (read_exact env ''v2 Resource evidence mismatch'' (id_uid i) (exact_identity r i)) (\<lambda>rec.
            andThen (set_state (Some old)) (\<lambda>_. writeResource r d rec [] []))))"

abbreviation state_refused :: string where "state_refused \<equiv> ''v2 state refused before Host access''"

definition Resource_Read :: "('n, 's) penv \<Rightarrow> nat \<Rightarrow> v2Resource \<Rightarrow> tf_state \<Rightarrow> ('n, 's, unit) prov" where
  "Resource_Read env fuel r old =
     (case (rs_data r, identity r old True) of
        (Some d, Inr i) \<Rightarrow>
          if id_importing i then read_importing env r d old i
          else
            let target = target_of d (id_space i) (id_name i) in
            andThen (read_history env target) (\<lambda>history.
            andThen (read_import env ''v2 import custody unavailable'' target) (\<lambda>imported.
            if lacks_custody r i history imported then raise ''v2 state lacks local custody''
            else read_existing env fuel r d old i history))
      | _ \<Rightarrow> raise state_refused)"

subsection \<open>Update and Delete\<close>

definition mutation_conflict :: "v2Resource \<Rightarrow> v2Identity \<Rightarrow> Intent list \<Rightarrow> string option" where
  "mutation_conflict r i history =
     (if history = [] then None
      else
        let latest = last history in
        if identity_conflict r i latest then Some ''v2 state/journal identity mismatch''
        else if generation_conflict i latest then Some ''v2 state/journal generation mismatch''
        else if id_intentID i \<noteq> [] \<and> (i_ID latest \<noteq> id_intentID i \<or> i_OperationID latest \<noteq> id_operationID i)
        then Some ''v2 state/journal Operation mismatch''
        else if i_Status latest = StatusClaimed \<and> i_OperationID latest = [] then Some ''Unknown pre-ACK v2 outcome''
        else if accepted_status latest then Some ''Earlier v2 Operation unresolved''
        else None)"

text \<open>An Update carries its plan, a Delete none. The update's new spec, or nothing for a Delete.\<close>

definition updated_spec :: "v2Resource \<Rightarrow> v2ProviderData \<Rightarrow> v2Identity \<Rightarrow> tf_state option \<Rightarrow> string + obj option" where
  "updated_spec r d i plan =
     (case plan of None \<Rightarrow> Inr None
      | Some p \<Rightarrow>
          if planNameSpace d p \<noteq> Inr (id_name i, id_space i) then Inl ''v2 update identity changed''
          else (case v2SpecFromPlan (rs_def r) (ts_spec p) of Inl _ \<Rightarrow> Inl ''Invalid exact Form spec'' | Inr spec \<Rightarrow> Inr (Some spec)))"

text \<open>The public request, the map to send beside it and the declared names.\<close>

definition update_payload ::
  "('n, 's) penv \<Rightarrow> v2Resource \<Rightarrow> v2Identity \<Rightarrow> obj option \<Rightarrow> string + bytes \<times> (string \<times> string) list option option \<times> string list" where
  "update_payload env r i spec =
     (case spec of None \<Rightarrow> Inr ([], None, [])
      | Some spec \<Rightarrow>
          (case (if rs_form r = WorkerVersionURL then privateInputsForUpdate env (id_space i) (id_name i) spec else Inr (None, [])) of
             Inl _ \<Rightarrow> Inl ''Private inputs unavailable''
           | Inr (private, names) \<Rightarrow>
               (case marshal (enc_update \<lparr>uq_Spec = Some spec, uq_PrivateInputs = None\<rparr>) of
                  Inl _ \<Rightarrow> Inl ''Invalid public update''
                | Inr publicJSON \<Rightarrow> Inr (publicJSON, private, names))))"

definition existing_claim ::
  "v2Resource \<Rightarrow> v2ProviderData \<Rightarrow> v2Identity \<Rightarrow> bool \<Rightarrow> Intent list \<Rightarrow> bytes \<Rightarrow> string list \<Rightarrow> Discovery \<Rightarrow> BeginRequest" where
  "existing_claim r d i update history publicJSON names discovery =
     \<lparr>r_Target = target_of d (id_space i) (id_name i), r_Action = (if update then ActionUpdate else ActionDelete),
      r_Form = rs_form r, r_Method = (if update then ''PUT'' else ''DELETE''), r_Path = ''/resources/'' @ id_uid i,
      r_UID = id_uid i, r_Generation = format_int (id_generation i),
      r_SupersedesIntentID =
        (if history \<noteq> [] \<and> i_Status (last history) = StatusFailedReserved then i_ID (last history) else []),
      r_PublicJSON = publicJSON, r_PrivateInputNames = names,
      r_AdvertisedReplayWindowSecs = lm_ReplayWindowSeconds (di_Limits discovery)\<rparr>"

definition send_existing ::
  "('n, 's) penv \<Rightarrow> v2Identity \<Rightarrow> obj option \<Rightarrow> (string \<times> string) list option option \<Rightarrow> string \<Rightarrow>
     (('n, 's) pworld, host_error, Operation) st" where
  "send_existing env i spec private key =
     (case spec of
        None \<Rightarrow> DeleteResource (pe_net env) (id_uid i) key (id_generation i)
      | Some spec \<Rightarrow> UpdateResource (pe_net env) (id_uid i) key (id_generation i)
          \<lparr>uq_Spec = Some spec, uq_PrivateInputs = private\<rparr>)"

definition mutate_fenced ::
  "('n, 's) penv \<Rightarrow> nat \<Rightarrow> v2Resource \<Rightarrow> v2ProviderData \<Rightarrow> tf_state \<Rightarrow> tf_state option \<Rightarrow> v2Identity \<Rightarrow> Intent list \<Rightarrow> ('n, 's, unit) prov" where
  "mutate_fenced env fuel r d old plan i history =
     andThen (lift_result (updated_spec r d i plan)) (\<lambda>spec.
     andThen (discover env d) (\<lambda>discovery.
     andThen (read_exact env ''v2 generation or identity fence mismatch'' (id_uid i) (exact_identity r i)) (\<lambda>_.
     andThen (lift_result (update_payload env r i spec)) (\<lambda>(publicJSON, private, names).
     andThen (journal_begin env ''v2 intent custody refused''
       (existing_claim r d i (plan \<noteq> None) history publicJSON names discovery)) (\<lambda>intent.
     send_claimed env fuel r d (''Unknown v2 mutation outcome'', ''Accepted v2 mutation could not be journaled'')
       (id_space i) (id_name i) (case plan of None \<Rightarrow> old | Some p \<Rightarrow> p) (send_existing env i spec private) intent)))))"

definition mutateExisting :: "('n, 's) penv \<Rightarrow> nat \<Rightarrow> v2Resource \<Rightarrow> tf_state \<Rightarrow> tf_state option \<Rightarrow> ('n, 's, unit) prov" where
  "mutateExisting env fuel r old plan =
     (case (rs_data r, identity r old False) of
        (Some d, Inr i) \<Rightarrow>
          let target = target_of d (id_space i) (id_name i) in
          andThen (read_history env target) (\<lambda>history.
          andThen (read_import env ''v2 state lacks local custody'' target) (\<lambda>imported.
          if lacks_custody r i history imported then raise ''v2 state lacks local custody''
          else case mutation_conflict r i history of Some msg \<Rightarrow> raise msg
          | None \<Rightarrow> mutate_fenced env fuel r d old plan i history))
      | _ \<Rightarrow> raise state_refused)"

definition Resource_Update :: "('n, 's) penv \<Rightarrow> nat \<Rightarrow> v2Resource \<Rightarrow> tf_state \<Rightarrow> tf_state \<Rightarrow> ('n, 's, unit) prov" where
  "Resource_Update env fuel r old plan = mutateExisting env fuel r old (Some plan)"

definition Resource_Delete :: "('n, 's) penv \<Rightarrow> nat \<Rightarrow> v2Resource \<Rightarrow> tf_state \<Rightarrow> ('n, 's, unit) prov" where
  "Resource_Delete env fuel r old = mutateExisting env fuel r old None"

end
