(* ===== verification/LifecycleLaws.thy ===== *)
theory LifecycleLaws
  imports Lifecycle HostLaws
begin

text \<open>
  What a lifecycle call does to the outside: the order of journal claims and requests, what it
  needs of the journal, and how long it waits.
\<close>

subsection \<open>Calm parts\<close>

definition keys :: "http_request \<Rightarrow> string list" where
  "keys rq = map snd (filter (\<lambda>(k, _). k = ''Idempotency-Key'') (rq_header rq))"

text \<open>
  An event that neither claims an intent nor sends a mutation: a request without an idempotency
  key that reads, or that hands private inputs to an operation the Host has accepted.
\<close>

fun calm :: "jevent event \<Rightarrow> bool" where
  "calm (Sent rq) \<longleftrightarrow> keys rq = [] \<and>
     (rq_method rq = ''GET'' \<or> rq_method rq = ''PUT'' \<and> has_suffix (rq_url rq) ''/private-inputs'')"
| "calm (Did (Began i)) \<longleftrightarrow> False"
| "calm (Did _) \<longleftrightarrow> True"

abbreviation calms :: "(('n, 's) pworld, 'e, 'a) st \<Rightarrow> ('n, 's) pworld \<Rightarrow> bool" where
  "calms m w \<equiv> emits hw_log m w (\<lambda>es r w'. list_all calm es)"

lemma keys_host_request [simp]: "keys (host_request c method target body authenticated hs) = map snd (filter (\<lambda>(k, _). k = ''Idempotency-Key'') hs)"
  by (simp add: keys_def host_request_def request_headers_def)

lemma host_request_target [simp]:
  "rq_method (host_request c method target body authenticated hs) = method"
  "rq_url (host_request c method target body authenticated hs) = target"
  by (simp_all add: host_request_def)

lemma only_reads_calm: "only_reads c es \<Longrightarrow> list_all calm es"
  by (auto simp: only_reads_def)

lemma discovers_calm: "discovers c es r c' \<Longrightarrow> list_all calm es"
  by (auto simp: discovers_def)

lemma has_suffix_append: "has_suffix (a @ p) p"
  by (simp add: has_suffix_def has_prefix_def)

lemma continues_calm: "continues c i es \<Longrightarrow> list_all calm es"
  using has_suffix_append [of "_ @ ''/operations/'' @ i" "''/private-inputs''"] by (auto simp: continues_def)

lemma emits_refuse:
  assumes "emits hw_log m w (\<lambda>es r w'. Q es (case r of Inl _ \<Rightarrow> Inl msg | Inr x \<Rightarrow> Inr x) w')"
  shows "emits hw_log (refuse msg m) w Q"
  using assms by (cases "m w") (auto simp: emits_def refuse_def split: sum.splits)

lemma emits_attempt:
  assumes "emits hw_log m w (\<lambda>es r w'. Q es (Inr r) w')"
  shows "emits hw_log (attempt m) w Q"
  using assms by (cases "m w") (auto simp: emits_def attempt_def)

lemma emits_on_store:
  assumes "\<And>r s. m (pw_store w) = (r, s) \<Longrightarrow>
      Q (case r of Inl _ \<Rightarrow> [] | Inr x \<Rightarrow> map Did (ev x)) r
        (w\<lparr>pw_store := s, hw_log := hw_log w @ (case r of Inl _ \<Rightarrow> [] | Inr x \<Rightarrow> map Did (ev x))\<rparr>)"
  shows "emits hw_log (on_store m ev) w Q"
  using assms by (cases "m (pw_store w)") (auto simp: emits_def on_store_def)

lemma refuse_value_simps [simp]: "refuse_value msg (Inr x) = ret x" "refuse_value msg (Inl e) = raise msg"
  by (simp_all add: refuse_value_def)

lemma calms_andThen:
  assumes "calms m w" "\<And>x w'. calms (f x) w'"
  shows "calms (andThen m f) w"
  by (rule emits_seq [OF assms(1)]) (auto intro: emits_weaken [OF assms(2)])

named_theorems calm_rules \<open>the parts of a lifecycle call that are calm\<close>

lemma calms_basic [calm_rules]:
  "calms (ret x) w" "calms (raise e) w" "calms (lift_result r) w" "calms (refuse_value msg r) w"
  "calms (set_state st) w" "calms (edit_state f) w" "calms (warn msg) w" "calms (v2Wait env n) w"
  by (auto simp: refuse_value_def set_state_def edit_state_def warn_def v2Wait_def Let_def emits_def ret_def raise_def
      lift_result_def split: sum.splits prod.splits)

lemma calms_wrap [calm_rules]:
  "calms m w \<Longrightarrow> calms (refuse msg m) w" "calms m w \<Longrightarrow> calms (attempt m) w"
  by (auto intro!: emits_refuse emits_attempt elim: emits_weaken)

lemma calms_client [calm_rules]:
  "calms (GetSupport net form) w" "calms (ReadResource net uid) w" "calms (ReadOperation net i) w"
  "calms (Discover net) w" "calms (ContinuePrivateInputs net op inputs) w"
  by (auto intro: emits_weaken [OF GetSupport_reads] emits_weaken [OF ReadResource_reads]
      emits_weaken [OF ReadOperation_reads] emits_weaken [OF Discover_emits] emits_weaken [OF ContinuePrivateInputs_emits]
      dest: only_reads_calm discovers_calm continues_calm)

lemma calms_store [calm_rules]:
  assumes "\<And>x. list_all calm (map Did (ev x))"
  shows "calms (on_store m ev) w"
  by (rule emits_on_store) (auto simp: assms split: sum.splits)

lemmas [calm_rules] = calms_andThen

lemma calms_writes [calm_rules]:
  "calms (writePending r d space name op i) w" "calms (writeResource r d rec i j) w"
  by (auto simp: writePending_def writeResource_def intro!: calm_rules split: option.splits sum.splits)

lemma calms_cases [calm_rules]:
  "(b \<Longrightarrow> calms m w) \<Longrightarrow> (\<not> b \<Longrightarrow> calms n w) \<Longrightarrow> calms (if b then m else n) w"
  "(\<And>e. s = Inl e \<Longrightarrow> calms (f e) w) \<Longrightarrow> (\<And>x. s = Inr x \<Longrightarrow> calms (g x) w) \<Longrightarrow> calms (case s of Inl e \<Rightarrow> f e | Inr x \<Rightarrow> g x) w"
  "(opt = None \<Longrightarrow> calms m w) \<Longrightarrow> (\<And>y. opt = Some y \<Longrightarrow> calms (h y) w) \<Longrightarrow> calms (case opt of None \<Rightarrow> m | Some y \<Rightarrow> h y) w"
  by (cases s; cases opt; simp)+

text \<open>The polling loop as a composition.\<close>

lemma readOperation_step:
  "readOperation env fuel intent =
     andThen (attempt (ReadOperation (pe_net env) (i_OperationID intent))) (\<lambda>r. case r of
       Inl e \<Rightarrow> (case retry_delay e of None \<Rightarrow> raise unavailable
         | Some seconds \<Rightarrow> andThen (refuse unavailable (v2Wait env seconds)) (\<lambda>_.
             case fuel of 0 \<Rightarrow> raise unfinished | Suc n \<Rightarrow> readOperation env n intent))
     | Inr op \<Rightarrow> if same_operation intent op then ret op else raise unavailable)"
proof (rule ext)
  fix w
  show "readOperation env fuel intent w = andThen (attempt (ReadOperation (pe_net env) (i_OperationID intent))) (\<lambda>r. case r of
       Inl e \<Rightarrow> (case retry_delay e of None \<Rightarrow> raise unavailable
         | Some seconds \<Rightarrow> andThen (refuse unavailable (v2Wait env seconds)) (\<lambda>_.
             case fuel of 0 \<Rightarrow> raise unfinished | Suc n \<Rightarrow> readOperation env n intent))
     | Inr op \<Rightarrow> if same_operation intent op then ret op else raise unavailable) w"
    by (simp add: readOperation.simps [of env fuel] andThen_def attempt_def refuse_def raise_def ret_def
        split: prod.splits sum.splits option.splits nat.splits)
qed

lemma calms_readOperation [calm_rules]: "calms (readOperation env fuel intent) w"
proof (induction fuel arbitrary: w)
  case 0
  show ?case by (subst readOperation_step) (auto intro!: calm_rules)
next
  case (Suc fuel)
  then show ?case by (subst readOperation_step) (auto intro!: calm_rules)
qed

lemma calms_supply [calm_rules]: "calms (supply_inputs env intent op) w"
  by (auto simp: supply_inputs_def intro!: calm_rules)

lemma calms_round:
  "(\<And>op w. calms (again op) w) \<Longrightarrow> calms (settle_round env fuel intent again op) w"
  by (auto simp: settle_round_def intro!: calm_rules)

lemma calms_settle [calm_rules]: "calms (settle env fuel intent op) w"
  by (induction fuel arbitrary: op w) (auto intro!: calms_round calm_rules)

lemma calms_finish [calm_rules]: "calms (finish env fuel r d intent delay report) w"
  by (auto simp: finish_def initial_wait_def observe_def journal_complete_def conclude_def
      intro!: calm_rules split: prod.splits)

lemma calms_access [calm_rules]:
  "calms (discover env d) w" "calms (read_history env t) w" "calms (read_import env msg t) w"
  "calms (read_exact env msg uid P) w" "calms (journal_accept env msg i op) w"
  by (auto simp: discover_def read_history_def read_import_def read_exact_def journal_accept_def intro!: calm_rules)

lemma calms_existing [calm_rules]: "calms (existing_create env fuel r d plan space name spec latest) w"
  by (auto simp: existing_create_def intro!: calm_rules)

text \<open>Reading and importing never claim and never mutate.\<close>

lemma calms_Read: "calms (Resource_Read env fuel r old) w"
proof -
  have 1: "calms (read_importing env r d old i) w" for d i w
    by (auto simp: read_importing_def intro!: calm_rules)
  have 2: "calms (readCompletedOperation env r d latest) w" for d latest w
    by (auto simp: readCompletedOperation_def intro!: calm_rules)
  have 3: "calms (read_existing env fuel r d old i history) w" for d i history w
    by (cases "plan_read r i history") (auto simp: read_existing_def intro!: calm_rules 2)
  show ?thesis
    by (cases "rs_data r"; cases "identity r old True")
       (auto simp: Resource_Read_def Let_def intro!: calm_rules 1 3)
qed

end
