(* ===== verification/LifecycleClaims.thy ===== *)
theory LifecycleClaims
  imports LifecycleLaws IntentLaws
begin

text \<open>
  What a lifecycle call sends against what it has claimed: a mutation is sent only right after
  the journal returned its intent, once, and it is the request of that intent.
\<close>

subsection \<open>Traces with one claim\<close>

text \<open>
  The request an intent stands for: its key and nothing else as idempotency key, its method, its
  path below the API root, its generation as the fence and, unless private inputs go with it,
  its public JSON as the body.
\<close>

definition sent_claim :: "string \<Rightarrow> Intent \<Rightarrow> http_request \<Rightarrow> bool" where
  "sent_claim api i rq \<longleftrightarrow> keys rq = [i_Key i] \<and> rq_method rq = i_Method i \<and> rq_url rq = api @ i_Path i \<and>
     map_of (rq_header rq) ''Takoform-Expected-Generation'' = (if i_Generation i = [] then None else Some (i_Generation i)) \<and>
     (i_PrivateInputNames i = [] \<longrightarrow> rq_body rq = (if i_PublicJSON i = [] then None else Some (i_PublicJSON i)))"

definition one_claim :: "string \<Rightarrow> jevent event list \<Rightarrow> bool" where
  "one_claim api es \<longleftrightarrow> list_all calm es \<or>
     (\<exists>pre i post. list_all calm pre \<and> list_all calm post \<and>
        (es = pre @ Did (Began i) # post \<or> (\<exists>rq. es = pre @ Did (Began i) # Sent rq # post \<and> sent_claim api i rq)))"

lemma one_claim_calm [simp]: "list_all calm es \<Longrightarrow> one_claim api es"
  by (simp add: one_claim_def)

lemma one_claim_after:
  assumes "list_all calm es" "one_claim api fs"
  shows "one_claim api (es @ fs)"
  using assms(2) assms(1)
  unfolding one_claim_def [of api fs]
proof (elim disjE exE conjE)
  fix pre i post
  assume c: "list_all calm es" "list_all calm pre" "list_all calm post"
  then have a: "list_all calm (es @ pre)" by simp
  show ?thesis if "fs = pre @ Did (Began i) # post"
    unfolding one_claim_def using that a c(3)
    by (intro disjI2 exI [of _ "es @ pre"] exI [of _ i] exI [of _ post]) simp
  show ?thesis if "fs = pre @ Did (Began i) # Sent rq # post" "sent_claim api i rq" for rq
    unfolding one_claim_def using that a c(3)
    by (intro disjI2 exI [of _ "es @ pre"] exI [of _ i] exI [of _ post]) simp
qed (simp add: one_claim_def)

lemma calm_then_claim:
  assumes "calms m w" "\<And>x w'. emits hw_log (f x) w' (\<lambda>es r w'. one_claim api es)"
  shows "emits hw_log (andThen m f) w (\<lambda>es r w'. one_claim api es)"
  by (rule emits_seq [OF assms(1)]) (auto intro!: emits_weaken [OF assms(2)] one_claim_after)

lemma one_claim_weaken: "calms m w \<Longrightarrow> emits hw_log m w (\<lambda>es r w'. one_claim api es)"
  by (erule emits_weaken) simp

subsection \<open>What is sent\<close>

text \<open>The intent of a mutation, as far as the request shows it.\<close>

definition stands_for :: "Intent \<Rightarrow> mutation \<Rightarrow> bool" where
  "stands_for i m \<longleftrightarrow> i_Method i = mutation_method m \<and> i_Path i = mutation_path m \<and> i_Generation i = fence_header m \<and>
     (i_PrivateInputNames i = [] \<longrightarrow> (if i_PublicJSON i = [] then None else Some (i_PublicJSON i)) = mutation_body m)"

lemma mutated_sends:
  assumes "mutated c (i_Key i) m es r" "stands_for i m" "cl_baseURL c = api"
  shows "es = [] \<and> \<not> ok r \<or> (\<exists>rq. es = [Sent rq] \<and> sent_claim api i rq)"
  using assms unfolding mutated_def
  by (elim disjE exE conjE)
     (auto simp: stands_for_def sent_claim_def keys_def host_request_def request_headers_def mutation_headers_def
        dest: apiBase_Inr)

lemma send_claimed_sends:
  assumes "\<And>key w. send key w = perform net key m w" "stands_for i m" "cl_baseURL (hw_client w) = api"
  shows "emits hw_log (send_claimed env fuel r d msgs space name pending send i) w
    (\<lambda>es x w'. list_all calm es \<or> (\<exists>rq post. es = Sent rq # post \<and> list_all calm post \<and> sent_claim api i rq))"
proof -
  have s: "send (i_Key i) = perform net (i_Key i) m" using assms(1) by blast
  have rest: "calms (andThen (journal_accept env (snd msgs) (i_ID i) op) (\<lambda>accepted.
     andThen (set_state (Some pending)) (\<lambda>_. andThen (writePending r d space name op (i_ID accepted)) (\<lambda>_.
     finish env fuel r d accepted (op_RetryAfterSeconds op) True)))) w'" for op w'
    by (auto intro!: calm_rules)
  show ?thesis unfolding send_claimed_def s
  proof (rule emits_seq [where P = "\<lambda>es x w'. es = [] \<and> \<not> ok x \<or> (\<exists>rq. es = [Sent rq] \<and> sent_claim api i rq)"])
    show "emits hw_log (refuse (fst msgs) (perform net (i_Key i) m)) w
       (\<lambda>es x w'. es = [] \<and> \<not> ok x \<or> (\<exists>rq. es = [Sent rq] \<and> sent_claim api i rq))"
      by (rule emits_refuse, rule emits_weaken [OF perform_emits])
         (auto dest!: mutated_sends [OF _ assms(2,3)] split: sum.splits)
  qed (auto intro!: emits_weaken [OF rest])
qed

lemma journal_begin_emits:
  "emits hw_log (journal_begin env msg req) w (\<lambda>es x w'. hw_client w' = hw_client w \<and>
     (case x of Inl _ \<Rightarrow> es = [] | Inr i \<Rightarrow> es = [Did (Began i)] \<and> (\<exists>s s'. jn_Begin (pe_store env) req s = (Inr i, s'))))"
  unfolding journal_begin_def
  by (rule emits_refuse, rule emits_on_store) (auto split: sum.splits intro: exI [of _ "pw_store w"])

lemma discover_emits:
  "emits hw_log (discover env d) w (\<lambda>es x w'. list_all calm es \<and> (ok x \<longrightarrow> cl_baseURL (hw_client w') = vd_hostAPIRoot d))"
  unfolding discover_def
  by (rule emits_seq [where P = "\<lambda>es x w'. list_all calm es \<and>
        (\<forall>dis. x = Inr dis \<longrightarrow> cl_baseURL (hw_client w') = di_BaseURL dis)"])
     (auto intro!: emits_refuse emits_rules emits_weaken [OF Discover_emits] dest: discovers_calm
        simp: discovers_def split: sum.splits)

lemma claimed_trace:
  fixes w :: "('n, 's) pworld"
  assumes base: "cl_baseURL (hw_client w) = api"
    and send: "\<And>key w. send key w = perform net key m w"
    and claim: "\<And>i s s'. jn_Begin (pe_store env) req s = (Inr i, s') \<Longrightarrow> stands_for i m"
  shows "emits hw_log (andThen (journal_begin env msg req) (send_claimed env fuel r d msgs space name pending send)) w
    (\<lambda>es x w'. one_claim api es)"
proof (rule emits_seq [OF journal_begin_emits])
  fix es i and w' :: "('n, 's) pworld"
  assume "hw_client w' = hw_client w \<and> (case Inr i of Inl _ \<Rightarrow> es = [] | Inr i \<Rightarrow> es = [Did (Began i)] \<and>
    (\<exists>s s'. jn_Begin (pe_store env) req s = (Inr i, s')))"
  then have es: "es = [Did (Began i)]" and st: "stands_for i m" and b: "cl_baseURL (hw_client w') = api"
    using claim base by auto
  have "one_claim api (es @ fs)" if "list_all calm fs \<or> (\<exists>rq post. fs = Sent rq # post \<and> list_all calm post \<and> sent_claim api i rq)" for fs
    using that
  proof (elim disjE exE conjE)
    show ?thesis if "list_all calm fs"
      unfolding one_claim_def by (intro disjI2 exI [of _ "[]"] exI [of _ i] exI [of _ fs]) (simp add: es that)
    show ?thesis if "fs = Sent rq # post" "list_all calm post" "sent_claim api i rq" for rq post
      unfolding one_claim_def by (intro disjI2 exI [of _ "[]"] exI [of _ i] exI [of _ post]) (simp add: es that)
  qed
  then show "emits hw_log (send_claimed env fuel r d msgs space name pending send i) w' (\<lambda>fs x w'. one_claim api (es @ fs))"
    by (intro emits_weaken [OF send_claimed_sends [OF send st b]]) auto
qed simp

text \<open>Parts that leave the client as it is.\<close>

abbreviation tames :: "(('n, 's) pworld, 'e, 'a) st \<Rightarrow> ('n, 's) pworld \<Rightarrow> bool" where
  "tames m w \<equiv> emits hw_log m w (\<lambda>es r w'. list_all calm es \<and> hw_client w' = hw_client w)"

lemma tames_parts:
  "tames (refuse_value msg x) w" "tames (lift_result x) w" "tames (refuse msg (GetSupport net form)) w"
  "tames (read_exact env msg uid P) w"
proof -
  show "tames (refuse_value msg x) w" "tames (lift_result x) w"
    by (auto simp: refuse_value_def intro!: emits_rules split: sum.splits)
  show "tames (refuse msg (GetSupport net form)) w"
    by (auto intro!: emits_refuse emits_weaken [OF GetSupport_reads] dest: only_reads_calm)
  show "tames (read_exact env msg uid P) w"
    unfolding read_exact_def
    by (rule emits_seq [where P = "\<lambda>es r w'. list_all calm es \<and> hw_client w' = hw_client w"])
       (auto intro!: emits_refuse emits_rules emits_weaken [OF ReadResource_reads] dest: only_reads_calm)
qed

lemma tame_then_claim:
  assumes "tames m w" "cl_baseURL (hw_client w) = api"
    and "\<And>x w'. (\<exists>w0. fst (m w0) = Inr x) \<Longrightarrow> cl_baseURL (hw_client w') = api \<Longrightarrow>
      emits hw_log (f x) w' (\<lambda>es r w'. one_claim api es)"
  shows "emits hw_log (andThen m f) w (\<lambda>es r w'. one_claim api es)"
proof (rule emits_seq [where P = "\<lambda>es r w'. list_all calm es \<and> hw_client w' = hw_client w \<and> fst (m w) = r"])
  show "emits hw_log m w (\<lambda>es r w'. list_all calm es \<and> hw_client w' = hw_client w \<and> fst (m w) = r)"
    using assms(1) by (auto simp: emits_def)
qed (use assms(2) in \<open>auto intro!: emits_weaken [OF assms(3)] one_claim_after\<close>)

lemma discover_then_claim:
  assumes "\<And>x w'. cl_baseURL (hw_client w') = vd_hostAPIRoot d \<Longrightarrow>
      emits hw_log (f x) w' (\<lambda>es r w'. one_claim (vd_hostAPIRoot d) es)"
  shows "emits hw_log (andThen (discover env d) f) w (\<lambda>es r w'. one_claim (vd_hostAPIRoot d) es)"
  by (rule emits_seq [OF discover_emits]) (auto intro!: emits_weaken [OF assms] one_claim_after)

subsection \<open>What the journal promises about a claim\<close>

lemma marshal_not_Nil: "marshal v \<noteq> Inr []"
proof -
  have "validate [] \<noteq> Inr ()" by code_simp
  then show ?thesis by (auto simp: marshal_def split: sum.splits option.splits)
qed

lemma refused_value [simp]: "fst (refuse_value msg x w) = Inr y \<longleftrightarrow> x = Inr y"
  by (simp add: refuse_value_def raise_def ret_def split: sum.splits)

lemma privateInputs_none: "privateInputs env form space name spec discovery support = Inr (private, []) \<Longrightarrow> private = None"
  by (auto simp: privateInputs_def split: if_splits sum.splits)

lemma identity_generation: "identity r s False = Inr i \<Longrightarrow> 0 < id_generation i"
  by (auto simp: identity_def read_identity_def Let_def split: option.splits if_splits)

lemma updated_spec_None: "updated_spec r d i plan = Inr spec \<Longrightarrow> spec = None \<longleftrightarrow> plan = None"
  by (auto simp: updated_spec_def split: option.splits sum.splits if_splits)

lemma create_request_private [simp]: "cq_PrivateInputs (create_request r space name offering spec) = None"
  by (simp add: create_request_def)

locale claim_journal =
  fixes jn :: "'s journal"
  assumes begin_claims: "jn_Begin jn req s = (Inr i, s') \<Longrightarrow>
    intent_request i = req\<lparr>r_PrivateInputNames := sort (r_PrivateInputNames req),
      r_AdvertisedReplayWindowSecs := i_AdvertisedReplayWindowSecs i\<rparr>"
begin

lemma begun_fields:
  assumes "jn_Begin jn req s = (Inr i, s')"
  shows "i_Method i = r_Method req" "i_Path i = r_Path req" "i_Generation i = r_Generation req"
    "i_PublicJSON i = r_PublicJSON req" "i_PrivateInputNames i = sort (r_PrivateInputNames req)"
    "i_Target i = r_Target req" "i_Action i = r_Action req"
  using begin_claims [OF assms] by (cases req; simp add: intent_request_def)+

lemma create_stands_for:
  assumes "jn_Begin jn (create_claim r target publicJSON names discovery) s = (Inr i, s')"
    and "marshal (enc_create public) = Inr publicJSON" "names = [] \<Longrightarrow> private = cq_PrivateInputs public"
  shows "stands_for i (MCreate (public\<lparr>cq_PrivateInputs := private\<rparr>))"
  using begun_fields [OF assms(1)] assms(2,3) marshal_not_Nil
  by (auto simp: stands_for_def create_claim_def fence_header_def mutation_body_def)

lemma existing_stands_for:
  assumes "jn_Begin jn (existing_claim r d i update history publicJSON names discovery) s = (Inr x, s')"
    and "update_payload env r i spec = Inr (publicJSON, private, names)" "0 < id_generation i"
    and "update \<longleftrightarrow> spec \<noteq> None"
  shows "stands_for x (case spec of None \<Rightarrow> MDelete (id_uid i) (id_generation i)
    | Some spec \<Rightarrow> MUpdate (id_uid i) (id_generation i) \<lparr>uq_Spec = Some spec, uq_PrivateInputs = private\<rparr>)"
  using begun_fields [OF assms(1)] assms(2-4) marshal_not_Nil
  by (auto simp: stands_for_def existing_claim_def fence_header_def mutation_body_def update_payload_def
      privateInputsForUpdate_def split: option.splits sum.splits if_splits)

lemma create_tail:
  fixes env :: "('n, 's) penv"
  assumes "pe_store env = jn" "cl_baseURL (hw_client w) = api" "marshal (enc_create public) = Inr publicJSON"
    "names = [] \<Longrightarrow> private = cq_PrivateInputs public"
  shows "emits hw_log (andThen (journal_begin env msg (create_claim r target publicJSON names discovery))
     (send_claimed env fuel r d msgs space name plan
        (\<lambda>key. CreateResource (pe_net env) key (public\<lparr>cq_PrivateInputs := private\<rparr>)))) w (\<lambda>es x w'. one_claim api es)"
  by (rule claimed_trace [where net = "pe_net env" and m = "MCreate (public\<lparr>cq_PrivateInputs := private\<rparr>)", OF assms(2)])
     (auto simp: assms(1) intro: create_stands_for [OF _ assms(3,4)])

lemma create_claims_once:
  assumes "pe_store env = jn" "rs_data r = Some d"
  shows "emits hw_log (Resource_Create env fuel r plan) w (\<lambda>es x w'. one_claim (vd_hostAPIRoot d) es)"
proof -
  let ?api = "vd_hostAPIRoot d"
  have old: "emits hw_log (existing_create env fuel r d plan space name spec latest) w (\<lambda>es x w'. one_claim ?api es)"
    for space name spec latest w
    by (rule one_claim_weaken [OF calms_existing])
  have new: "emits hw_log (fresh_create env fuel r d plan space name spec) w (\<lambda>es x w'. one_claim ?api es)"
    for space name spec w
    unfolding fresh_create_def Let_def
    by (rule discover_then_claim, rule tame_then_claim [OF tames_parts(3)], assumption,
        rule emits_if, rule one_claim_weaken, rule calms_basic,
        (rule tame_then_claim [OF tames_parts(1)], assumption)+)
       (auto intro!: tame_then_claim [OF tames_parts(1)] create_tail assms simp: privateInputs_none)
  show ?thesis
    by (auto simp: Resource_Create_def assms(2) intro!: calm_then_claim calm_rules old new split: prod.splits)
qed

lemma existing_tail:
  fixes env :: "('n, 's) penv"
  assumes "pe_store env = jn" "cl_baseURL (hw_client w) = api" "update_payload env r i spec = Inr (publicJSON, private, names)"
    "0 < id_generation i" "update \<longleftrightarrow> spec \<noteq> None"
  shows "emits hw_log (andThen (journal_begin env msg (existing_claim r d i update history publicJSON names discovery))
     (send_claimed env fuel r d msgs space name pending (send_existing env i spec private))) w (\<lambda>es x w'. one_claim api es)"
proof (rule claimed_trace [OF assms(2)])
  show "send_existing env i spec private key w = perform (pe_net env) key (case spec of None \<Rightarrow> MDelete (id_uid i) (id_generation i)
    | Some spec \<Rightarrow> MUpdate (id_uid i) (id_generation i) \<lparr>uq_Spec = Some spec, uq_PrivateInputs = private\<rparr>) w" for key w
    by (simp add: send_existing_def split: option.splits)
qed (use assms(1) existing_stands_for [OF _ assms(3-5)] in auto)

lemma mutation_claims_once:
  assumes "pe_store env = jn" "rs_data r = Some d"
  shows "emits hw_log (mutateExisting env fuel r old plan) w (\<lambda>es x w'. one_claim (vd_hostAPIRoot d) es)"
proof (cases "identity r old False")
  case (Inl e)
  then show ?thesis by (auto simp: mutateExisting_def assms(2) intro!: one_claim_weaken calm_rules)
next
  case (Inr i)
  have "emits hw_log (mutate_fenced env fuel r d old plan i history) w (\<lambda>es x w'. one_claim (vd_hostAPIRoot d) es)"
    for history w
    unfolding mutate_fenced_def
    by (rule lift_then_emits, simp, rule discover_then_claim, rule tame_then_claim [OF tames_parts(4)], assumption)
       (auto intro!: lift_then_emits existing_tail assms identity_generation [OF Inr] dest: updated_spec_None)
  note fenced = this
  show ?thesis
    by (auto simp: mutateExisting_def assms(2) Inr Let_def intro!: fenced calm_then_claim calm_rules emits_rules split: option.splits)
qed

end

end
