(* ===== verification/LifecycleKeeps.thy ===== *)
theory LifecycleKeeps
  imports LifecycleLaws
begin

text \<open>
  Invariants of the journal's state and of Terraform's state over a lifecycle call.
  \<open>keeps J m R\<close> says that \<open>m\<close> preserves \<open>J\<close>, also when it fails, and that a result it returns
  satisfies \<open>R\<close>. The rules follow the composition of a call.
\<close>

subsection \<open>What the Host client's methods do to the world\<close>

text \<open>
  The methods touch the world only by exchanging requests and by setting what was discovered, so
  a preorder that holds along these two steps holds along every method.
\<close>

named_theorems along_rules \<open>operations along which the relation holds\<close>

locale client_relation =
  fixes net :: "'n network" and P :: "('n, 'j, 'm) hworld_scheme \<Rightarrow> ('n, 'j, 'm) hworld_scheme \<Rightarrow> bool"
  assumes same: "P w w"
    and chain: "P w v \<Longrightarrow> P v u \<Longrightarrow> P w u"
    and exchange: "P w (snd (doWithHeaders net method target body authenticated limit headers w))"
    and discovery: "P w (snd (set_discovery d b found w))"
begin

definition along :: "(('n, 'j, 'm) hworld_scheme, 'e, 'a) st \<Rightarrow> bool" where
  "along m \<longleftrightarrow> (\<forall>w. P w (snd (m w)))"

lemma alongD: "along m \<Longrightarrow> m w = (r, w') \<Longrightarrow> P w w'"
  unfolding along_def by (metis snd_conv)

lemma along_basic [along_rules]:
  "along (ret x)" "along (raise e)" "along (lift_result r)" "along (set_discovery d b found)" "along api_base"
  "along (doWithHeaders net method target body authenticated limit headers)"
  using exchange discovery
  by (cases r; auto simp: along_def same ret_def raise_def lift_result_def api_base_def split: sum.splits)+

lemma along_andThen [along_rules]:
  assumes "along m" "\<And>x. along (f x)"
  shows "along (andThen m f)"
  unfolding along_def
proof
  fix w
  obtain r w1 where m: "m w = (r, w1)" by (cases "m w")
  show "P w (snd (andThen m f w))"
  proof (cases r)
    case (Inr x)
    with m alongD [OF assms(1) m] assms(2) show ?thesis by (auto simp: andThen_def along_def intro: chain)
  qed (use m alongD [OF assms(1) m] in \<open>simp add: andThen_def\<close>)
qed

lemma along_case [along_rules]:
  "(b \<Longrightarrow> along m) \<Longrightarrow> (\<not> b \<Longrightarrow> along n) \<Longrightarrow> along (if b then m else n)"
  "(opt = None \<Longrightarrow> along m) \<Longrightarrow> (\<And>y. opt = Some y \<Longrightarrow> along (h y)) \<Longrightarrow> along (case opt of None \<Rightarrow> m | Some y \<Rightarrow> h y)"
  by (cases opt; simp)+

lemma along_then: "along m \<Longrightarrow> along (\<lambda>w. case m w of (Inl e, w') \<Rightarrow> (f e, w') | (Inr x, w') \<Rightarrow> (g x w', w'))"
  unfolding along_def [of "\<lambda>w. case m w of (Inl e, w') \<Rightarrow> (f e, w') | (Inr x, w') \<Rightarrow> (g x w', w')"]
  by (auto split: prod.splits sum.splits dest: alongD)

lemma along_mutate [along_rules]: "along (mutate net method target action uid key gen n body)"
  unfolding mutate_def [abs_def] by (rule along_then [OF along_basic(6)])

lemma along_world: "(\<And>w. along (m w)) \<Longrightarrow> along (\<lambda>w. m w w)"
  by (simp add: along_def)

lemma along_methods:
  "along (GetSupport net form)" "along (ReadResource net uid)" "along (ReadOperation net i)"
  "along (CreateResource net key input)" "along (UpdateResource net uid key gen change)" "along (DeleteResource net uid key gen)"
  by (auto simp: GetSupport_def ReadResource_def ReadOperation_def CreateResource_def UpdateResource_def DeleteResource_def
      get_body_def do_request_def intro!: along_rules split: prod.splits)

lemma along_Discover: "along (Discover net)"
  unfolding Discover_def do_request_def
  by (rule along_andThen, rule along_rules, rule along_world) (auto intro!: along_rules)

lemma along_continue: "along (ContinuePrivateInputs net op inputs)"
  using along_then [OF along_basic(6)]
  by (auto simp: ContinuePrivateInputs_def do_request_def intro!: along_rules split: prod.splits)

lemmas along_client = along_methods along_Discover along_continue

end

text \<open>The methods work on the network, the client and the log only.\<close>

interpretation frame: client_relation net "\<lambda>w w'. hworld.more w' = hworld.more w" for net
  by unfold_locales (simp_all add: doWithHeaders_def set_discovery_def raise_def Let_def split: option.splits prod.splits)

subsection \<open>Invariants and results\<close>

definition keeps :: "('s \<Rightarrow> tf_state option \<Rightarrow> bool) \<Rightarrow> (('n, 's) pworld, 'e, 'a) st \<Rightarrow> ('a \<Rightarrow> bool) \<Rightarrow> bool" where
  "keeps J m R \<longleftrightarrow> (\<forall>w r w'. J (pw_store w) (pw_state w) \<longrightarrow> m w = (r, w') \<longrightarrow>
     J (pw_store w') (pw_state w') \<and> (\<forall>x. r = Inr x \<longrightarrow> R x))"

named_theorems keep_rules \<open>rules for \<open>keeps\<close>\<close>

lemma keepsD:
  assumes "keeps J m R" "J (pw_store w) (pw_state w)" "m w = (r, w')"
  shows "J (pw_store w') (pw_state w')" "r = Inr x \<Longrightarrow> R x"
  using assms unfolding keeps_def by blast+

lemma keeps_weaken: "keeps J m R \<Longrightarrow> (\<And>x. R x \<Longrightarrow> S x) \<Longrightarrow> keeps J m S"
  unfolding keeps_def by blast

lemma keeps_andThen:
  assumes "keeps J m R" "\<And>x. R x \<Longrightarrow> keeps J (f x) S"
  shows "keeps J (andThen m f) S"
  unfolding keeps_def
proof (intro allI impI)
  fix w r w'
  assume J: "J (pw_store w) (pw_state w)" and run: "andThen m f w = (r, w')"
  obtain r1 w1 where m: "m w = (r1, w1)" by (cases "m w")
  note k = keepsD [OF assms(1) J m]
  show "J (pw_store w') (pw_state w') \<and> (\<forall>x. r = Inr x \<longrightarrow> S x)"
  proof (cases r1)
    case (Inl e)
    with run m k show ?thesis by (auto simp: andThen_def)
  next
    case (Inr x)
    with run m have "f x w1 = (r, w')" by (simp add: andThen_def)
    from keepsD [OF assms(2) [OF k(2) [OF Inr]] k(1) this] show ?thesis by auto
  qed
qed

lemma keeps_framed:
  assumes "frame.along m" "\<And>w x w'. m w = (Inr x, w') \<Longrightarrow> R x"
  shows "keeps J m R"
proof -
  have "pw_store w' = pw_store w \<and> pw_state w' = pw_state w" if "m w = (r, w')" for w r w'
    using frame.alongD [OF assms(1) that] by (cases w; cases w') simp
  with assms(2) show ?thesis by (fastforce simp: keeps_def)
qed

lemma keeps_value [keep_rules]:
  "R x \<Longrightarrow> keeps J (ret x) R" "keeps J (raise e) R" "(\<And>x. v = Inr x \<Longrightarrow> R x) \<Longrightarrow> keeps J (lift_result v) R"
  "(\<And>x. v = Inr x \<Longrightarrow> R x) \<Longrightarrow> keeps J (refuse_value msg v) R"
  by (cases v; simp add: keeps_def ret_def raise_def lift_result_def refuse_value_def)+

lemma keeps_cases [keep_rules]:
  "(b \<Longrightarrow> keeps J m R) \<Longrightarrow> (\<not> b \<Longrightarrow> keeps J n R) \<Longrightarrow> keeps J (if b then m else n) R"
  "(\<And>e. s = Inl e \<Longrightarrow> keeps J (f e) R) \<Longrightarrow> (\<And>x. s = Inr x \<Longrightarrow> keeps J (g x) R) \<Longrightarrow>
     keeps J (case s of Inl e \<Rightarrow> f e | Inr x \<Rightarrow> g x) R"
  "(opt = None \<Longrightarrow> keeps J m R) \<Longrightarrow> (\<And>y. opt = Some y \<Longrightarrow> keeps J (h y) R) \<Longrightarrow>
     keeps J (case opt of None \<Rightarrow> m | Some y \<Rightarrow> h y) R"
  "(\<And>a c. p = (a, c) \<Longrightarrow> keeps J (u a c) R) \<Longrightarrow> keeps J (case p of (a, c) \<Rightarrow> u a c) R"
  by (cases s; cases opt; cases p; simp)+

lemma keeps_refuse [keep_rules]: "keeps J m R \<Longrightarrow> keeps J (refuse msg m) R"
  by (auto simp: keeps_def refuse_def split: sum.splits prod.splits)

lemma keeps_attempt [keep_rules]: "keeps J m (\<lambda>x. S (Inr x)) \<Longrightarrow> (\<And>e. S (Inl e)) \<Longrightarrow> keeps J (attempt m) S"
  by (auto simp: keeps_def attempt_def split: prod.splits) (metis sum.exhaust)+

lemma keeps_on_store [keep_rules]:
  assumes "\<And>s st x s'. J s st \<Longrightarrow> m s = (x, s') \<Longrightarrow> J s' st \<and> (\<forall>y. x = Inr y \<longrightarrow> R y)"
  shows "keeps J (on_store m ev) R"
  using assms by (auto simp: keeps_def on_store_def split: prod.splits)

lemma keeps_state [keep_rules]:
  "(\<And>s st'. J s st' \<Longrightarrow> J s st) \<Longrightarrow> keeps J (set_state st) (\<lambda>_. True)"
  "(\<And>s st. J s st \<Longrightarrow> J s (Some (f (case st of None \<Rightarrow> null_state | Some x \<Rightarrow> x)))) \<Longrightarrow> keeps J (edit_state f) (\<lambda>_. True)"
  "keeps J (warn msg) (\<lambda>_. True)" "keeps J (v2Wait env n) (\<lambda>_. True)"
  by (auto simp: keeps_def set_state_def edit_state_def warn_def v2Wait_def Let_def split: prod.splits)

subsection \<open>What the Host's answers are\<close>

lemma read_resource_valid:
  "ReadResource net uid w = (Inr rec, w') \<Longrightarrow> validateResource rec \<and> re_UID rec = uid"
  by (auto simp: ReadResource_def andThen_Inr raise_def ret_def split: if_splits option.splits prod.splits)

lemma read_operation_valid:
  "ReadOperation net i w = (Inr op, w') \<Longrightarrow> operation_identity op \<and> operation_states op"
  by (auto simp: ReadOperation_def andThen_Inr raise_def ret_def dest: decodeOperation_states split: if_splits option.splits prod.splits)

lemma keeps_client [keep_rules]:
  "keeps J (ReadResource net uid) (\<lambda>rec. validateResource rec \<and> re_UID rec = uid)"
  "keeps J (ReadOperation net i) (\<lambda>op. operation_identity op \<and> operation_states op)"
  "keeps J (GetSupport net form) (\<lambda>_. True)" "keeps J (Discover net) (\<lambda>_. True)"
  "keeps J (ContinuePrivateInputs net op inputs) (\<lambda>_. True)"
  by (auto intro!: keeps_framed frame.along_client dest: read_resource_valid read_operation_valid)

lemma perform_answers: "perform net key m w = (Inr op, w') \<Longrightarrow> answers m op"
  by (drule emitsD [OF perform_emits]) (auto simp: mutated_def)

lemma keeps_perform: "keeps J (perform net key m) (answers m)"
  by (rule keeps_framed) (cases m, auto intro!: frame.along_client dest: perform_answers [of net key m, simplified])

subsection \<open>The parts of a call\<close>

definition bound_to :: "Intent \<Rightarrow> Operation \<Rightarrow> bool" where
  "bound_to intent op \<longleftrightarrow> same_operation intent op \<and> operation_identity op"

lemma keeps_readOperation [keep_rules]: "keeps J (readOperation env fuel intent) (bound_to intent)"
proof (induction fuel)
  have op: "keeps J (attempt (ReadOperation (pe_net env) (i_OperationID intent))) (\<lambda>r. \<forall>op. r = Inr op \<longrightarrow> operation_identity op)"
    by (rule keeps_attempt) (auto intro: keeps_weaken [OF keeps_client(2)])
  case 0
  show ?case
    by (subst readOperation_step, rule keeps_andThen [OF op])
       (auto intro!: keep_rules keeps_andThen [where R = "\<lambda>_. True"] simp: bound_to_def)
  case (Suc fuel)
  show ?case
    by (subst readOperation_step, rule keeps_andThen [OF op])
       (auto intro!: keep_rules Suc keeps_andThen [where R = "\<lambda>_. True"] simp: bound_to_def)
qed

lemma keeps_supply [keep_rules]: "keeps J (supply_inputs env intent op) (\<lambda>_. True)"
  by (auto simp: supply_inputs_def intro!: keep_rules keeps_andThen [where R = "\<lambda>_. True"])

lemma keeps_round:
  assumes "\<And>op. bound_to intent op \<Longrightarrow> keeps J (again op) S" "settled_status (op_Status op) \<Longrightarrow> S op"
  shows "keeps J (settle_round env fuel intent again op) S"
  unfolding settle_round_def
  by (auto intro!: keep_rules assms keeps_andThen [OF keeps_supply] keeps_andThen [OF keeps_refuse [OF keeps_state(4)]]
      keeps_andThen [OF keeps_readOperation])

lemma keeps_settle [keep_rules]:
  "bound_to intent op \<Longrightarrow> keeps J (settle env fuel intent op) (\<lambda>op. bound_to intent op \<and> settled_status (op_Status op))"
  by (induction fuel arbitrary: op) (auto intro!: keeps_round keep_rules)

text \<open>The writes a call makes to Terraform's state: the pending one and the one of a resource.\<close>

definition pends :: "v2Resource \<Rightarrow> v2ProviderData \<Rightarrow> string \<Rightarrow> string \<Rightarrow> Operation \<Rightarrow> string \<Rightarrow> tf_state \<Rightarrow> tf_state" where
  "pends r d space name op intentID s = s\<lparr>ts_name := TVal name, ts_space := TVal space,
     ts_uid := TVal (op_ResourceUID op), ts_form_url := TVal (rs_form r), ts_host_api_root := TVal (vd_hostAPIRoot d),
     ts_store_id := TVal (vd_storeID d), ts_intent_id := TVal intentID, ts_operation_id := TVal (op_ID op),
     ts_phase := TVal ''pending'', ts_generation := TVal (op_Generation op)\<rparr>"

definition write_kept :: "('s \<Rightarrow> tf_state option \<Rightarrow> bool) \<Rightarrow> v2Resource \<Rightarrow> v2ProviderData \<Rightarrow> string \<Rightarrow> string \<Rightarrow> bool" where
  "write_kept J r d i oid \<longleftrightarrow> (\<forall>s st rec v. J s st \<longrightarrow> validateResource rec \<longrightarrow> re_Form rec = rs_form r \<longrightarrow>
     J s (Some (written r d rec v i oid (case st of None \<Rightarrow> null_state | Some x \<Rightarrow> x))))"

lemma keeps_writeResource:
  "validateResource rec \<Longrightarrow> write_kept J r d i oid \<Longrightarrow> keeps J (writeResource r d rec i oid) (\<lambda>_. True)"
  by (auto simp: writeResource_def write_kept_def intro!: keep_rules)

lemma keeps_observe:
  "keeps J (observe env r intent op) (\<lambda>(rec, obs). case rec of None \<Rightarrow> i_Action intent = ActionDelete \<and> op_Status op = ''succeeded''
     | Some rec \<Rightarrow> validateResource rec)"
  unfolding observe_def
  by (rule keeps_andThen [where R = "\<lambda>r. \<forall>rec. r = Inr rec \<longrightarrow> validateResource rec"])
     (auto intro!: keep_rules keeps_weaken [OF keeps_client(1)])

lemma keeps_finish:
  assumes complete: "\<And>s st ev x s'. J s st \<Longrightarrow> a_Action (e_Operation ev) = i_Action intent \<Longrightarrow>
      jn_Complete (pe_store env) (i_ID intent) ev s = (x, s') \<Longrightarrow> J s' st"
    and deleted: "\<And>s st. J s st \<Longrightarrow> i_Action intent = ActionDelete \<Longrightarrow> J s None"
    and wr: "write_kept J r d [] []" "\<And>op. bound_to intent op \<Longrightarrow> write_kept J r d (i_ID intent) (op_ID op)"
  shows "keeps J (finish env fuel r d intent delay report) (\<lambda>_. True)"
  unfolding finish_def
proof (rule keeps_andThen [where R = "\<lambda>_. True"])
  show "keeps J (initial_wait env delay) (\<lambda>_. True)" by (auto simp: initial_wait_def intro!: keep_rules)
  fix u
  show "keeps J (andThen (readOperation env fuel intent) (\<lambda>op0. andThen (settle env fuel intent op0) (\<lambda>op.
     andThen (observe env r intent op) (\<lambda>(rec, obs).
     andThen (journal_complete env (i_ID intent) \<lparr>e_Operation = v2Ack op, e_Resource = obs\<rparr>) (\<lambda>_.
     conclude r d intent report op rec))))) (\<lambda>_. True)"
  proof (rule keeps_andThen [OF keeps_readOperation], rule keeps_andThen [OF keeps_settle], assumption, rule keeps_andThen [OF keeps_observe], clarify)
    fix op rec obs
    assume b: "bound_to intent op" and rec: "case rec of None \<Rightarrow> i_Action intent = ActionDelete \<and> op_Status op = ''succeeded''
      | Some rec \<Rightarrow> validateResource rec"
    have "keeps J (conclude r d intent report op rec) (\<lambda>_. True)"
      using rec wr b deleted
      by (auto simp: conclude_def intro!: keep_rules keeps_writeResource keeps_andThen [where R = "\<lambda>_. True"] split: option.splits)
    moreover have "keeps J (journal_complete env (i_ID intent) \<lparr>e_Operation = v2Ack op, e_Resource = obs\<rparr>) (\<lambda>_. True)"
      using b complete [of _ _ "\<lparr>e_Operation = v2Ack op, e_Resource = obs\<rparr>"]
      by (auto simp: journal_complete_def v2Ack_def bound_to_def same_operation_def intro!: keep_rules)
    ultimately show "keeps J (andThen (journal_complete env (i_ID intent) \<lparr>e_Operation = v2Ack op, e_Resource = obs\<rparr>) (\<lambda>_.
        conclude r d intent report op rec)) (\<lambda>_. True)"
      by (auto intro: keeps_andThen)
  qed
qed

end
