(* ===== verification/LifecycleCustody.thy ===== *)
theory LifecycleCustody
  imports LifecycleClaims LifecycleKeeps
begin

text \<open>
  What Create relies on when it is run again, perhaps by another process: a journal in which a
  claimed name stays held until a deletion is confirmed.
\<close>

lemma emits_keeps:
  assumes "emits hw_log m w Q" "keeps J m R" "J (pw_store w) (pw_state w)"
  shows "emits hw_log m w (\<lambda>es r w'. Q es r w' \<and> J (pw_store w') (pw_state w') \<and> (\<forall>x. r = Inr x \<longrightarrow> R x))"
  using assms unfolding emits_def keeps_def by blast

definition claims :: "jevent event list \<Rightarrow> bool" where
  "claims es \<longleftrightarrow> (\<exists>i. Did (Began i) \<in> set es)"

lemma calm_claims [simp]: "list_all calm es \<Longrightarrow> claims (es @ fs) \<longleftrightarrow> claims fs" "list_all calm es \<Longrightarrow> \<not> claims es"
  by (auto simp: claims_def list_all_iff)

lemma ack_action [simp]: "a_Action (v2Ack op) = op_Action op"
  by (simp add: v2Ack_def)

lemma keeps_access [keep_rules]:
  "keeps J (discover env d) (\<lambda>_. True)"
  "keeps J (read_exact env msg uid P) (\<lambda>rec. validateResource rec \<and> re_UID rec = uid \<and> P rec)"
  by (auto simp: discover_def read_exact_def intro!: keep_rules keeps_andThen [where R = "\<lambda>_. True"]
      keeps_andThen [OF keeps_refuse [OF keeps_client(1)]])

lemma send_claimed_grows:
  "emits hw_log (send_claimed env fuel r d msgs space name plan (\<lambda>key. CreateResource net key input) i) w (\<lambda>es x w'. True)"
  unfolding send_claimed_def
proof (rule emits_seq [where P = "\<lambda>_ _ _. True"])
  show "emits hw_log (refuse (fst msgs) (CreateResource net (i_Key i) input)) w (\<lambda>_ _ _. True)"
    by (rule emits_refuse, rule emits_weaken [OF perform_emits [of net _ "MCreate input", simplified]]) simp
qed (auto intro!: emits_weaken [where P = "\<lambda>es r w'. list_all calm es"] calm_rules)

locale claim_custody = claim_journal +
  fixes usable :: "'s \<Rightarrow> bool" and fresh :: "'s \<Rightarrow> bool" and held :: "'s \<Rightarrow> Target \<Rightarrow> bool"
  assumes read_keeps: "usable s \<Longrightarrow> jn_Read jn t s = (y, s') \<Longrightarrow>
      usable s' \<and> (fresh s \<longrightarrow> fresh s') \<and> (held s u \<longrightarrow> held s' u)"
    and read_sees: "usable s \<Longrightarrow> held s t \<Longrightarrow> jn_Read jn t s = (Inr h, s') \<Longrightarrow>
      h \<noteq> [] \<and> i_Status (last h) \<noteq> StatusDeleteConfirmed"
    and begin_holds: "usable s \<Longrightarrow> fresh s \<Longrightarrow> r_Action req = ActionCreate \<Longrightarrow> jn_Begin jn req s = (Inr a, s') \<Longrightarrow>
      usable s' \<and> held s' (r_Target req)"
    and accept_keeps: "usable s \<Longrightarrow> held s t \<Longrightarrow> jn_RecordAccepted jn i ack s = (x, s') \<Longrightarrow> usable s' \<and> held s' t"
    and accept_action: "usable s \<Longrightarrow> jn_RecordAccepted jn i ack s = (Inr a, s') \<Longrightarrow> i_Action a = a_Action ack"
    and complete_keeps: "usable s \<Longrightarrow> held s t \<Longrightarrow> a_Action (e_Operation ev) \<noteq> ActionDelete \<Longrightarrow>
      jn_Complete jn i ev s = (x, s') \<Longrightarrow> usable s' \<and> held s' t"
begin

definition custody :: "Target \<Rightarrow> 's \<Rightarrow> tf_state option \<Rightarrow> bool" where
  "custody t s st \<longleftrightarrow> usable s \<and> held s t"

lemma accept_effect:
  "jn_RecordAccepted jn i ack s = (x, s') \<Longrightarrow> custody t s st \<Longrightarrow>
     custody t s' st \<and> (\<forall>a. x = Inr a \<longrightarrow> i_Action a = a_Action ack)"
  using accept_keeps accept_action unfolding custody_def by blast

lemma complete_effect:
  "jn_Complete jn i ev s = (x, s') \<Longrightarrow> a_Action (e_Operation ev) = ActionCreate \<Longrightarrow> custody t s st \<Longrightarrow> custody t s' st"
  using complete_keeps [of s t ev i x s'] by (simp add: custody_def)

lemma read_effect:
  "jn_Read jn t s = (x, s') \<Longrightarrow> custody t s st \<Longrightarrow>
     custody t s' st \<and> (\<forall>h. x = Inr h \<longrightarrow> h \<noteq> [] \<and> i_Status (last h) \<noteq> StatusDeleteConfirmed)"
  using read_keeps [of s t x s' t] read_sees [of s t _ s'] unfolding custody_def by blast

lemma custody_any: "custody t s st \<longleftrightarrow> custody t s st'"
  by (simp add: custody_def)

lemma custody_write [simp]: "write_kept (custody t) r d i oid"
  by (simp add: write_kept_def custody_def)

lemma custody_finish:
  assumes "pe_store env = jn" "i_Action intent = ActionCreate"
  shows "keeps (custody t) (finish env fuel r d intent delay report) (\<lambda>_. True)"
  by (rule keeps_finish) (auto simp: assms dest: complete_effect custody_any [THEN iffD1])

lemma custody_existing:
  assumes "pe_store env = jn"
  shows "keeps (custody t) (existing_create env fuel r d plan space name spec latest) (\<lambda>_. True)"
  using custody_finish [OF assms]
  by (auto simp: existing_create_def intro!: keep_rules keeps_andThen [where R = "\<lambda>_. True"])

lemma custody_sends:
  assumes "pe_store env = jn"
  shows "keeps (custody t) (send_claimed env fuel r d msgs space name pending
     (\<lambda>key. CreateResource net key input) intent) (\<lambda>_. True)"
  unfolding send_claimed_def
proof (rule keeps_andThen)
  show "keeps (custody t) (refuse (fst msgs) (CreateResource net (i_Key intent) input)) (answers (MCreate input))"
    using keeps_perform [of _ net "i_Key intent" "MCreate input"] by (auto intro!: keep_rules)
  fix op
  assume op: "answers (MCreate input) op"
  show "keeps (custody t) (andThen (journal_accept env (snd msgs) (i_ID intent) op) (\<lambda>accepted.
     andThen (set_state (Some pending)) (\<lambda>_. andThen (writePending r d space name op (i_ID accepted)) (\<lambda>_.
     finish env fuel r d accepted (op_RetryAfterSeconds op) True)))) (\<lambda>_. True)"
  proof (rule keeps_andThen)
    show "keeps (custody t) (journal_accept env (snd msgs) (i_ID intent) op) (\<lambda>a. i_Action a = ActionCreate)"
      using op unfolding journal_accept_def assms
      by (auto intro!: keep_rules simp: answers_def dest: accept_effect)
    show "keeps (custody t) (andThen (set_state (Some pending)) (\<lambda>_. andThen (writePending r d space name op (i_ID accepted)) (\<lambda>_.
     finish env fuel r d accepted (op_RetryAfterSeconds op) True))) (\<lambda>_. True)" if "i_Action accepted = ActionCreate" for accepted
      by (auto simp: writePending_def intro!: keep_rules keeps_andThen [where R = "\<lambda>_. True"]
          custody_finish [OF assms that] dest: custody_any [THEN iffD1])
  qed
qed

text \<open>A held name: Create at most finishes what was claimed, and the name stays held.\<close>

lemma held_create:
  assumes env: "pe_store env = jn" and d: "rs_data r = Some d" and n: "planNameSpace d plan = Inr (name, space)"
    and c: "custody (target_of d space name) (pw_store w) (pw_state w)"
  shows "emits hw_log (Resource_Create env fuel r plan) w
    (\<lambda>es x w'. list_all calm es \<and> custody (target_of d space name) (pw_store w') (pw_state w'))"
proof -
  let ?t = "target_of d space name"
  have old: "emits hw_log (existing_create env fuel r d plan space name spec latest) w
      (\<lambda>es x w'. list_all calm es \<and> custody ?t (pw_store w') (pw_state w'))"
    if "custody ?t (pw_store w) (pw_state w)" for spec latest w
    by (rule emits_weaken [OF emits_keeps [where J = "custody ?t" and R = "\<lambda>_. True" and Q = "\<lambda>es r w'. list_all calm es"]])
       (auto simp: that intro!: calms_existing custody_existing [OF env])
  have rd: "emits hw_log (read_history env ?t) w (\<lambda>es x w'. list_all calm es \<and> custody ?t (pw_store w') (pw_state w') \<and>
      (\<forall>h. x = Inr h \<longrightarrow> h \<noteq> [] \<and> i_Status (last h) \<noteq> StatusDeleteConfirmed))"
    using c unfolding read_history_def env
    by (intro emits_refuse emits_on_store) (auto dest: read_effect split: sum.splits)
  show ?thesis unfolding Resource_Create_def
    using c d n
    by (cases "v2SpecFromPlan (rs_def r) (ts_spec plan)")
       (auto simp: refuse_value_def intro!: emits_rules emits_seq [OF rd] emits_weaken [OF old])
qed

subsection \<open>A name that is not yet held\<close>

lemma before_claim:
  assumes "calms m w" "keeps (\<lambda>s st. usable s \<and> fresh s) m (\<lambda>_. True)" "usable (pw_store w)" "fresh (pw_store w)"
    and "\<And>x w'. usable (pw_store w') \<Longrightarrow> fresh (pw_store w') \<Longrightarrow>
      emits hw_log (f x) w' (\<lambda>es r w'. claims es \<longrightarrow> custody t (pw_store w') (pw_state w'))"
  shows "emits hw_log (andThen m f) w (\<lambda>es r w'. claims es \<longrightarrow> custody t (pw_store w') (pw_state w'))"
  by (rule emits_seq [OF emits_keeps [OF assms(1,2)]])
     (use assms(3,4) in \<open>auto intro!: emits_weaken [OF assms(5)]\<close>)

text \<open>A claimed name is held afterwards, however the rest of the call went.\<close>

lemma claim_then_held:
  assumes env: "pe_store env = jn" and u: "usable (pw_store w)" "fresh (pw_store w)"
  shows "emits hw_log (andThen (journal_begin env msg (create_claim r t publicJSON names discovery))
     (send_claimed env fuel r d msgs space name plan (\<lambda>key. CreateResource net key input))) w
     (\<lambda>es r w'. claims es \<longrightarrow> custody t (pw_store w') (pw_state w'))"
proof -
  have b: "emits hw_log (journal_begin env msg (create_claim r t publicJSON names discovery)) w
     (\<lambda>es x w'. case x of Inl _ \<Rightarrow> es = [] | Inr i \<Rightarrow> custody t (pw_store w') (pw_state w'))"
    using begin_holds [OF u, of "create_claim r t publicJSON names discovery"] unfolding journal_begin_def env
    by (intro emits_refuse emits_on_store) (auto simp: custody_def create_claim_def split: sum.splits)
  have s: "emits hw_log (send_claimed env fuel r d msgs space name plan (\<lambda>key. CreateResource net key input) i) w
      (\<lambda>es x w'. custody t (pw_store w') (pw_state w'))" if "custody t (pw_store w) (pw_state w)" for i w
  proof -
    from emits_keeps [OF send_claimed_grows custody_sends [OF env] that] show ?thesis by (auto elim: emits_weaken)
  qed
  show ?thesis by (rule emits_seq [OF b]) (auto intro!: emits_weaken [OF s])
qed

lemma create_then_held:
  assumes env: "pe_store env = jn" and d: "rs_data r = Some d" and n: "planNameSpace d plan = Inr (name, space)"
    and u: "usable (pw_store w)" "fresh (pw_store w)"
  shows "emits hw_log (Resource_Create env fuel r plan) w
    (\<lambda>es x w'. claims es \<longrightarrow> custody (target_of d space name) (pw_store w') (pw_state w'))"
proof -
  let ?t = "target_of d space name" and ?Q = "\<lambda>es x w'. claims es \<longrightarrow> custody (target_of d space name) (pw_store w') (pw_state w')"
  have old: "emits hw_log (existing_create env fuel r d plan space name spec latest) w ?Q" for spec latest w
    by (rule emits_weaken [OF calms_existing]) simp
  have new: "emits hw_log (fresh_create env fuel r d plan space name spec) w ?Q"
    if "usable (pw_store w)" "fresh (pw_store w)" for spec w
    unfolding fresh_create_def Let_def
    by (auto intro!: before_claim calm_rules keep_rules claim_then_held emits_rules that env split: prod.splits)
  have rd: "keeps (\<lambda>s st. usable s \<and> fresh s) (read_history env ?t) (\<lambda>_. True)"
    unfolding read_history_def env by (auto intro!: keep_rules dest: read_keeps)
  have "emits hw_log (andThen (read_history env ?t) (\<lambda>history.
      if history \<noteq> [] \<and> i_Status (last history) \<noteq> StatusDeleteConfirmed
      then existing_create env fuel r d plan space name spec (last history)
      else fresh_create env fuel r d plan space name spec)) w ?Q" for spec
    using u by (auto intro!: before_claim calm_rules rd old new)
  then show ?thesis unfolding Resource_Create_def
    by (cases "v2SpecFromPlan (rs_def r) (ts_spec plan)") (auto simp: d n intro!: emits_rules)
qed

end

end
