(* ===== verification/LifecycleWaits.thy ===== *)
theory LifecycleWaits
  imports LifecycleKeeps
begin

text \<open>
  How long a lifecycle call waits. Its loops go round only after a wait, so they end when the
  number of waits that can still succeed is bounded, and that bound is fuel enough.
\<close>

subsection \<open>Calls\<close>

datatype lifecycle_call = CreateCall tf_state | ReadCall tf_state | UpdateCall tf_state tf_state | DeleteCall tf_state

fun lifecycle :: "('n, 's) penv \<Rightarrow> nat \<Rightarrow> v2Resource \<Rightarrow> lifecycle_call \<Rightarrow> ('n, 's, unit) prov" where
  "lifecycle env fuel r (CreateCall plan) = Resource_Create env fuel r plan"
| "lifecycle env fuel r (ReadCall old) = Resource_Read env fuel r old"
| "lifecycle env fuel r (UpdateCall old plan) = Resource_Update env fuel r old plan"
| "lifecycle env fuel r (DeleteCall old) = Resource_Delete env fuel r old"

lemma plan_read_message: "plan_read r i history = ReadRefused msg \<Longrightarrow> msg \<noteq> unfinished"
  by (auto simp: plan_read_def unfinished_def Let_def split: if_splits)

lemma mutation_conflict_message: "mutation_conflict r i history = Some msg \<Longrightarrow> msg \<noteq> unfinished"
  by (auto simp: mutation_conflict_def unfinished_def Let_def split: if_splits)

lemma update_messages:
  "updated_spec r d i plan = Inl msg \<Longrightarrow> msg \<noteq> unfinished" "update_payload env r i spec = Inl msg \<Longrightarrow> msg \<noteq> unfinished"
  by (auto simp: updated_spec_def update_payload_def unfinished_def split: option.splits sum.splits if_splits prod.splits)

subsection \<open>More fuel\<close>

text \<open>More fuel changes nothing but an unfinished outcome.\<close>

definition fuelled :: "('n, 's, 'a) prov \<Rightarrow> ('n, 's, 'a) prov \<Rightarrow> bool" where
  "fuelled m m' \<longleftrightarrow> (\<forall>w. fst (m w) = Inl unfinished \<or> m' w = m w)"

lemma fuelled_refl [simp]: "fuelled m m"
  by (simp add: fuelled_def)

lemma fuelled_andThen:
  assumes "fuelled m m'" "\<And>x. fuelled (f x) (f' x)"
  shows "fuelled (andThen m f) (andThen m' f')"
  unfolding fuelled_def
proof
  fix w
  obtain r w1 where m: "m w = (r, w1)" by (cases "m w")
  with assms(1) have "r = Inl unfinished \<or> m' w = (r, w1)" unfolding fuelled_def by (metis fst_conv)
  with m assms(2) show "fst (andThen m f w) = Inl unfinished \<or> andThen m' f' w = andThen m f w"
    by (cases r) (auto simp: andThen_def fuelled_def)
qed

lemma fuelled_cases:
  "(b \<Longrightarrow> fuelled m m') \<Longrightarrow> (\<not> b \<Longrightarrow> fuelled n n') \<Longrightarrow> fuelled (if b then m else n) (if b then m' else n')"
  "(\<And>e. s = Inl e \<Longrightarrow> fuelled (f e) (f' e)) \<Longrightarrow> (\<And>x. s = Inr x \<Longrightarrow> fuelled (g x) (g' x)) \<Longrightarrow>
     fuelled (case s of Inl e \<Rightarrow> f e | Inr x \<Rightarrow> g x) (case s of Inl e \<Rightarrow> f' e | Inr x \<Rightarrow> g' x)"
  "(opt = None \<Longrightarrow> fuelled m m') \<Longrightarrow> (\<And>y. opt = Some y \<Longrightarrow> fuelled (h y) (h' y)) \<Longrightarrow>
     fuelled (case opt of None \<Rightarrow> m | Some y \<Rightarrow> h y) (case opt of None \<Rightarrow> m' | Some y \<Rightarrow> h' y)"
  "(\<And>a c. fuelled (u a c) (u' a c)) \<Longrightarrow> fuelled (case p of (a, c) \<Rightarrow> u a c) (case p of (a, c) \<Rightarrow> u' a c)"
  by (cases s; cases opt; cases p; simp)+

lemma fuelled_unfinished: "fuelled (raise unfinished) m"
  by (simp add: fuelled_def raise_def)

lemma fuelled_readOperation: "n \<le> m \<Longrightarrow> fuelled (readOperation env n intent) (readOperation env m intent)"
proof (induction n arbitrary: m)
  case 0
  show ?case
    by (subst (1 2) readOperation_step)
       (intro fuelled_andThen fuelled_cases fuelled_refl, auto intro: fuelled_unfinished)
next
  case (Suc n)
  then obtain m' where m: "m = Suc m'" "n \<le> m'" by (cases m) auto
  show ?case unfolding m(1)
    by (subst (1 2) readOperation_step)
       (intro fuelled_andThen fuelled_cases fuelled_refl, auto intro: Suc.IH [OF m(2)])
qed

lemma fuelled_round:
  "n \<le> m \<Longrightarrow> (\<And>op. fuelled (again op) (again' op)) \<Longrightarrow>
     fuelled (settle_round env n intent again op) (settle_round env m intent again' op)"
  unfolding settle_round_def by (intro fuelled_andThen fuelled_cases fuelled_refl fuelled_readOperation)

lemma fuelled_settle: "n \<le> m \<Longrightarrow> fuelled (settle env n intent op) (settle env m intent op)"
proof (induction n arbitrary: m op)
  case 0
  have "settled_status (op_Status op) \<Longrightarrow> settle env k intent op = ret op" for op k
    by (cases k) (simp_all add: settle_round_def)
  then show ?case
    by (cases m) (auto intro!: fuelled_round simp: fuelled_unfinished)
next
  case (Suc n)
  then obtain m' where m: "m = Suc m'" "n \<le> m'" by (cases m) auto
  then show ?case using Suc.IH by (auto intro!: fuelled_round)
qed

lemma fuelled_finish: "n \<le> m \<Longrightarrow> fuelled (finish env n r d intent delay report) (finish env m r d intent delay report)"
  unfolding finish_def
  by (intro fuelled_andThen fuelled_cases fuelled_refl fuelled_readOperation fuelled_settle)

lemma fuelled_send: "n \<le> m \<Longrightarrow> fuelled (send_claimed env n r d msgs space name pending send i) (send_claimed env m r d msgs space name pending send i)"
  unfolding send_claimed_def by (intro fuelled_andThen fuelled_refl fuelled_finish)

lemma fuelled_lifecycle: "n \<le> m \<Longrightarrow> fuelled (lifecycle env n r c) (lifecycle env m r c)"
proof -
  assume n: "n \<le> m"
  have 1: "fuelled (Resource_Create env n r plan) (Resource_Create env m r plan)" for plan
    unfolding Resource_Create_def existing_create_def fresh_create_def Let_def
    by (intro fuelled_andThen fuelled_cases fuelled_refl fuelled_finish fuelled_send n)
  have 2: "fuelled (read_existing env n r d old i history) (read_existing env m r d old i history)" for d old i history
    by (cases "plan_read r i history")
       (auto simp: read_existing_def intro!: fuelled_andThen fuelled_cases fuelled_finish n)
  have 3: "fuelled (Resource_Read env n r old) (Resource_Read env m r old)" for old
    unfolding Resource_Read_def Let_def
    by (intro fuelled_andThen fuelled_cases fuelled_refl 2)
  have 4: "fuelled (mutateExisting env n r old plan) (mutateExisting env m r old plan)" for old plan
    unfolding mutateExisting_def mutate_fenced_def Let_def
    by (intro fuelled_andThen fuelled_cases fuelled_refl fuelled_send n)
  show ?thesis using 1 3 4 by (cases c) (simp_all add: Resource_Update_def Resource_Delete_def)
qed

subsection \<open>Bounded waiting\<close>

lemma andThen_ret: "andThen m ret = m"
  by (simp add: andThen_def ret_def fun_eq_iff split: sum.splits prod.splits)

locale bounded_waits =
  fixes env :: "('n, 's) penv" and left :: "'n \<Rightarrow> nat"
  assumes wait_costs: "1 \<le> seconds \<Longrightarrow> pe_wait env n seconds = (True, n') \<Longrightarrow> left n' < left n"
    and wait_stops: "pe_wait env n seconds = (False, n') \<Longrightarrow> left n' \<le> left n"
    and call_free: "left (snd (pe_net env n rq)) \<le> left n"

sublocale bounded_waits \<subseteq> spent: client_relation "pe_net env" "\<lambda>w w' :: ('n, 's) pworld. left (hw_net w') \<le> left (hw_net w)"
proof
  fix w :: "('n, 's) pworld" and verb target body authenticated limit headers
  show "left (hw_net (snd (doWithHeaders (pe_net env) verb target body authenticated limit headers w))) \<le> left (hw_net w)"
    by (auto simp: doWithHeaders_eq raise_def Let_def split: option.splits prod.splits) (metis call_free snd_conv)
qed (auto simp: set_discovery_def)

context bounded_waits
begin

text \<open>With fuel for the waits that are left, the operation does not stop unfinished.\<close>

definition ends :: "nat \<Rightarrow> ('n, 's, 'a) prov \<Rightarrow> bool" where
  "ends k m \<longleftrightarrow> (\<forall>w r w'. left (hw_net w) \<le> k \<longrightarrow> m w = (r, w') \<longrightarrow> left (hw_net w') \<le> left (hw_net w) \<and> r \<noteq> Inl unfinished)"

lemma endsD:
  assumes "ends k m" "left (hw_net w) \<le> k" "m w = (r, w')"
  shows "left (hw_net w') \<le> left (hw_net w)" "r \<noteq> Inl unfinished"
  using assms unfolding ends_def by blast+

lemma ends_andThen:
  assumes "ends k m" "\<And>x. ends k (f x)"
  shows "ends k (andThen m f)"
  unfolding ends_def
proof (intro allI impI)
  fix w r w'
  assume l: "left (hw_net w) \<le> k" and run: "andThen m f w = (r, w')"
  obtain r1 w1 where m: "m w = (r1, w1)" by (cases "m w")
  with l assms(1) have e: "left (hw_net w1) \<le> left (hw_net w)" "r1 \<noteq> Inl unfinished" unfolding ends_def by blast+
  show "left (hw_net w') \<le> left (hw_net w) \<and> r \<noteq> Inl unfinished"
  proof (cases r1)
    case (Inl e')
    with run m e show ?thesis by (auto simp: andThen_def)
  next
    case (Inr x)
    with run m have "f x w1 = (r, w')" by (simp add: andThen_def)
    from endsD [OF assms(2) _ this] e l show ?thesis by linarith
  qed
qed

lemma ends_wait:
  assumes "msg \<noteq> unfinished" "\<And>k'. k = Suc k' \<Longrightarrow> ends k' (f ())"
  shows "ends k (andThen (refuse msg (v2Wait env seconds)) f)"
  unfolding ends_def
proof (intro allI impI)
  fix w r w'
  assume l: "left (hw_net w) \<le> k" and run: "andThen (refuse msg (v2Wait env seconds)) f w = (r, w')"
  obtain x w1 where m: "v2Wait env seconds w = (x, w1)" by (cases "v2Wait env seconds w")
  show "left (hw_net w') \<le> left (hw_net w) \<and> r \<noteq> Inl unfinished"
  proof (cases x)
    case (Inl e)
    with m have "left (hw_net w1) \<le> left (hw_net w)"
      by (auto simp: v2Wait_def Let_def dest: wait_stops split: prod.splits if_splits)
    with run m Inl assms(1) show ?thesis by (auto simp: andThen_def refuse_def)
  next
    case (Inr u)
    have one: "1 \<le> maxWaitSeconds" by (simp add: maxWaitSeconds_def)
    from m Inr one have less: "left (hw_net w1) < left (hw_net w)"
      by (auto simp: v2Wait_def Let_def split: prod.splits if_splits dest!: wait_costs [rotated])
    with l obtain k' where k: "k = Suc k'" by (cases k) auto
    from run m Inr have "f () w1 = (r, w')" by (simp add: andThen_def refuse_def)
    from endsD [OF assms(2) [OF k] _ this] less l k show ?thesis by linarith
  qed
qed

lemma ends_along: "spent.along m \<Longrightarrow> (\<And>w r w'. m w = (r, w') \<Longrightarrow> r \<noteq> Inl unfinished) \<Longrightarrow> ends k m"
  unfolding ends_def by (auto dest: spent.alongD)

lemma ends_refuse: "spent.along m \<Longrightarrow> msg \<noteq> unfinished \<Longrightarrow> ends k (refuse msg m)"
  by (auto simp: ends_def refuse_def dest: spent.alongD split: sum.splits prod.splits)

lemma ends_attempt: "spent.along m \<Longrightarrow> ends k (attempt m)"
  by (auto simp: ends_def attempt_def dest: spent.alongD split: prod.splits)

lemma ends_basic:
  "ends k (ret x)" "msg \<noteq> unfinished \<Longrightarrow> ends k (raise msg)" "msg \<noteq> unfinished \<Longrightarrow> ends k (refuse_value msg u)"
  "(\<And>e. v = Inl e \<Longrightarrow> e \<noteq> unfinished) \<Longrightarrow> ends k (lift_result v)"
  "ends k (set_state st)" "ends k (edit_state g)" "ends k (warn msg)"
  "msg \<noteq> unfinished \<Longrightarrow> ends k (refuse msg (on_store j ev))"
  by (cases v; cases u; auto simp: ends_def ret_def raise_def lift_result_def set_state_def edit_state_def warn_def
      refuse_def on_store_def split: sum.splits prod.splits)+

lemma ends_cases:
  "(b \<Longrightarrow> ends k m) \<Longrightarrow> (\<not> b \<Longrightarrow> ends k n) \<Longrightarrow> ends k (if b then m else n)"
  "(\<And>e. s = Inl e \<Longrightarrow> ends k (f e)) \<Longrightarrow> (\<And>x. s = Inr x \<Longrightarrow> ends k (g x)) \<Longrightarrow> ends k (case s of Inl e \<Rightarrow> f e | Inr x \<Rightarrow> g x)"
  "(opt = None \<Longrightarrow> ends k m) \<Longrightarrow> (\<And>y. opt = Some y \<Longrightarrow> ends k (h y)) \<Longrightarrow> ends k (case opt of None \<Rightarrow> m | Some y \<Rightarrow> h y)"
  "(\<And>a c. ends k (u a c)) \<Longrightarrow> ends k (case p of (a, c) \<Rightarrow> u a c)"
  by (cases s; cases opt; cases p; simp)+

lemma ends_wait_only: "msg \<noteq> unfinished \<Longrightarrow> ends k (refuse msg (v2Wait env seconds))"
  using ends_wait [of msg k ret, OF _ ends_basic(1)] by (simp add: andThen_ret)

lemmas ends_rules = ends_basic ends_cases ends_refuse [OF spent.along_client(1)] ends_refuse [OF spent.along_client(2)]
  ends_refuse [OF spent.along_client(7)] ends_refuse [OF spent.along_client(8)] ends_attempt [OF spent.along_client(2)]
  ends_attempt [OF spent.along_client(3)] ends_wait_only

lemma ends_readOperation: "k \<le> fuel \<Longrightarrow> ends k (readOperation env fuel intent)"
proof (induction fuel arbitrary: k)
  case 0
  then show ?case
    by (subst readOperation_step, intro ends_andThen ends_rules ends_wait) (auto simp: unfinished_def)
next
  case (Suc fuel)
  show ?case
    by (subst readOperation_step, intro ends_andThen ends_rules ends_wait) (use Suc in \<open>auto simp: unfinished_def\<close>)
qed

lemma ends_supply: "ends k (supply_inputs env intent op)"
  unfolding supply_inputs_def by (intro ends_andThen ends_rules) (simp_all add: unfinished_def)

lemma ends_round:
  assumes "k \<le> fuel" "\<And>k' op. k = Suc k' \<Longrightarrow> ends k' (again op)"
  shows "ends k (settle_round env fuel intent again op)"
  unfolding settle_round_def
  by (intro ends_andThen ends_supply ends_rules ends_wait)
     (use assms in \<open>auto simp: unfinished_def intro!: ends_andThen ends_readOperation\<close>)

lemma ends_settle: "k \<le> fuel \<Longrightarrow> ends k (settle env fuel intent op)"
proof (induction fuel arbitrary: k op)
  case 0
  then show ?case by (auto intro!: ends_round)
next
  case (Suc fuel)
  then show ?case by (auto intro!: ends_round)
qed

text \<open>Every diagnostic differs from \<open>unfinished\<close>.\<close>

lemma ends_write: "ends k (writeResource r d rec i j)"
  unfolding writeResource_def by (intro ends_andThen ends_rules) (simp_all add: unfinished_def)

lemma ends_try:
  assumes "ends k m" "\<And>x. x \<noteq> Inl unfinished \<Longrightarrow> ends k (f x)"
  shows "ends k (andThen (attempt m) f)"
  unfolding ends_def
proof (intro allI impI)
  fix w r w'
  assume l: "left (hw_net w) \<le> k" and run: "andThen (attempt m) f w = (r, w')"
  obtain x w1 where m: "m w = (x, w1)" by (cases "m w")
  note e = endsD [OF assms(1) l m]
  from run m have "f x w1 = (r, w')" by (simp add: andThen_def attempt_def)
  from endsD [OF assms(2) [OF e(2)] _ this] e l show "left (hw_net w') \<le> left (hw_net w) \<and> r \<noteq> Inl unfinished" by linarith
qed

lemma ends_conclude: "ends k (conclude r d intent report op rec)"
  unfolding conclude_def
  by (intro ends_cases ends_basic ends_try ends_write ends_andThen) (auto simp: unfinished_def)

lemma ends_finish: "k \<le> fuel \<Longrightarrow> ends k (finish env fuel r d intent delay report)"
  unfolding finish_def initial_wait_def observe_def journal_complete_def
  by (intro ends_andThen ends_rules ends_readOperation ends_settle)
     (auto simp: unfinished_def intro!: ends_andThen ends_rules ends_conclude split: prod.splits)

lemma ends_access:
  "ends k (discover env d)" "ends k (read_history env t)" "msg \<noteq> unfinished \<Longrightarrow> ends k (read_import env msg t)"
  "msg \<noteq> unfinished \<Longrightarrow> ends k (read_exact env msg uid P)" "msg \<noteq> unfinished \<Longrightarrow> ends k (journal_begin env msg req)"
  "msg \<noteq> unfinished \<Longrightarrow> ends k (journal_accept env msg i op)" "ends k (writePending r d space name op i)"
  unfolding discover_def read_history_def read_import_def read_exact_def journal_begin_def journal_accept_def writePending_def
  by (intro ends_andThen ends_rules; simp add: unfinished_def)+

lemma ends_send:
  assumes "k \<le> fuel" "fst msgs \<noteq> unfinished" "snd msgs \<noteq> unfinished" "\<And>key. spent.along (send key)"
  shows "ends k (send_claimed env fuel r d msgs space name pending send intent)"
  unfolding send_claimed_def
  by (intro ends_andThen ends_refuse ends_access ends_finish ends_basic assms)

lemma ends_Create: "k \<le> fuel \<Longrightarrow> ends k (Resource_Create env fuel r plan)"
  unfolding Resource_Create_def existing_create_def fresh_create_def Let_def
  by (intro ends_andThen ends_basic ends_cases ends_refuse ends_access ends_finish ends_send spent.along_client)
     (simp_all add: unfinished_def)

lemma ends_Read: "k \<le> fuel \<Longrightarrow> ends k (Resource_Read env fuel r old)"
proof -
  assume k: "k \<le> fuel"
  have 1: "ends k (read_importing env r d old i)" for d i
    unfolding read_importing_def by (intro ends_andThen ends_rules ends_access ends_write) (simp_all add: unfinished_def)
  have 2: "ends k (readCompletedOperation env r d latest)" for d latest
    unfolding readCompletedOperation_def
    by (intro ends_andThen ends_rules ends_access ends_write ends_try) (simp_all add: unfinished_def)
  have 3: "ends k (read_existing env fuel r d old i history)" for d i history
    by (cases "plan_read r i history")
       (auto simp: read_existing_def unfinished_def intro!: ends_andThen ends_rules ends_access ends_write ends_finish 2 k
          dest: plan_read_message)
  show ?thesis
    unfolding Resource_Read_def Let_def
    by (auto intro!: ends_andThen ends_rules ends_access 1 3 simp: unfinished_def split: option.splits sum.splits)
qed

lemma ends_mutate: "k \<le> fuel \<Longrightarrow> ends k (mutateExisting env fuel r old plan)"
proof -
  assume k: "k \<le> fuel"
  have s: "spent.along (send_existing env i spec inputs key)" for i spec inputs key
    using spent.along_client by (auto simp: send_existing_def split: option.splits)
  have 1: "ends k (mutate_fenced env fuel r d old plan i history)" for d i history
    unfolding mutate_fenced_def
    by (intro ends_andThen ends_basic ends_cases ends_access ends_send s k)
       (auto simp: unfinished_def dest: update_messages [unfolded unfinished_def])
  show ?thesis
    unfolding mutateExisting_def Let_def
    by (auto intro!: ends_andThen ends_rules ends_access 1 simp: unfinished_def dest: mutation_conflict_message
        split: option.splits sum.splits)
qed

lemma lifecycle_ends: "k \<le> fuel \<Longrightarrow> ends k (lifecycle env fuel r c)"
  by (cases c) (simp_all add: ends_Create ends_Read ends_mutate Resource_Update_def Resource_Delete_def)

end

subsection \<open>A context with a deadline\<close>

text \<open>
  The waits of a call under a context that ends after a number of seconds: the world carries the
  seconds that are left, a wait within them takes its time, and one beyond them ends the context. A wait of no
  seconds is over at once.
\<close>

definition deadline_env :: "'n network \<Rightarrow> string option \<Rightarrow> 's journal \<Rightarrow> ('n \<times> nat, 's) penv" where
  "deadline_env net priv jn = \<lparr>pe_net = (\<lambda>(n, rest) rq. case net n rq of (reply, n') \<Rightarrow> (reply, (n', rest))),
     pe_wait = (\<lambda>(n, rest) seconds. if seconds \<le> int rest then (True, (n, rest - nat seconds)) else (False, (n, 0))),
     pe_private = priv, pe_store = jn\<rparr>"

interpretation deadline: bounded_waits "deadline_env net priv jn" snd for net priv jn
  by unfold_locales (auto simp: deadline_env_def split: prod.splits if_splits)

end
