(* ===== verification/LifecycleState.thy ===== *)
theory LifecycleState
  imports LifecycleCustody LifecycleWaits
begin

text \<open>
  The state a lifecycle call leaves in Terraform: what was there, nothing, or a state that the
  next call accepts as its own.
\<close>

lemma patterns_not_Nil [simp]: "\<not> idPattern []" "\<not> v2KeyPattern []" "v2IDPattern = idPattern"
  by (simp_all add: v2IDPattern_def v2KeyPattern_def idPattern_def match_rep_def fun_eq_iff)

text \<open>The state the framework hands to the call: a Create starts from nothing.\<close>

fun given :: "lifecycle_call \<Rightarrow> tf_state option" where
  "given (CreateCall _) = None"
| "given (ReadCall old) = Some old"
| "given (UpdateCall old _) = Some old"
| "given (DeleteCall old) = Some old"

definition accepts :: "v2Resource \<Rightarrow> tf_state \<Rightarrow> bool" where
  "accepts r s \<longleftrightarrow> ok (identity r s False)"

definition tidy :: "v2Resource \<Rightarrow> tf_state option \<Rightarrow> 's \<Rightarrow> tf_state option \<Rightarrow> bool" where
  "tidy r st0 s st \<longleftrightarrow> st = None \<or> st = st0 \<or> (\<exists>x. st = Some x \<and> accepts r x)"

lemma written_accepted:
  assumes "rs_data r = Some d" "vd_store d" "validateResource rec" "re_Form rec = rs_form r"
    and "i = [] \<and> oid = [] \<or> v2KeyPattern i \<and> idPattern oid"
  shows "accepts r (written r d rec v i oid s)"
  using assms
  by (auto simp: accepts_def identity_def read_identity_def written_def linkage_def Let_def validateResource_def maxSafeInteger_def)

lemma pends_accepted:
  assumes "rs_data r = Some d" "vd_store d" "operation_identity op" "idPattern name" "idPattern space" "v2KeyPattern i"
  shows "accepts r (pends r d space name op i s)"
  using assms
  by (auto simp: accepts_def identity_def read_identity_def pends_def Let_def operation_identity_def maxSafeInteger_def)

lemma writePending_pends: "writePending r d space name op i = edit_state (pends r d space name op i)"
  by (simp add: writePending_def pends_def [abs_def])

lemma set_then_edit: "andThen (set_state (Some p)) (\<lambda>_. andThen (edit_state g) f) = andThen (set_state (Some (g p))) f"
  by (simp add: fun_eq_iff andThen_def set_state_def edit_state_def)

locale keyed_journal = claim_journal +
  assumes read_keys: "jn_Read jn t s = (Inr h, s') \<Longrightarrow> i \<in> set h \<Longrightarrow> v2KeyPattern (i_ID i)"
    and accept_keys: "jn_RecordAccepted jn key ack s = (Inr i, s') \<Longrightarrow> v2KeyPattern (i_ID i)"
begin

lemma tidy_finish:
  assumes "rs_data r = Some d" "vd_store d" "v2KeyPattern (i_ID intent)"
  shows "keeps (tidy r st0) (finish env fuel r d intent delay report) (\<lambda>_. True)"
  by (rule keeps_finish)
     (auto simp: tidy_def write_kept_def bound_to_def operation_identity_def assms intro!: written_accepted [OF assms(1,2)])

lemma tidy_send:
  assumes r: "rs_data r = Some d" "vd_store d" and env: "pe_store env = jn" and n: "idPattern name" "idPattern space"
    and send: "\<And>key. keeps (tidy r st0) (send key) operation_identity"
  shows "keeps (tidy r st0) (send_claimed env fuel r d msgs space name pending send intent) (\<lambda>_. True)"
  unfolding send_claimed_def writePending_pends set_then_edit
proof (rule keeps_andThen [OF keeps_refuse [OF send]], rule keeps_andThen)
  fix op
  assume op: "operation_identity op"
  show "keeps (tidy r st0) (journal_accept env (snd msgs) (i_ID intent) op) (\<lambda>a. v2KeyPattern (i_ID a))"
    unfolding journal_accept_def env by (auto simp: tidy_def intro!: keep_rules dest: accept_keys)
  fix accepted :: Intent
  assume k: "v2KeyPattern (i_ID accepted)"
  show "keeps (tidy r st0) (andThen (set_state (Some (pends r d space name op (i_ID accepted) pending)))
      (\<lambda>_. finish env fuel r d accepted (op_RetryAfterSeconds op) True)) (\<lambda>_. True)"
    by (rule keeps_andThen [OF keeps_state(1)])
       (auto simp: tidy_def intro!: tidy_finish [OF r k] pends_accepted [OF r op n k])
qed

lemma perform_identity: "keeps J (perform net key m) operation_identity"
  by (rule keeps_weaken [OF keeps_perform]) (simp add: answers_def)

lemma keeps_history:
  assumes "pe_store env = jn"
  shows "keeps (tidy r st0) (read_history env t) (\<lambda>h. \<forall>i\<in>set h. v2KeyPattern (i_ID i))"
  by (auto simp: read_history_def tidy_def assms intro!: keep_rules dest: read_keys)

lemma keeps_silent: "keeps (tidy r st0) (on_store j ev) (\<lambda>_. True)"
  by (auto simp: tidy_def intro!: keep_rules)

lemma tidy_Create:
  assumes r: "rs_data r = Some d" "vd_store d" and env: "pe_store env = jn"
  shows "keeps (tidy r st0) (Resource_Create env fuel r plan) (\<lambda>_. True)"
proof -
  have create: "keeps (tidy r st0) (CreateResource net key input) operation_identity" for net key input
    using perform_identity [of _ net key "MCreate input"] by simp
  have "keeps (tidy r st0) (fresh_create env fuel r d plan space name spec) (\<lambda>_. True)"
    if "idPattern name" "idPattern space" for space name spec
    unfolding fresh_create_def Let_def journal_begin_def
    by (intro keeps_andThen [where R = "\<lambda>_. True"] keep_rules keeps_silent tidy_send [OF r env that] create TrueI)
  moreover have "keeps (tidy r st0) (existing_create env fuel r d plan space name spec latest) (\<lambda>_. True)"
    if "v2KeyPattern (i_ID latest)" for space name spec latest
    unfolding existing_create_def
    by (intro keeps_andThen [where R = "\<lambda>_. True"] keep_rules tidy_finish [OF r that] TrueI)
  moreover have "idPattern name \<and> idPattern space" if "planNameSpace d plan = Inr (name, space)" for name space
    using that by (auto simp: planNameSpace_def Let_def split: if_splits tf.splits)
  ultimately show ?thesis
    by (cases "planNameSpace d plan"; cases "v2SpecFromPlan (rs_def r) (ts_spec plan)")
       (auto simp: Resource_Create_def r intro!: keep_rules keeps_andThen [OF keeps_history [OF env]])
qed

lemma tidy_write: "rs_data r = Some d \<Longrightarrow> vd_store d \<Longrightarrow> validateResource rec \<Longrightarrow> keeps (tidy r st0) (writeResource r d rec [] []) (\<lambda>_. True)"
  by (rule keeps_writeResource) (auto simp: write_kept_def tidy_def intro!: written_accepted)

lemma tidy_write_linked:
  "rs_data r = Some d \<Longrightarrow> vd_store d \<Longrightarrow> validateResource rec \<Longrightarrow> v2KeyPattern i \<Longrightarrow> idPattern j \<Longrightarrow>
     keeps (tidy r st0) (writeResource r d rec i j) (\<lambda>_. True)"
  by (rule keeps_writeResource) (auto simp: write_kept_def tidy_def intro!: written_accepted)

lemma tidy_Read:
  assumes r: "rs_data r = Some d" "vd_store d" and env: "pe_store env = jn"
  shows "keeps (tidy r (Some old)) (Resource_Read env fuel r old) (\<lambda>_. True)"
proof -
  let ?J = "tidy r (Some old) :: 's \<Rightarrow> tf_state option \<Rightarrow> bool"
  have set: "keeps ?J (set_state (Some old)) (\<lambda>_. True)" and unset: "keeps ?J (set_state None) (\<lambda>_. True)"
    by (auto intro!: keep_rules simp: tidy_def)
  have 1: "keeps ?J (read_importing env r d old i) (\<lambda>_. True)" for i
    unfolding read_importing_def
    by (intro keeps_andThen [where R = "\<lambda>_. True", OF keeps_access(1)] keeps_andThen [OF keeps_access(2)]
        keeps_andThen [where R = "\<lambda>_. True", OF keeps_refuse [OF keeps_silent]] keeps_andThen [OF set] tidy_write [OF r]) simp
  have 2: "keeps ?J (readCompletedOperation env r d latest) (\<lambda>_. True)" if "v2KeyPattern (i_ID latest)" for latest
    unfolding readCompletedOperation_def
  proof (rule keeps_andThen [where R = "\<lambda>res. \<forall>rec. res = Inr rec \<longrightarrow> validateResource rec"])
    show "keeps ?J (attempt (ReadResource (pe_net env) (i_OperationUID latest))) (\<lambda>res. \<forall>rec. res = Inr rec \<longrightarrow> validateResource rec)"
      by (rule keeps_attempt) (auto intro: keeps_weaken [OF keeps_client(1)])
    have l: "idPattern (i_OperationID latest)" if "completed_matches latest rec" "validateResource rec" for rec
      using that by (auto simp: completed_matches_def validateResource_def)
    show "keeps ?J (if i_Status latest = StatusDeleteConfirmed then
       (case v2DeletedResourceStatus res of None \<Rightarrow> raise ''v2 Delete absence unproven'' | Some _ \<Rightarrow> set_state None)
     else
       (case res of Inl _ \<Rightarrow> raise ''v2 completed Resource evidence mismatch''
        | Inr rec \<Rightarrow>
            if \<not> completed_matches latest rec then raise ''v2 completed Resource evidence mismatch''
            else if i_Status latest = StatusFailedReserved then
              andThen (attempt (writeResource r d rec (i_ID latest) (i_OperationID latest))) (\<lambda>wrote.
              andThen (warn retained_failure) (\<lambda>_. lift_result wrote))
            else writeResource r d rec [] [])) (\<lambda>_. True)"
      if "\<forall>rec. res = Inr rec \<longrightarrow> validateResource rec" for res
      using that \<open>v2KeyPattern (i_ID latest)\<close> l
      by (auto intro!: keep_rules unset tidy_write [OF r] tidy_write_linked [OF r] keeps_andThen [where R = "\<lambda>_. True"])
  qed
  have 3: "keeps ?J (read_existing env fuel r d old i history) (\<lambda>_. True)" if h: "\<forall>i\<in>set history. v2KeyPattern (i_ID i)" for i history
  proof -
    have l: "v2KeyPattern (i_ID latest)" if "plan_read r i history = ReadFinish latest \<or> plan_read r i history = ReadCompleted latest" for latest
      using that h by (auto simp: plan_read_def Let_def split: if_splits)
    have p: "v2KeyPattern (i_ID x)" if "pending_linked i history = Some x" for x
    proof -
      have "x \<in> set history"
        using that by (auto simp: pending_linked_def find_Some_iff split: option.splits if_splits)
      with h show ?thesis by blast
    qed
    show ?thesis
      by (cases "plan_read r i history")
         (auto simp: read_existing_def intro!: keep_rules keeps_andThen [OF keeps_access(1)] keeps_andThen [OF keeps_access(2)]
            keeps_andThen [OF set] tidy_finish [OF r] 2 tidy_write [OF r] intro: l p)
  qed
  have imp: "keeps ?J (read_import env msg t) (\<lambda>_. True)" for msg t
    unfolding read_import_def by (intro keeps_refuse keeps_silent)
  show ?thesis
    by (cases "identity r old True")
       (auto simp: Resource_Read_def r Let_def intro!: keep_rules 1 3 keeps_andThen [OF keeps_history [OF env]] keeps_andThen [OF imp])
qed

lemma tidy_mutate:
  assumes r: "rs_data r = Some d" "vd_store d" and env: "pe_store env = jn"
  shows "keeps (tidy r st0) (mutateExisting env fuel r old plan) (\<lambda>_. True)"
proof (cases "identity r old False")
  case (Inr i)
  have n: "idPattern (id_name i)" "idPattern (id_space i)"
    using Inr by (auto simp: identity_def Let_def read_identity_def split: option.splits if_splits)
  have send: "keeps (tidy r st0) (send_existing env i spec inputs key) operation_identity" for spec inputs key
    using perform_identity [of _ "pe_net env" key "MDelete (id_uid i) (id_generation i)"]
      perform_identity [of _ "pe_net env" key "MUpdate (id_uid i) (id_generation i) \<lparr>uq_Spec = spec, uq_PrivateInputs = inputs\<rparr>"]
    by (cases spec) (simp_all add: send_existing_def)
  have fenced: "keeps (tidy r st0) (mutate_fenced env fuel r d old plan i history) (\<lambda>_. True)" for history
    unfolding mutate_fenced_def journal_begin_def
    by (intro keeps_andThen [where R = "\<lambda>_. True"] keep_rules keeps_weaken [OF keeps_access(2)] keeps_silent
        tidy_send [OF r env n] send TrueI)
  have imp: "keeps (tidy r st0) (read_import env msg t) (\<lambda>_. True)" for msg t
    unfolding read_import_def by (intro keeps_refuse keeps_silent)
  show ?thesis
    by (auto simp: mutateExisting_def r Inr Let_def intro!: keep_rules fenced keeps_andThen [OF keeps_history [OF env]] keeps_andThen [OF imp])
qed (auto simp: mutateExisting_def r intro: keep_rules)

lemma tidy_lifecycle:
  assumes "rs_data r = Some d" "vd_store d" "pe_store env = jn"
  shows "keeps (tidy r (given c)) (lifecycle env fuel r c) (\<lambda>_. True)"
  using tidy_Create [OF assms] tidy_Read [OF assms] tidy_mutate [OF assms]
  by (cases c) (simp_all add: Resource_Update_def Resource_Delete_def)

end

end
