(* ===== verification/JournalBackends.thy ===== *)
theory JournalBackends
  imports LifecycleState StoreContract
begin

text \<open>
  The two backends of the intent store as the journal of the resource lifecycle, and their
  contracts. A run of a call draws at most one key and one time, so both are parameters.
\<close>

subsection \<open>The local directory\<close>

definition local_journal :: "faults \<Rightarrow> Store \<Rightarrow> bytes option \<Rightarrow> go_time \<Rightarrow> world journal" where
  "local_journal f st rand now = \<lparr>jn_Read = Store_Read f st, jn_ReadImportBinding = Store_ReadImportBinding f st,
     jn_BindImportedResource = Store_BindImportedResource f st, jn_Begin = Store_Begin f st rand now,
     jn_RecordAccepted = Store_RecordAccepted f st, jn_Complete = Store_Complete f st\<rparr>"

text \<open>The snapshot the directory holds.\<close>

definition snapshot_in :: "Store \<Rightarrow> world \<Rightarrow> diskSnapshot \<Rightarrow> bool" where
  "snapshot_in st w s \<longleftrightarrow> (\<exists>b. state_data w = Some b \<and> decodeSnapshot b (st_storeID st) = Inr s)"

lemma snapshot_in_unique: "snapshot_in st w s \<Longrightarrow> snapshot_in st w s' \<Longrightarrow> s = s'"
  by (auto simp: snapshot_in_def)

lemma snapshot_in_ok: "snapshot_in st w s \<Longrightarrow> snapshot_ok (st_storeID st) s"
  by (auto simp: snapshot_in_def dest: decodeSnapshot_ok)

definition occupied :: "diskSnapshot \<Rightarrow> Target \<Rightarrow> bool" where
  "occupied s t \<longleftrightarrow> history s t \<noteq> [] \<and> i_Status (last (history s t)) \<noteq> StatusDeleteConfirmed"

lemma quiet_reading: "quiet (withSnapshot f st False fn)"
proof -
  have "quiet (snapshot_action f st False fn)"
    unfolding snapshot_action_def by (intro quiet_andThen) (auto split: prod.splits)
  then show ?thesis
    by (auto simp: withSnapshot_def withLock_def intro!: quiet_andThen split: sum.splits)
qed

definition seen :: "string \<Rightarrow> 'a tx \<Rightarrow> bytes \<Rightarrow> store_error + 'a \<Rightarrow> world \<Rightarrow> bool" where
  "seen sid fn old r w \<longleftrightarrow> (\<forall>x. r = Inr x \<longrightarrow> (\<exists>s s'. decodeSnapshot old sid = Inr s \<and> fn s = Inr (s', x)))"

lemma reading_outcome:
  "hoare (\<lambda>w. state_data w = Some old) (withSnapshot f st False fn) (seen (st_storeID st) fn old)"
proof -
  let ?A = "\<lambda>w. state_data w = Some old" and ?Q = "seen (st_storeID st) fn old"
  have q: "hoare ?A m (\<lambda>r w. case r of Inl e \<Rightarrow> ?Q (Inl e) w | Inr x \<Rightarrow> ?A w)" if "quiet m" for m :: "'x io"
    by (rule hoare_quiet [OF that]) (auto simp: state_data_def seen_def split: sum.splits)
  have rd: "hoare ?A (readFile f ''state.json'' maxSnapshotBytes) (\<lambda>r w. case r of Inl e \<Rightarrow> ?Q (Inl e) w | Inr d \<Rightarrow> d = old)"
    by (rule hoare_post [OF hoare_read]) (auto simp: seen_def split: sum.splits)
  have act: "hoare ?A (snapshot_action f st False fn) ?Q"
    unfolding snapshot_action_def
    by (rule hoare_andThen [OF q [OF quiet_header]], rule hoare_andThen [OF rd])
       (auto simp: hoare_def seen_def andThen_def lift_result_def ret_def raise_def split: sum.splits prod.splits)
  have r: "hoare ?A (raise e) ?Q" for e by (simp add: hoare_def raise_def seen_def)
  show ?thesis unfolding withSnapshot_def withLock_def
    by (cases "st_closed st"; cases "flock_loop (flocks f)";
        simp add: r; intro hoare_andThen [OF q] act r; blast)
qed

lemma withSnapshot_reads:
  assumes "snapshot_in st w s" "withSnapshot f st False fn w = (r, w')"
  shows "snapshot_in st w' s" "r = Inr x \<Longrightarrow> \<exists>s'. fn s = Inr (s', x)"
proof -
  show "snapshot_in st w' s" using assms state_quiet [OF quiet_reading assms(2)] by (simp add: snapshot_in_def)
  obtain old where old: "state_data w = Some old" "decodeSnapshot old (st_storeID st) = Inr s"
    using assms(1) by (auto simp: snapshot_in_def)
  show "\<exists>s'. fn s = Inr (s', x)" if "r = Inr x"
    using hoareD [OF reading_outcome old(1) assms(2)] that old(2) by (auto simp: seen_def)
qed

text \<open>A writing transaction leaves the snapshot alone or replaces it by the one it computed.\<close>

lemma withSnapshot_writes:
  assumes s: "snapshot_in st w s" and run: "withSnapshot f st True fn w = (r, w')"
    and eff: "\<forall>s' x. fn s = Inr (s', x) \<longrightarrow> effect (st_storeID st) s s'"
  obtains "snapshot_in st w' s" "\<not> ok r"
  | s' x where "fn s = Inr (s', x)" "snapshot_in st w' s'" "ok r \<longrightarrow> r = Inr x"
proof -
  from s obtain old where old: "state_data w = Some old" "decodeSnapshot old (st_storeID st) = Inr s"
    by (auto simp: snapshot_in_def)
  have "snapshot_in st w' s \<and> \<not> ok r \<or> (\<exists>s' x. fn s = Inr (s', x) \<and> snapshot_in st w' s' \<and> (ok r \<longrightarrow> r = Inr x))"
    using hoareD [OF withSnapshot_outcome old(1) run] old
    by (cases r) (auto simp: tx_outcome_def committed_def snapshot_in_def
        dest: disk_in_data transaction_bytes [OF old(2) eff [rule_format]])
  then show thesis using that by blast
qed

subsection \<open>Names stay held\<close>

lemma occupied_replace:
  assumes "snapshot_ok sid s" "findIntent s i = Some (rec, k)" "evolve rec rec'" "occupied s t"
    and "i_Status rec \<noteq> StatusDeleteConfirmed \<Longrightarrow> i_Status rec' \<noteq> StatusDeleteConfirmed"
  shows "occupied (s\<lparr>s_Records := (s_Records s)[k := rec']\<rparr>) t"
proof -
  let ?f = "\<lambda>x. if i_ID x = i then rec' else x"
  have h: "history (s\<lparr>s_Records := (s_Records s)[k := rec']\<rparr>) t = map ?f (history s t)"
    by (rule history_replace [OF assms(1-3)])
  have "last (history s t) = rec" if "i_ID (last (history s t)) = i"
  proof -
    have "last (history s t) \<in> set (s_Records s)"
      using assms(4) last_in_set [of "history s t"] by (auto simp: occupied_def history_def)
    moreover have "rec \<in> set (s_Records s)" "i_ID rec = i" using findIntent_Some [OF assms(2)] by auto
    moreover have "distinct (map i_ID (s_Records s))" using assms(1) by (simp add: snapshot_ok_def)
    ultimately show ?thesis using that by (auto simp: distinct_map inj_on_def)
  qed
  with assms(4,5) show ?thesis unfolding occupied_def h by (auto simp: last_map)
qed

lemma begin_scan_open:
  assumes "begin_scan r recs = Some (Inr i)" "r_Action r = ActionCreate" "r_SupersedesIntentID r = []"
  shows "filter (\<lambda>x. i_Target x = r_Target r) recs \<noteq> [] \<and>
    i_Status (hd (filter (\<lambda>x. i_Target x = r_Target r) recs)) \<noteq> StatusDeleteConfirmed"
  using assms by (induction recs) (auto split: if_splits)

lemma begin_occupies:
  assumes "Begin sid rand now r s = Inr (s', i)" "r_Action r = ActionCreate"
  shows "occupied s' (r_Target r)"
  using assms(1)
proof (cases rule: Begin_cases)
  case (replay r')
  note v = validateBegin_Inr [OF replay(1)]
  have "r_Action r' = ActionCreate" "r_SupersedesIntentID r' = []" "r_Target r' = r_Target r"
    using v assms(2) by (auto simp: begin_ok_def)
  with begin_scan_open [OF replay(4)] replay(3) show ?thesis
    by (simp add: occupied_def history_def hd_rev flip: rev_filter)
next
  case (claim r' key)
  have "r_Target r' = r_Target r" using validateBegin_Inr [OF claim(1)] by simp
  with claim show ?thesis by (simp add: occupied_def history_append)
qed

lemma accept_occupied:
  assumes "RecordAccepted sid i ack s = Inr (s', a)" "snapshot_ok sid s"
  shows "occupied s t \<Longrightarrow> occupied s' t" "i_Action a = a_Action ack"
proof -
  from assms(1) obtain retain where p: "parseRetainUntil (a_RetainUntil ack) = Inr retain" and v: "validAck i ack"
    and fn: "RecordAccepted_fn sid i ack retain s = Inr (s', a)"
    by (auto simp: RecordAccepted_def split: sum.splits if_splits)
  from fn obtain rec k where f: "findIntent s i = Some (rec, k)" and c:
    "s' = s \<and> a = rec \<and> sameOperation rec ack \<or>
     s' = s\<lparr>s_Records := (s_Records s)[k := a]\<rparr> \<and> a = accepted rec ack retain \<and> i_Status rec = StatusClaimed \<and>
       ok (validateOperationForIntent rec ack)"
    by (auto simp: RecordAccepted_fn_def put_record_def split: option.splits if_splits)
  show "i_Action a = a_Action ack"
    using c by (auto simp: sameOperation_def accepted_def validateOperationForIntent_def split: if_splits)
  show "occupied s' t" if "occupied s t"
    using c
  proof
    assume c: "s' = s\<lparr>s_Records := (s_Records s)[k := a]\<rparr> \<and> a = accepted rec ack retain \<and> i_Status rec = StatusClaimed \<and>
       ok (validateOperationForIntent rec ack)"
    then have "evolve rec a" using evolve.accept [OF _ v] parseRetainUntil_Inr [OF p] by blast
    from occupied_replace [OF assms(2) f this that] c show ?thesis by (simp add: accepted_def)
  qed (use that in simp)
qed

lemma complete_occupied:
  assumes "Complete sid i ev s = Inr (s', a)" "snapshot_ok sid s" "a_Action (e_Operation ev) \<noteq> ActionDelete" "occupied s t"
  shows "occupied s' t"
proof -
  from assms(1) obtain retain where p: "parseRetainUntil (a_RetainUntil (e_Operation ev)) = Inr retain"
    and v: "validAck i (e_Operation ev)" and fn: "Complete_fn sid i ev retain s = Inr (s', a)"
    by (auto simp: Complete_def split: sum.splits if_splits)
  then obtain rec k where f: "findIntent s i = Some (rec, k)" and c: "complete_record rec ev retain = Inr a"
    and s': "s' = s\<lparr>s_Records := (s_Records s)[k := a]\<rparr>"
    by (auto simp: Complete_fn_def put_record_def split: option.splits if_splits sum.splits)
  have "evolve rec a" using evolve.complete [OF _ _ _ c] parseRetainUntil_Inr [OF p] v by (auto simp: validAck_def)
  moreover have "i_Status a \<noteq> StatusDeleteConfirmed" if "i_Status rec \<noteq> StatusDeleteConfirmed"
    using c that assms(3) by (auto simp: complete_record_def settled_def Let_def split: if_splits)
  ultimately show ?thesis using occupied_replace [OF assms(2) f _ assms(4)] s' by blast
qed

text \<open>The transactions of the store are those of the journal.\<close>

lemma Store_Begin_run:
  assumes "Store_Begin f st rand now req w = (r, w')"
  obtains e where "r = Inl e" "w' = w"
  | fn where "withSnapshot f st True fn w = (r, w')" "\<And>s. fn s = Begin (st_storeID st) rand now req s"
  using assms by (auto simp: Store_Begin_def Begin_def raise_def split: sum.splits)

lemma Store_Accept_run:
  assumes "Store_RecordAccepted f st i ack w = (r, w')"
  obtains e where "r = Inl e" "w' = w"
  | fn where "withSnapshot f st True fn w = (r, w')" "\<And>s. fn s = RecordAccepted (st_storeID st) i ack s"
  using assms by (auto simp: Store_RecordAccepted_def RecordAccepted_def raise_def split: sum.splits if_splits)

lemma Store_Complete_run:
  assumes "Store_Complete f st i ev w = (r, w')"
  obtains e where "r = Inl e" "w' = w"
  | fn where "withSnapshot f st True fn w = (r, w')" "\<And>s. fn s = Complete (st_storeID st) i ev s"
  using assms by (auto simp: Store_Complete_def Complete_def raise_def split: sum.splits if_splits)

subsection \<open>Contracts\<close>

lemma begin_request:
  assumes "Begin sid rand now req s = Inr (s', i)"
  shows "intent_request i = req\<lparr>r_PrivateInputNames := sort (r_PrivateInputNames req),
    r_AdvertisedReplayWindowSecs := i_AdvertisedReplayWindowSecs i\<rparr>"
  using assms
proof (cases rule: Begin_cases)
  case (replay r')
  with sameRequest_sound [OF conjunct2 [OF begin_scan_Inr [OF replay(4)]]] validateBegin_Inr(1) [OF replay(1)]
  show ?thesis by simp
next
  case (claim r' key)
  then show ?thesis using validateBegin_Inr(1) [OF claim(1)] by (simp add: new_intent_def intent_request_def)
qed

lemma withSnapshot_result:
  assumes "withSnapshot f st write fn w = (Inr x, w')"
  shows "\<exists>b s s'. decodeSnapshot b (st_storeID st) = Inr s \<and> fn s = Inr (s', x)"
proof -
  have "\<exists>v v'. snapshot_action f st write fn v = (Inr x, v')"
    using assms by (cases "flock_loop (flocks f)")
      (auto simp: withSnapshot_def withLock_def andThen_Inr raise_def split: if_splits)
  moreover have "lift_result r v = (Inr y, v') \<Longrightarrow> r = Inr y" for r :: "store_error + 'y" and v :: world and y v'
    by (cases r) (auto simp: lift_result_def raise_def ret_def)
  ultimately show ?thesis by (fastforce simp: snapshot_action_def andThen_Inr ret_def split: if_splits)
qed

text \<open>The keys of the journal are identifiers of the kind Terraform's state keeps.\<close>

lemma hex_decode_alnum: "hex_decode k = Some d \<Longrightarrow> length k = 2 * length d \<and> list_all is_alnum k"
  by (induction k arbitrary: d rule: hex_decode.induct)
     (auto simp: hex_digit_def is_alnum_def is_digit_def is_lower_def is_upper_def split: option.splits if_splits)

lemma validKey_pattern: "validKey k \<Longrightarrow> v2KeyPattern k"
  by (cases k) (auto simp: validKey_def v2KeyPattern_def match_rep_def idempotencyKeyBytes_def list_all_iff
      dest: hex_decode_alnum split: option.splits)

lemma read_valid_keys: "decodeSnapshot b sid = Inr s \<Longrightarrow> Read_fn t s = Inr (s', h) \<Longrightarrow> i \<in> set h \<Longrightarrow> v2KeyPattern (i_ID i)"
  by (drule decodeSnapshot_ok)
     (auto simp: snapshot_ok_def Read_fn_def validStoredIntent_iff validStoredFields_def intro!: validKey_pattern)

lemma accept_valid_key: "RecordAccepted_fn sid k ack retain s = Inr (s', i) \<Longrightarrow> validAck k ack \<Longrightarrow> v2KeyPattern (i_ID i)"
  by (auto simp: RecordAccepted_fn_def put_record_def accepted_def validAck_def
      dest!: findIntent_Some intro!: validKey_pattern split: option.splits if_splits)

interpretation local_claims: keyed_journal "local_journal f st rand now" for f st rand now
proof
  fix req w i w'
  assume "jn_Begin (local_journal f st rand now) req w = (Inr i, w')"
  then obtain fn where "withSnapshot f st True fn w = (Inr i, w')" "\<And>s. fn s = Begin (st_storeID st) rand now req s"
    by (auto simp: local_journal_def elim!: Store_Begin_run)
  with withSnapshot_result [of f st True fn w i w'] obtain s s' where "Begin (st_storeID st) rand now req s = Inr (s', i)"
    by auto
  then show "intent_request i = req\<lparr>r_PrivateInputNames := sort (r_PrivateInputNames req),
    r_AdvertisedReplayWindowSecs := i_AdvertisedReplayWindowSecs i\<rparr>" by (rule begin_request)
next
  fix t w h w' i
  assume "jn_Read (local_journal f st rand now) t w = (Inr h, w')" and i: "i \<in> set h"
  then have "withSnapshot f st False (Read_fn t) w = (Inr h, w')"
    by (auto simp: local_journal_def Store_Read_def raise_def split: sum.splits)
  from withSnapshot_result [OF this] read_valid_keys i show "v2KeyPattern (i_ID i)" by blast
next
  fix k ack w i w'
  assume "jn_RecordAccepted (local_journal f st rand now) k ack w = (Inr i, w')"
  then obtain retain where v: "validAck k ack"
    and run: "withSnapshot f st True (RecordAccepted_fn (st_storeID st) k ack retain) w = (Inr i, w')"
    by (auto simp: local_journal_def Store_RecordAccepted_def raise_def split: sum.splits if_splits)
  from withSnapshot_result [OF run] accept_valid_key v show "v2KeyPattern (i_ID i)" by blast
qed

definition local_usable :: "Store \<Rightarrow> world \<Rightarrow> bool" where
  "local_usable st w \<longleftrightarrow> (\<exists>s. snapshot_in st w s)"

definition local_fresh :: "Store \<Rightarrow> bytes option \<Rightarrow> go_time \<Rightarrow> world \<Rightarrow> bool" where
  "local_fresh st rand now w \<longleftrightarrow> clock_ok now \<and> (\<forall>s. snapshot_in st w s \<longrightarrow> fresh_source rand s)"

definition local_held :: "Store \<Rightarrow> world \<Rightarrow> Target \<Rightarrow> bool" where
  "local_held st w t \<longleftrightarrow> (\<forall>s. snapshot_in st w s \<longrightarrow> occupied s t)"

lemma local_heldI: "snapshot_in st w s \<Longrightarrow> occupied s t \<Longrightarrow> local_usable st w \<and> local_held st w t"
  by (auto simp: local_usable_def local_held_def dest: snapshot_in_unique)

lemma writes_keep_held:
  assumes "local_usable st w" "local_held st w t" "withSnapshot f st True fn w = (r, w')"
    and "\<And>s s' x. snapshot_in st w s \<Longrightarrow> fn s = Inr (s', x) \<Longrightarrow> effect (st_storeID st) s s' \<and> occupied s' t"
  shows "local_usable st w' \<and> local_held st w' t"
proof -
  from assms(1,2) obtain s where s: "snapshot_in st w s" "occupied s t" by (auto simp: local_usable_def local_held_def)
  then have "\<forall>s' x. fn s = Inr (s', x) \<longrightarrow> effect (st_storeID st) s s'" using assms(4) by blast
  from s(1) assms(3) this show ?thesis
  proof (cases rule: withSnapshot_writes)
    case 1
    with s(2) show ?thesis by (intro local_heldI)
  next
    case (2 s' x)
    with assms(4) [OF s(1)] show ?thesis by (intro local_heldI) auto
  qed
qed

lemma Store_Read_held:
  assumes "local_usable st w" "Store_Read f st t w = (r, w')"
  shows "local_usable st w'" "snapshot_in st w' s = snapshot_in st w s"
    "r = Inr h \<Longrightarrow> \<exists>s. snapshot_in st w s \<and> h = history s t"
proof -
  obtain s0 where s0: "snapshot_in st w s0" using assms(1) by (auto simp: local_usable_def)
  have run: "r \<noteq> Inr h \<and> w' = w \<or> withSnapshot f st False (Read_fn t) w = (r, w')" for h
    using assms(2) by (auto simp: Store_Read_def raise_def split: sum.splits)
  have "state_data w' = state_data w" using run [of "[]"] state_quiet [OF quiet_reading] by metis
  then show s: "snapshot_in st w' s = snapshot_in st w s" for s by (simp add: snapshot_in_def)
  then show "local_usable st w'" using s0 by (auto simp: local_usable_def)
  show "\<exists>s. snapshot_in st w s \<and> h = history s t" if "r = Inr h"
  proof -
    from run [of h] that have "withSnapshot f st False (Read_fn t) w = (r, w')" by auto
    from withSnapshot_reads(2) [OF s0 this that] s0 show ?thesis by (auto simp: Read_fn_def history_def)
  qed
qed

lemma Store_Begin_held:
  assumes "local_usable st w" "local_fresh st rand now w" "r_Action req = ActionCreate" "Store_Begin f st rand now req w = (Inr a, w')"
  shows "local_usable st w' \<and> local_held st w' (r_Target req)"
proof -
  from assms(4) obtain fn where run: "withSnapshot f st True fn w = (Inr a, w')"
    and fn: "\<And>s. fn s = Begin (st_storeID st) rand now req s" by (auto elim!: Store_Begin_run)
  from assms(1,2) obtain s where s: "snapshot_in st w s" and fr: "fresh_source rand s" "clock_ok now"
    by (auto simp: local_usable_def local_fresh_def)
  have "\<forall>s' x. fn s = Inr (s', x) \<longrightarrow> effect (st_storeID st) s s'"
    using Begin_effect fr by (auto simp: fn)
  from withSnapshot_writes [OF s run this] obtain s' where "Begin (st_storeID st) rand now req s = Inr (s', a)" "snapshot_in st w' s'"
    by (auto simp: fn)
  with begin_occupies assms(3) local_heldI show ?thesis by blast
qed

lemma Store_Accept_held:
  assumes "local_usable st w" "local_held st w t" "Store_RecordAccepted f st i ack w = (r, w')"
  shows "local_usable st w' \<and> local_held st w' t"
  using assms(3)
proof (cases rule: Store_Accept_run)
  case (2 fn)
  from assms(2) have o: "snapshot_in st w s \<Longrightarrow> occupied s t" for s by (simp add: local_held_def)
  show ?thesis
    by (rule writes_keep_held [OF assms(1,2) 2(1)])
       (auto simp: 2(2) intro: RecordAccepted_effect accept_occupied(1) [OF _ snapshot_in_ok o])
qed (use assms in simp)

lemma Store_Accept_action:
  assumes "local_usable st w" "Store_RecordAccepted f st i ack w = (Inr a, w')"
  shows "i_Action a = a_Action ack"
proof -
  from assms(2) obtain fn where run: "withSnapshot f st True fn w = (Inr a, w')"
    and fn: "\<And>s. fn s = RecordAccepted (st_storeID st) i ack s" by (auto elim!: Store_Accept_run)
  from assms(1) obtain s where s: "snapshot_in st w s" by (auto simp: local_usable_def)
  have "\<forall>s' x. fn s = Inr (s', x) \<longrightarrow> effect (st_storeID st) s s'" using RecordAccepted_effect by (auto simp: fn)
  from withSnapshot_writes [OF s run this] obtain s' where "RecordAccepted (st_storeID st) i ack s = Inr (s', a)"
    by (auto simp: fn)
  from accept_occupied(2) [OF this snapshot_in_ok [OF s]] show ?thesis .
qed

lemma Store_Complete_held:
  assumes "local_usable st w" "local_held st w t" "a_Action (e_Operation ev) \<noteq> ActionDelete" "Store_Complete f st i ev w = (r, w')"
  shows "local_usable st w' \<and> local_held st w' t"
  using assms(4)
proof (cases rule: Store_Complete_run)
  case (2 fn)
  from assms(2) have o: "snapshot_in st w s \<Longrightarrow> occupied s t" for s by (simp add: local_held_def)
  show ?thesis
    by (rule writes_keep_held [OF assms(1,2) 2(1)])
       (auto simp: 2(2) intro: Complete_effect complete_occupied [OF _ snapshot_in_ok assms(3) o])
qed (use assms in simp)

interpretation local_custody: claim_custody "local_journal f st rand now" "local_usable st" "local_fresh st rand now" "local_held st"
  for f st rand now
proof
  let ?jn = "local_journal f st rand now"
  fix w w' :: world and t u and req :: BeginRequest and ack and ev :: CompletionEvidence
  show "local_usable st w' \<and> (local_fresh st rand now w \<longrightarrow> local_fresh st rand now w') \<and> (local_held st w u \<longrightarrow> local_held st w' u)"
    if "local_usable st w" "jn_Read ?jn t w = (y, w')" for y
  proof -
    from that(2) have "Store_Read f st t w = (y, w')" by (simp add: local_journal_def)
    from Store_Read_held(1,2) [OF that(1) this] show ?thesis by (auto simp: local_fresh_def local_held_def)
  qed
  show "h \<noteq> [] \<and> i_Status (last h) \<noteq> StatusDeleteConfirmed"
    if "local_usable st w" "local_held st w t" "jn_Read ?jn t w = (Inr h, w')" for h
  proof -
    from that(3) have "Store_Read f st t w = (Inr h, w')" by (simp add: local_journal_def)
    from Store_Read_held(3) [OF that(1) this refl] that(2) show ?thesis by (auto simp: local_held_def occupied_def)
  qed
  show "local_usable st w' \<and> local_held st w' (r_Target req)"
    if "local_usable st w" "local_fresh st rand now w" "r_Action req = ActionCreate" "jn_Begin ?jn req w = (Inr a, w')" for a
    by (rule Store_Begin_held [OF that(1-3)]) (use that(4) in \<open>simp add: local_journal_def\<close>)
  show "local_usable st w' \<and> local_held st w' t"
    if "local_usable st w" "local_held st w t" "jn_RecordAccepted ?jn i ack w = (x, w')" for i x
    by (rule Store_Accept_held [OF that(1,2)]) (use that(3) in \<open>simp add: local_journal_def\<close>)
  show "i_Action a = a_Action ack" if "local_usable st w" "jn_RecordAccepted ?jn i ack w = (Inr a, w')" for i a
    by (rule Store_Accept_action [OF that(1)]) (use that(2) in \<open>simp add: local_journal_def\<close>)
  show "local_usable st w' \<and> local_held st w' t"
    if "local_usable st w" "local_held st w t" "a_Action (e_Operation ev) \<noteq> ActionDelete" "jn_Complete ?jn i ev w = (x, w')" for i x
    by (rule Store_Complete_held [OF that(1-3)]) (use that(4) in \<open>simp add: local_journal_def\<close>)
qed


subsection \<open>The remote snapshot\<close>

text \<open>
  The remote store's operations are the same transactions over the remote snapshot. What it
  holds is known to the client only by its answers, so only the contract on claims is provided.
\<close>

definition remote_journal :: "'s remote_env \<Rightarrow> string \<Rightarrow> bytes option \<Rightarrow> go_time \<Rightarrow> 's rworld journal" where
  "remote_journal env sid rand now =
     \<lparr>jn_Read = (\<lambda>t. case validateTarget t of Inl e \<Rightarrow> raise e | Inr _ \<Rightarrow> remote_withSnapshot env sid False (Read_fn t)),
      jn_ReadImportBinding = (\<lambda>t. case validateTarget t of Inl e \<Rightarrow> raise e
        | Inr _ \<Rightarrow> remote_withSnapshot env sid False (ReadImport_fn sid t)),
      jn_BindImportedResource = (\<lambda>req. case validImport req of Inl e \<Rightarrow> raise e
        | Inr imp \<Rightarrow> remote_withSnapshot env sid True (BindImported_fn sid (ie_HostAPI (ir_Evidence req)) imp)),
      jn_Begin = remote_Begin env sid rand now,
      jn_RecordAccepted = (\<lambda>i ack. if \<not> validAck i ack then raise ErrStoreUnavailable
        else case parseRetainUntil (a_RetainUntil ack) of Inl _ \<Rightarrow> raise ErrStoreUnavailable
        | Inr retain \<Rightarrow> remote_withSnapshot env sid True (RecordAccepted_fn sid i ack retain)),
      jn_Complete = (\<lambda>i ev. if \<not> validAck i (e_Operation ev) then raise ErrStoreUnavailable
        else case parseRetainUntil (a_RetainUntil (e_Operation ev)) of Inl _ \<Rightarrow> raise ErrStoreUnavailable
        | Inr retain \<Rightarrow> remote_withSnapshot env sid True (Complete_fn sid i ev retain))\<rparr>"

lemma remote_result:
  assumes "remote_withSnapshot env sid write fn w = (Inr x, w')"
  shows "\<exists>b s s'. decodeSnapshot b sid = Inr s \<and> fn s = Inr (s', x)"
proof -
  have l: "lift_result r v = (Inr y, v') \<Longrightarrow> r = Inr y" for r :: "store_error + 'y" and v :: "'s rworld" and y v'
    by (cases r) (auto simp: lift_result_def raise_def ret_def)
  from assms obtain found w1 where f: "remote_read env w = (Inr found, w1)" and rest: "(case found of None \<Rightarrow> raise ErrStoreUnavailable
      | Some (data, version) \<Rightarrow> (\<lambda>w. (case bound_snapshot data sid (rb_binding (rw_backend w)) of Inl e \<Rightarrow> (Inl e, w)
         | Inr s \<Rightarrow> andThen (lift_result (fn s)) (\<lambda>(s', x). if \<not> write then ret x
             else andThen (lift_result (encodeSnapshot s')) (\<lambda>encoded. andThen (commit env version encoded) (\<lambda>_. ret x))) w))) w1 = (Inr x, w')"
    by (auto simp: remote_withSnapshot_def andThen_Inr)
  then obtain data version where "found = Some (data, version)" by (cases found) (auto simp: raise_def)
  with rest obtain s where b: "bound_snapshot data sid (rb_binding (rw_backend w1)) = Inr s"
    and r: "andThen (lift_result (fn s)) (\<lambda>(s', x). if \<not> write then ret x
             else andThen (lift_result (encodeSnapshot s')) (\<lambda>encoded. andThen (commit env version encoded) (\<lambda>_. ret x))) w1 = (Inr x, w')"
    by (auto split: sum.splits)
  from b have "decodeSnapshot data sid = Inr s" by (auto simp: bound_snapshot_def split: sum.splits if_splits)
  moreover from r have "\<exists>s'. fn s = Inr (s', x)"
    by (auto simp: andThen_Inr ret_def dest!: l split: if_splits)
  ultimately show ?thesis by blast
qed

interpretation remote_claims: keyed_journal "remote_journal env sid rand now" for env sid rand now
proof
  fix req w i w'
  assume "jn_Begin (remote_journal env sid rand now) req w = (Inr i, w')"
  then obtain r' where r': "validateBegin req = Inr r'" and run: "remote_withSnapshot env sid True (Begin_fn sid rand now r') w = (Inr i, w')"
    by (auto simp: remote_journal_def remote_Begin_def raise_def split: sum.splits)
  from remote_store.run_installs [OF TrueI run] obtain s s' where "Begin_fn sid rand now r' s = Inr (s', i)"
    by (auto simp: committed_def)
  then have "Begin sid rand now req s = Inr (s', i)" by (simp add: Begin_def r')
  then show "intent_request i = req\<lparr>r_PrivateInputNames := sort (r_PrivateInputNames req),
    r_AdvertisedReplayWindowSecs := i_AdvertisedReplayWindowSecs i\<rparr>" by (rule begin_request)
next
  fix t w h w' i
  assume "jn_Read (remote_journal env sid rand now) t w = (Inr h, w')" and i: "i \<in> set h"
  then have "remote_withSnapshot env sid False (Read_fn t) w = (Inr h, w')"
    by (auto simp: remote_journal_def raise_def split: sum.splits)
  from remote_result [OF this] read_valid_keys i show "v2KeyPattern (i_ID i)" by blast
next
  fix k ack w i w'
  assume "jn_RecordAccepted (remote_journal env sid rand now) k ack w = (Inr i, w')"
  then obtain retain where v: "validAck k ack"
    and run: "remote_withSnapshot env sid True (RecordAccepted_fn sid k ack retain) w = (Inr i, w')"
    by (auto simp: remote_journal_def raise_def split: sum.splits if_splits)
  from remote_result [OF run] accept_valid_key v show "v2KeyPattern (i_ID i)" by blast
qed

end
