(* ===== verification/LifecycleSamples.thy ===== *)
theory LifecycleSamples
  imports JournalBackends DiskProps HostProps
begin

text \<open>
  One concrete Create that the witnesses share: a local store bound to the Host, a Host that
  answers discovery and support and is then lost, and a ModuleWorker to be created. The claim is
  made, the request is sent, and no answer comes.
\<close>

definition life_binding :: StoreBinding where
  "life_binding = \<lparr>b_HostAPI = ''https://h.example/api''\<rparr>"

definition life_snap :: "Intent list \<Rightarrow> diskSnapshot" where
  "life_snap recs = (initial_snapshot sample_store (Some life_binding))\<lparr>s_Records := recs\<rparr>"

definition life_dir :: "nat \<Rightarrow> diskSnapshot \<Rightarrow> world" where
  "life_dir calls s = DiskProps.sample_world\<lparr>w_calls := calls, w_entries := [(''lock'', sample_file 3 []), (''store.json'', sample_file 4 sample_header),
     (''state.json'', sample_file 5 (sample_bytes s))]\<rparr>"

definition life_support :: json where
  "life_support = JObj [(''form'', JStr ModuleWorkerURL), (''supported'', JBool True),
     (''operations'', JArr [JStr ''create'', JStr ''read'', JStr ''update'', JStr ''delete'']), (''privateInputs'', JBool False)]"

definition life_net :: "nat network" where
  "life_net n rq = (if n = 0 then Some \<lparr>ry_status = 200, ry_header = [], ry_body = Some (json_text sample_document)\<rparr>
     else if n = 1 then Some \<lparr>ry_status = 200, ry_header = [], ry_body = Some (json_text life_support)\<rparr>
     else None, n + 1)"

definition life_journal :: "world journal" where
  "life_journal = local_journal no_faults sample_dir (sample_rand (CHR ''k'')) sample_now"

definition life_env :: "(nat \<times> nat, world) penv" where
  "life_env = deadline_env life_net None life_journal"

definition life_data :: v2ProviderData where
  "life_data = \<lparr>vd_store = True, vd_hostAPIRoot = ''https://h.example/api'', vd_storeID = sample_store, vd_space = ''prod''\<rparr>"

definition life_resource :: v2Resource where
  "life_resource = \<lparr>rs_def = \<lparr>fd_typeName = ''takoform_module_worker'', fd_form = ModuleWorkerURL, fd_spec = None\<rparr>,
     rs_data = Some life_data\<rparr>"

definition life_plan :: tf_state where
  "life_plan = null_state\<lparr>ts_name := TVal ''web'', ts_uid := TUnknown, ts_generation := TUnknown\<rparr>"

definition life_world :: "(nat \<times> nat, world) pworld" where
  "life_world = \<lparr>hw_client = New ''https://h.example'' ''secret'', hw_net = (0, 30), hw_log = [],
     pw_store = life_dir 0 (life_snap []), pw_state = None, pw_warnings = []\<rparr>"

lemma life_resource_known: "rs_def life_resource \<in> set v2Forms"
  by (simp add: life_resource_def v2Forms_def)

definition life_target :: Target where
  "life_target = target_of life_data ''prod'' ''web''"

definition life_public :: CreateRequest where
  "life_public = create_request life_resource ''prod'' ''web'' None []"

definition life_body :: bytes where
  "life_body = json_text (JObj [(''form'', JStr ModuleWorkerURL), (''space'', JStr ''prod''), (''name'', JStr ''web''), (''spec'', JObj [])])"

definition life_claim :: BeginRequest where
  "life_claim = create_claim life_resource life_target life_body [] sample_discovery"

definition life_intent :: Intent where
  "life_intent = new_intent (sample_key (CHR ''k'')) sample_now life_claim"

lemma life_encoded: "marshal (enc_create life_public) = Inr life_body"
proof -
  have "to_json (enc_create life_public) = Some (JObj [(''form'', JStr ModuleWorkerURL), (''space'', JStr ''prod''), (''name'', JStr ''web''), (''spec'', JObj [])])"
    by code_simp
  moreover have "valid_utf8_value (enc_create life_public) 0" by code_simp
  moreover have "validate life_body = Inr ()" unfolding life_body_def by (rule validate_json_text) code_simp+
  ultimately show ?thesis by (simp add: marshal_def validate_value_def life_body_def)
qed

lemma life_begin: "Begin sample_store (sample_rand (CHR ''k'')) sample_now life_claim (life_snap []) = Inr (life_snap [life_intent], life_intent)"
  by code_simp

lemma life_decodes: "decodeSnapshot (sample_bytes (life_snap [])) sample_store = Inr (life_snap [])"
  "length (sample_bytes (life_snap [])) \<le> maxSnapshotBytes"
  by code_simp+

lemma life_encodes: "encodeSnapshot (life_snap [life_intent]) = Inr (sample_bytes (life_snap [life_intent]))"
  "length (sample_bytes (life_snap [life_intent])) \<le> maxSnapshotBytes"
proof -
  show l: "length (sample_bytes (life_snap [life_intent])) \<le> maxSnapshotBytes" by code_simp
  have v: "valid_utf8_value (enc_snapshot (life_snap [life_intent])) 0" by code_simp
  have "sample_bytes (life_snap [life_intent]) \<noteq> []" by code_simp
  then obtain j where j: "to_json (enc_snapshot (life_snap [life_intent])) = Some j"
    by (auto simp: sample_bytes_def split: option.splits)
  from marshal_ok [OF v enc_snapshot_wf(1) j] l
  show "encodeSnapshot (life_snap [life_intent]) = Inr (sample_bytes (life_snap [life_intent]))"
    by (simp add: encodeSnapshot_def sample_bytes_def j)
qed

lemma life_target_ok: "validateTarget life_target = Inr ()" "validateBegin life_claim = Inr life_claim"
  by code_simp+

lemma life_begin_fn: "Begin_fn sample_store (sample_rand (CHR ''k'')) sample_now life_claim (life_snap []) =
    Inr (life_snap [life_intent], life_intent)"
  using life_begin by (simp add: Begin_def life_target_ok(2))

lemmas store_simps = withSnapshot_def withLock_def snapshot_action_def verifyPathAndHeader_def replaceFile_def run_simps
  sample_path_ok sample_header_decodes sample_dir_def no_faults_def life_dir_def DiskProps.sample_world_def sample_file_def

lemma life_reads: "\<exists>m. Store_Read no_faults sample_dir life_target (life_dir n (life_snap [])) = (Inr [], life_dir m (life_snap []))"
proof -
  have "filter (\<lambda>rec. sameTarget (i_Target rec) life_target) (s_Records (life_snap [])) = []"
    by (simp add: life_snap_def)
  with life_decodes(2) show ?thesis
    by (simp add: Store_Read_def life_target_ok(1) store_simps life_decodes(1) Read_fn_def not_less cong: andThen_first)
qed

lemma life_begins: "\<exists>w'. Store_Begin no_faults sample_dir (sample_rand (CHR ''k'')) sample_now life_claim (life_dir n (life_snap []))
    = (Inr life_intent, w')"
  using life_decodes(2) life_encodes(2)
  by (simp add: Store_Begin_def life_target_ok(2) store_simps life_decodes(1) life_begin_fn life_encodes(1) not_less cong: andThen_first)

subsection \<open>The Host\<close>

lemma life_support_decodes: "decode_support ModuleWorkerURL (json_text life_support) = Inr
    \<lparr>su_Form = ModuleWorkerURL, su_Supported = True, su_Operations = Some [''create'', ''read'', ''update'', ''delete''], su_PrivateInputs = False\<rparr>"
proof -
  have d: "decode (json_text life_support) = Inr life_support"
  proof (rule decode_json_text)
    show "json_wf life_support" by code_simp
    show "json_depth life_support \<le> 10000" by code_simp
  qed
  have "required_tree support_fields zero_support [] [''form'', ''supported'', ''operations'', ''privateInputs''] life_support =
      Some \<lparr>su_Form = ModuleWorkerURL, su_Supported = True, su_Operations = Some [''create'', ''read'', ''update'', ''delete''], su_PrivateInputs = False\<rparr>"
    by code_simp
  then show ?thesis
    by (simp add: decode_support_def decodeRequired_def decodeRequiredNullable_def d validateSupport_def)
qed

lemma life_replies:
  "read_reply maxResponseBytes (Some \<lparr>ry_status = 200, ry_header = [], ry_body = Some (json_text sample_document)\<rparr>)
      = Inr \<lparr>hr_status = 200, hr_header = [], hr_body = json_text sample_document\<rparr>"
  "read_reply maxResponseBytes (Some \<lparr>ry_status = 200, ry_header = [], ry_body = Some (json_text life_support)\<rparr>)
      = Inr \<lparr>hr_status = 200, hr_header = [], hr_body = json_text life_support\<rparr>"
proof -
  have "\<not> maxResponseBytes < length (json_text sample_document)" "\<not> maxResponseBytes < length (json_text life_support)" by code_simp+
  then show
    "read_reply maxResponseBytes (Some \<lparr>ry_status = 200, ry_header = [], ry_body = Some (json_text sample_document)\<rparr>)
      = Inr \<lparr>hr_status = 200, hr_header = [], hr_body = json_text sample_document\<rparr>"
    "read_reply maxResponseBytes (Some \<lparr>ry_status = 200, ry_header = [], ry_body = Some (json_text life_support)\<rparr>)
      = Inr \<lparr>hr_status = 200, hr_header = [], hr_body = json_text life_support\<rparr>"
    by (simp_all add: read_reply_def maxResponseBytes_def)
qed

lemma life_discovers:
  assumes "hw_client w = New ''https://h.example'' ''secret''" "hw_net w = (0, rest)"
  shows "\<exists>e. Discover (pe_net life_env) w = (Inr sample_discovery, w\<lparr>hw_client := sample_client, hw_net := (1, rest), hw_log := hw_log w @ [e]\<rparr>)"
proof -
  have o1: "endpointOrigin ''https://h.example'' = Some ''https://h.example''"
    and u: "url_parse (''https://h.example'' @ DiscoveryPath) \<noteq> None" by code_simp+
  show ?thesis
    using o1 u life_replies(1) sample_document_decodes assms
    by (cases w) (auto simp: Discover_def set_discovery_def andThen_def New_def do_request_def doWithHeaders_eq host_request_def life_env_def deadline_env_def
        life_net_def Let_def lift_result_def ret_def sample_client_def sample_discovery_def)
qed

lemma life_supports:
  assumes "hw_client w = sample_client" "hw_net w = (1, rest)"
  shows "\<exists>e sup. GetSupport (pe_net life_env) ModuleWorkerURL w = (Inr sup, w\<lparr>hw_net := (2, rest), hw_log := hw_log w @ [e]\<rparr>) \<and>
    crud_support sup"
proof -
  have f: "validateFormURL ModuleWorkerURL" by code_simp
  have b: "apiBase sample_client = Inr (''https://h.example/api'', sample_discovery)" by code_simp
  obtain t where t: "query_target ''https://h.example/api'' ''/support'' (values_set ''form'' ModuleWorkerURL []) = Inr t"
    "url_parse t \<noteq> None"
  proof -
    have "case query_target ''https://h.example/api'' ''/support'' (values_set ''form'' ModuleWorkerURL []) of
      Inl _ \<Rightarrow> False | Inr t \<Rightarrow> url_parse t \<noteq> None" by code_simp
    then show thesis using that by (auto split: sum.splits)
  qed
  show ?thesis
    using f b t life_replies(2) life_support_decodes assms
    by (cases w) (auto simp: GetSupport_def api_base_def get_body_def andThen_def do_request_def doWithHeaders_eq host_request_def life_env_def deadline_env_def
        life_net_def Let_def lift_result_def ret_def crud_support_def v2HasCRUD_def)
qed

subsection \<open>The call\<close>

lemma andThen_step: "m w = (Inr x, w1) \<Longrightarrow> andThen m f w = f x w1"
  by (simp add: andThen_def)

lemma refuse_step: "m w = (Inr x, w1) \<Longrightarrow> refuse msg m w = (Inr x, w1)"
  by (simp add: refuse_def)

lemma life_parts:
  "planNameSpace life_data life_plan = Inr (''web'', ''prod'')" "v2SpecFromPlan (rs_def life_resource) (ts_spec life_plan) = Inr []"
  "offering_of life_plan sample_discovery = Inr None"
  "privateInputs life_env (rs_form life_resource) ''prod'' ''web'' [] sample_discovery support = Inr (None, [])"
proof -
  have "v2IDPattern ''web''" "v2IDPattern ''prod''" "ModuleWorkerURL \<noteq> WorkerVersionURL" by code_simp+
  then show "planNameSpace life_data life_plan = Inr (''web'', ''prod'')" "v2SpecFromPlan (rs_def life_resource) (ts_spec life_plan) = Inr []"
    "offering_of life_plan sample_discovery = Inr None"
    "privateInputs life_env (rs_form life_resource) ''prod'' ''web'' [] sample_discovery support = Inr (None, [])"
    by (simp_all add: planNameSpace_def life_data_def life_plan_def null_state_def tf_string_def v2SpecFromPlan_def life_resource_def
        offering_of_def configuredOffering_def sample_discovery_def zero_discovery_def privateInputs_def)
qed

lemma life_data [simp]: "rs_data life_resource = Some life_data"
  by (simp add: life_resource_def)

lemma life_create_prefix:
  "\<exists>w. Resource_Create life_env fuel life_resource life_plan life_world =
     send_claimed life_env fuel life_resource life_data (''Unknown v2 Create outcome'', ''Accepted v2 Create could not be journaled'')
       ''prod'' ''web'' life_plan (\<lambda>key. CreateResource (pe_net life_env) key (life_public\<lparr>cq_PrivateInputs := None\<rparr>)) life_intent w \<and>
     Did (Began life_intent) \<in> set (hw_log w)"
proof -
  have st: "pe_store life_env = life_journal" by (simp add: life_env_def deadline_env_def)
  obtain m where rd: "Store_Read no_faults sample_dir life_target (life_dir 0 (life_snap [])) = (Inr [], life_dir m (life_snap []))"
    using life_reads by blast
  obtain w1 where h: "read_history life_env life_target life_world = (Inr [], w1)"
    and w1: "hw_client w1 = New ''https://h.example'' ''secret''" "hw_net w1 = (0, 30)" "pw_store w1 = life_dir m (life_snap [])"
    by (simp add: read_history_def refuse_def on_store_def st life_journal_def local_journal_def rd life_world_def)
  obtain w2 where d: "Discover (pe_net life_env) w1 = (Inr sample_discovery, w2)"
    and w2: "hw_client w2 = sample_client" "hw_net w2 = (1, 30)" "pw_store w2 = life_dir m (life_snap [])"
    using life_discovers [OF w1(1,2)] w1(3) by (auto simp del: One_nat_def)
  have dis: "discover life_env life_data w1 = (Inr sample_discovery, w2)"
    by (simp add: discover_def andThen_def refuse_def d life_data_def sample_discovery_def zero_discovery_def ret_def)
  obtain w3 sup where s: "GetSupport (pe_net life_env) (rs_form life_resource) w2 = (Inr sup, w3)"
    and w3: "pw_store w3 = life_dir m (life_snap [])" and crud: "crud_support sup"
    using life_supports [OF w2(1,2)] w2(3) by (auto simp: life_resource_def simp del: One_nat_def)
  have sup: "refuse msg (GetSupport (pe_net life_env) (rs_form life_resource)) w2 = (Inr sup, w3)" for msg
    by (simp add: refuse_def s)
  obtain wd where b: "Store_Begin no_faults sample_dir (sample_rand (CHR ''k'')) sample_now life_claim (life_dir m (life_snap []))
    = (Inr life_intent, wd)" using life_begins by blast
  obtain w4 where bg: "\<And>msg. journal_begin life_env msg life_claim w3 = (Inr life_intent, w4)"
    and w4: "Did (Began life_intent) \<in> set (hw_log w4)"
    by (simp add: journal_begin_def refuse_def on_store_def st life_journal_def local_journal_def b w3)
  have "Resource_Create life_env fuel life_resource life_plan life_world =
     fresh_create life_env fuel life_resource life_data life_plan ''prod'' ''web'' [] w1"
    using h by (simp add: Resource_Create_def life_data life_parts life_target_def andThen_def [of "read_history _ _"])
  also have "\<dots> = send_claimed life_env fuel life_resource life_data (''Unknown v2 Create outcome'', ''Accepted v2 Create could not be journaled'')
       ''prod'' ''web'' life_plan (\<lambda>key. CreateResource (pe_net life_env) key (life_public\<lparr>cq_PrivateInputs := None\<rparr>)) life_intent w4"
    unfolding fresh_create_def Let_def
    by (simp add: andThen_def [of "discover life_env life_data"] andThen_def [of "refuse _ _"] andThen_def [of "journal_begin _ _ _"]
        dis sup bg [unfolded life_claim_def life_target_def] crud life_parts life_encoded [unfolded life_public_def] life_public_def)
  finally show ?thesis using w4 by auto
qed

end
