(* ===== verification/LifecycleProps.thy ===== *)
theory LifecycleProps
  imports LifecycleSamples
begin

text \<open>The properties of the resource lifecycle over the local intent store.\<close>

lemma emits_run:
  assumes "emits hw_log m w Q" "m w = (x, w')"
  shows "\<exists>es. hw_log w' = hw_log w @ es \<and> Q es x w'"
  using assms by (auto simp: emits_def)

subsection \<open>Claims and mutations\<close>

lemma local_one_claim:
  assumes "rs_data r = Some d" "pe_store env = local_journal f st rand now"
  shows "emits hw_log (lifecycle env fuel r c) w
    (\<lambda>es x w'. one_claim (vd_hostAPIRoot d) es \<and> (\<forall>old. c = ReadCall old \<longrightarrow> list_all calm es))"
proof (cases c)
  case (ReadCall old)
  then show ?thesis by (auto intro: emits_weaken [OF calms_Read])
qed (auto simp: Resource_Update_def Resource_Delete_def
    intro!: emits_weaken [OF local_claims.create_claims_once [OF assms(2,1)]]
      emits_weaken [OF local_claims.mutation_claims_once [OF assms(2,1)]])

text \<open>
  C1: Every create, update and delete request is a journaled intent. Whatever the Host answers
  and whatever system calls of the local store fail, a lifecycle call makes at most one claim and
  sends at most one request with an idempotency key; it sends it immediately after the journal
  returned the intent as claimed, with the intent's key, method and path below the configured
  API root, its generation as fence and, without private inputs, its public JSON as body. Every
  other request is a GET, or the PUT that hands private inputs to an accepted operation. A
  refresh makes no claim and sends no such request.
\<close>

theorem mutation_is_claimed:
  assumes "rs_data r = Some d" "pe_store env = local_journal f st rand now"
  shows "\<exists>es. hw_log (snd (lifecycle env fuel r c w)) = hw_log w @ es \<and> one_claim (vd_hostAPIRoot d) es \<and>
    (\<forall>old. c = ReadCall old \<longrightarrow> list_all calm es)"
  using emits_run [OF local_one_claim [OF assms]] by (metis prod.collapse)

theorem mutation_is_claimed_witness:
  "\<exists>es. hw_log (snd (lifecycle life_env 30 life_resource (CreateCall life_plan) life_world)) = hw_log life_world @ es \<and>
     one_claim ''https://h.example/api'' es"
proof -
  have "pe_store life_env = local_journal no_faults sample_dir (sample_rand (CHR ''k'')) sample_now"
    by (simp add: life_env_def deadline_env_def life_journal_def)
  from mutation_is_claimed [OF life_data this, of 30 "CreateCall life_plan" life_world] show ?thesis
    by (auto simp: life_data_def)
qed

subsection \<open>A name is created once\<close>

text \<open>
  C2: A Create is never repeated. Suppose a Create over a local store, with randomness that does
  not collide with recorded keys, claimed an intent for a Space and name, however the call ended:
  with an answer, without one, or with a store failure. Then every later Create of that Space and
  name over what the store holds, in another process, with another plan, for another Form and
  against another Host state, makes no claim and sends no mutation, and the name is still held
  afterwards.
\<close>

theorem create_never_repeated:
  assumes "rs_data r = Some d" "rs_data r2 = Some d"
    and "planNameSpace d plan = Inr (name, space)" "planNameSpace d plan2 = Inr (name, space)"
    and "pe_store env = local_journal f st rand now" "pe_store env2 = local_journal f2 st rand2 now2"
    and "local_usable st (pw_store w)" "local_fresh st rand now (pw_store w)"
    and first: "Resource_Create env fuel r plan w = (x, w')" "hw_log w' = hw_log w @ es" "Did (Began i) \<in> set es"
    and again: "pw_store w2 = pw_store w'" "Resource_Create env2 fuel2 r2 plan2 w2 = (x2, w2')"
  shows "\<exists>es2. hw_log w2' = hw_log w2 @ es2 \<and> list_all calm es2 \<and> local_held st (pw_store w2') (target_of d space name)"
proof -
  from emits_run [OF local_custody.create_then_held [OF assms(5,1,3,7,8)] first(1)] first(2,3)
  have "local_usable st (pw_store w') \<and> local_held st (pw_store w') (target_of d space name)"
    by (auto simp: claims_def local_custody.custody_def)
  then have "local_custody.custody st (target_of d space name) (pw_store w2) (pw_state w2)"
    by (simp add: local_custody.custody_def again(1))
  from emits_run [OF local_custody.held_create [OF assms(6,2,4) this] again(2)] show ?thesis
    by (auto simp: local_custody.custody_def)
qed

lemma life_store: "pe_store life_env = local_journal no_faults sample_dir (sample_rand (CHR ''k'')) sample_now"
  by (simp add: life_env_def deadline_env_def life_journal_def)

lemma life_snapshot: "snapshot_in sample_dir (pw_store life_world) s \<longleftrightarrow> s = life_snap []"
  using life_decodes(1)
  by (auto simp: snapshot_in_def state_data_def life_world_def life_dir_def sample_dir_def sample_file_def)

lemma life_usable: "local_usable sample_dir (pw_store life_world)"
  "local_fresh sample_dir (sample_rand (CHR ''k'')) sample_now (pw_store life_world)"
proof -
  have "fresh_source (sample_rand (CHR ''k'')) (life_snap [])" "clock_ok sample_now" by code_simp+
  then show "local_usable sample_dir (pw_store life_world)"
    "local_fresh sample_dir (sample_rand (CHR ''k'')) sample_now (pw_store life_world)"
    by (simp_all add: local_usable_def local_fresh_def life_snapshot)
qed

lemma life_run:
  obtains x w' es where "Resource_Create life_env 30 life_resource life_plan life_world = (x, w')"
    "hw_log w' = hw_log life_world @ es" "Did (Began life_intent) \<in> set es"
proof -
  obtain x w' where run: "Resource_Create life_env 30 life_resource life_plan life_world = (x, w')" by fastforce
  obtain w where send: "(x, w') = send_claimed life_env 30 life_resource life_data
      (''Unknown v2 Create outcome'', ''Accepted v2 Create could not be journaled'')
       ''prod'' ''web'' life_plan (\<lambda>key. CreateResource (pe_net life_env) key (life_public\<lparr>cq_PrivateInputs := None\<rparr>)) life_intent w"
    and b: "Did (Began life_intent) \<in> set (hw_log w)"
    using life_create_prefix [of 30] run by auto
  have "\<exists>es. hw_log w' = hw_log w @ es"
    using emits_run [OF send_claimed_grows send [symmetric]] by blast
  moreover have "hw_log life_world = []" by (simp add: life_world_def)
  ultimately show thesis using that [OF run] b by auto
qed

theorem create_never_repeated_witness:
  "\<exists>w' x2 w2' es2. w' = snd (Resource_Create life_env 30 life_resource life_plan life_world) \<and>
     Resource_Create life_env 30 life_resource life_plan (life_world\<lparr>pw_store := pw_store w'\<rparr>) = (x2, w2') \<and>
     hw_log w2' = hw_log life_world @ es2 \<and> list_all calm es2 \<and> local_held sample_dir (pw_store w2') life_target"
proof -
  obtain x w' es where run: "Resource_Create life_env 30 life_resource life_plan life_world = (x, w')"
    "hw_log w' = hw_log life_world @ es" "Did (Began life_intent) \<in> set es" by (rule life_run)
  let ?w2 = "life_world\<lparr>pw_store := pw_store w'\<rparr>"
  obtain x2 w2' where run2: "Resource_Create life_env 30 life_resource life_plan ?w2 = (x2, w2')" by fastforce
  have "pw_store ?w2 = pw_store w'" by simp
  from create_never_repeated [OF life_data life_data life_parts(1) life_parts(1) life_store life_store life_usable run this run2]
  show ?thesis using run(1) run2 by (auto simp: life_target_def)
qed

subsection \<open>Calls end\<close>

text \<open>
  C6: A lifecycle call returns. Under a context that ends after some seconds, with as much fuel
  as seconds are left, a call never stops for want of fuel, whatever the Host answers, and more
  fuel does not change what it does: every loop round waits at least a second.
\<close>

theorem lifecycle_returns:
  assumes "snd (hw_net w) \<le> fuel"
  shows "fst (lifecycle (deadline_env net priv jn) fuel r c w) \<noteq> Inl unfinished \<and>
    (\<forall>more \<ge> fuel. lifecycle (deadline_env net priv jn) more r c w = lifecycle (deadline_env net priv jn) fuel r c w)"
proof -
  have f: "fst (lifecycle (deadline_env net priv jn) fuel r c w) \<noteq> Inl unfinished"
    by (rule deadline.endsD(2) [OF deadline.lifecycle_ends [OF le_refl] assms surjective_pairing])
  have "lifecycle (deadline_env net priv jn) more r c w = lifecycle (deadline_env net priv jn) fuel r c w" if "fuel \<le> more" for more
  proof -
    from fuelled_lifecycle [OF that, of "deadline_env net priv jn" r c]
    have "fst (lifecycle (deadline_env net priv jn) fuel r c w) = Inl unfinished \<or>
      lifecycle (deadline_env net priv jn) more r c w = lifecycle (deadline_env net priv jn) fuel r c w"
      unfolding fuelled_def by (rule spec)
    then show ?thesis by (rule disjE) (erule notE [OF f], assumption)
  qed
  then show ?thesis by (intro conjI f allI impI)
qed

theorem lifecycle_returns_witness:
  "snd (hw_net life_world) \<le> 30 \<and> fst (lifecycle life_env 30 life_resource (CreateCall life_plan) life_world) \<noteq> Inl unfinished \<and>
   lifecycle life_env 100 life_resource (CreateCall life_plan) life_world = lifecycle life_env 30 life_resource (CreateCall life_plan) life_world"
proof -
  have "snd (hw_net life_world) \<le> 30" by (simp add: life_world_def)
  note ret = lifecycle_returns [OF this, of life_net None life_journal life_resource "CreateCall life_plan", folded life_env_def]
  show ?thesis
    by (intro conjI \<open>snd (hw_net life_world) \<le> 30\<close> conjunct1 [OF ret] conjunct2 [OF ret, rule_format]) simp
qed

subsection \<open>Terraform's state\<close>

text \<open>
  C7: The state a lifecycle call leaves in Terraform, also when it fails, is absent, the one it
  was given, or one whose identity, generation and linkage the next call for this resource
  accepts.
\<close>

theorem state_is_accepted:
  assumes "rs_data r = Some d" "vd_store d" "pe_store env = local_journal f st rand now"
    and "pw_state w = given c" "lifecycle env fuel r c w = (x, w')"
  shows "pw_state w' = None \<or> pw_state w' = given c \<or> (\<exists>s i. pw_state w' = Some s \<and> identity r s False = Inr i)"
proof -
  have "tidy r (given c) (pw_store w) (pw_state w)" by (simp add: tidy_def assms(4))
  from keepsD(1) [OF local_claims.tidy_lifecycle [OF assms(1-3)] this assms(5)]
  have "pw_state w' = None \<or> pw_state w' = given c \<or> (\<exists>s. pw_state w' = Some s \<and> accepts r s)" by (simp add: tidy_def)
  moreover have "\<exists>i. identity r s False = Inr i" if "accepts r s" for s
    using that by (cases "identity r s False") (auto simp: accepts_def)
  ultimately show ?thesis by blast
qed

theorem state_is_accepted_witness:
  "\<exists>x w'. lifecycle life_env 30 life_resource (CreateCall life_plan) life_world = (x, w') \<and>
     (pw_state w' = None \<or> (\<exists>s i. pw_state w' = Some s \<and> identity life_resource s False = Inr i))"
proof -
  obtain x w' where run: "lifecycle life_env 30 life_resource (CreateCall life_plan) life_world = (x, w')" by fastforce
  have d: "vd_store life_data" "pw_state life_world = given (CreateCall life_plan)" by (simp_all add: life_data_def life_world_def)
  from state_is_accepted [OF life_data d(1) life_store d(2) run] run show ?thesis by auto
qed

end
