(* ===== verification/ProviderConfig.thy ===== *)
theory ProviderConfig
  imports JournalBackends
begin

text \<open>
  The provider's configuration, \<open>provider/v2_provider.go\<close>: it validates the settings, opens
  exactly one intent store, checks the Host the store is bound to, and only then hands client
  and store to the resources. The two kinds of store live in two parts of a world; of the
  diagnostics, which may be several before anything is opened, the summaries are kept.
  Closing a refused store releases its descriptor, which the model does not count.
\<close>

record v2ProviderConfig =
  cf_Endpoint :: "string tf"
  cf_HostAPIRoot :: "string tf"
  cf_Space :: "string tf"
  cf_Token :: "string tf"
  cf_StorePath :: "string tf"
  cf_StoreSlot :: "string tf"
  cf_StoreID :: "string tf"

text \<open>An opened \<open>intentv2.Store\<close>: over a directory, or over a remote snapshot.\<close>

datatype opened = LocalStore Store | RemoteStore string

record 's stores =
  sw_disk :: world
  sw_remote :: "'s rworld"

text \<open>\<open>ce_token\<close> is the environment's token, empty when unset.\<close>

record 's config_env =
  ce_faults :: faults
  ce_remote :: "'s remote_env"
  ce_token :: string

definition on_disk :: "(world, 'e, 'a) st \<Rightarrow> ('s stores, 'e, 'a) st" where
  "on_disk m w = (case m (sw_disk w) of (r, d) \<Rightarrow> (r, w\<lparr>sw_disk := d\<rparr>))"

definition on_remote :: "('s rworld, 'e, 'a) st \<Rightarrow> ('s stores, 'e, 'a) st" where
  "on_remote m w = (case m (sw_remote w) of (r, d) \<Rightarrow> (r, w\<lparr>sw_remote := d\<rparr>))"

record configured =
  co_client :: Client
  co_store :: opened
  co_endpoint :: string
  co_data :: v2ProviderData

definition provider_token :: "v2ProviderConfig \<Rightarrow> string \<Rightarrow> string" where
  "provider_token cfg environment =
     (case cf_Token cfg of TUnknown \<Rightarrow> [] | TNull \<Rightarrow> environment | TVal t \<Rightarrow> t)"

definition selected :: "string tf \<Rightarrow> bool" where
  "selected v \<longleftrightarrow> \<not> tf_null v \<and> tf_string v \<noteq> []"

definition configuration_errors :: "v2ProviderConfig \<Rightarrow> string \<Rightarrow> string list" where
  "configuration_errors cfg environment =
     map (\<lambda>_. ''Invalid v2 provider configuration'')
       (filter (\<lambda>v. tf_unknown v \<or> tf_null v \<or> tf_string v = []) [cf_Endpoint cfg, cf_HostAPIRoot cfg, cf_StoreID cfg]) @
     (if tf_unknown (cf_Token cfg) then [''Invalid v2 provider configuration''] else []) @
     (if provider_token cfg environment = [] then [''Invalid v2 provider configuration''] else []) @
     (if tf_unknown (cf_StorePath cfg) \<or> tf_unknown (cf_StoreSlot cfg) \<or>
         selected (cf_StorePath cfg) = selected (cf_StoreSlot cfg) then [''Invalid v2 intent store selection''] else []) @
     (if tf_unknown (cf_Space cfg) then [''Invalid v2 Space''] else [])"

definition exact_https :: "string \<Rightarrow> go_url option" where
  "exact_https raw =
     (case url_parse raw of None \<Rightarrow> None
      | Some u \<Rightarrow>
          if url_scheme u \<noteq> ''https'' \<or> url_user u \<or> url_query u \<noteq> [] \<or> url_force_query u \<or> url_fragment u \<noteq> [] \<or>
             CHR ''#'' \<in> set raw then None else Some u)"

definition validateV2HostURLs :: "string \<Rightarrow> string \<Rightarrow> bool" where
  "validateV2HostURLs endpoint base =
     (case (exact_https endpoint, exact_https base) of
        (Some e, Some r) \<Rightarrow> url_host e \<noteq> [] \<and> (url_path e = [] \<or> url_path e = ''/'') \<and>
          url_host r = url_host e \<and> \<not> has_suffix base ''/'' \<and> base \<noteq> []
      | _ \<Rightarrow> False)"

definition open_store :: "'s config_env \<Rightarrow> v2ProviderConfig \<Rightarrow> ('s stores, string, opened) st" where
  "open_store env cfg =
     (if selected (cf_StorePath cfg) then
        let p = tf_string (cf_StorePath cfg) in
        if \<not> has_prefix p ''/'' \<or> clean_abs p \<noteq> p then raise ''Invalid v2 intent store path''
        else refuse ''v2 intent store unavailable'' (on_disk
          (andThen (Open (ce_faults env) p (tf_string (cf_StoreID cfg))) (\<lambda>st. ret (LocalStore st))))
      else refuse ''v2 intent store unavailable'' (on_remote
        (andThen (OpenRemote (ce_remote env) (tf_string (cf_StoreSlot cfg)) (tf_string (cf_StoreID cfg))
            \<lparr>b_HostAPI = tf_string (cf_HostAPIRoot cfg)\<rparr>) (\<lambda>_. ret (RemoteStore (tf_string (cf_StoreID cfg)))))))"

definition opened_Binding :: "'s config_env \<Rightarrow> opened \<Rightarrow> ('s stores, store_error, StoreBinding) st" where
  "opened_Binding env st =
     (case st of LocalStore s \<Rightarrow> on_disk (Store_Binding (ce_faults env) s)
      | RemoteStore sid \<Rightarrow> on_remote (remote_withSnapshot (ce_remote env) sid False Binding_fn))"

definition bind_store :: "'s config_env \<Rightarrow> v2ProviderConfig \<Rightarrow> ('s stores, string, configured) st" where
  "bind_store env cfg =
     andThen (open_store env cfg) (\<lambda>st.
     andThen (refuse ''v2 intent store binding mismatch'' (opened_Binding env st)) (\<lambda>binding.
       if b_HostAPI binding \<noteq> tf_string (cf_HostAPIRoot cfg) then raise ''v2 intent store binding mismatch''
       else ret \<lparr>co_client = New (tf_string (cf_Endpoint cfg)) (provider_token cfg (ce_token env)), co_store = st,
              co_endpoint = tf_string (cf_Endpoint cfg),
              co_data = \<lparr>vd_store = True, vd_hostAPIRoot = tf_string (cf_HostAPIRoot cfg),
                vd_storeID = tf_string (cf_StoreID cfg), vd_space = tf_string (cf_Space cfg)\<rparr>\<rparr>))"

definition Provider_Configure :: "'s config_env \<Rightarrow> v2ProviderConfig \<Rightarrow> ('s stores, string list, configured) st" where
  "Provider_Configure env cfg w =
     (if configuration_errors cfg (ce_token env) \<noteq> [] then (Inl (configuration_errors cfg (ce_token env)), w)
      else if \<not> validateV2HostURLs (tf_string (cf_Endpoint cfg)) (tf_string (cf_HostAPIRoot cfg))
      then (Inl [''Invalid v2 Host identity''], w)
      else if tf_string (cf_Space cfg) \<noteq> [] \<and> \<not> v2IDPattern (tf_string (cf_Space cfg)) then (Inl [''Invalid v2 Space''], w)
      else (case bind_store env cfg w of (Inl e, w') \<Rightarrow> (Inl [e], w') | (Inr c, w') \<Rightarrow> (Inr c, w')))"

end
