(* ===== verification/ConfigProps.thy ===== *)
theory ConfigProps
  imports ProviderConfig LifecycleSamples RemoteProps
begin

text \<open>What a configured provider has: validated settings, and a store bound to its Host.\<close>

subsection \<open>The local store\<close>

lemma reading_needs_state:
  fixes x :: 'a
  assumes "withSnapshot f st False fn w = (Inr x, w')"
  obtains old s s' where "state_data w = Some old" "decodeSnapshot old (st_storeID st) = Inr s" "fn s = Inr (s', x)"
    "state_data w' = Some old"
proof -
  let ?N = "\<lambda>w. state_data w = None" and ?Q = "\<lambda>(r :: store_error + 'a) (w :: world). \<not> ok r"
  have q: "hoare ?N m (\<lambda>r w. case r of Inl e \<Rightarrow> ?Q (Inl e) w | Inr x \<Rightarrow> ?N w)" if "quiet m" for m :: "'x io"
    by (rule hoare_quiet [OF that]) (auto simp: state_data_def split: sum.splits)
  have rd: "hoare ?N (readFile f ''state.json'' maxSnapshotBytes) (\<lambda>r w. case r of Inl e \<Rightarrow> ?Q (Inl e) w | Inr d \<Rightarrow> False)"
    by (auto simp: hoare_def readFile_def fstatat_def andThen_def syscall_def private_file_def require_def ret_def
        state_data_def split: if_splits option.splits)
  have fin: "hoare (\<lambda>w. False) m Q" for m :: "'a io" and Q by (simp add: hoare_def)
  have r: "hoare ?N (raise e) ?Q" for e by (simp add: hoare_def raise_def)
  have act: "hoare ?N (snapshot_action f st False fn) ?Q"
    unfolding snapshot_action_def
    by (rule hoare_andThen [OF q [OF quiet_header]], rule hoare_andThen [OF rd], rule fin)
  have "hoare ?N (withSnapshot f st False fn) ?Q"
    unfolding withSnapshot_def withLock_def
    by (cases "st_closed st"; cases "flock_loop (flocks f)"; simp add: r; intro hoare_andThen [OF q] act r; blast)
  from hoareD [OF this _ assms] obtain old where old: "state_data w = Some old" by (cases "state_data w") auto
  from hoareD [OF reading_outcome old assms] old state_quiet [OF quiet_reading assms] show thesis
    by (auto simp: seen_def intro: that)
qed

lemma open_local:
  assumes "Open f p sid w = (Inr st, w')"
  shows "st_storeID st = sid" "st_path st = p" "state_data w' = state_data w"
proof -
  from assms obtain dir w1 where o: "openSecureDirectory f p w = (Inr dir, w1)"
    and s: "withSnapshot f \<lparr>st_dir = dir, st_path = p, st_storeID = sid, st_closed = False\<rparr> False Open_fn w1 = (Inr (), w')"
    and st: "st = \<lparr>st_dir = dir, st_path = p, st_storeID = sid, st_closed = False\<rparr>"
    by (auto simp: Open_def Let_def andThen_def ret_def raise_def split: sum.splits prod.splits)
  show "st_storeID st = sid" "st_path st = p" by (simp_all add: st)
  show "state_data w' = state_data w"
    using state_quiet [OF quiet_reading s] state_quiet [OF quiet_open o] by simp
qed

subsection \<open>The remote store\<close>

lemma initialize_pinned:
  assumes "initialize_remote env sid b w = (r, w')"
  shows "pinned (rw_backend w) (rw_backend w')"
proof (cases "marshal (enc_snapshot (initial_snapshot sid (Some b)))")
  case (Inr data)
  obtain x w1 where c: "commit env 0 data w = (x, w1)" by fastforce
  have p1: "pinned (rw_backend w) (rw_backend w1)" by (rule commit_outcome [OF c]) (simp add: sends_def)
  obtain y w2 where r2: "remote_read env w1 = (y, w2)" by fastforce
  have p2: "pinned (rw_backend w1) (rw_backend w2)" by (rule remote_read_frame [OF r2]) (simp add: sends_def)
  have "w' = w1 \<or> w' = w2"
    using assms by (auto simp: initialize_remote_def Inr c r2 split: sum.splits if_splits option.splits)
  then show ?thesis using p1 pinned_trans [OF p1 p2] by auto
qed (use assms in \<open>simp add: initialize_remote_def\<close>)

lemma open_remote_binding:
  assumes "OpenRemote env slot sid b w = (Inr (), w')"
  shows "rb_binding (rw_backend w') = b"
proof -
  from assms obtain backend w0 found w1 data w2 where o: "remoteBackendForSlot env slot w = (Inr backend, w0)"
    and r: "remote_read env (w0\<lparr>rw_backend := backend\<lparr>rb_binding := b\<rparr>\<rparr>) = (Inr found, w1)"
    and i: "(case found of Some (data, _) \<Rightarrow> ret data | None \<Rightarrow> initialize_remote env sid b) w1 = (Inr data, w')"
    by (auto simp: OpenRemote_def andThen_def ret_def raise_def lift_result_def split: sum.splits prod.splits if_splits)
  have "pinned (backend\<lparr>rb_binding := b\<rparr>) (rw_backend w1)"
    by (rule remote_read_frame [OF r]) (simp add: sends_def)
  moreover have "pinned (rw_backend w1) (rw_backend w')"
    using i by (cases found) (auto simp: ret_def intro: initialize_pinned)
  ultimately have "pinned (backend\<lparr>rb_binding := b\<rparr>) (rw_backend w')" by (rule pinned_trans)
  then show ?thesis by (simp add: pinned_fields)
qed

text \<open>What the last answered read of a log shows: a snapshot of this store, bound to this Host.\<close>

definition seen_bound :: "'s remote_env \<Rightarrow> string \<Rightarrow> StoreBinding \<Rightarrow> sent list \<Rightarrow> bool" where
  "seen_bound env sid b xs \<longleftrightarrow> xs \<noteq> [] \<and> (\<exists>data version s. found env (last xs) data version \<and>
     decodeSnapshot data sid = Inr s \<and> s_Binding s = Some b)"

lemma remote_reading:
  assumes "remote_withSnapshot env sid False fn w = (Inr y, w')"
  shows "rb_binding (rw_backend w') = rb_binding (rw_backend w)" "seen_bound env sid (rb_binding (rw_backend w)) (rw_sent w')"
proof -
  from assms obtain data version s s' where rd: "remote_read env w = (Inr (Some (data, version)), w')"
    and b: "bound_snapshot data sid (rb_binding (rw_backend w')) = Inr s"
    by (auto simp: remote_withSnapshot_def andThen_def lift_result_def raise_def ret_def
        split: sum.splits option.splits prod.splits)
  from remote_read_Inr [OF rd] obtain x where x: "sends w w' [x]" "found env x data version" by metis
  show p: "rb_binding (rw_backend w') = rb_binding (rw_backend w)" using x(1) by (simp add: sends_def pinned_fields)
  from b have "decodeSnapshot data sid = Inr s \<and> s_Binding s = Some (rb_binding (rw_backend w))"
    by (auto simp: bound_snapshot_def p split: sum.splits if_splits)
  with x show "seen_bound env sid (rb_binding (rw_backend w)) (rw_sent w')"
    by (auto simp: seen_bound_def sends_def)
qed

subsection \<open>Configuring\<close>

definition store_is_bound :: "'s config_env \<Rightarrow> StoreBinding \<Rightarrow> string \<Rightarrow> opened \<Rightarrow> 's stores \<Rightarrow> bool" where
  "store_is_bound env b sid st w =
     (case st of
        LocalStore s \<Rightarrow> st_storeID s = sid \<and> (\<exists>snap. snapshot_in s (sw_disk w) snap \<and> s_Binding snap = Some b)
      | RemoteStore i \<Rightarrow> i = sid \<and> rb_binding (rw_backend (sw_remote w)) = b \<and>
          seen_bound (ce_remote env) sid b (rw_sent (sw_remote w)))"

lemma bind_store_Inr:
  assumes "bind_store env cfg w = (Inr c, w')"
  shows "store_is_bound env \<lparr>b_HostAPI = tf_string (cf_HostAPIRoot cfg)\<rparr> (tf_string (cf_StoreID cfg)) (co_store c) w'"
    "(case co_store c of LocalStore st \<Rightarrow> selected (cf_StorePath cfg) \<and> sw_remote w' = sw_remote w \<and>
          state_data (sw_disk w') = state_data (sw_disk w)
      | RemoteStore _ \<Rightarrow> \<not> selected (cf_StorePath cfg) \<and> sw_disk w' = sw_disk w)"
    "c = \<lparr>co_client = New (tf_string (cf_Endpoint cfg)) (provider_token cfg (ce_token env)), co_store = co_store c,
       co_endpoint = tf_string (cf_Endpoint cfg), co_data = \<lparr>vd_store = True, vd_hostAPIRoot = tf_string (cf_HostAPIRoot cfg),
       vd_storeID = tf_string (cf_StoreID cfg), vd_space = tf_string (cf_Space cfg)\<rparr>\<rparr>"
proof -
  let ?b = "\<lparr>b_HostAPI = tf_string (cf_HostAPIRoot cfg)\<rparr>" and ?sid = "tf_string (cf_StoreID cfg)"
  from assms obtain st w1 binding where o: "open_store env cfg w = (Inr st, w1)"
    and b: "opened_Binding env st w1 = (Inr binding, w')" and root: "b_HostAPI binding = tf_string (cf_HostAPIRoot cfg)"
    and c: "c = \<lparr>co_client = New (tf_string (cf_Endpoint cfg)) (provider_token cfg (ce_token env)), co_store = st,
       co_endpoint = tf_string (cf_Endpoint cfg), co_data = \<lparr>vd_store = True, vd_hostAPIRoot = tf_string (cf_HostAPIRoot cfg),
       vd_storeID = ?sid, vd_space = tf_string (cf_Space cfg)\<rparr>\<rparr>"
    by (auto simp: bind_store_def andThen_def refuse_def ret_def raise_def split: sum.splits prod.splits if_splits)
  have binding: "binding = ?b" using root by (cases binding) simp
  have st: "co_store c = st" by (simp add: c)
  have "store_is_bound env ?b ?sid st w' \<and>
    (case st of LocalStore s \<Rightarrow> selected (cf_StorePath cfg) \<and> sw_remote w' = sw_remote w \<and>
       state_data (sw_disk w') = state_data (sw_disk w)
     | RemoteStore _ \<Rightarrow> \<not> selected (cf_StorePath cfg) \<and> sw_disk w' = sw_disk w)"
  proof (cases "selected (cf_StorePath cfg)")
    case True
    with o obtain s d1 where s: "Open (ce_faults env) (tf_string (cf_StorePath cfg)) ?sid (sw_disk w) = (Inr s, d1)"
      "st = LocalStore s" "w1 = w\<lparr>sw_disk := d1\<rparr>"
      by (auto simp: open_store_def Let_def refuse_def on_disk_def andThen_def ret_def raise_def split: sum.splits prod.splits if_splits)
    with b obtain d2 where b2: "withSnapshot (ce_faults env) s False Binding_fn d1 = (Inr binding, d2)" "w' = w\<lparr>sw_disk := d2\<rparr>"
      by (auto simp: opened_Binding_def on_disk_def Store_Binding_def split: prod.splits)
    from b2(1) obtain old snap snap' where r: "decodeSnapshot old (st_storeID s) = Inr snap" "Binding_fn snap = Inr (snap', binding)"
      "state_data d2 = Some old" "state_data d1 = Some old" by (rule reading_needs_state)
    then have "snapshot_in s d2 snap" "s_Binding snap = Some ?b"
      by (auto simp: snapshot_in_def Binding_fn_def binding split: option.splits)
    then show ?thesis using True open_local [OF s(1)] r by (auto simp: store_is_bound_def s(2) b2(2))
  next
    case False
    with o obtain d1 where s: "OpenRemote (ce_remote env) (tf_string (cf_StoreSlot cfg)) ?sid ?b (sw_remote w) = (Inr (), d1)"
      "st = RemoteStore ?sid" "w1 = w\<lparr>sw_remote := d1\<rparr>"
      by (auto simp: open_store_def refuse_def on_remote_def andThen_def ret_def split: sum.splits prod.splits)
    with b obtain d2 where b2: "remote_withSnapshot (ce_remote env) ?sid False Binding_fn d1 = (Inr binding, d2)" "w' = w\<lparr>sw_remote := d2\<rparr>"
      by (auto simp: opened_Binding_def on_remote_def split: prod.splits)
    from remote_reading [OF b2(1)] open_remote_binding [OF s(1)] show ?thesis
      using False by (simp add: store_is_bound_def s(2) b2(2))
  qed
  then show "store_is_bound env ?b ?sid (co_store c) w'" "(case co_store c of LocalStore s \<Rightarrow> selected (cf_StorePath cfg) \<and>
       sw_remote w' = sw_remote w \<and> state_data (sw_disk w') = state_data (sw_disk w)
     | RemoteStore _ \<Rightarrow> \<not> selected (cf_StorePath cfg) \<and> sw_disk w' = sw_disk w)"
    unfolding st by blast+
  show "c = \<lparr>co_client = New (tf_string (cf_Endpoint cfg)) (provider_token cfg (ce_token env)), co_store = co_store c,
       co_endpoint = tf_string (cf_Endpoint cfg), co_data = \<lparr>vd_store = True, vd_hostAPIRoot = tf_string (cf_HostAPIRoot cfg),
       vd_storeID = ?sid, vd_space = tf_string (cf_Space cfg)\<rparr>\<rparr>" by (simp add: c)
qed

text \<open>
  C3: A configured provider is bound to one Host. When Configure succeeds, the endpoint is an
  HTTPS origin and the API root an HTTPS URL on the same host, the client has that endpoint and
  a token, the default Space is empty or a Host ID, exactly one kind of store was selected and
  only that one was touched, and the store carries the configured identifier and is bound to
  exactly the configured API root: a local store by the snapshot its directory holds, whose
  bytes Configure has not changed, a remote store by the last snapshot the service answered
  with.
\<close>

theorem configured_store_is_bound:
  assumes "Provider_Configure env cfg w = (Inr c, w')"
  shows "(\<exists>e r. url_parse (co_endpoint c) = Some e \<and> url_parse (vd_hostAPIRoot (co_data c)) = Some r \<and>
      url_scheme e = ''https'' \<and> url_scheme r = ''https'' \<and> url_host e \<noteq> [] \<and> url_host r = url_host e) \<and>
    (\<exists>token. token \<noteq> [] \<and> co_client c = New (co_endpoint c) token) \<and>
    (vd_space (co_data c) = [] \<or> v2IDPattern (vd_space (co_data c))) \<and>
    selected (cf_StorePath cfg) \<noteq> selected (cf_StoreSlot cfg) \<and>
    (case co_store c of LocalStore _ \<Rightarrow> selected (cf_StorePath cfg) \<and> sw_remote w' = sw_remote w \<and>
       state_data (sw_disk w') = state_data (sw_disk w)
     | RemoteStore _ \<Rightarrow> selected (cf_StoreSlot cfg) \<and> sw_disk w' = sw_disk w) \<and>
    store_is_bound env \<lparr>b_HostAPI = vd_hostAPIRoot (co_data c)\<rparr> (vd_storeID (co_data c)) (co_store c) w'"
proof -
  from assms have ok: "configuration_errors cfg (ce_token env) = []"
    "validateV2HostURLs (tf_string (cf_Endpoint cfg)) (tf_string (cf_HostAPIRoot cfg))"
    "tf_string (cf_Space cfg) = [] \<or> v2IDPattern (tf_string (cf_Space cfg))" "bind_store env cfg w = (Inr c, w')"
    by (auto simp: Provider_Configure_def split: if_splits sum.splits prod.splits)
  note b = bind_store_Inr [OF ok(4)]
  have fields: "co_endpoint c = tf_string (cf_Endpoint cfg)" "co_client c = New (co_endpoint c) (provider_token cfg (ce_token env))"
    "vd_hostAPIRoot (co_data c) = tf_string (cf_HostAPIRoot cfg)" "vd_storeID (co_data c) = tf_string (cf_StoreID cfg)"
    "vd_space (co_data c) = tf_string (cf_Space cfg)" by (subst b(3), simp)+
  have sel: "selected (cf_StorePath cfg) \<noteq> selected (cf_StoreSlot cfg)" "provider_token cfg (ce_token env) \<noteq> []"
    using ok(1) by (auto simp: configuration_errors_def split: if_splits)
  have urls: "\<exists>e r. url_parse (co_endpoint c) = Some e \<and> url_parse (vd_hostAPIRoot (co_data c)) = Some r \<and>
      url_scheme e = ''https'' \<and> url_scheme r = ''https'' \<and> url_host e \<noteq> [] \<and> url_host r = url_host e"
    using ok(2) by (auto simp: fields validateV2HostURLs_def exact_https_def split: option.splits if_splits)
  from b(2) sel(1) have "case co_store c of LocalStore _ \<Rightarrow> selected (cf_StorePath cfg) \<and> sw_remote w' = sw_remote w \<and>
       state_data (sw_disk w') = state_data (sw_disk w)
     | RemoteStore _ \<Rightarrow> selected (cf_StoreSlot cfg) \<and> sw_disk w' = sw_disk w" by (auto split: opened.splits)
  with urls fields sel ok(3) b(1) show ?thesis by auto
qed

definition sample_config :: v2ProviderConfig where
  "sample_config = \<lparr>cf_Endpoint = TVal ''https://h.example'', cf_HostAPIRoot = TVal ''https://h.example/api'', cf_Space = TVal ''prod'',
     cf_Token = TNull, cf_StorePath = TVal sample_path, cf_StoreSlot = TNull, cf_StoreID = TVal sample_store\<rparr>"

abbreviation "sample_config_env \<equiv> \<lparr>ce_faults = no_faults, ce_remote = env3, ce_token = ''secret''\<rparr>"
abbreviation "sample_stores \<equiv> \<lparr>sw_disk = life_dir 0 (life_snap []), sw_remote = sample_rworld\<rparr>"

lemma sample_open: "\<exists>m. Open no_faults sample_path sample_store (life_dir n (life_snap [])) = (Inr sample_dir, life_dir m (life_snap []))"
proof -
  have "validateStoreID sample_store = Inr ()" by code_simp
  moreover have "Open_fn (life_snap []) = Inr (life_snap [], ())"
    by (simp add: Open_fn_def life_snap_def initial_snapshot_def)
  ultimately show ?thesis using life_decodes(2)
    by (simp add: Open_def Let_def store_simps life_decodes(1) not_less cong: andThen_first)
qed

lemma sample_binding:
  "\<exists>m. Store_Binding no_faults sample_dir (life_dir n (life_snap [])) = (Inr life_binding, life_dir m (life_snap []))"
proof -
  have "Binding_fn (life_snap []) = Inr (life_snap [], life_binding)"
    by (simp add: Binding_fn_def life_snap_def initial_snapshot_def)
  then show ?thesis using life_decodes(2)
    by (simp add: Store_Binding_def store_simps life_decodes(1) not_less cong: andThen_first)
qed

lemma sample_configures: "\<exists>c w'. Provider_Configure sample_config_env sample_config sample_stores = (Inr c, w') \<and>
    co_store c = LocalStore sample_dir \<and> co_data c = life_data"
proof -
  obtain m where o: "Open no_faults sample_path sample_store (life_dir 0 (life_snap [])) = (Inr sample_dir, life_dir m (life_snap []))"
    using sample_open by blast
  obtain k where b: "Store_Binding no_faults sample_dir (life_dir m (life_snap [])) = (Inr life_binding, life_dir k (life_snap []))"
    using sample_binding by blast
  have v: "configuration_errors sample_config ''secret'' = []" "validateV2HostURLs ''https://h.example'' ''https://h.example/api''"
    "v2IDPattern ''prod''" "has_prefix sample_path ''/''" "clean_abs sample_path = sample_path" "selected (TVal sample_path)" by code_simp+
  have os: "open_store sample_config_env sample_config sample_stores = (Inr (LocalStore sample_dir), sample_stores\<lparr>sw_disk := life_dir m (life_snap [])\<rparr>)"
    using v o by (simp add: open_store_def sample_config_def Let_def refuse_def on_disk_def andThen_def ret_def)
  show ?thesis using v(1-3) b
    by (simp add: Provider_Configure_def bind_store_def andThen_def os refuse_def opened_Binding_def on_disk_def ret_def
        life_binding_def life_data_def) (simp add: sample_config_def)
qed

theorem configured_store_is_bound_witness:
  "\<exists>c w'. Provider_Configure sample_config_env sample_config sample_stores = (Inr c, w') \<and>
     store_is_bound sample_config_env \<lparr>b_HostAPI = ''https://h.example/api''\<rparr> sample_store (LocalStore sample_dir) w'"
proof -
  obtain c w' where c: "Provider_Configure sample_config_env sample_config sample_stores = (Inr c, w')"
    "co_store c = LocalStore sample_dir" "co_data c = life_data" using sample_configures by blast
  from configured_store_is_bound [OF c(1)] c show ?thesis by (auto simp: life_data_def)
qed

end
