(* ===== verification/CronSchedule.thy ===== *)
theory CronSchedule
  imports CronGrammar GoTime
begin

text \<open>
  The portable cron schedules of \<open>currentformmodel/cron.go\<close>: parsing an expression into five
  sorted value sets, the canonical spelling two expressions are compared by, and the match rule.
  Values are small and never negative; the map that collects a field's values is a list until it
  is sorted.
\<close>

subsection \<open>Data\<close>

record cronFieldSpec =
  sp_name :: string
  sp_min :: nat
  sp_max :: nat

definition cronFields :: "cronFieldSpec list" where
  "cronFields = [\<lparr>sp_name = ''minute'', sp_min = 0, sp_max = 59\<rparr>, \<lparr>sp_name = ''hour'', sp_min = 0, sp_max = 23\<rparr>,
     \<lparr>sp_name = ''day-of-month'', sp_min = 1, sp_max = 31\<rparr>, \<lparr>sp_name = ''month'', sp_min = 1, sp_max = 12\<rparr>,
     \<lparr>sp_name = ''day-of-week'', sp_min = 0, sp_max = 6\<rparr>]"

record CronSchedule =
  cs_Minute :: "nat list"
  cs_Hour :: "nat list"
  cs_DayOfMonth :: "nat list"
  cs_Month :: "nat list"
  cs_DayOfWeek :: "nat list"
  cs_dayOfMonthRestricted :: bool
  cs_dayOfWeekRestricted :: bool

subsection \<open>Parsing\<close>

definition parseCronNumber :: "string \<Rightarrow> string + nat" where
  "parseCronNumber text =
     (if text = [] \<or> 2 < length text \<or> \<not> list_all is_digit text then Inl ''not one or two decimal digits''
      else case digits_val 0 text of None \<Rightarrow> Inl ''not one or two decimal digits'' | Some n \<Rightarrow> Inr n)"

definition parseCronValue :: "cronFieldSpec \<Rightarrow> string \<Rightarrow> string + nat" where
  "parseCronValue spec text =
     (case parseCronNumber text of Inl e \<Rightarrow> Inl e
      | Inr v \<Rightarrow> if v < sp_min spec \<or> sp_max spec < v then Inl ''value out of range'' else Inr v)"

text \<open>\<open>for value := low; value <= high; value += step\<close>; steps are positive.\<close>

function cron_loop :: "nat \<Rightarrow> nat \<Rightarrow> nat \<Rightarrow> nat list" where
  "cron_loop v high step = (if v \<le> high \<and> 0 < step then v # cron_loop (v + step) high step else [])"
  by auto
termination by (relation "measure (\<lambda>(v, high, step). Suc high - v)") auto

declare cron_loop.simps [simp del]

definition cron_term_step :: "cronFieldSpec \<Rightarrow> string \<Rightarrow> bool \<Rightarrow> string + nat" where
  "cron_term_step spec stepText hasStep =
     (if \<not> hasStep then Inr 1
      else case parseCronNumber stepText of Inl e \<Rightarrow> Inl e
      | Inr n \<Rightarrow> if n < 1 \<or> sp_max spec - sp_min spec < n then Inl ''step out of range'' else Inr n)"

definition cron_term_range :: "cronFieldSpec \<Rightarrow> string \<Rightarrow> bool \<Rightarrow> string + nat \<times> nat" where
  "cron_term_range spec body hasStep =
     (if body = ''*'' then Inr (sp_min spec, sp_max spec)
      else if CHR ''-'' \<in> set body then
        (let (lowText, highText, _) = cut_at (CHR ''-'') body in
         case parseCronValue spec lowText of Inl e \<Rightarrow> Inl e
         | Inr low \<Rightarrow> (case parseCronValue spec highText of Inl e \<Rightarrow> Inl e
             | Inr high \<Rightarrow> if high < low then Inl ''range is inverted'' else Inr (low, high)))
      else if hasStep then Inl ''step on a single value''
      else (case parseCronValue spec body of Inl e \<Rightarrow> Inl e | Inr v \<Rightarrow> Inr (v, v)))"

definition expandCronTerm :: "cronFieldSpec \<Rightarrow> string \<Rightarrow> string + nat list" where
  "expandCronTerm spec text =
     (if text = [] then Inl ''empty term''
      else let (body, stepText, hasStep) = cut_at (CHR ''/'') text in
        case cron_term_step spec stepText hasStep of Inl e \<Rightarrow> Inl e
        | Inr step \<Rightarrow> (case cron_term_range spec body hasStep of Inl e \<Rightarrow> Inl e
            | Inr (low, high) \<Rightarrow> Inr (cron_loop low high step)))"

definition parseCronField :: "cronFieldSpec \<Rightarrow> string \<Rightarrow> string + nat list" where
  "parseCronField spec f =
     (if f = [] then Inl ''the field is empty''
      else case map_result (expandCronTerm spec) (split_on (CHR '','') f) of Inl e \<Rightarrow> Inl e
      | Inr vs \<Rightarrow> Inr (sort (remdups (concat vs))))"

definition cron_size :: "cronFieldSpec \<Rightarrow> nat" where
  "cron_size spec = sp_max spec - sp_min spec + 1"

definition cron_schedule :: "nat list list \<Rightarrow> CronSchedule" where
  "cron_schedule vs = \<lparr>cs_Minute = vs ! 0, cs_Hour = vs ! 1, cs_DayOfMonth = vs ! 2, cs_Month = vs ! 3, cs_DayOfWeek = vs ! 4,
     cs_dayOfMonthRestricted = length (vs ! 2) < cron_size (cronFields ! 2),
     cs_dayOfWeekRestricted = length (vs ! 4) < cron_size (cronFields ! 4)\<rparr>"

definition ParseCron :: "string \<Rightarrow> string + CronSchedule" where
  "ParseCron expression =
     (if expression = [] then Inl ''a cron expression is required''
      else let fields = split_on (CHR '' '') expression in
        if length fields \<noteq> 5 then Inl ''a cron expression has exactly five fields''
        else case map_result (\<lambda>(spec, f). parseCronField spec f) (zip cronFields fields) of Inl e \<Rightarrow> Inl e
        | Inr vs \<Rightarrow> Inr (cron_schedule vs))"

definition ValidateCron :: "string \<Rightarrow> string + unit" where
  "ValidateCron expression = (case ParseCron expression of Inl e \<Rightarrow> Inl e | Inr _ \<Rightarrow> Inr ())"

subsection \<open>The canonical spelling\<close>

text \<open>The longest run of consecutive values at the head, and the rest.\<close>

fun cron_run :: "nat list \<Rightarrow> nat list \<times> nat list" where
  "cron_run (a # b # xs) = (if b = a + 1 then (case cron_run (b # xs) of (r, rest) \<Rightarrow> (a # r, rest)) else ([a], b # xs))"
| "cron_run xs = (xs, [])"

lemma cron_run_append: "cron_run vs = (r, rest) \<Longrightarrow> vs = r @ rest \<and> (vs \<noteq> [] \<longrightarrow> r \<noteq> [])"
  by (induction vs arbitrary: r rest rule: cron_run.induct) (auto split: if_splits prod.splits)

function cron_terms :: "nat list \<Rightarrow> string list" where
  "cron_terms vs =
     (if vs = [] then []
      else case cron_run vs of (r, rest) \<Rightarrow>
        (if 3 \<le> length r then [format_nat (hd r) @ CHR ''-'' # format_nat (last r)] else map format_nat r) @ cron_terms rest)"
  by auto
termination by (relation "measure length") (auto dest!: cron_run_append [OF sym])

declare cron_terms.simps [simp del]

definition canonicalCronField :: "cronFieldSpec \<Rightarrow> nat list \<Rightarrow> string" where
  "canonicalCronField spec vs = (if length vs = cron_size spec then ''*'' else join_on (CHR '','') (cron_terms vs))"

definition cron_values :: "CronSchedule \<Rightarrow> nat list list" where
  "cron_values s = [cs_Minute s, cs_Hour s, cs_DayOfMonth s, cs_Month s, cs_DayOfWeek s]"

definition Canonical :: "CronSchedule \<Rightarrow> string" where
  "Canonical s = join_on (CHR '' '') (map (\<lambda>(spec, vs). canonicalCronField spec vs) (zip cronFields (cron_values s)))"

subsection \<open>Matching\<close>

text \<open>\<open>time.Weekday\<close>, Sunday being 0, from the proleptic Gregorian date.\<close>

definition weekday :: "go_time \<Rightarrow> nat" where
  "weekday t =
     (let y = int (yr_of t) - (if mon_of t < 3 then 1 else 0);
          shift = [0, 3, 2, 5, 0, 3, 5, 1, 4, 6, 2, 4] ! (mon_of t - 1)
      in nat ((y + y div 4 - y div 100 + y div 400 + shift + int (day_of t)) mod 7))"

text \<open>
  An instant with its location: what \<open>Minute\<close>, \<open>Hour\<close> and the other accessors read, which is the
  clock of the location, and what they read in UTC.
\<close>

record go_instant =
  at_location :: go_time
  at_utc :: go_time

definition UTC :: "go_instant \<Rightarrow> go_instant" where
  "UTC i = i\<lparr>at_location := at_utc i\<rparr>"

definition cron_Matches :: "CronSchedule \<Rightarrow> go_instant \<Rightarrow> bool" where
  "cron_Matches s i =
     (let t = at_location (UTC i) in
      if min_of t \<notin> set (cs_Minute s) \<or> hour_of t \<notin> set (cs_Hour s) \<or> mon_of t \<notin> set (cs_Month s) then False
      else
        let dayOfMonth = day_of t \<in> set (cs_DayOfMonth s); dayOfWeek = weekday t \<in> set (cs_DayOfWeek s) in
        if cs_dayOfMonthRestricted s \<and> cs_dayOfWeekRestricted s then dayOfMonth \<or> dayOfWeek
        else if cs_dayOfMonthRestricted s then dayOfMonth
        else if cs_dayOfWeekRestricted s then dayOfWeek
        else True)"

end
