(* ===== verification/CronScheduleLaws.thy ===== *)
theory CronScheduleLaws
  imports CronSchedule
begin

text \<open>
  What a portable cron expression selects, and that a schedule is determined by its canonical
  spelling.
\<close>

subsection \<open>Terms\<close>

lemma cut_at_found: "cut_at c s = (a, b, True) \<longleftrightarrow> s = a @ c # b \<and> c \<notin> set a"
proof
  assume cut: "cut_at c s = (a, b, True)"
  then obtain d where d: "dropWhile (\<lambda>d. d \<noteq> c) s = d # b" "a = takeWhile (\<lambda>d. d \<noteq> c) s"
    by (auto simp: cut_at_def split: list.splits)
  have "d = c" using hd_dropWhile [of "\<lambda>d. d \<noteq> c" s] d(1) by simp
  with d takeWhile_dropWhile_id [of "\<lambda>d. d \<noteq> c" s] show "s = a @ c # b \<and> c \<notin> set a"
    by (auto dest: set_takeWhileD)
next
  assume s: "s = a @ c # b \<and> c \<notin> set a"
  then have "c \<notin> set a" by simp
  then have "dropWhile (\<lambda>d. d \<noteq> c) (a @ c # b) = c # b" "takeWhile (\<lambda>d. d \<noteq> c) (a @ c # b) = a"
    by (induction a) auto
  with s show "cut_at c s = (a, b, True)" by (simp add: cut_at_def)
qed

lemma cut_at_missing: "cut_at c s = (a, b, False) \<longleftrightarrow> a = s \<and> b = [] \<and> c \<notin> set s"
proof (cases "c \<in> set s")
  case True
  then obtain d r where "dropWhile (\<lambda>d. d \<noteq> c) s = d # r"
    using dropWhile_eq_Nil_conv [of "\<lambda>d. d \<noteq> c" s] by (cases "dropWhile (\<lambda>d. d \<noteq> c) s") auto
  with True show ?thesis by (simp add: cut_at_def)
next
  case False
  then have d: "dropWhile (\<lambda>d. d \<noteq> c) s = []" by (auto simp: dropWhile_eq_Nil_conv)
  show ?thesis unfolding cut_at_def by (subst d) (use False in auto)
qed

lemma set_cron_loop: "0 < step \<Longrightarrow> set (cron_loop v high step) = {x. v \<le> x \<and> x \<le> high \<and> step dvd x - v}"
proof (induction v high step rule: cron_loop.induct)
  case (1 v high step)
  show ?case
  proof (cases "v \<le> high")
    case True
    have "{x. v \<le> x \<and> x \<le> high \<and> step dvd x - v} = insert v {x. v + step \<le> x \<and> x \<le> high \<and> step dvd x - (v + step)}"
    proof (intro set_eqI iffI)
      fix x
      assume x: "x \<in> {x. v \<le> x \<and> x \<le> high \<and> step dvd x - v}"
      show "x \<in> insert v {x. v + step \<le> x \<and> x \<le> high \<and> step dvd x - (v + step)}"
      proof (cases "x = v")
        case False
        with x have "step \<le> x - v" by (auto intro: dvd_imp_le)
        moreover from x this have "step dvd x - v - step" by (auto intro: dvd_diff_nat simp del: diff_diff_left)
        ultimately show ?thesis using x by (auto simp: diff_diff_left)
      qed simp
    next
      fix x
      assume "x \<in> insert v {x. v + step \<le> x \<and> x \<le> high \<and> step dvd x - (v + step)}"
      then show "x \<in> {x. v \<le> x \<and> x \<le> high \<and> step dvd x - v}"
      proof
        assume "x \<in> {x. v + step \<le> x \<and> x \<le> high \<and> step dvd x - (v + step)}"
        then have d: "step dvd x - (v + step)" "v + step \<le> x" "x \<le> high" by auto
        then have "x - v = (x - (v + step)) + step" by simp
        with d(1) have "step dvd x - v" by (metis dvd_add dvd_refl)
        with d show ?thesis by simp
      qed (simp add: True)
    qed
    with 1 True show ?thesis by (subst cron_loop.simps) simp
  qed (simp add: cron_loop.simps)
qed

lemma cron_loop_one: "cron_loop v high 1 = [v..<Suc high]"
proof (induction "Suc high - v" arbitrary: v)
  case 0
  then show ?case by (simp add: cron_loop.simps)
next
  case (Suc n)
  then have "v \<le> high" "n = Suc high - (v + 1)" by auto
  with Suc show ?case by (subst cron_loop.simps) (simp add: upt_conv_Cons)
qed

lemma parseCronNumber_Inr: "parseCronNumber s = Inr n \<Longrightarrow> number s (int n)"
  by (auto simp: parseCronNumber_def number_def split: if_splits option.splits)

lemma format_nat_short: "n < 100 \<Longrightarrow> length (format_nat n) \<le> 2"
proof -
  assume "n < 100"
  then have "n div 10 < 10" by simp
  then show ?thesis by (simp add: format_nat.simps [of n] format_nat.simps [of "n div 10"])
qed

lemma parseCronNumber_format: "n < 100 \<Longrightarrow> parseCronNumber (format_nat n) = Inr n"
  using format_nat_short [of n] by (auto simp: parseCronNumber_def list_all_iff dest: format_nat_digits)

definition spec_ok :: "cronFieldSpec \<Rightarrow> bool" where
  "spec_ok spec \<longleftrightarrow> sp_min spec < sp_max spec \<and> sp_max spec < 100"

lemma cronFields_ok: "spec \<in> set cronFields \<Longrightarrow> spec_ok spec"
  by (auto simp: cronFields_def spec_ok_def)

lemma parseCronValue_Inr: "parseCronValue spec s = Inr n \<Longrightarrow> number s (int n) \<and> sp_min spec \<le> n \<and> n \<le> sp_max spec"
  by (auto simp: parseCronValue_def dest: parseCronNumber_Inr split: sum.splits if_splits)

text \<open>The forms of a term, with the first value, the last and the step it stands for.\<close>

inductive term_shape :: "nat \<Rightarrow> nat \<Rightarrow> string \<Rightarrow> nat \<Rightarrow> nat \<Rightarrow> nat \<Rightarrow> bool" for lo hi where
  shape_every: "term_shape lo hi ''*'' lo hi 1"
| shape_single: "number s (int n) \<Longrightarrow> lo \<le> n \<Longrightarrow> n \<le> hi \<Longrightarrow> term_shape lo hi s n n 1"
| shape_span: "number a (int x) \<Longrightarrow> number b (int y) \<Longrightarrow> lo \<le> x \<Longrightarrow> x \<le> y \<Longrightarrow> y \<le> hi \<Longrightarrow>
    term_shape lo hi (a @ CHR ''-'' # b) x y 1"
| shape_every_step: "number t (int k) \<Longrightarrow> 1 \<le> k \<Longrightarrow> k \<le> hi - lo \<Longrightarrow> term_shape lo hi (CHR ''*'' # CHR ''/'' # t) lo hi k"
| shape_span_step: "number a (int x) \<Longrightarrow> number b (int y) \<Longrightarrow> lo \<le> x \<Longrightarrow> x \<le> y \<Longrightarrow> y \<le> hi \<Longrightarrow> number t (int k) \<Longrightarrow>
    1 \<le> k \<Longrightarrow> k \<le> hi - lo \<Longrightarrow> term_shape lo hi (a @ CHR ''-'' # b @ CHR ''/'' # t) x y k"

lemma expand_shape:
  assumes "expandCronTerm spec s = Inr vs"
  obtains low high step where "term_shape (sp_min spec) (sp_max spec) s low high step" "vs = cron_loop low high step"
proof -
  let ?lo = "sp_min spec" and ?hi = "sp_max spec"
  obtain body st has where cut: "cut_at (CHR ''/'') s = (body, st, has)" by (metis surj_pair)
  from assms cut obtain low high step where step: "cron_term_step spec st has = Inr step"
    and range: "cron_term_range spec body has = Inr (low, high)" and vs: "vs = cron_loop low high step"
    by (auto simp: expandCronTerm_def split: if_splits sum.splits)
  have s: "\<not> has \<and> s = body \<and> step = 1 \<or> has \<and> s = body @ CHR ''/'' # st \<and> number st (int step) \<and> 1 \<le> step \<and> step \<le> ?hi - ?lo"
    using step cut by (cases has) (auto simp: cron_term_step_def cut_at_found cut_at_missing dest: parseCronNumber_Inr split: sum.splits if_splits)
  consider "body = ''*''" "low = ?lo" "high = ?hi"
    | a b where "body = a @ CHR ''-'' # b" "number a (int low)" "number b (int high)" "?lo \<le> low" "low \<le> high" "high \<le> ?hi"
    | "\<not> has" "number body (int low)" "high = low" "?lo \<le> low" "low \<le> ?hi"
  proof (cases "body = ''*''")
    case False
    show thesis
    proof (cases "CHR ''-'' \<in> set body")
      case True
      obtain a b f where ab: "cut_at (CHR ''-'') body = (a, b, f)" by (metis surj_pair)
      with True have "f" by (cases f) (auto simp: cut_at_missing)
      with ab have "body = a @ CHR ''-'' # b" by (simp add: cut_at_found)
      with range False True ab that(2) show thesis
        by (auto simp: cron_term_range_def dest!: parseCronValue_Inr split: sum.splits if_splits)
    next
      case dash: False
      with range False that(3) show thesis
        by (auto simp: cron_term_range_def dest!: parseCronValue_Inr split: sum.splits if_splits)
    qed
  qed (use range that(1) in \<open>simp add: cron_term_range_def\<close>)
  then have "term_shape ?lo ?hi s low high step"
  proof cases
    case 1
    with s show ?thesis by (auto intro: term_shape.intros [simplified])
  next
    case 2
    with s shape_span_step [OF 2(2-6)] show ?thesis by (auto intro: term_shape.intros [simplified])
  next
    case 3
    with s show ?thesis by (auto intro: term_shape.intros [simplified])
  qed
  with vs that show thesis by blast
qed

lemma shape_bounds:
  "term_shape lo hi s low high step \<Longrightarrow> lo \<le> hi \<Longrightarrow> lo \<le> low \<and> low \<le> high \<and> high \<le> hi \<and> 0 < step"
  by (induction rule: term_shape.induct) auto

lemma number_unique: "number s x \<Longrightarrow> number s y \<Longrightarrow> x = y"
  by (auto simp: number_def)

lemma value_unique: "parseCronValue spec s = Inr n \<Longrightarrow> number s (int m) \<Longrightarrow> n = m"
  by (auto dest!: parseCronValue_Inr dest: number_unique)

lemma cut_simps:
  "number a x \<Longrightarrow> cut_at (CHR ''-'') (a @ CHR ''-'' # b) = (a, b, True)"
  "number a x \<Longrightarrow> number b y \<Longrightarrow> cut_at (CHR ''/'') (a @ CHR ''-'' # b @ CHR ''/'' # t) = (a @ CHR ''-'' # b, t, True)"
  "number a x \<Longrightarrow> number b y \<Longrightarrow> cut_at (CHR ''/'') (a @ CHR ''-'' # b) = (a @ CHR ''-'' # b, [], False)"
  "number a x \<Longrightarrow> cut_at (CHR ''/'') a = (a, [], False)"
  "cut_at (CHR ''/'') (CHR ''*'' # CHR ''/'' # t) = (''*'', t, True)" "cut_at (CHR ''/'') ''*'' = (''*'', [], False)"
  unfolding cut_at_found cut_at_missing by simp_all

lemma step_unique: "cron_term_step spec t True = Inr k \<Longrightarrow> number t (int m) \<Longrightarrow> k = m"
  by (auto simp: cron_term_step_def dest!: parseCronNumber_Inr dest: number_unique split: sum.splits if_splits)

lemma range_unique:
  assumes "cron_term_range spec (a @ CHR ''-'' # b) has = Inr (low, high)" "number a (int x)" "number b (int y)"
  shows "low = x \<and> high = y"
proof -
  have "a @ CHR ''-'' # b \<noteq> ''*''" by (cases a) auto
  with assms(1) show ?thesis
    by (auto simp: cron_term_range_def cut_simps(1) [OF assms(2)] dest: value_unique [OF _ assms(2)] value_unique [OF _ assms(3)]
        split: sum.splits if_splits)
qed

text \<open>A term has one form, the one its expansion follows.\<close>

lemma shape_expands:
  assumes "term_shape (sp_min spec) (sp_max spec) s low high step" "expandCronTerm spec s = Inr vs"
  shows "vs = cron_loop low high step"
  using assms(1)
proof cases
  case shape_every
  with assms(2) show ?thesis by (simp add: expandCronTerm_def cut_simps cron_term_step_def cron_term_range_def)
next
  case shape_single
  with assms(2) show ?thesis
    by (auto simp: expandCronTerm_def cut_simps(4) [OF shape_single(3)] cron_term_step_def cron_term_range_def
        dest: value_unique [OF _ shape_single(3)] split: sum.splits if_splits)
next
  case (shape_span a b)
  with assms(2) show ?thesis
    by (auto simp: expandCronTerm_def cut_simps(3) [OF shape_span(3,4)] cron_term_step_def
        dest!: range_unique [OF _ shape_span(3,4)] split: sum.splits if_splits)
next
  case (shape_every_step t)
  with assms(2) show ?thesis
    by (auto simp: expandCronTerm_def cut_simps cron_term_range_def dest!: step_unique [OF _ shape_every_step(4)]
        split: sum.splits)
next
  case (shape_span_step a b t)
  with assms(2) show ?thesis
    by (auto simp: expandCronTerm_def cut_simps(2) [OF shape_span_step(2,3)]
        dest!: range_unique [OF _ shape_span_step(2,3)] step_unique [OF _ shape_span_step(7)] split: sum.splits if_splits)
qed

definition selects :: "nat \<Rightarrow> nat \<Rightarrow> string \<Rightarrow> nat \<Rightarrow> bool" where
  "selects lo hi s v \<longleftrightarrow> (\<exists>low high step. term_shape lo hi s low high step \<and> low \<le> v \<and> v \<le> high \<and> step dvd v - low)"

lemma expand_selects:
  assumes "expandCronTerm spec s = Inr vs" "spec_ok spec"
  shows "v \<in> set vs \<longleftrightarrow> selects (sp_min spec) (sp_max spec) s v" "vs \<noteq> []" "set vs \<subseteq> {sp_min spec..sp_max spec}"
proof -
  from assms(1) obtain low high step where sh: "term_shape (sp_min spec) (sp_max spec) s low high step" "vs = cron_loop low high step"
    by (rule expand_shape)
  have b: "sp_min spec \<le> low" "low \<le> high" "high \<le> sp_max spec" "0 < step"
    using shape_bounds [OF sh(1)] assms(2) by (auto simp: spec_ok_def)
  have set: "set vs = {x. low \<le> x \<and> x \<le> high \<and> step dvd x - low}" by (simp add: sh(2) set_cron_loop b)
  have "v \<in> set vs \<longleftrightarrow> low' \<le> v \<and> v \<le> high' \<and> step' dvd v - low'"
    if t: "term_shape (sp_min spec) (sp_max spec) s low' high' step'" for low' high' step'
    using shape_expands [OF t assms(1)] shape_bounds [OF t] assms(2) by (simp add: set_cron_loop spec_ok_def)
  with sh(1) show "v \<in> set vs \<longleftrightarrow> selects (sp_min spec) (sp_max spec) s v" unfolding selects_def by blast
  show "vs \<noteq> []" using set b by auto
  show "set vs \<subseteq> {sp_min spec..sp_max spec}" using set b by auto
qed

subsection \<open>Fields\<close>

definition field_values :: "cronFieldSpec \<Rightarrow> nat list \<Rightarrow> bool" where
  "field_values spec vs \<longleftrightarrow> vs \<noteq> [] \<and> sorted vs \<and> distinct vs \<and> set vs \<subseteq> {sp_min spec..sp_max spec}"

definition field_selects :: "cronFieldSpec \<Rightarrow> string \<Rightarrow> nat \<Rightarrow> bool" where
  "field_selects spec f v \<longleftrightarrow> (\<exists>s\<in>set (split_on (CHR '','') f). selects (sp_min spec) (sp_max spec) s v)"

lemma parseCronField_Inr:
  assumes "parseCronField spec f = Inr vs" "spec_ok spec"
  shows "field_values spec vs" "v \<in> set vs \<longleftrightarrow> field_selects spec f v"
proof -
  let ?ts = "split_on (CHR '','') f"
  from assms(1) obtain vss where m: "map_result (expandCronTerm spec) ?ts = Inr vss" and vs: "vs = sort (remdups (concat vss))"
    by (auto simp: parseCronField_def split: if_splits sum.splits)
  then have l: "list_all2 (\<lambda>t vs. expandCronTerm spec t = Inr vs) ?ts vss" by (simp add: map_result_Inr_iff)
  have e: "x \<noteq> [] \<and> set x \<subseteq> {sp_min spec..sp_max spec}" if "x \<in> set vss" for x
  proof -
    from that l obtain t where "expandCronTerm spec t = Inr x" by (auto simp: list_all2_conv_all_nth in_set_conv_nth)
    then show ?thesis using expand_selects(2,3) assms(2) by blast
  qed
  have "vss \<noteq> []" using l by (metis list_all2_Nil2 split_on_not_Nil)
  then have "concat vss \<noteq> []" using e by (cases vss) auto
  moreover have set: "set vs = set (concat vss)" by (simp add: vs)
  ultimately have "vs \<noteq> []" by (metis set_empty)
  with e set show "field_values spec vs" by (auto simp: field_values_def vs)
  have "v \<in> set vs \<longleftrightarrow> (\<exists>x\<in>set vss. v \<in> set x)" by (simp add: vs)
  also have "\<dots> \<longleftrightarrow> field_selects spec f v"
    using l unfolding field_selects_def
    by (induction rule: list_all2_induct) (auto simp: expand_selects(1) [OF _ assms(2)])
  finally show "v \<in> set vs \<longleftrightarrow> field_selects spec f v" .
qed

text \<open>A field selects its whole domain exactly when its value set has the domain's size.\<close>

lemma field_full:
  assumes "field_values spec vs" "spec_ok spec"
  shows "length vs = cron_size spec \<longleftrightarrow> vs = [sp_min spec..<Suc (sp_max spec)]" "length vs \<le> cron_size spec"
    "length vs = cron_size spec \<longleftrightarrow> (\<forall>v\<in>{sp_min spec..sp_max spec}. v \<in> set vs)"
proof -
  let ?D = "{sp_min spec..sp_max spec}"
  have c: "card (set vs) = length vs" "card ?D = cron_size spec"
    using assms by (auto simp: field_values_def distinct_card cron_size_def spec_ok_def)
  have sub: "set vs \<subseteq> ?D" using assms(1) by (simp add: field_values_def)
  show "length vs \<le> cron_size spec" using card_mono [OF _ sub] c by simp
  have eq: "length vs = cron_size spec \<longleftrightarrow> set vs = ?D"
    using card_subset_eq [OF finite_atLeastAtMost sub] c by metis
  let ?all = "[sp_min spec..<Suc (sp_max spec)]"
  have all: "set ?all = ?D" "sorted ?all" "distinct ?all" by (simp_all only: set_upt sorted_upt distinct_upt atLeastLessThanSuc_atLeastAtMost)
  then show "length vs = cron_size spec \<longleftrightarrow> vs = ?all"
    unfolding eq using assms(1) sorted_distinct_set_unique [of vs ?all] by (metis field_values_def)
  show "length vs = cron_size spec \<longleftrightarrow> (\<forall>v\<in>?D. v \<in> set vs)" unfolding eq using sub by blast
qed

subsection \<open>The canonical spelling\<close>

lemma cron_run_upt: "cron_run vs = (r, rest) \<Longrightarrow> vs \<noteq> [] \<Longrightarrow> r = [hd vs..<hd vs + length r]"
proof (induction vs arbitrary: r rest rule: cron_run.induct)
  case (1 a b xs)
  show ?case
  proof (cases "b = a + 1")
    case True
    with 1(2) obtain q where q: "cron_run (b # xs) = (q, rest)" "r = a # q" by (auto split: prod.splits)
    with 1(1) [OF True q(1)] True have "q = [Suc a..<Suc a + length q]" by simp
    then show ?thesis by (simp add: q(2) upt_conv_Cons del: upt_Suc)
  qed (use 1(2) in auto)
qed auto

lemma expand_single: "spec_ok spec \<Longrightarrow> n \<in> {sp_min spec..sp_max spec} \<Longrightarrow> expandCronTerm spec (format_nat n) = Inr [n]"
proof -
  assume s: "spec_ok spec" "n \<in> {sp_min spec..sp_max spec}"
  then have n: "number (format_nat n) (int n)" "n < 100"
    by (auto simp: number_def list_all_iff spec_ok_def dest: format_nat_digits)
  have "parseCronValue spec (format_nat n) = Inr n"
    using s n(2) by (simp add: parseCronValue_def parseCronNumber_format)
  with n(1) cut_simps(4) [OF n(1)] show ?thesis
    by (simp add: expandCronTerm_def cron_term_step_def cron_term_range_def cron_loop_one [simplified])
qed

lemma expand_span:
  assumes "spec_ok spec" "x \<in> {sp_min spec..sp_max spec}" "y \<in> {sp_min spec..sp_max spec}" "x \<le> y"
  shows "expandCronTerm spec (format_nat x @ CHR ''-'' # format_nat y) = Inr [x..<Suc y]"
proof -
  have n: "number (format_nat x) (int x)" "number (format_nat y) (int y)"
    by (auto simp: number_def list_all_iff dest: format_nat_digits)
  have p: "parseCronValue spec (format_nat x) = Inr x" "parseCronValue spec (format_nat y) = Inr y"
    using assms by (auto simp: parseCronValue_def parseCronNumber_format spec_ok_def)
  have "format_nat x @ CHR ''-'' # format_nat y \<noteq> ''*''" by (cases "format_nat x") auto
  with p cut_simps(1) [OF n(1), of "format_nat y"] cut_simps(3) [OF n] assms(4) show ?thesis
    by (simp add: expandCronTerm_def cron_term_step_def cron_term_range_def cron_loop_one [simplified])
qed

lemma terms_expand:
  assumes "spec_ok spec" "set vs \<subseteq> {sp_min spec..sp_max spec}"
  shows "\<exists>vss. map_result (expandCronTerm spec) (cron_terms vs) = Inr vss \<and> concat vss = vs"
  using assms(2)
proof (induction vs rule: cron_terms.induct)
  case (1 vs)
  show ?case
  proof (cases "vs = []")
    case False
    obtain r rest where run: "cron_run vs = (r, rest)" by fastforce
    from cron_run_append [OF run] False have vs: "vs = r @ rest" "r \<noteq> []" by auto
    from 1(1) [OF False run [symmetric]] 1(2) vs(1) obtain vss where
      vss: "map_result (expandCronTerm spec) (cron_terms rest) = Inr vss" "concat vss = rest" by auto
    have app: "map_result (expandCronTerm spec) (ts @ cron_terms rest) = Inr (us @ vss)"
      if "map_result (expandCronTerm spec) ts = Inr us" for ts us
      using that vss(1) by (auto simp: map_result_Inr_iff intro: list_all2_appendI)
    have "\<exists>us. map_result (expandCronTerm spec) (if 3 \<le> length r then [format_nat (hd r) @ CHR ''-'' # format_nat (last r)]
        else map format_nat r) = Inr us \<and> concat us = r"
    proof (cases "3 \<le> length r")
      case True
      have u: "r = [hd r..<hd r + length r]" using cron_run_upt [OF run False] vs by simp
      then have l: "last r = hd r + length r - 1" using vs(2) by (metis last_upt length_greater_0_conv less_add_same_cancel1)
      have "hd r \<in> set vs" "last r \<in> set vs" using vs by auto
      with 1(2) True have "expandCronTerm spec (format_nat (hd r) @ CHR ''-'' # format_nat (last r)) = Inr [hd r..<Suc (last r)]"
        by (intro expand_span assms(1)) (auto simp: l)
      moreover have "[hd r..<Suc (last r)] = r" using u l vs(2) by (cases r) auto
      ultimately show ?thesis using True by simp
    next
      case False
      have "map_result (expandCronTerm spec) (map format_nat r) = Inr (map (\<lambda>n. [n]) r)"
        using 1(2) vs(1) by (auto simp: map_result_Inr_iff list_all2_map1 list_all2_map2 list_all2_same intro!: expand_single assms(1))
      with False show ?thesis by (auto simp: concat_map_singleton)
    qed
    then obtain us where "map_result (expandCronTerm spec) (if 3 \<le> length r then [format_nat (hd r) @ CHR ''-'' # format_nat (last r)]
        else map format_nat r) = Inr us" and us: "concat us = r" by blast
    from app [OF this(1)] have "map_result (expandCronTerm spec) (cron_terms vs) = Inr (us @ vss)"
      by (subst cron_terms.simps) (simp only: run False if_False prod.case)
    moreover have "concat (us @ vss) = vs" by (simp only: concat_append us vss(2) vs(1))
    ultimately show ?thesis by blast
  qed (simp add: cron_terms.simps)
qed

lemma terms_chars: "t \<in> set (cron_terms vs) \<Longrightarrow> t \<noteq> [] \<and> (\<forall>c\<in>set t. is_digit c \<or> c = CHR ''-'')"
proof (induction vs rule: cron_terms.induct)
  case (1 vs)
  obtain r rest where run: "cron_run vs = (r, rest)" by fastforce
  from 1(2) have "vs \<noteq> []" by (auto simp: cron_terms.simps)
  with 1(2) run have "t \<in> set (if 3 \<le> length r then [format_nat (hd r) @ CHR ''-'' # format_nat (last r)] else map format_nat r) \<or>
      t \<in> set (cron_terms rest)" by (subst (asm) cron_terms.simps) auto
  then show ?case
  proof
    assume "t \<in> set (cron_terms rest)"
    with 1(1) [OF \<open>vs \<noteq> []\<close> run [symmetric]] show ?thesis by blast
  qed (auto dest: format_nat_digits split: if_splits)
qed

end
