(* ===== verification/CronProps.thy ===== *)
theory CronProps
  imports CronScheduleLaws "HOL-Library.Code_Target_Numeral"
begin

text \<open>The properties of the portable cron schedules.\<close>

subsection \<open>Expressions\<close>

lemma canonical_field:
  assumes "field_values spec vs" "spec_ok spec"
  shows "parseCronField spec (canonicalCronField spec vs) = Inr vs" "CHR '' '' \<notin> set (canonicalCronField spec vs)"
proof -
  have sorted: "sort (remdups vs) = vs"
    using assms(1) by (simp add: field_values_def distinct_remdups_id sorted_sort_id)
  have "parseCronField spec (canonicalCronField spec vs) = Inr vs \<and> CHR '' '' \<notin> set (canonicalCronField spec vs)"
  proof (cases "length vs = cron_size spec")
    case True
    then have vs: "vs = [sp_min spec..<Suc (sp_max spec)]" using field_full(1) [OF assms] by simp
    have "expandCronTerm spec ''*'' = Inr vs"
      unfolding vs cron_loop_one [symmetric] by (simp add: expandCronTerm_def cut_simps cron_term_step_def cron_term_range_def)
    with True sorted show ?thesis by (simp add: canonicalCronField_def parseCronField_def)
  next
    case False
    have "set vs \<subseteq> {sp_min spec..sp_max spec}" "vs \<noteq> []" using assms(1) by (auto simp: field_values_def)
    with terms_expand [OF assms(2)] obtain vss where
      vss: "map_result (expandCronTerm spec) (cron_terms vs) = Inr vss" "concat vss = vs" by blast
    have ne: "cron_terms vs \<noteq> []" using vss \<open>vs \<noteq> []\<close> by auto
    have ch: "t \<noteq> [] \<and> (\<forall>c\<in>set t. is_digit c \<or> c = CHR ''-'')" if "t \<in> set (cron_terms vs)" for t
      using terms_chars [OF that] .
    have comma: "CHR '','' \<notin> set t" "CHR '' '' \<notin> set t" if "t \<in> set (cron_terms vs)" for t
      using ch [OF that] by (auto simp: is_digit_def)
    have split: "split_on (CHR '','') (join_on (CHR '','') (cron_terms vs)) = cron_terms vs"
      using split_join [OF ne] comma(1) by blast
    have "join_on (CHR '','') (cron_terms vs) \<noteq> []"
      using ne ch join_ne by (metis list.set_intros(1) neq_Nil_conv)
    moreover have "CHR '' '' \<notin> set (join_on (CHR '','') (cron_terms vs))"
      using join_chars comma(2) by fastforce
    ultimately show ?thesis using False split vss sorted by (simp add: canonicalCronField_def parseCronField_def)
  qed
  then show "parseCronField spec (canonicalCronField spec vs) = Inr vs" "CHR '' '' \<notin> set (canonicalCronField spec vs)" by auto
qed

lemma five: "length cronFields = 5" "i < 5 \<Longrightarrow> spec_ok (cronFields ! i)"
  using cronFields_ok nth_mem [of i cronFields] by (auto simp: cronFields_def)

lemma values_schedule: "length vss = 5 \<Longrightarrow> cron_values (cron_schedule vss) = vss"
  by (auto simp: cron_values_def cron_schedule_def numeral_eq_Suc length_Suc_conv)

lemma ParseCron_Inr:
  assumes "ParseCron e = Inr s"
  obtains fs vss where "split_on (CHR '' '') e = fs" "length fs = 5" "length vss = 5" "s = cron_schedule vss" "cron_values s = vss"
    "\<forall>i<5. parseCronField (cronFields ! i) (fs ! i) = Inr (vss ! i)"
proof -
  let ?fs = "split_on (CHR '' '') e"
  from assms obtain vss where l: "length ?fs = 5" and s: "s = cron_schedule vss"
    and m: "map_result (\<lambda>(spec, f). parseCronField spec f) (zip cronFields ?fs) = Inr vss"
    by (auto simp: ParseCron_def Let_def split: if_splits sum.splits)
  from m l five(1) have "length vss = 5" "\<And>i. i < 5 \<Longrightarrow> parseCronField (cronFields ! i) (?fs ! i) = Inr (vss ! i)"
    by (auto simp: map_result_Inr_iff list_all2_conv_all_nth)
  with l s show thesis by (intro that [of ?fs vss]) (auto simp: values_schedule)
qed

lemma ParseCron_intro:
  assumes "length fs = 5" "length vss = 5" "\<And>i. i < 5 \<Longrightarrow> parseCronField (cronFields ! i) (fs ! i) = Inr (vss ! i)"
    and "\<And>f. f \<in> set fs \<Longrightarrow> CHR '' '' \<notin> set f"
  shows "ParseCron (join_on (CHR '' '') fs) = Inr (cron_schedule vss)"
proof -
  have ne: "fs \<noteq> []" using assms(1) by auto
  have split: "split_on (CHR '' '') (join_on (CHR '' '') fs) = fs" using split_join [OF ne] assms(4) by blast
  have "map_result (\<lambda>(spec, f). parseCronField spec f) (zip cronFields fs) = Inr vss"
    using assms(1-3) five(1) by (auto simp: map_result_Inr_iff list_all2_conv_all_nth)
  moreover have "join_on (CHR '' '') fs \<noteq> []" using split assms(1) by auto
  ultimately show ?thesis using split assms(1) by (simp add: ParseCron_def)
qed

lemma canonical_parses:
  assumes "ParseCron e = Inr s"
  shows "ParseCron (Canonical s) = Inr s"
proof -
  from assms obtain fs vss where "split_on (CHR '' '') e = fs" "length fs = 5" and p: "length vss = 5" "s = cron_schedule vss" "cron_values s = vss"
    "\<forall>i<5. parseCronField (cronFields ! i) (fs ! i) = Inr (vss ! i)" by (rule ParseCron_Inr)
  have ok: "field_values (cronFields ! i) (vss ! i)" if "i < 5" for i
    by (rule parseCronField_Inr(1) [OF p(4) [rule_format, OF that] five(2) [OF that]])
  let ?cs = "map (\<lambda>(spec, vs). canonicalCronField spec vs) (zip cronFields vss)"
  have c: "length ?cs = 5" "\<And>i. i < 5 \<Longrightarrow> ?cs ! i = canonicalCronField (cronFields ! i) (vss ! i)"
    using p(1) five(1) by simp_all
  have "ParseCron (join_on (CHR '' '') ?cs) = Inr (cron_schedule vss)"
  proof (rule ParseCron_intro [OF c(1) p(1)])
    show "parseCronField (cronFields ! i) (?cs ! i) = Inr (vss ! i)" if "i < 5" for i
      unfolding c(2) [OF that] by (rule canonical_field(1) [OF ok [OF that] five(2) [OF that]])
    show "CHR '' '' \<notin> set f" if "f \<in> set ?cs" for f
    proof -
      from that obtain i where i: "i < 5" "f = ?cs ! i" unfolding in_set_conv_nth c(1) by blast
      show ?thesis unfolding i(2) c(2) [OF i(1)] by (rule canonical_field(2) [OF ok [OF i(1)] five(2) [OF i(1)]])
    qed
  qed
  then show ?thesis unfolding Canonical_def p(3) unfolding p(2) [symmetric] .
qed

text \<open>
  C32: The canonical spelling of a cron schedule is exactly its identity. For every accepted
  expression the canonical spelling is itself accepted and means the same schedule, and two
  accepted expressions have the same canonical spelling if and only if they are the same
  schedule, whatever lists, ranges, steps, repetitions and orders they were written with.
\<close>

theorem canonical_is_identity:
  assumes "ParseCron e = Inr s" "ParseCron e' = Inr s'"
  shows "ParseCron (Canonical s) = Inr s \<and> (Canonical s = Canonical s' \<longleftrightarrow> s = s')"
proof (intro conjI iffI)
  note parses = canonical_parses [OF assms(1)] canonical_parses [OF assms(2)]
  show "ParseCron (Canonical s) = Inr s" by (rule parses)
  show "s = s'" if "Canonical s = Canonical s'"
    using parses unfolding that by (rule Inr_inject [OF trans [OF sym]])
  show "Canonical s = Canonical s'" if "s = s'" by (rule arg_cong [OF that])
qed

theorem canonical_is_identity_witness:
  "\<exists>s. ParseCron ''*/15 0-2,1,5 * * *'' = Inr s \<and> ParseCron ''45,30,15,0 5,0-2 1-31 */1 0-6'' = Inr s \<and>
     ParseCron (Canonical s) = Inr s"
proof -
  obtain s where s: "ParseCron ''*/15 0-2,1,5 * * *'' = Inr s" "ParseCron ''45,30,15,0 5,0-2 1-31 */1 0-6'' = Inr s"
  proof -
    have "ok (ParseCron ''*/15 0-2,1,5 * * *'')"
      "ParseCron ''*/15 0-2,1,5 * * *'' = ParseCron ''45,30,15,0 5,0-2 1-31 */1 0-6''" by code_simp+
    then show thesis using that by (auto simp: ok_iff)
  qed
  with canonical_is_identity [OF s] show ?thesis by blast
qed

subsection \<open>What a schedule matches\<close>

definition selects_all :: "cronFieldSpec \<Rightarrow> string \<Rightarrow> bool" where
  "selects_all spec f \<longleftrightarrow> (\<forall>v\<in>{sp_min spec..sp_max spec}. field_selects spec f v)"

text \<open>
  C33: A schedule matches an instant as its expression says, read in UTC whatever the location of
  the instant. The minute, the hour and the month
  must each be selected by some term of their field, where a term selects the values of its
  range that are a multiple of its step from the start. Of the two day fields, one that selects
  its whole domain does not constrain the day; when both constrain it, either may match. How a
  field is spelled has no influence beyond the values it selects.
\<close>

theorem cron_day_rule:
  assumes "ParseCron e = Inr s" "split_on (CHR '' '') e = [mi, ho, dm, mo, dw]"
  shows "cron_Matches s inst \<longleftrightarrow> (let t = at_utc inst in
    field_selects (cronFields ! 0) mi (min_of t) \<and> field_selects (cronFields ! 1) ho (hour_of t) \<and>
    field_selects (cronFields ! 3) mo (mon_of t) \<and>
    (selects_all (cronFields ! 2) dm \<and> selects_all (cronFields ! 4) dw \<or>
     \<not> selects_all (cronFields ! 2) dm \<and> field_selects (cronFields ! 2) dm (day_of t) \<or>
     \<not> selects_all (cronFields ! 4) dw \<and> field_selects (cronFields ! 4) dw (weekday t)))"
proof -
  let ?fs = "[mi, ho, dm, mo, dw]"
  from assms(1) obtain fs vss where fs: "split_on (CHR '' '') e = fs" "length fs = 5" and "length vss = 5"
    and s: "s = cron_schedule vss" and "cron_values s = vss"
    and q: "\<forall>i<5. parseCronField (cronFields ! i) (fs ! i) = Inr (vss ! i)" by (rule ParseCron_Inr)
  have p: "parseCronField (cronFields ! i) (?fs ! i) = Inr (vss ! i)" if "i < 5" for i
    using q [rule_format, OF that] unfolding fs(1) [symmetric] assms(2) .
  have m: "v \<in> set (vss ! i) \<longleftrightarrow> field_selects (cronFields ! i) (?fs ! i) v" if "i < 5" for i v
    by (rule parseCronField_Inr(2) [OF p [OF that] five(2) [OF that]])
  have r: "length (vss ! i) < cron_size (cronFields ! i) \<longleftrightarrow> \<not> selects_all (cronFields ! i) (?fs ! i)" if "i < 5" for i
  proof -
    note f = parseCronField_Inr(1) [OF p [OF that] five(2) [OF that]]
    have "selects_all (cronFields ! i) (?fs ! i) \<longleftrightarrow> length (vss ! i) = cron_size (cronFields ! i)"
      unfolding selects_all_def m [OF that, symmetric] field_full(3) [OF f five(2) [OF that]] ..
    with field_full(2) [OF f five(2) [OF that]] show ?thesis by linarith
  qed
  have flags: "cs_dayOfMonthRestricted s \<longleftrightarrow> \<not> selects_all (cronFields ! 2) dm" "cs_dayOfWeekRestricted s \<longleftrightarrow> \<not> selects_all (cronFields ! 4) dw"
    using r [of 2] r [of 4] by (simp_all add: s cron_schedule_def)
  have mem: "v \<in> set (cs_Minute s) \<longleftrightarrow> field_selects (cronFields ! 0) mi v" "v \<in> set (cs_Hour s) \<longleftrightarrow> field_selects (cronFields ! 1) ho v"
    "v \<in> set (cs_DayOfMonth s) \<longleftrightarrow> field_selects (cronFields ! 2) dm v" "v \<in> set (cs_Month s) \<longleftrightarrow> field_selects (cronFields ! 3) mo v"
    "v \<in> set (cs_DayOfWeek s) \<longleftrightarrow> field_selects (cronFields ! 4) dw v" for v
    using m [of 0] m [of 1] m [of 2] m [of 3] m [of 4] by (simp_all add: s cron_schedule_def)
  show ?thesis unfolding cron_Matches_def UTC_def flags mem Let_def by auto
qed

text \<open>Three in the morning of Thursday 29 February 2024 in UTC, noon in Tokyo.\<close>

definition sample_time :: "nat \<Rightarrow> go_time" where
  "sample_time h = \<lparr>yr_of = 2024, mon_of = 2, day_of = 29, hour_of = h, min_of = 0, sec_of = 0, nsec_of = 0, is_utc = h = 3\<rparr>"

definition sample_instant :: go_instant where
  "sample_instant = \<lparr>at_location = sample_time 12, at_utc = sample_time 3\<rparr>"

theorem cron_day_rule_witness:
  "\<exists>s. ParseCron ''0 3 1 * 4'' = Inr s \<and> cron_Matches s sample_instant \<and>
     field_selects (cronFields ! 4) ''4'' (weekday (sample_time 3)) \<and> \<not> field_selects (cronFields ! 2) ''1'' 29"
proof -
  have d: "case ParseCron ''0 3 1 * 4'' of Inr s \<Rightarrow> cron_Matches s sample_instant | Inl _ \<Rightarrow> False" by code_simp
  then obtain s where s: "ParseCron ''0 3 1 * 4'' = Inr s" "cron_Matches s sample_instant"
    by (auto split: sum.splits)
  have p: "parseCronField (cronFields ! 2) ''1'' = Inr [1]" by code_simp
  have n: "\<not> field_selects (cronFields ! 2) ''1'' 29"
    using parseCronField_Inr(2) [OF p five(2), of 29] by simp
  have "split_on (CHR '' '') ''0 3 1 * 4'' = [''0'', ''3'', ''1'', ''*'', ''4'']" by code_simp
  note rule = cron_day_rule [OF s(1) this, of sample_instant]
  have "29 \<in> {sp_min (cronFields ! 2)..sp_max (cronFields ! 2)}" by (simp add: cronFields_def)
  with n have "\<not> selects_all (cronFields ! 2) ''1''" unfolding selects_all_def by blast
  moreover have "day_of (sample_time 3) = 29" "at_utc sample_instant = sample_time 3"
    by (simp_all add: sample_instant_def sample_time_def)
  ultimately show ?thesis using rule s n by (auto simp: Let_def)
qed

subsection \<open>The schedules Provider 5 accepts\<close>

lemma shape_item: "term_shape lo hi s low high step \<Longrightarrow> lo \<le> hi \<Longrightarrow> cron_item (int lo) (int hi) s"
proof (induction rule: term_shape.induct)
  case (shape_span_step a x b y t k)
  then show ?case by (intro cron_item.span_step [of a "int x" b "int y" _ _ t "int k"]) auto
qed (auto intro: cron_item.intros)

lemma parsed_field:
  assumes "parseCronField spec f = Inr vs" "spec_ok spec" "distinct (split_on (CHR '','') f)"
  shows "cron_field (int (sp_min spec)) (int (sp_max spec)) f"
  unfolding cron_field_def
proof (intro exI conjI ballI)
  show "split_on (CHR '','') f \<noteq> []" "f = join_on (CHR '','') (split_on (CHR '','') f)"
    using split_on_iff by (blast, simp add: join_split)
  show "distinct (split_on (CHR '','') f)" by (rule assms(3))
  fix i
  assume "i \<in> set (split_on (CHR '','') f)"
  with assms(1) obtain us where "expandCronTerm spec i = Inr us"
    by (auto simp: parseCronField_def map_result_Inr_iff list_all2_conv_all_nth in_set_conv_nth split: if_splits sum.splits)
  then obtain low high step where "term_shape (sp_min spec) (sp_max spec) i low high step" by (rule expand_shape)
  with assms(2) show "cron_item (int (sp_min spec)) (int (sp_max spec)) i" by (auto intro: shape_item simp: spec_ok_def)
qed

lemma ranges_fields: "cron_ranges = map (\<lambda>spec. (int (sp_min spec), int (sp_max spec))) cronFields"
  by (simp add: cron_ranges_def cronFields_def)

text \<open>
  C34: Provider 5 checks a cron expression with a function of its own. Every expression that the
  portable parser accepts passes that check too, provided it has at most 64 characters and no
  field repeats a term. The two checks are not the same: a repeated term is portable and is
  refused by Provider 5, and a step one larger than the span of its field is not portable and
  passes.
\<close>

theorem portable_cron_accepted:
  "(\<forall>e s. ParseCron e = Inr s \<and> length e \<le> 64 \<and> (\<forall>f\<in>set (split_on (CHR '' '') e). distinct (split_on (CHR '','') f)) \<longrightarrow>
      cron (JStr e) = Inr ()) \<and>
   ok (ParseCron ''5,5 * * * *'') \<and> \<not> ok (cron (JStr ''5,5 * * * *'')) \<and>
   \<not> ok (ParseCron ''*/60 * * * *'') \<and> ok (cron (JStr ''*/60 * * * *''))"
proof (intro conjI allI impI)
  fix e s
  assume a: "ParseCron e = Inr s \<and> length e \<le> 64 \<and> (\<forall>f\<in>set (split_on (CHR '' '') e). distinct (split_on (CHR '','') f))"
  then obtain fs vss where p: "split_on (CHR '' '') e = fs" "length fs = 5"
    "\<forall>i<5. parseCronField (cronFields ! i) (fs ! i) = Inr (vss ! i)" by (metis ParseCron_Inr)
  have "cron_field (int (sp_min (cronFields ! i))) (int (sp_max (cronFields ! i))) (fs ! i)" if "i < 5" for i
    by (rule parsed_field [OF p(3) [rule_format, OF that] five(2) [OF that]]) (use a p that in auto)
  then have "list_all2 (\<lambda>f (lo, hi). cron_field lo hi f) fs cron_ranges"
    using p(2) five(1) by (simp add: ranges_fields list_all2_conv_all_nth)
  moreover have "e = join_on (CHR '' '') fs" using p(1) by (metis join_split)
  ultimately show "cron (JStr e) = Inr ()" unfolding cron_iff cron_expression_def using a by blast
qed code_simp+

theorem portable_cron_accepted_witness:
  "ok (ParseCron ''*/5 9-17 * * 1-5'') \<and> cron (JStr ''*/5 9-17 * * 1-5'') = Inr ()"
proof -
  have p: "ok (ParseCron ''*/5 9-17 * * 1-5'')" by code_simp
  then obtain s where s: "ParseCron ''*/5 9-17 * * 1-5'' = Inr s" by (auto simp: ok_iff)
  have "\<forall>f\<in>set (split_on (CHR '' '') ''*/5 9-17 * * 1-5''). distinct (split_on (CHR '','') f)" by code_simp
  with s have "cron (JStr ''*/5 9-17 * * 1-5'') = Inr ()"
    by (intro portable_cron_accepted [THEN conjunct1, rule_format, of _ s]) simp_all
  with p show ?thesis by simp
qed

end
