(* ===== verification/Spec2Isabelle.thy ===== *)
theory Spec2Isabelle
  imports JournalProps RemoteProps EdgeProps HostProps SemanticProps SpecProps LifecycleProps ConfigProps CronProps
begin

text \<open>
  Verification of the Terraform Provider for Takoform, Provider 5 over Host API v2.

  \<^bold>\<open>The program.\<close> The provider manages Resources of thirteen exact Edge Forms at a Host. Every
  create, update and delete is first claimed in a durable intent store, then sent once with the
  claim's idempotency key, then acknowledged and completed in the store on evidence read from the
  Host. The store is a private directory or a snapshot behind a remote private-file service. The
  promise of the whole is that no mutation is sent twice, none is sent without a durable record,
  and no state is adopted without exact evidence, whatever fails and wherever the process stops.

  \<^bold>\<open>Ground.\<close> \<open>Prelude\<close> has byte strings, fallible results and the state-and-error operations
  \<open>('w, 'e, 'a) st\<close>; \<open>Trace\<close> the reasoning about operations that append to a log. Of Go's
  library, as far as the sources compute with it: \<open>GoStd\<close> (strings, strconv, utf8, the anchored
  regular expressions), \<open>GoTime\<close> (RFC 3339 in UTC), \<open>GoBase64\<close>, \<open>GoUrl\<close> and \<open>UrlLaws\<close>
  (net/url), \<open>GoHttp\<close> (queries, headers, media types), \<open>GoJson\<close> and \<open>GoStruct\<close> (encoding/json,
  into trees and into structs with its case-insensitive member names).

  \<^bold>\<open>Parts and theories\<close> (sources under \<^verbatim>\<open>src/internal\<close>):

  \<^item> \<^verbatim>\<open>jsonv2/json.go\<close>, the strict JSON boundary: \<open>JsonV2\<close>, \<open>JsonV2Laws\<close>. \<open>validate\<close>, \<open>decode\<close>,
    \<open>marshal\<close> and \<open>validate_value\<close> are the package's functions; what \<open>marshal\<close> emits \<open>decode\<close>
    reads back, and every tree read is well formed.

  \<^item> \<^verbatim>\<open>intentv2/store.go\<close>, the mutation journal: \<open>IntentTypes\<close> (structs and validators),
    \<open>IntentStore\<close> (each transaction as a function on the decoded snapshot), \<open>IntentCodec\<close> and
    \<open>CodecLaws\<close> (its JSON), \<open>IntentLaws\<close>, \<open>JournalInvariant\<close> (the step relation, reachable
    snapshots and their invariant), \<open>JournalSpec\<close> (the abstract custody machine and the
    refinement), \<open>JournalProps\<close>.

  \<^item> \<^verbatim>\<open>intentv2/store_posix.go\<close> and the store's methods on a directory, with
    \<^verbatim>\<open>intentstorecli/cli.go\<close>: \<open>StoreDisk\<close>, \<open>DiskLaws\<close>, \<open>DiskProps\<close>. A world holds the directory's
    entries and the contents the disk may still hold instead; every system call may fail
    according to a schedule, so a theorem about all schedules covers a crash at any point, and
    \<open>power_loss\<close> takes a world to any that its disk may hold.

  \<^item> \<^verbatim>\<open>intentv2/remote_snapshot.go\<close>, \<^verbatim>\<open>remote_descriptor_posix.go\<close>: \<open>RemoteSnapshot\<close>,
    \<open>RemoteLaws\<close>, \<open>RemoteProps\<close>. The service, SHA-256 and the random source are parameters; every
    exchange is logged.

  \<^item> \<^verbatim>\<open>edgev2/spec.go\<close>: \<open>EdgeSpec\<close>, \<open>EdgeLaws\<close>, \<open>CronGrammar\<close> (the cron check against a grammar),
    and \<^verbatim>\<open>privateinputsv2/source.go\<close>: \<open>PrivateInputs\<close>; properties of both in \<open>EdgeProps\<close>.

  \<^item> \<^verbatim>\<open>currentformmodel/cron.go\<close>, the portable cron schedules: \<open>CronSchedule\<close> (parser, canonical
    spelling, match rule), \<open>CronScheduleLaws\<close>, \<open>CronProps\<close>. The canonical spelling is exactly a
    schedule's identity, a schedule matches what its terms select under the rule for the two day
    fields, and Provider 5's own check is compared with the parser.

  \<^item> \<^verbatim>\<open>hostv2/types.go\<close>, \<^verbatim>\<open>hostv2/client.go\<close>: \<open>HostTypes\<close> (wire data and its validation),
    \<open>HostClient\<close> (every method over an arbitrary network), \<open>HostLaws\<close>, \<open>HostProps\<close>.

  \<^item> \<^verbatim>\<open>provider/v2_json_semantic.go\<close>: \<open>JsonSemantic\<close>, \<open>SemanticLaws\<close>, \<open>SemanticProps\<close>.

  \<^item> \<^verbatim>\<open>provider/v2_schema.go\<close>, \<^verbatim>\<open>provider/v2_spec_state.go\<close>: \<open>SpecWire\<close>, \<open>SpecLaws\<close>, \<open>SpecProps\<close>.

  \<^item> \<^verbatim>\<open>provider/v2_resource.go\<close>, \<^verbatim>\<open>provider/v2_lifecycle_existing.go\<close>: \<open>Lifecycle\<close> models Create,
    Read, Update, Delete, ImportState, ModifyPlan, UpgradeState and Configure of a resource. Its
    world extends the client's by the store, Terraform's state and the warnings; requests and
    journal steps share one log. \<open>LifecycleLaws\<close>, \<open>LifecycleClaims\<close>, \<open>LifecycleKeeps\<close>,
    \<open>LifecycleCustody\<close>, \<open>LifecycleWaits\<close> and \<open>LifecycleState\<close> are its laws, \<open>JournalBackends\<close> joins
    it to both stores, \<open>LifecycleSamples\<close> has a concrete run and \<open>LifecycleProps\<close> the properties.

  \<^item> \<^verbatim>\<open>provider/v2_provider.go\<close>: \<open>ProviderConfig\<close>, \<open>ConfigProps\<close>.

  \<^bold>\<open>Interfaces.\<close> Where one part relies on another, the reliance is a locale, interpreted on the
  provider's definitions. \<open>snapshot_store\<close> (\<open>StoreContract\<close>): a writing transaction that succeeds
  has installed the snapshot it computed; the directory and the remote service both provide it.
  \<open>claim_log\<close> (\<open>JournalProps\<close>): repeated claims, provided by the journal. \<open>claim_journal\<close>,
  \<open>claim_custody\<close> and \<open>keyed_journal\<close>: what the lifecycle needs of a journal for its mutations,
  for a name to stay held, and for the state it leaves; the local store provides all of them,
  the remote one the first and the last, since what it holds is known only by its answers.
  \<open>client_relation\<close>: a reflexive and transitive relation that the client's exchanges keep.
  \<open>bounded_waits\<close>: a bound on the waits that can still succeed, provided by a context with a
  deadline.

  \<^bold>\<open>What is shown.\<close> Of the journal: restarting a claim is idempotent, a target has one unresolved
  mutation at most, claims are immutable, settled records final, generations consecutive,
  completion needs evidence, reachable snapshots decode, and each transaction refines the custody
  machine. Of the stores: a local transaction is atomic whatever calls fail and whenever the
  power is lost, and on disk when it returns; a key leaves only with a claim that is on disk or
  receipted, requests to the remote service carry the grant of a current descriptor, one of two remote writers wins, no request is resent.
  Of the client: a mutation is sent at most once, by the transport too, outcomes tell what may have happened, the
  credential stays at the configured origin, a failed discovery silences it, the generation fence
  does not wrap. Of the specs: the cron grammar, traffic splits, unique environment names, the
  roster, decoding after validation. Of the provider: a mutation is a claimed intent sent once,
  a Create is never repeated, calls return, the state left is one the next call accepts, typed
  specs survive the round trip and are filled in by their schema, \<open>vars_json\<close> is compared by meaning, and a configured provider
  has a store bound to its Host.

  \<^bold>\<open>Bounds and fuel.\<close> The JSON reader takes fuel \<open>2 * length + 1\<close>, which every document stays
  below because each recursive call consumes a byte or closes a bracket. The polling loops of a
  lifecycle call take fuel for their rounds; \<open>lifecycle_returns\<close> shows that as much fuel as
  seconds are left in the context is enough and that more changes nothing, because each round
  waits a second at least. Generations and counters are integers with the ranges the code checks
  written out; where 64 bits matter the statement is on \<open>64 word\<close>.

  \<^bold>\<open>Simplifications.\<close> Methods run one after the other, so mutexes and the connection's timeouts
  have nothing to do; a context shows in whether a wait returns. A diagnostic is its summary, and
  the text of an error the part its callers tell apart. Go maps are walked in the order of the
  schema or the order given, which only selects among error messages. A nil and an empty slice
  are one unless the code tells them apart. Walking the components of a store path is one step,
  a write is one call that may end short. Of the disk, a synced file keeps its data and a synced
  directory its entries, an unsynced directory has one of its contents since the last sync; the
  entry of the store directory in its parent is not part of it. Redirects are not followed. A
  response is one answer to one \<open>Do\<close>; whether the transport may repeat a request by itself is a
  property of the request. Terraform's state is the record of the schema's
  attributes, setting one does not fail, and a lifecycle call draws one key and one time at most.

  \<^bold>\<open>Not modelled.\<close> The retained Provider v1 and v3 lanes and their client (\<^verbatim>\<open>provider/v3_*.go\<close>,
  \<^verbatim>\<open>provider/provider.go\<close>, \<^verbatim>\<open>clientv3\<close>): kept for migration, never reached from version 5. Form
  packages, catalogs, the current Form model and publication (\<^verbatim>\<open>formpackage\<close>, \<^verbatim>\<open>standardform\<close>,
  \<^verbatim>\<open>*formcatalog\<close>, \<^verbatim>\<open>currentform*\<close>): authoring and release data. The conformance suites, the
  reference Host and the authoring harness: test programs. The commands under \<^verbatim>\<open>cmd\<close> other than
  the store initializer: release tooling around external programs.
\<close>

end
